(* ===== verification/Prelude.thy ===== *)
theory Prelude
  imports Main "HOL-Library.Word" "HOL-Library.Code_Target_Nat"
begin

text \<open>
  What every component of the development shares: the fixed-width integer arithmetic of the
  Rust sources (saturating operations written out on \<open>int\<close> and \<open>nat\<close>), text and its
  standard-library operations, and decimal numbers.

  \<^bold>\<open>Text.\<close> A Rust \<open>str\<close> is modelled by the list of its Unicode scalar values, one HOL
  \<open>char\<close> each. HOL characters are the first 256 scalar values (Basic Latin and Latin-1), and on
  these the operations below compute what the Rust standard library computes: \<open>to_lowercase\<close>
  folds \<open>A\<close>--\<open>Z\<close> and the Latin-1 capitals, \<open>char::is_whitespace\<close> and \<open>char::is_control\<close>
  hold of the Latin-1 characters they list, and \<open>str::len\<close> counts UTF-8 bytes (two for a
  scalar value from 128 on). Text outside Latin-1 is outside the model.

  \<^bold>\<open>Integers.\<close> \<open>i64\<close> times are HOL integers with saturation written out; \<open>u64\<close> and
  \<open>usize\<close> counters are natural numbers with saturation written out wherever the source
  saturates. A counter that the source only ever increments by one per connection is a natural
  number: reaching its 64-bit end takes more connections than a relay can ever accept.
\<close>

section \<open>Fixed-width arithmetic\<close>

named_theorems width_simps \<open>unfold the saturating operations\<close>

definition i64_min :: int where "i64_min = - (2 ^ 63)"
definition i64_max :: int where "i64_max = 2 ^ 63 - 1"
definition u32_max :: nat where "u32_max = 2 ^ 32 - 1"
definition u64_max :: nat where "u64_max = 2 ^ 64 - 1"

definition is_i64 :: "int \<Rightarrow> bool" where
  "is_i64 x \<longleftrightarrow> i64_min \<le> x \<and> x \<le> i64_max"

definition i64_sat :: "int \<Rightarrow> int" where
  "i64_sat x = max i64_min (min i64_max x)"

definition i64_sat_add :: "int \<Rightarrow> int \<Rightarrow> int" where
  "i64_sat_add a b = i64_sat (a + b)"

definition i64_sat_sub :: "int \<Rightarrow> int \<Rightarrow> int" where
  "i64_sat_sub a b = i64_sat (a - b)"

definition i64_sat_mul :: "int \<Rightarrow> int \<Rightarrow> int" where
  "i64_sat_mul a b = i64_sat (a * b)"

definition u32_sat_add :: "nat \<Rightarrow> nat \<Rightarrow> nat" where
  "u32_sat_add a b = min u32_max (a + b)"

definition u64_sat_add :: "nat \<Rightarrow> nat \<Rightarrow> nat" where
  "u64_sat_add a b = min u64_max (a + b)"

text \<open>Rust's \<open>/\<close> on signed integers rounds towards zero.\<close>

definition i64_quot :: "int \<Rightarrow> int \<Rightarrow> int" where
  "i64_quot a b = sgn a * sgn b * (\<bar>a\<bar> div \<bar>b\<bar>)"

text \<open>\<open>u64::div_ceil\<close>: the quotient rounded up.\<close>

definition div_ceil :: "nat \<Rightarrow> nat \<Rightarrow> nat" where
  "div_ceil a b = (a + b - 1) div b"

lemma div_ceil_bounds:
  assumes "0 < b"
  shows "a \<le> b * div_ceil a b" "b * div_ceil a b < a + b"
proof -
  have "b * ((a + b - 1) div b) + (a + b - 1) mod b = a + b - 1" by (rule mult_div_mod_eq)
  moreover have "(a + b - 1) mod b < b" using assms by simp
  ultimately show "a \<le> b * div_ceil a b" "b * div_ceil a b < a + b"
    using assms unfolding div_ceil_def by linarith+
qed

lemma div_ceil_le: "0 < b \<Longrightarrow> div_ceil a b \<le> n \<longleftrightarrow> a \<le> b * n"
proof -
  assume b: "0 < b"
  have "div_ceil a b < Suc n \<longleftrightarrow> a + b - 1 < Suc n * b"
    unfolding div_ceil_def using b by (simp add: div_less_iff_less_mult)
  with b show ?thesis by (auto simp: algebra_simps)
qed

lemma div_ceil_mono: "a \<le> a' \<Longrightarrow> div_ceil a b \<le> div_ceil a' b"
  unfolding div_ceil_def by (intro div_le_mono) simp

text \<open>\<open>u32::try_from(x).unwrap_or(u32::MAX)\<close>.\<close>

definition u32_or_max :: "int \<Rightarrow> nat" where
  "u32_or_max x = (if 0 \<le> x \<and> x \<le> int u32_max then nat x else u32_max)"

lemmas [width_simps] =
  i64_min_def i64_max_def u32_max_def u64_max_def is_i64_def i64_sat_def
  i64_sat_add_def i64_sat_sub_def i64_sat_mul_def u32_sat_add_def u64_sat_add_def

lemma i64_sat_in_range [simp]: "is_i64 (i64_sat x)"
  by (simp add: width_simps)

lemma i64_sat_id [simp]: "is_i64 x \<Longrightarrow> i64_sat x = x"
  by (simp add: width_simps)

lemma i64_sat_mono: "x \<le> y \<Longrightarrow> i64_sat x \<le> i64_sat y"
  by (simp add: i64_sat_def)

lemma i64_sat_add_mono: "a \<le> b \<Longrightarrow> c \<le> d \<Longrightarrow> i64_sat_add a c \<le> i64_sat_add b d"
  by (simp add: i64_sat_add_def i64_sat_mono)

lemma i64_sat_add_ge: "is_i64 a \<Longrightarrow> 0 \<le> b \<Longrightarrow> a \<le> i64_sat_add a b"
  by (simp add: width_simps)

lemma u64_sat_add_ge: "a \<le> u64_max \<Longrightarrow> a \<le> u64_sat_add a b"
  by (simp add: u64_sat_add_def)

lemma u64_sat_add_bound: "u64_sat_add a b \<le> u64_max"
  by (simp add: u64_sat_add_def)

text \<open>Durations are natural numbers of nanoseconds, as \<open>std::time::Duration\<close> counts them.\<close>

definition from_secs :: "nat \<Rightarrow> nat" where
  "from_secs n = n * 1000000000"

section \<open>Characters and text\<close>

named_theorems text_simps \<open>unfold the character classes\<close>

definition code :: "char \<Rightarrow> nat" where "code c = of_char c"

definition is_ascii_digit :: "char \<Rightarrow> bool" where
  "is_ascii_digit c \<longleftrightarrow> 48 \<le> code c \<and> code c \<le> 57"

definition is_ascii_uppercase :: "char \<Rightarrow> bool" where
  "is_ascii_uppercase c \<longleftrightarrow> 65 \<le> code c \<and> code c \<le> 90"

definition is_ascii_lowercase :: "char \<Rightarrow> bool" where
  "is_ascii_lowercase c \<longleftrightarrow> 97 \<le> code c \<and> code c \<le> 122"

definition is_ascii_alphabetic :: "char \<Rightarrow> bool" where
  "is_ascii_alphabetic c \<longleftrightarrow> is_ascii_uppercase c \<or> is_ascii_lowercase c"

definition is_ascii_alphanumeric :: "char \<Rightarrow> bool" where
  "is_ascii_alphanumeric c \<longleftrightarrow> is_ascii_alphabetic c \<or> is_ascii_digit c"

definition is_whitespace :: "char \<Rightarrow> bool" where
  "is_whitespace c \<longleftrightarrow>
     (9 \<le> code c \<and> code c \<le> 13) \<or> code c = 32 \<or> code c = 133 \<or> code c = 160"

definition is_control :: "char \<Rightarrow> bool" where
  "is_control c \<longleftrightarrow> code c < 32 \<or> (127 \<le> code c \<and> code c < 160)"

definition ascii_lower_char :: "char \<Rightarrow> char" where
  "ascii_lower_char c = (if is_ascii_uppercase c then char_of (code c + 32) else c)"

definition lower_char :: "char \<Rightarrow> char" where
  "lower_char c =
     (if is_ascii_uppercase c \<or> (192 \<le> code c \<and> code c \<le> 222 \<and> code c \<noteq> 215)
      then char_of (code c + 32) else c)"

definition to_lowercase :: "string \<Rightarrow> string" where
  "to_lowercase s = map lower_char s"

definition to_ascii_lowercase :: "string \<Rightarrow> string" where
  "to_ascii_lowercase s = map ascii_lower_char s"

definition eq_ignore_ascii_case :: "string \<Rightarrow> string \<Rightarrow> bool" where
  "eq_ignore_ascii_case s t \<longleftrightarrow> to_ascii_lowercase s = to_ascii_lowercase t"

definition byte_len :: "string \<Rightarrow> nat" where
  "byte_len s = sum_list (map (\<lambda>c. if code c < 128 then 1 else 2) s)"

definition trim_start_matches :: "(char \<Rightarrow> bool) \<Rightarrow> string \<Rightarrow> string" where
  "trim_start_matches p s = dropWhile p s"

definition trim_end_matches :: "(char \<Rightarrow> bool) \<Rightarrow> string \<Rightarrow> string" where
  "trim_end_matches p s = rev (dropWhile p (rev s))"

definition trim :: "string \<Rightarrow> string" where
  "trim s = trim_end_matches is_whitespace (trim_start_matches is_whitespace s)"

definition starts_with :: "string \<Rightarrow> string \<Rightarrow> bool" where
  "starts_with p s \<longleftrightarrow> take (length p) s = p"

definition ends_with :: "string \<Rightarrow> string \<Rightarrow> bool" where
  "ends_with p s \<longleftrightarrow> starts_with (rev p) (rev s)"

definition strip_prefix :: "string \<Rightarrow> string \<Rightarrow> string option" where
  "strip_prefix p s = (if starts_with p s then Some (drop (length p) s) else None)"

definition strip_suffix :: "string \<Rightarrow> string \<Rightarrow> string option" where
  "strip_suffix p s = map_option rev (strip_prefix (rev p) (rev s))"

text \<open>A byte, and the UTF-8 bytes of a text.\<close>

type_synonym byte = "8 word"

definition char_bytes :: "char \<Rightarrow> byte list" where
  "char_bytes c =
     (if code c < 128 then [of_nat (code c)]
      else [of_nat (192 + code c div 64), of_nat (128 + code c mod 64)])"

definition as_bytes :: "string \<Rightarrow> byte list" where
  "as_bytes s = concat (map char_bytes s)"

text \<open>\<open>str::split\<close> on a character class: always at least one part.\<close>

fun split_chars :: "(char \<Rightarrow> bool) \<Rightarrow> string \<Rightarrow> string list" where
  "split_chars p [] = [[]]"
| "split_chars p (c # s) =
     (if p c then [] # split_chars p s
      else (case split_chars p s of
              [] \<Rightarrow> [[c]]
            | w # ws \<Rightarrow> (c # w) # ws))"

definition split_on :: "char \<Rightarrow> string \<Rightarrow> string list" where
  "split_on d s = split_chars (\<lambda>c. c = d) s"

definition split_whitespace :: "string \<Rightarrow> string list" where
  "split_whitespace s = filter (\<lambda>w. w \<noteq> []) (split_chars is_whitespace s)"

text \<open>\<open>str::split_once\<close>: what is before the first delimiter and what is after it.\<close>

fun split_once :: "char \<Rightarrow> string \<Rightarrow> (string \<times> string) option" where
  "split_once d [] = None"
| "split_once d (c # s) =
     (if c = d then Some ([], s)
      else (case split_once d s of None \<Rightarrow> None | Some (a, b) \<Rightarrow> Some (c # a, b)))"

fun join :: "string \<Rightarrow> string list \<Rightarrow> string" where
  "join sep [] = []"
| "join sep [w] = w"
| "join sep (w # v # ws) = w @ sep @ join sep (v # ws)"

lemmas [text_simps] =
  code_def is_ascii_digit_def is_ascii_uppercase_def is_ascii_lowercase_def
  is_ascii_alphabetic_def is_ascii_alphanumeric_def is_whitespace_def is_control_def
  ascii_lower_char_def lower_char_def to_lowercase_def to_ascii_lowercase_def
  eq_ignore_ascii_case_def byte_len_def trim_start_matches_def trim_end_matches_def trim_def
  starts_with_def ends_with_def strip_prefix_def strip_suffix_def split_on_def
  split_whitespace_def

lemma code_lt_256 [simp]: "code c < 256"
  by (simp add: code_def)

lemma split_chars_nonempty [simp]: "split_chars p s \<noteq> []"
  by (induction s) (auto split: list.splits)

lemma split_chars_none: "\<forall>c \<in> set s. \<not> p c \<Longrightarrow> split_chars p s = [s]"
  by (induction s) auto

lemma split_chars_parts:
  "w \<in> set (split_chars p s) \<Longrightarrow> c \<in> set w \<Longrightarrow> \<not> p c \<and> c \<in> set s"
  by (induction s arbitrary: w) (force split: if_splits list.splits)+

lemma split_chars_join: "join [d] (split_chars (\<lambda>c. c = d) s) = s"
proof (induction s)
  case (Cons c s)
  obtain w ws where "split_chars (\<lambda>c. c = d) s = w # ws"
    by (cases "split_chars (\<lambda>c. c = d) s") auto
  with Cons show ?case by (cases ws) auto
qed simp

lemma split_whitespace_words:
  "w \<in> set (split_whitespace s) \<Longrightarrow> w \<noteq> [] \<and> (\<forall>c \<in> set w. \<not> is_whitespace c)"
  by (auto simp: split_whitespace_def dest: split_chars_parts)

lemma split_once_Some:
  "split_once d s = Some (a, b) \<Longrightarrow> s = a @ d # b \<and> d \<notin> set a"
  by (induction s arbitrary: a) (auto split: if_splits option.splits)

lemma split_once_append [simp]:
  "d \<notin> set a \<Longrightarrow> split_once d (a @ d # b) = Some (a, b)"
  by (induction a) auto

lemma starts_with_append [simp]: "starts_with p (p @ s)"
  by (simp add: starts_with_def)

lemma starts_with_iff: "starts_with p s \<longleftrightarrow> (\<exists>r. s = p @ r)"
  by (metis append_take_drop_id starts_with_append starts_with_def)

lemma strip_prefix_Some: "strip_prefix p s = Some r \<longleftrightarrow> s = p @ r"
  by (auto simp: strip_prefix_def starts_with_iff)

lemma strip_suffix_Some: "strip_suffix p s = Some r \<longleftrightarrow> s = r @ p"
  by (auto simp: strip_suffix_def strip_prefix_Some) (metis rev_append rev_rev_ident)+

lemma ends_with_iff: "ends_with p s \<longleftrightarrow> (\<exists>r. s = r @ p)"
  by (auto simp: ends_with_def starts_with_iff) (metis rev_append rev_rev_ident)+

section \<open>Bytes\<close>

lemma length_as_bytes: "length (as_bytes s) = byte_len s"
  by (induction s) (auto simp: as_bytes_def byte_len_def char_bytes_def)

lemma as_bytes_append [simp]: "as_bytes (s @ t) = as_bytes s @ as_bytes t"
  by (simp add: as_bytes_def)

lemma as_bytes_Cons: "as_bytes (c # s) = char_bytes c @ as_bytes s"
  by (simp add: as_bytes_def)

section \<open>Lower case\<close>

lemma code_char_of: "n < 256 \<Longrightarrow> code (char_of n) = n"
  by (simp add: code_def)

lemma lower_char_idem [simp]: "lower_char (lower_char c) = lower_char c"
  by (auto simp: lower_char_def is_ascii_uppercase_def code_char_of)

lemma ascii_lower_char_idem [simp]: "ascii_lower_char (ascii_lower_char c) = ascii_lower_char c"
  by (auto simp: ascii_lower_char_def is_ascii_uppercase_def code_char_of)

lemma to_lowercase_idem [simp]: "to_lowercase (to_lowercase s) = to_lowercase s"
  by (simp add: to_lowercase_def)

lemma to_ascii_lowercase_idem [simp]:
  "to_ascii_lowercase (to_ascii_lowercase s) = to_ascii_lowercase s"
  by (simp add: to_ascii_lowercase_def)

lemma eq_ignore_ascii_case_refl [simp]: "eq_ignore_ascii_case s s"
  by (simp add: eq_ignore_ascii_case_def)

section \<open>Decimal numbers\<close>

definition digit :: "nat \<Rightarrow> char" where
  "digit k = char_of (48 + k)"

fun dec :: "nat \<Rightarrow> string" where
  "dec n = (if n < 10 then [digit n] else dec (n div 10) @ [digit (n mod 10)])"

declare dec.simps [simp del]

definition undec :: "string \<Rightarrow> nat" where
  "undec s = foldl (\<lambda>a c. 10 * a + (code c - 48)) 0 s"

lemma code_digit: "k < 10 \<Longrightarrow> code (digit k) - 48 = k"
  by (simp add: digit_def code_char_of)

lemma undec_snoc: "undec (s @ [c]) = 10 * undec s + (code c - 48)"
  by (simp add: undec_def)

lemma undec_append: "undec (a @ b) = undec a * 10 ^ length b + undec b"
proof (induction b rule: rev_induct)
  case (snoc c b)
  have "undec (a @ b @ [c]) = 10 * undec (a @ b) + (code c - 48)"
    using undec_snoc [of "a @ b" c] by simp
  with snoc show ?case by (simp add: undec_snoc algebra_simps)
qed (simp add: undec_def)

lemma undec_zeros: "undec (replicate k (digit 0) @ s) = undec s"
proof (induction k)
  case (Suc k)
  have "10 * 0 + (code (digit 0) - 48) = 0"
    by (simp add: code_digit)
  with Suc show ?case by (simp add: undec_def)
qed simp

lemma undec_dec [simp]: "undec (dec n) = n"
proof (induction n rule: dec.induct)
  case (1 n)
  show ?case
  proof (cases "n < 10")
    case True
    then show ?thesis by (subst dec.simps) (simp add: undec_def code_digit)
  next
    case False
    with "1" have "undec (dec (n div 10)) = n div 10" by simp
    with False show ?thesis by (subst dec.simps) (simp add: undec_snoc code_digit)
  qed
qed

lemma dec_inject [simp]: "dec m = dec n \<longleftrightarrow> m = n"
  by (metis undec_dec)

lemma digit_ascii: "k < 10 \<Longrightarrow> is_ascii_digit (digit k)"
  by (simp add: is_ascii_digit_def digit_def code_char_of)

lemma dec_digits: "list_all is_ascii_digit (dec n)"
  by (induction n rule: dec.induct) (subst dec.simps, auto simp: digit_ascii)

lemma dec_not_Nil [simp]: "dec n \<noteq> []"
  by (subst dec.simps) simp

text \<open>\<open>format!("{:06}", n)\<close>: at least six digits, filled with zeros on the left.\<close>

definition dec6 :: "nat \<Rightarrow> string" where
  "dec6 n = replicate (6 - length (dec n)) (digit 0) @ dec n"

lemma dec6_inject [simp]: "dec6 m = dec6 n \<longleftrightarrow> m = n"
  by (metis dec6_def undec_dec undec_zeros)

section \<open>Systems of events\<close>

text \<open>
  A component whose calls are events: an invariant that every event of a kind keeps holds after
  every run of such events.
\<close>

locale event_system =
  fixes step :: "'s \<Rightarrow> 'e \<Rightarrow> 's"
    and inv :: "'s \<Rightarrow> bool"
    and ok :: "'e \<Rightarrow> bool"
  assumes step_inv: "inv s \<Longrightarrow> ok e \<Longrightarrow> inv (step s e)"
begin

lemma run_inv: "inv s \<Longrightarrow> list_all ok es \<Longrightarrow> inv (foldl step s es)"
  by (induction es arbitrary: s) (auto intro: step_inv)

end

end
