(* ===== verification/Licensing_Keys.thy ===== *)
theory Licensing_Keys
  imports Prelude
begin

text \<open>
  License keys and weekly answers (\<open>crates/licensing/src/codec.rs\<close>, \<open>trust.rs\<close>, \<open>key.rs\<close>,
  \<open>answer.rs\<close>): signed texts, the public keys Plenipo trusts, how a key is checked on the PC and
  how an answer of the license service is checked. The third-party code they call (the base64,
  serde\_json and ed25519-dalek crates) is the parameter \<open>crypto\<close>: one function per call the
  source makes. The locale \<open>answer_checker\<close> is what the license record relies on.
\<close>

section \<open>What the sources say\<close>

datatype plan = Monthly | Yearly

datatype key_edition = KeyPro | KeyPartner

datatype organizations = Up nat | Unlimited

fun most :: "organizations \<Rightarrow> nat option" where
  "most (Up n) = Some n"
| "most Unlimited = None"

record key_payload =
  kp_v :: nat
  kp_edition :: string
  kp_organizations :: organizations
  kp_key_id :: string
  kp_holder :: string
  kp_plan :: plan
  kp_paid_through :: int
  kp_issued_at :: int
  kp_signer :: string

record license_key =
  lk_text :: string
  lk_payload :: key_payload

datatype subscription_state = Active | Cancelled | Ended | Unknown

record answer_payload =
  ap_v :: nat
  ap_key_id :: string
  ap_state :: subscription_state
  ap_paid_through :: "int option"
  ap_ends_at :: "int option"
  ap_as_of :: int
  ap_signer :: string

record signed_answer =
  sa_answer :: string
  sa_signature :: string

datatype sign_error = SignMalformed | SignUnknownSigner | SignBadSignature

datatype key_error = KeyMalformed | KeyNewer | KeyUnknownSigner | KeyDamaged | KeyNotPro

datatype answer_error = AnsUnreadable | AnsUnknownSigner | AnsBadSignature | AnsOtherKey

text \<open>
  The third-party calls. \<open>json_key\<close> is \<open>serde_json::from_slice\<close> into a JSON value: \<open>None\<close>
  when the bytes are not JSON, else the value's \<open>v\<close> as an unsigned number and the value read as
  a \<open>KeyPayload\<close>. \<open>test_public\<close> is the contract's test key, trusted by test builds only.
\<close>

record crypto =
  b64_encode :: "byte list \<Rightarrow> string"
  b64_decode :: "string \<Rightarrow> byte list option"
  ed_public_ok :: "byte list \<Rightarrow> bool"
  ed_verify_strict :: "byte list \<Rightarrow> byte list \<Rightarrow> byte list \<Rightarrow> bool"
  ed_sign :: "byte list \<Rightarrow> byte list \<Rightarrow> byte list"
  json_key :: "byte list \<Rightarrow> (nat option \<times> key_payload option) option"
  json_key_write :: "key_payload \<Rightarrow> byte list"
  json_answer :: "byte list \<Rightarrow> answer_payload option"
  json_answer_write :: "answer_payload \<Rightarrow> byte list"
  json_signed :: "byte list \<Rightarrow> signed_answer option"
  json_signed_write :: "signed_answer \<Rightarrow> byte list"
  test_public :: "byte list"
  built_for_tests :: bool

section \<open>The keys Plenipo trusts\<close>

definition production :: "(string \<times> byte list) list" where
  "production =
     [(''prod-1'',
       [0x32, 0xc3, 0x92, 0x76, 0x86, 0xa1, 0x44, 0x92, 0xd8, 0x30, 0x7b, 0xf5, 0xf2, 0x84,
        0x3a, 0xa0, 0x5f, 0xa1, 0xd7, 0xfa, 0xd3, 0x75, 0xc7, 0x03, 0xf2, 0x04, 0x8d, 0xeb,
        0x70, 0xcf, 0x75, 0x44]),
      (''prod-2'',
       [0xd6, 0x87, 0x50, 0xd0, 0x68, 0x57, 0xcc, 0x8f, 0x44, 0xa1, 0x3e, 0xae, 0x4c, 0x17,
        0x27, 0xc0, 0xb6, 0x63, 0x72, 0xec, 0xd3, 0x7a, 0x6f, 0x0c, 0x69, 0xf7, 0x28, 0x62,
        0xa8, 0x81, 0xf0, 0xdf])]"

definition test_key_id :: string where "test_key_id = ''test-1''"

definition trust_find :: "crypto \<Rightarrow> string \<Rightarrow> byte list option" where
  "trust_find C ident =
     (case map_of production ident of
        Some public \<Rightarrow> (if ed_public_ok C public then Some public else None)
      | None \<Rightarrow>
          (if built_for_tests C \<and> ident = test_key_id then Some (test_public C) else None))"

section \<open>Signed texts\<close>

definition key_context :: string where "key_context = ''plenipo-license-key.v1.''"
definition answer_context :: string where "answer_context = ''plenipo-license-answer.v1.''"

definition is_b64_char :: "char \<Rightarrow> bool" where
  "is_b64_char c \<longleftrightarrow> is_ascii_alphanumeric c \<or> c = CHR ''-'' \<or> c = CHR ''_''"

definition codec_decode :: "crypto \<Rightarrow> string \<Rightarrow> byte list option" where
  "codec_decode C s = (if s = [] \<or> \<not> list_all is_b64_char s then None else b64_decode C s)"

definition message :: "string \<Rightarrow> string \<Rightarrow> byte list" where
  "message context payload_b64 = as_bytes context @ as_bytes payload_b64"

definition codec_verify ::
  "crypto \<Rightarrow> string \<Rightarrow> string \<Rightarrow> string \<Rightarrow> string \<Rightarrow> sign_error + unit" where
  "codec_verify C context payload_b64 signature_b64 signer =
     (case codec_decode C signature_b64 of
        None \<Rightarrow> Inl SignMalformed
      | Some sig \<Rightarrow>
          (if length sig \<noteq> 64 then Inl SignMalformed
           else
             (case trust_find C signer of
                None \<Rightarrow> Inl SignUnknownSigner
              | Some key \<Rightarrow>
                  (if ed_verify_strict C key (message context payload_b64) sig then Inr ()
                   else Inl SignBadSignature))))"

definition codec_sign :: "crypto \<Rightarrow> string \<Rightarrow> string \<Rightarrow> byte list \<Rightarrow> string" where
  "codec_sign C context payload_b64 key = b64_encode C (ed_sign C key (message context payload_b64))"

section \<open>License keys\<close>

definition key_prefix :: string where "key_prefix = ''plenipo1.''"
definition max_key_chars :: nat where "max_key_chars = 2048"
definition max_holder_chars :: nat where "max_holder_chars = 120"

definition normalize :: "string \<Rightarrow> string" where
  "normalize t = filter (\<lambda>c. \<not> is_whitespace c) t"

definition is_key_id :: "string \<Rightarrow> bool" where
  "is_key_id ident =
     (case strip_prefix ''lk_'' ident of
        None \<Rightarrow> False
      | Some rest \<Rightarrow>
          byte_len rest = 26 \<and>
          list_all (\<lambda>b. is_ascii_digit b \<or> (is_ascii_uppercase b \<and> b \<notin> set ''ILOU'')) rest)"

definition holder_ok :: "string \<Rightarrow> bool" where
  "holder_ok holder \<longleftrightarrow>
     trim holder \<noteq> [] \<and> length holder \<le> max_holder_chars \<and> \<not> list_ex is_control holder"

fun key_error_of :: "sign_error \<Rightarrow> key_error" where
  "key_error_of SignMalformed = KeyMalformed"
| "key_error_of SignUnknownSigner = KeyUnknownSigner"
| "key_error_of SignBadSignature = KeyDamaged"

text \<open>The error's words (\<open>thiserror\<close>'s \<open>Display\<close>).\<close>

fun key_error_words :: "key_error \<Rightarrow> string" where
  "key_error_words KeyMalformed =
     ''That doesn't look like a Plenipo license key. Copy the whole key from the email 8 West sent you, and paste it again.''"
| "key_error_words KeyNewer =
     ''This key is for a newer version of Plenipo. Update Plenipo, then enter it again.''"
| "key_error_words KeyUnknownSigner =
     ''This key wasn't signed by 8 West, so Plenipo can't use it.''"
| "key_error_words KeyDamaged =
     ''This key has been changed or damaged. Copy it again from the email 8 West sent you.''"
| "key_error_words KeyNotPro = ''This key isn't a Plenipo Pro or Partner key.''"

text \<open>What a key whose signature checked says, checked (the last part of \<open>key::parse\<close>).\<close>

definition key_says :: "string \<Rightarrow> key_payload \<Rightarrow> key_error + license_key" where
  "key_says t payload =
     (if kp_edition payload \<noteq> ''pro'' \<and> kp_edition payload \<noteq> ''partner'' then Inl KeyNotPro
      else if kp_organizations payload = Up 0 then Inl KeyMalformed
      else if \<not> is_key_id (kp_key_id payload) \<or> \<not> holder_ok (kp_holder payload)
              \<or> kp_issued_at payload \<le> 0 \<or> kp_paid_through payload < kp_issued_at payload
      then Inl KeyMalformed
      else Inr \<lparr> lk_text = t, lk_payload = payload \<rparr>)"

text \<open>The signed part: the payload's text, its signature, then what it says.\<close>

definition key_check :: "crypto \<Rightarrow> string \<Rightarrow> string \<Rightarrow> string \<Rightarrow> key_error + license_key" where
  "key_check C t payload_b64 signature_b64 =
     (case codec_decode C payload_b64 of
        None \<Rightarrow> Inl KeyMalformed
      | Some bytes \<Rightarrow>
          (case json_key C bytes of
             None \<Rightarrow> Inl KeyMalformed
           | Some (v, as_payload) \<Rightarrow>
               (case v of
                  None \<Rightarrow> Inl KeyMalformed
                | Some n \<Rightarrow>
                    if n > 1 then Inl KeyNewer
                    else if n \<noteq> 1 then Inl KeyMalformed
                    else
                      (case as_payload of
                         None \<Rightarrow> Inl KeyMalformed
                       | Some payload \<Rightarrow>
                           (case codec_verify C key_context payload_b64 signature_b64
                                   (kp_signer payload) of
                              Inl e \<Rightarrow> Inl (key_error_of e)
                            | Inr _ \<Rightarrow> key_says t payload)))))"

definition key_parse :: "crypto \<Rightarrow> string \<Rightarrow> key_error + license_key" where
  "key_parse C input =
     (let t = normalize input in
      if byte_len t > max_key_chars then Inl KeyMalformed
      else
        (case strip_prefix key_prefix t of
           None \<Rightarrow> Inl KeyMalformed
         | Some rest \<Rightarrow>
             (case split_on CHR ''.'' rest of
                [payload_b64, signature_b64] \<Rightarrow> key_check C t payload_b64 signature_b64
              | _ \<Rightarrow> Inl KeyMalformed)))"

definition lk_key_id :: "license_key \<Rightarrow> string" where
  "lk_key_id k = kp_key_id (lk_payload k)"

definition lk_edition :: "license_key \<Rightarrow> key_edition" where
  "lk_edition k = (if kp_edition (lk_payload k) = ''partner'' then KeyPartner else KeyPro)"

definition lk_organizations :: "license_key \<Rightarrow> nat option" where
  "lk_organizations k = most (kp_organizations (lk_payload k))"

definition mint :: "crypto \<Rightarrow> key_payload \<Rightarrow> byte list \<Rightarrow> string" where
  "mint C payload key =
     (let payload_b64 = b64_encode C (json_key_write C payload);
          signature = codec_sign C key_context payload_b64 key
      in key_prefix @ payload_b64 @ ''.'' @ signature)"

section \<open>Weekly answers\<close>

definition max_answer_bytes :: nat where "max_answer_bytes = 4096"
definition earliest :: int where "earliest = 1767225600"

fun answer_error_of :: "sign_error \<Rightarrow> answer_error" where
  "answer_error_of SignMalformed = AnsUnreadable"
| "answer_error_of SignUnknownSigner = AnsUnknownSigner"
| "answer_error_of SignBadSignature = AnsBadSignature"

text \<open>The error's words (\<open>thiserror\<close>'s \<open>Display\<close>).\<close>

fun answer_error_words :: "answer_error \<Rightarrow> string" where
  "answer_error_words AnsUnreadable = ''8 West's answer could not be read''"
| "answer_error_words AnsUnknownSigner =
     ''8 West's answer was not signed by a key Plenipo trusts''"
| "answer_error_words AnsBadSignature = ''8 West's answer was not signed correctly''"
| "answer_error_words AnsOtherKey = ''8 West answered about another key''"

definition sensible :: "answer_payload \<Rightarrow> bool" where
  "sensible p \<longleftrightarrow>
     ap_v p = 1 \<and> is_key_id (ap_key_id p) \<and> ap_as_of p \<ge> earliest \<and>
     (case ap_state p of Cancelled \<Rightarrow> ap_ends_at p \<noteq> None | _ \<Rightarrow> True)"

definition answer_verify :: "crypto \<Rightarrow> signed_answer \<Rightarrow> answer_error + answer_payload" where
  "answer_verify C sa =
     (case codec_decode C (sa_answer sa) of
        None \<Rightarrow> Inl AnsUnreadable
      | Some bytes \<Rightarrow>
          (case json_answer C bytes of
             None \<Rightarrow> Inl AnsUnreadable
           | Some payload \<Rightarrow>
               (case codec_verify C answer_context (sa_answer sa) (sa_signature sa)
                       (ap_signer payload) of
                  Inl e \<Rightarrow> Inl (answer_error_of e)
                | Inr _ \<Rightarrow> if sensible payload then Inr payload else Inl AnsUnreadable)))"

definition answer_accept ::
  "crypto \<Rightarrow> byte list \<Rightarrow> string \<Rightarrow> answer_error + (signed_answer \<times> answer_payload)" where
  "answer_accept C body key_id =
     (if length body > max_answer_bytes then Inl AnsUnreadable
      else
        (case json_signed C body of
           None \<Rightarrow> Inl AnsUnreadable
         | Some sa \<Rightarrow>
             (case answer_verify C sa of
                Inl e \<Rightarrow> Inl e
              | Inr payload \<Rightarrow>
                  if ap_key_id payload \<noteq> key_id then Inl AnsOtherKey
                  else Inr (sa, payload))))"

definition answer_sign :: "crypto \<Rightarrow> answer_payload \<Rightarrow> byte list \<Rightarrow> signed_answer" where
  "answer_sign C payload key =
     (let answer = b64_encode C (json_answer_write C payload)
      in \<lparr> sa_answer = answer, sa_signature = codec_sign C answer_context answer key \<rparr>)"

definition answer_body :: "crypto \<Rightarrow> signed_answer \<Rightarrow> byte list" where
  "answer_body C sa = json_signed_write C sa"

text \<open>\<open>Result::ok\<close>.\<close>

definition result_ok :: "'e + 'a \<Rightarrow> 'a option" where
  "result_ok r = (case r of Inl _ \<Rightarrow> None | Inr x \<Rightarrow> Some x)"

definition answer_ok :: "crypto \<Rightarrow> signed_answer \<Rightarrow> answer_payload option" where
  "answer_ok C sa = result_ok (answer_verify C sa)"

section \<open>What a checked answer promises\<close>

text \<open>
  The license record keeps answers and checks them again each time; all it relies on is that a
  checked answer makes sense.
\<close>

locale answer_checker =
  fixes check :: "signed_answer \<Rightarrow> answer_payload option"
  assumes checked_sensible: "check s = Some p \<Longrightarrow> sensible p"
begin

lemma checked_as_of: "check s = Some p \<Longrightarrow> earliest \<le> ap_as_of p"
  using checked_sensible by (auto simp: sensible_def)

lemma checked_as_of_pos: "check s = Some p \<Longrightarrow> 0 < ap_as_of p"
  using checked_as_of by (force simp: earliest_def)

lemma checked_cancelled:
  "check s = Some p \<Longrightarrow> ap_state p = Cancelled \<Longrightarrow> \<exists>e. ap_ends_at p = Some e"
  using checked_sensible by (force simp: sensible_def)

lemma checked_key_id: "check s = Some p \<Longrightarrow> is_key_id (ap_key_id p)"
  using checked_sensible by (auto simp: sensible_def)

end

lemma answer_verify_Inr:
  assumes "answer_verify C sa = Inr payload"
  shows "sensible payload"
    and "codec_verify C answer_context (sa_answer sa) (sa_signature sa)
           (ap_signer payload) = Inr ()"
    and "\<exists>bytes. codec_decode C (sa_answer sa) = Some bytes \<and> json_answer C bytes = Some payload"
  using assms by (auto simp: answer_verify_def split: option.splits sum.splits if_splits)

lemma answer_accept_Inr:
  "answer_accept C body kid = Inr (sa, p) \<Longrightarrow>
     json_signed C body = Some sa \<and> answer_verify C sa = Inr p \<and> ap_key_id p = kid"
  unfolding answer_accept_def
  by (cases "json_signed C body"; cases "answer_verify C (the (json_signed C body))")
    (simp_all split: if_splits)

lemma answer_ok_Some: "answer_ok C s = Some p \<longleftrightarrow> answer_verify C s = Inr p"
  by (auto simp: answer_ok_def result_ok_def split: sum.splits)

interpretation ans: answer_checker "answer_ok C" for C
  by unfold_locales (simp add: answer_ok_Some answer_verify_Inr(1))

section \<open>Signatures\<close>

lemma codec_verify_Inr:
  assumes "codec_verify C context p s signer = Inr ()"
  obtains sig key where "codec_decode C s = Some sig" "length sig = 64"
    "trust_find C signer = Some key" "ed_verify_strict C key (message context p) sig"
  using assms by (auto simp: codec_verify_def split: option.splits if_splits)

lemma trust_find_release:
  "\<not> built_for_tests C \<Longrightarrow> trust_find C ident = Some key \<Longrightarrow> (ident, key) \<in> set production"
  by (auto simp: trust_find_def split: option.splits if_splits dest: map_of_SomeD)

text \<open>Two contexts, neither a prefix of the other, never sign the same bytes.\<close>

lemma message_contexts_differ: "message key_context p \<noteq> message answer_context q"
proof
  assume "message key_context p = message answer_context q"
  then have "take 17 (message key_context p) = take 17 (message answer_context q)" by simp
  then show False
    by (simp add: message_def key_context_def answer_context_def as_bytes_def char_bytes_def
        code_def)
qed

section \<open>Keys\<close>

lemma key_says_Inr:
  assumes "key_says t payload = Inr k"
  shows "lk_payload k = payload" "lk_text k = t" "is_key_id (kp_key_id payload)"
    "lk_organizations k \<noteq> Some 0" "kp_edition payload = ''pro'' \<or> kp_edition payload = ''partner''"
    "0 < kp_issued_at payload" "kp_issued_at payload \<le> kp_paid_through payload"
  using assms
  by (auto simp: key_says_def lk_organizations_def split: if_splits)
    (cases "kp_organizations payload"; simp)+

lemma key_check_Inr:
  assumes "key_check C t p s = Inr k"
  shows "lk_text k = t" "is_key_id (lk_key_id k)" "lk_organizations k \<noteq> Some 0"
    "codec_verify C key_context p s (kp_signer (lk_payload k)) = Inr ()"
    "0 < kp_issued_at (lk_payload k)" "kp_issued_at (lk_payload k) \<le> kp_paid_through (lk_payload k)"
    "\<exists>bytes. codec_decode C p = Some bytes \<and> json_key C bytes = Some (Some 1, Some (lk_payload k))"
proof -
  from assms obtain payload bytes where p: "key_says t payload = Inr k"
    and v: "codec_verify C key_context p s (kp_signer payload) = Inr ()"
    and d: "codec_decode C p = Some bytes" "json_key C bytes = Some (Some 1, Some payload)"
    by (auto simp: key_check_def split: option.splits sum.splits if_splits)
  note key_says_Inr [OF p]
  with v d show "lk_text k = t" "is_key_id (lk_key_id k)" "lk_organizations k \<noteq> Some 0"
    "codec_verify C key_context p s (kp_signer (lk_payload k)) = Inr ()"
    "0 < kp_issued_at (lk_payload k)" "kp_issued_at (lk_payload k) \<le> kp_paid_through (lk_payload k)"
    "\<exists>bytes. codec_decode C p = Some bytes \<and> json_key C bytes = Some (Some 1, Some (lk_payload k))"
    by (simp_all add: lk_key_id_def)
qed

lemma normalize_idem [simp]: "normalize (normalize t) = normalize t"
  by (simp add: normalize_def)

lemma key_parse_normalize: "key_parse C (normalize t) = key_parse C t"
  by (simp add: key_parse_def)

lemma key_parse_Inr:
  assumes "key_parse C input = Inr k"
  obtains p s where "normalize input = key_prefix @ p @ ''.'' @ s"
    "key_check C (normalize input) p s = Inr k"
proof -
  from assms obtain rest where r: "normalize input = key_prefix @ rest"
    and c: "(case split_on CHR ''.'' rest of
              [p, s] \<Rightarrow> key_check C (normalize input) p s | _ \<Rightarrow> Inl KeyMalformed) = Inr k"
    by (auto simp: key_parse_def Let_def strip_prefix_Some split: if_splits option.splits)
  from c obtain p s where ps: "split_on CHR ''.'' rest = [p, s]"
    and k: "key_check C (normalize input) p s = Inr k"
    by (auto split: list.splits)
  have "rest = p @ ''.'' @ s"
    using ps split_chars_join [of "CHR ''.''" rest] by (simp add: split_on_def)
  with r k that show ?thesis by blast
qed

section \<open>A key and answers to try the checks on\<close>

text \<open>
  A concrete instance of the third-party calls, with one key and four answers, on which the
  hypotheses of the properties are shown to hold. Texts stand for their own bytes, every
  signature is sixty-four times \<open>A\<close>, and the test key is trusted as in a test build.
\<close>

definition demo_id :: string where "demo_id = ''lk_'' @ replicate 26 CHR ''0''"

definition demo_payload :: key_payload where
  "demo_payload =
     \<lparr> kp_v = 1, kp_edition = ''pro'', kp_organizations = Up 2, kp_key_id = demo_id,
       kp_holder = ''Ada'', kp_plan = Monthly, kp_paid_through = 1790000000,
       kp_issued_at = 1770000000, kp_signer = ''test-1'' \<rparr>"

definition demo_answer :: "subscription_state \<Rightarrow> int \<Rightarrow> answer_payload" where
  "demo_answer st as_of =
     \<lparr> ap_v = 1, ap_key_id = demo_id, ap_state = st, ap_paid_through = None,
       ap_ends_at = Some 1785000000, ap_as_of = as_of, ap_signer = ''test-1'' \<rparr>"

definition demo_json_answer :: "byte list \<Rightarrow> answer_payload option" where
  "demo_json_answer bs =
     (if bs = [65] then Some (demo_answer Active 1771000000)
      else if bs = [66] then Some (demo_answer Active 1779000000)
      else if bs = [69] then Some (demo_answer Ended 1775000000)
      else if bs = [85] then Some (demo_answer Unknown 1776000000)
      else None)"

definition demo_json_signed :: "byte list \<Rightarrow> signed_answer option" where
  "demo_json_signed bs =
     (case bs of
        [b] \<Rightarrow> Some \<lparr> sa_answer = [char_of (unat b)], sa_signature = replicate 64 CHR ''A'' \<rparr>
      | _ \<Rightarrow> None)"

definition demo_crypto :: crypto where
  "demo_crypto =
     \<lparr> b64_encode = map (\<lambda>b. char_of (unat b)),
       b64_decode = (\<lambda>s. Some (as_bytes s)),
       ed_public_ok = (\<lambda>_. True),
       ed_verify_strict = (\<lambda>_ _ sig. sig = replicate 64 65),
       ed_sign = (\<lambda>_ _. replicate 64 65),
       json_key = (\<lambda>bs. if bs = [75] then Some (Some 1, Some demo_payload) else None),
       json_key_write = (\<lambda>_. [75]),
       json_answer = demo_json_answer,
       json_answer_write = (\<lambda>p. case ap_state p of Active \<Rightarrow> [65] | _ \<Rightarrow> [69]),
       json_signed = demo_json_signed,
       json_signed_write = (\<lambda>sa. as_bytes (sa_answer sa)),
       test_public = replicate 32 7,
       built_for_tests = True \<rparr>"

definition demo_text :: string where "demo_text = ''plenipo1.K.'' @ replicate 64 CHR ''A''"

definition demo_key :: license_key where
  "demo_key = \<lparr> lk_text = demo_text, lk_payload = demo_payload \<rparr>"

end
