(* ===== verification/Licensing_State.thy ===== *)
theory Licensing_State
  imports Licensing_Keys
begin

text \<open>
  The license record and Free or Pro (\<open>crates/licensing/src/state.rs\<close>). Every operation takes
  the function that checks a signed answer (\<open>answer::verify(..).ok()\<close>) as its argument \<open>vf\<close>;
  the model's own is \<open>answer_ok C\<close>. Times are \<open>i64\<close> seconds, as integers with the source's
  saturation written out. The lemmas show when Pro ends and what never moves that moment: a clock
  wound back, a failed check, a replayed answer, a record that was lost.
\<close>

section \<open>Constants and data\<close>

definition day :: int where "day = 24 * 3600"
definition grace :: int where "grace = 30 * day"
definition every :: int where "every = 7 * day"
definition retry_after :: "int list" where
  "retry_after = [3600, 3 * 3600, 6 * 3600, 12 * 3600, day]"
definition clock_slack :: int where "clock_slack = day"

datatype edition = Free | Pro

text \<open>What Free has (\<open>entitlements.rs\<close>).\<close>

definition free_organizations :: nat where "free_organizations = 1"
definition free_departments :: nat where "free_departments = 1"
definition free_projects :: nat where "free_projects = 1"
definition free_workers_at_once :: nat where "free_workers_at_once = 3"

record lic_record =
  rc_key_id :: "string option"
  rc_entered_at :: "int option"
  rc_answer :: "signed_answer option"
  rc_clock_high :: int
  rc_last_attempt :: "int option"
  rc_failures :: nat
  rc_last_problem :: "string option"
  rc_clock_ahead :: "int option"
  rc_unknown :: "signed_answer option"

definition record_default :: lic_record where
  "record_default =
     \<lparr> rc_key_id = None, rc_entered_at = None, rc_answer = None, rc_clock_high = 0,
       rc_last_attempt = None, rc_failures = 0, rc_last_problem = None, rc_clock_ahead = None,
       rc_unknown = None \<rparr>"

record record_copy =
  cp_key_id :: "string option"
  cp_entered_at :: "int option"
  cp_answer :: "signed_answer option"

datatype reason = NoKey | NotCheckedYet | ReasonActive | Cancelling | ReasonEnded | NoCheck

record status =
  st_edition :: edition
  st_reason :: reason
  st_grace_ends :: "int option"
  st_paid_through :: "int option"
  st_ends_at :: "int option"
  st_last_success :: "int option"

type_synonym verifier = "signed_answer \<Rightarrow> answer_payload option"

section \<open>Operations\<close>

definition record_entered :: "license_key \<Rightarrow> int \<Rightarrow> lic_record \<Rightarrow> lic_record" where
  "record_entered key clock previous =
     (let now = max clock (rc_clock_high previous)
      in \<lparr> rc_key_id = Some (lk_key_id key), rc_entered_at = Some now, rc_answer = None,
           rc_clock_high = now, rc_last_attempt = None, rc_failures = 0, rc_last_problem = None,
           rc_clock_ahead = None, rc_unknown = None \<rparr>)"

definition verified_answer :: "verifier \<Rightarrow> lic_record \<Rightarrow> answer_payload option" where
  "verified_answer vf r =
     (case rc_answer r of
        None \<Rightarrow> None
      | Some s \<Rightarrow>
          (case vf s of
             None \<Rightarrow> None
           | Some p \<Rightarrow> if Some (ap_key_id p) = rc_key_id r then Some p else None))"

definition verified_unknown :: "verifier \<Rightarrow> lic_record \<Rightarrow> answer_payload option" where
  "verified_unknown vf r =
     (case rc_unknown r of
        None \<Rightarrow> None
      | Some s \<Rightarrow>
          (case vf s of
             None \<Rightarrow> None
           | Some p \<Rightarrow>
               if ap_state p = Unknown \<and> Some (ap_key_id p) = rc_key_id r then Some p else None))"

definition record_copy_of :: "verifier \<Rightarrow> lic_record \<Rightarrow> record_copy" where
  "record_copy_of vf r =
     \<lparr> cp_key_id = rc_key_id r, cp_entered_at = rc_entered_at r,
       cp_answer = (case verified_answer vf r of None \<Rightarrow> None | Some _ \<Rightarrow> rc_answer r) \<rparr>"

text \<open>\<open>Record::now\<close>: never earlier than a time Plenipo has already seen.\<close>

definition record_now :: "verifier \<Rightarrow> lic_record \<Rightarrow> int \<Rightarrow> int" where
  "record_now vf r clock =
     (let answered = (case verified_answer vf r of None \<Rightarrow> 0 | Some a \<Rightarrow> ap_as_of a)
      in max (max clock (rc_clock_high r)) answered)"

definition copied_answer :: "verifier \<Rightarrow> record_copy \<Rightarrow> string \<Rightarrow> (signed_answer \<times> int) option" where
  "copied_answer vf copy key_id =
     (case cp_answer copy of
        None \<Rightarrow> None
      | Some s \<Rightarrow>
          (case vf s of
             None \<Rightarrow> None
           | Some p \<Rightarrow>
               if ap_key_id p = key_id \<and> ap_state p \<noteq> Unknown then Some (s, ap_as_of p)
               else None))"

definition record_restore :: "verifier \<Rightarrow> lic_record \<Rightarrow> record_copy \<Rightarrow> string \<Rightarrow> int \<Rightarrow> lic_record" where
  "record_restore vf self copy key_id clock =
     (if cp_key_id copy \<noteq> Some key_id then self
      else
        let r1 = (if rc_key_id self \<noteq> Some key_id
                  then record_default\<lparr>rc_key_id := Some key_id,
                                      rc_clock_high := max clock (rc_clock_high self)\<rparr>
                  else self);
            r2 = (case copied_answer vf copy key_id of
                    None \<Rightarrow> r1
                  | Some (s, as_of) \<Rightarrow>
                      (case verified_answer vf r1 of
                         None \<Rightarrow> r1\<lparr>rc_answer := Some s\<rparr>
                       | Some mine \<Rightarrow>
                           if as_of > ap_as_of mine then r1\<lparr>rc_answer := Some s\<rparr> else r1));
            now = record_now vf r2 clock;
            r3 = (case cp_entered_at copy of
                    Some at \<Rightarrow>
                      if at \<le> now
                      then r2\<lparr>rc_entered_at :=
                                Some (case rc_entered_at r2 of None \<Rightarrow> at
                                      | Some mine \<Rightarrow> min mine at)\<rparr>
                      else r2
                  | None \<Rightarrow> r2)
        in (case rc_entered_at r3 of
              None \<Rightarrow> r3\<lparr>rc_entered_at := Some now\<rparr>
            | Some _ \<Rightarrow> r3))"

definition saw_clock :: "lic_record \<Rightarrow> int \<Rightarrow> lic_record" where
  "saw_clock r clock = r\<lparr>rc_clock_high := max (rc_clock_high r) clock\<rparr>"

definition record_failed :: "lic_record \<Rightarrow> string \<Rightarrow> int \<Rightarrow> lic_record" where
  "record_failed r why clock =
     (saw_clock r clock)
       \<lparr>rc_last_attempt := Some clock,
        rc_failures := u32_sat_add (rc_failures r) 1,
        rc_last_problem := Some why\<rparr>"

definition record_succeeded ::
  "verifier \<Rightarrow> lic_record \<Rightarrow> signed_answer \<Rightarrow> answer_payload \<Rightarrow> int \<Rightarrow> lic_record" where
  "record_succeeded vf self s payload clock =
     (let r1 = (saw_clock self clock)\<lparr>rc_last_attempt := Some clock\<rparr> in
      if ap_state payload = Unknown
      then
        let keep = (case verified_unknown vf r1 of
                      None \<Rightarrow> True | Some kept \<Rightarrow> ap_as_of payload \<ge> ap_as_of kept);
            r2 = (if keep then r1\<lparr>rc_unknown := Some s\<rparr> else r1)
        in record_failed r2 ''8 West doesn't know this key yet'' clock
      else
        let kept = map_option ap_as_of (verified_answer vf r1);
            r2 = (if (case kept of None \<Rightarrow> True | Some k \<Rightarrow> ap_as_of payload \<ge> k)
                  then r1\<lparr>rc_answer := Some s\<rparr> else r1);
            r3 = (if (case kept of None \<Rightarrow> True | Some k \<Rightarrow> ap_as_of payload > k)
                  then r2\<lparr>rc_clock_high :=
                            min (max clock (ap_as_of payload))
                                (i64_sat_add (ap_as_of payload) clock_slack)\<rparr>
                  else r2);
            ahead = i64_sat_sub clock (ap_as_of payload)
        in r3\<lparr>rc_clock_ahead := (if ahead > clock_slack then Some ahead else None),
               rc_failures := 0, rc_last_problem := None\<rparr>)"

definition next_check :: "lic_record \<Rightarrow> int option" where
  "next_check r =
     (case rc_key_id r of
        None \<Rightarrow> None
      | Some _ \<Rightarrow>
          (case rc_last_attempt r of
             None \<Rightarrow> Some i64_min
           | Some tried \<Rightarrow>
               if rc_failures r = 0 then Some (i64_sat_add tried every)
               else
                 let i = min (rc_failures r - 1) (length retry_after - 1)
                 in Some (i64_sat_add tried (retry_after ! i))))"

definition status_free :: "reason \<Rightarrow> status" where
  "status_free why =
     \<lparr> st_edition = Free, st_reason = why, st_grace_ends = None, st_paid_through = None,
       st_ends_at = None, st_last_success = None \<rparr>"

text \<open>The newest paid-through date Plenipo can prove (the array and its \<open>max\<close> in \<open>status\<close>).\<close>

definition proven_paid :: "license_key \<Rightarrow> answer_payload option \<Rightarrow> int" where
  "proven_paid key answer =
     fold max
       (List.map_filter id
          [map_option ap_as_of answer,
           Option.bind answer ap_paid_through,
           Option.bind answer ap_ends_at])
       (kp_paid_through (lk_payload key))"

definition anchor :: "verifier \<Rightarrow> lic_record \<Rightarrow> int \<Rightarrow> int" where
  "anchor vf r clock =
     (case verified_answer vf r of
        Some a \<Rightarrow> ap_as_of a
      | None \<Rightarrow>
          (case rc_entered_at r of Some e \<Rightarrow> e | None \<Rightarrow> record_now vf r clock))"

definition heard_unknown :: "verifier \<Rightarrow> lic_record \<Rightarrow> int \<Rightarrow> bool" where
  "heard_unknown vf r clock =
     (case verified_unknown vf r of
        None \<Rightarrow> False | Some u \<Rightarrow> ap_as_of u \<ge> anchor vf r clock)"

definition grace_ends :: "verifier \<Rightarrow> lic_record \<Rightarrow> license_key \<Rightarrow> int \<Rightarrow> int" where
  "grace_ends vf r key clock =
     (let g = i64_sat_add (anchor vf r clock) grace in
      if heard_unknown vf r clock then g
      else min g (i64_sat_add (proven_paid key (verified_answer vf r)) grace))"

text \<open>The edition and the reason a checked answer gives, before the 30 days are looked at.\<close>

definition answer_says :: "answer_payload option \<Rightarrow> int \<Rightarrow> edition \<times> reason" where
  "answer_says answer now =
     (case answer of
        None \<Rightarrow> (Pro, NotCheckedYet)
      | Some a \<Rightarrow>
          (case ap_state a of
             Active \<Rightarrow> (Pro, ReasonActive)
           | Unknown \<Rightarrow> (Pro, ReasonActive)
           | Cancelled \<Rightarrow>
               (case ap_ends_at a of
                  Some e \<Rightarrow> if now \<ge> e then (Free, ReasonEnded) else (Pro, Cancelling)
                | None \<Rightarrow> (Pro, Cancelling))
           | Ended \<Rightarrow> (Free, ReasonEnded)))"

definition record_status :: "verifier \<Rightarrow> lic_record \<Rightarrow> license_key option \<Rightarrow> int \<Rightarrow> status" where
  "record_status vf r key clock =
     (case key of
        None \<Rightarrow> status_free NoKey
      | Some k \<Rightarrow>
          if rc_key_id r \<noteq> Some (lk_key_id k) then status_free NoKey
          else
            let now = record_now vf r clock;
                answer = verified_answer vf r;
                g = grace_ends vf r k clock;
                (ed, why) = answer_says answer now;
                (ed', why') = (if ed = Pro \<and> now \<ge> g then (Free, NoCheck) else (ed, why))
            in \<lparr> st_edition = ed', st_reason = why', st_grace_ends = Some g,
                 st_paid_through =
                   (case Option.bind answer ap_paid_through of
                      Some p \<Rightarrow> Some p | None \<Rightarrow> Some (kp_paid_through (lk_payload k))),
                 st_ends_at = Option.bind answer ap_ends_at,
                 st_last_success = map_option ap_as_of answer \<rparr>)"

section \<open>What the record's meaning depends on\<close>

named_theorems record_simps \<open>the fields an operation leaves alone\<close>

lemma saw_clock_fields [record_simps]:
  "rc_key_id (saw_clock r c) = rc_key_id r"
  "rc_entered_at (saw_clock r c) = rc_entered_at r"
  "rc_answer (saw_clock r c) = rc_answer r"
  "rc_unknown (saw_clock r c) = rc_unknown r"
  "rc_clock_high (saw_clock r c) = max (rc_clock_high r) c"
  by (simp_all add: saw_clock_def)

lemma record_failed_fields [record_simps]:
  "rc_key_id (record_failed r w c) = rc_key_id r"
  "rc_entered_at (record_failed r w c) = rc_entered_at r"
  "rc_answer (record_failed r w c) = rc_answer r"
  "rc_unknown (record_failed r w c) = rc_unknown r"
  "rc_clock_high (record_failed r w c) = max (rc_clock_high r) c"
  by (simp_all add: record_failed_def record_simps)

lemma verified_answer_cong:
  "rc_answer r = rc_answer r' \<Longrightarrow> rc_key_id r = rc_key_id r' \<Longrightarrow>
     verified_answer vf r = verified_answer vf r'"
  by (simp add: verified_answer_def split: option.split)

lemma verified_unknown_cong:
  "rc_unknown r = rc_unknown r' \<Longrightarrow> rc_key_id r = rc_key_id r' \<Longrightarrow>
     verified_unknown vf r = verified_unknown vf r'"
  by (simp add: verified_unknown_def split: option.split)

lemma verified_frame [simp]:
  "verified_answer vf (saw_clock r c) = verified_answer vf r"
  "verified_answer vf (r\<lparr>rc_last_attempt := t\<rparr>) = verified_answer vf r"
  "verified_answer vf (record_failed r w c) = verified_answer vf r"
  "verified_unknown vf (saw_clock r c) = verified_unknown vf r"
  "verified_unknown vf (r\<lparr>rc_last_attempt := t\<rparr>) = verified_unknown vf r"
  "verified_unknown vf (record_failed r w c) = verified_unknown vf r"
  by (rule verified_answer_cong verified_unknown_cong; simp add: record_simps)+

lemma record_now_ge_clock: "clock \<le> record_now vf r clock"
  by (simp add: record_now_def Let_def)

lemma record_now_ge_high: "rc_clock_high r \<le> record_now vf r clock"
  by (simp add: record_now_def Let_def)

lemma record_now_ge_answer:
  "verified_answer vf r = Some a \<Longrightarrow> ap_as_of a \<le> record_now vf r clock"
  by (simp add: record_now_def Let_def)

lemma record_now_mono: "c \<le> c' \<Longrightarrow> record_now vf r c \<le> record_now vf r c'"
  by (auto simp: record_now_def Let_def)

text \<open>
  Free or Pro depends on the key, the entry time, the kept answers and the latest time seen, and
  on nothing else in the record.
\<close>

lemma record_status_verified_cong:
  assumes "rc_key_id r = rc_key_id r'" "rc_entered_at r = rc_entered_at r'"
    and a: "verified_answer vf r = verified_answer vf r'"
    and u: "verified_unknown vf r = verified_unknown vf r'"
    and "max c (rc_clock_high r) = max c' (rc_clock_high r')"
  shows "record_status vf r k c = record_status vf r' k c'"
proof -
  have n: "record_now vf r c = record_now vf r' c'"
    using a assms(5) by (simp add: record_now_def)
  have "anchor vf r c = anchor vf r' c'"
    using a n assms(2) by (simp add: anchor_def split: option.split)
  then have "grace_ends vf r key c = grace_ends vf r' key c'" for key
    using a u by (simp add: grace_ends_def heard_unknown_def Let_def split: option.split)
  then show ?thesis
    using a n assms(1) by (cases k) (simp_all add: record_status_def)
qed

lemma record_status_cong:
  assumes "rc_key_id r = rc_key_id r'" "rc_entered_at r = rc_entered_at r'"
    and "rc_answer r = rc_answer r'" "rc_unknown r = rc_unknown r'"
    and "max c (rc_clock_high r) = max c' (rc_clock_high r')"
  shows "record_status vf r k c = record_status vf r' k c'"
  using assms
  by (intro record_status_verified_cong verified_answer_cong verified_unknown_cong)

lemma status_wound_back:
  "c \<le> rc_clock_high r \<Longrightarrow> record_status vf r k c = record_status vf r k (rc_clock_high r)"
  by (rule record_status_cong) auto

lemma status_after_saw_clock:
  "record_status vf (saw_clock r c) k c' = record_status vf r k (max c c')"
  by (rule record_status_cong) (simp_all add: record_simps max.commute max.left_commute)

lemma status_after_failed:
  "record_status vf (record_failed r why c) k c' = record_status vf r k (max c c')"
  by (rule record_status_cong) (simp_all add: record_simps max.commute max.left_commute)

section \<open>When Pro ends\<close>

lemma fold_max_ge: "(x::int) \<le> fold max xs x"
  by (induction xs arbitrary: x) (auto intro: order_trans [OF max.cobounded2])

lemma fold_max_member: "(y::int) \<in> set xs \<Longrightarrow> y \<le> fold max xs x"
  by (induction xs arbitrary: x) (auto intro: order_trans [OF max.cobounded1 fold_max_ge])

lemma proven_paid_ge_key: "kp_paid_through (lk_payload k) \<le> proven_paid k answer"
  by (simp add: proven_paid_def fold_max_ge)

lemma proven_paid_ge_answer: "ap_as_of a \<le> proven_paid k (Some a)"
  unfolding proven_paid_def
  by (rule fold_max_member) (simp add: List.map_filter_def)

lemma proven_paid_None [simp]: "proven_paid k None = kp_paid_through (lk_payload k)"
  by (simp add: proven_paid_def List.map_filter_def)

text \<open>With any signed answer, the 30 days without a check end first.\<close>

lemma grace_ends_with_answer:
  assumes "verified_answer vf r = Some a"
  shows "grace_ends vf r k clock = i64_sat_add (ap_as_of a) grace"
proof -
  have "i64_sat_add (ap_as_of a) grace \<le> i64_sat_add (proven_paid k (Some a)) grace"
    by (rule i64_sat_add_mono) (simp_all add: proven_paid_ge_answer)
  then show ?thesis
    using assms by (simp add: grace_ends_def anchor_def Let_def)
qed

text \<open>Before the first one, they count from the entry, and the paid period is a ceiling.\<close>

lemma grace_ends_without_answer:
  assumes "verified_answer vf r = None" "rc_entered_at r = Some e"
  shows "grace_ends vf r k clock =
           (if (case verified_unknown vf r of None \<Rightarrow> False | Some u \<Rightarrow> ap_as_of u \<ge> e)
            then i64_sat_add e grace
            else i64_sat_add (min e (kp_paid_through (lk_payload k))) grace)"
proof -
  have "min (i64_sat_add e grace) (i64_sat_add p grace) = i64_sat_add (min e p) grace" for p
    using i64_sat_add_mono [of e p grace grace] i64_sat_add_mono [of p e grace grace]
    by (cases "e \<le> p") (simp_all add: min_def)
  then show ?thesis
    using assms by (simp add: grace_ends_def anchor_def heard_unknown_def Let_def split: option.split)
qed

definition says_over :: "answer_payload option \<Rightarrow> int \<Rightarrow> bool" where
  "says_over answer now =
     (case answer of
        None \<Rightarrow> False
      | Some a \<Rightarrow>
          ap_state a = Ended \<or>
          (ap_state a = Cancelled \<and> (case ap_ends_at a of None \<Rightarrow> False | Some e \<Rightarrow> e \<le> now)))"

lemma answer_says_Free: "fst (answer_says answer now) = Free \<longleftrightarrow> says_over answer now"
  by (auto simp: answer_says_def says_over_def split: option.splits subscription_state.splits)

lemma edition_not_Pro [simp]: "e \<noteq> Pro \<longleftrightarrow> e = Free"
  by (cases e) simp_all

lemma status_Free_iff:
  assumes "rc_key_id r = Some (lk_key_id k)"
  shows "st_edition (record_status vf r (Some k) clock) = Free \<longleftrightarrow>
           says_over (verified_answer vf r) (record_now vf r clock) \<or>
           grace_ends vf r k clock \<le> record_now vf r clock"
  using assms answer_says_Free [of "verified_answer vf r" "record_now vf r clock"]
  by (cases "answer_says (verified_answer vf r) (record_now vf r clock)")
    (auto simp: record_status_def Let_def)

lemma says_over_mono: "says_over a now \<Longrightarrow> now \<le> now' \<Longrightarrow> says_over a now'"
  by (auto simp: says_over_def split: option.splits)

lemma grace_ends_clock:
  "rc_entered_at r \<noteq> None \<Longrightarrow> grace_ends vf r k c = grace_ends vf r k c'"
  by (auto simp: grace_ends_def heard_unknown_def anchor_def split: option.splits)

lemma status_Free_later:
  assumes "rc_key_id r = Some (lk_key_id k)" "rc_entered_at r \<noteq> None" "c \<le> c'"
    and "st_edition (record_status vf r (Some k) c) = Free"
  shows "st_edition (record_status vf r (Some k) c') = Free"
  using assms status_Free_iff [OF assms(1)] record_now_mono [OF assms(3), of vf r]
    grace_ends_clock [OF assms(2), of vf k c c']
  by (auto intro: says_over_mono)

section \<open>Checks\<close>

lemmas succeeded_simps =
  record_succeeded_def record_simps Let_def verified_answer_def verified_unknown_def

text \<open>A checked answer of this key, kept, is what the record says afterwards.\<close>

lemma verified_answer_kept:
  "vf s = Some p \<Longrightarrow> rc_key_id r = Some (ap_key_id p) \<Longrightarrow>
     verified_answer vf (r\<lparr>rc_answer := Some s\<rparr>) = Some p"
  by (simp add: verified_answer_def)

lemma verified_unknown_kept:
  "vf s = Some p \<Longrightarrow> rc_key_id r = Some (ap_key_id p) \<Longrightarrow> ap_state p = Unknown \<Longrightarrow>
     verified_unknown vf (r\<lparr>rc_unknown := Some s\<rparr>) = Some p"
  by (simp add: verified_unknown_def)

lemma succeeded_fields [record_simps]:
  "rc_key_id (record_succeeded vf r s p c) = rc_key_id r"
  "rc_entered_at (record_succeeded vf r s p c) = rc_entered_at r"
  by (simp_all add: record_succeeded_def record_simps Let_def split: option.split)

text \<open>A replayed answer (older than the one kept) is no more than a look at the clock.\<close>

lemma status_after_replay:
  assumes "verified_answer vf r = Some a" "ap_as_of p < ap_as_of a" "ap_state p \<noteq> Unknown"
  shows "record_status vf (record_succeeded vf r s p c) k c' = record_status vf r k (max c c')"
proof (rule record_status_cong)
  show "rc_answer (record_succeeded vf r s p c) = rc_answer r"
    "rc_unknown (record_succeeded vf r s p c) = rc_unknown r"
    "max c' (rc_clock_high (record_succeeded vf r s p c)) = max (max c c') (rc_clock_high r)"
    using assms by (simp_all add: record_succeeded_def record_simps Let_def max.commute
        max.left_commute)
qed (simp_all add: record_simps)

text \<open>A strictly newer answer is kept, and it pulls a clock that was once ahead back to it.\<close>

lemma succeeded_newer:
  fixes c :: int
  assumes "vf s = Some p" "rc_key_id r = Some (ap_key_id p)" "ap_state p \<noteq> Unknown"
    and "case verified_answer vf r of None \<Rightarrow> True | Some a \<Rightarrow> ap_as_of a < ap_as_of p"
  defines "r' \<equiv> record_succeeded vf r s p c"
  shows "verified_answer vf r' = Some p"
    and "rc_clock_high r' = min (max c (ap_as_of p)) (i64_sat_add (ap_as_of p) clock_slack)"
proof -
  have "rc_answer r' = Some s \<and> rc_key_id r' = Some (ap_key_id p) \<and>
     rc_clock_high r' = min (max c (ap_as_of p)) (i64_sat_add (ap_as_of p) clock_slack)"
    using assms(2,3,4) by (auto simp: r'_def record_succeeded_def record_simps Let_def
        split: option.splits)
  with assms(1) show "verified_answer vf r' = Some p"
    "rc_clock_high r' = min (max c (ap_as_of p)) (i64_sat_add (ap_as_of p) clock_slack)"
    by (simp_all add: verified_answer_def)
qed

text \<open>An active answer newer than the one kept brings Pro back at once.\<close>

lemma status_after_newer_active:
  assumes "vf s = Some p" "rc_key_id r = Some (ap_key_id p)" "ap_state p = Active"
    and "case verified_answer vf r of None \<Rightarrow> True | Some a \<Rightarrow> ap_as_of a < ap_as_of p"
    and "lk_key_id k = ap_key_id p" "0 < ap_as_of p" "is_i64 (ap_as_of p + grace)"
    and "c < ap_as_of p + grace"
  shows "st_edition (record_status vf (record_succeeded vf r s p c) (Some k) c) = Pro"
proof -
  let ?r = "record_succeeded vf r s p c"
  have a: "verified_answer vf ?r = Some p"
    and h: "rc_clock_high ?r = min (max c (ap_as_of p)) (i64_sat_add (ap_as_of p) clock_slack)"
    using succeeded_newer [OF assms(1,2) _ assms(4)] assms(3) by simp_all
  have g: "grace_ends vf ?r k c = ap_as_of p + grace"
    using grace_ends_with_answer [OF a] assms(7) by (simp add: i64_sat_add_def)
  have "record_now vf ?r c < ap_as_of p + grace"
    using assms(6,7,8) h a
    by (auto simp: record_now_def width_simps clock_slack_def grace_def day_def)
  then show ?thesis
    using status_Free_iff [of ?r k vf c] assms(2,3,5) a g
    by (auto simp: record_simps says_over_def simp flip: edition_not_Pro)
qed

text \<open>An "unknown" answer never takes Pro: it can only lift the paid-period ceiling.\<close>

lemma unknown_keeps:
  fixes c :: int and s :: signed_answer and vf :: verifier and r :: lic_record
  assumes "ap_state p = Unknown"
  defines "r' \<equiv> record_succeeded vf r s p c"
  shows "rc_answer r' = rc_answer r" "rc_clock_high r' = max (rc_clock_high r) c"
    and "rc_unknown r' = rc_unknown r \<or> rc_unknown r' = Some s"
  using assms by (auto simp: record_succeeded_def record_simps Let_def split: option.splits)

lemma heard_unknown_after:
  assumes "vf s = Some p" "rc_key_id r = Some (ap_key_id p)" "ap_state p = Unknown"
    and "heard_unknown vf r c" "rc_entered_at r \<noteq> None"
  shows "heard_unknown vf (record_succeeded vf r s p c) c"
proof -
  let ?r = "record_succeeded vf r s p c"
  have v: "verified_answer vf ?r = verified_answer vf r"
    by (rule verified_answer_cong) (simp_all add: record_simps unknown_keeps(1) assms(3))
  have anchor: "anchor vf ?r c = anchor vf r c"
    using assms(5) v by (auto simp: anchor_def record_simps split: option.splits)
  obtain u where u: "verified_unknown vf r = Some u" "anchor vf r c \<le> ap_as_of u"
    using assms(4) by (auto simp: heard_unknown_def split: option.splits)
  have "verified_unknown vf ?r = Some u \<or>
      (verified_unknown vf ?r = Some p \<and> ap_as_of u \<le> ap_as_of p)"
    using assms(1,2,3) u(1)
    by (simp add: record_succeeded_def record_simps Let_def verified_unknown_kept)
  with u(2) anchor show ?thesis by (auto simp: heard_unknown_def)
qed

lemma status_after_unknown:
  assumes "vf s = Some p" "rc_key_id r = Some (ap_key_id p)" "ap_state p = Unknown"
    and "lk_key_id k = ap_key_id p" "rc_entered_at r \<noteq> None"
    and "st_edition (record_status vf r (Some k) c) = Pro"
  shows "st_edition (record_status vf (record_succeeded vf r s p c) (Some k) c) = Pro"
proof -
  let ?r = "record_succeeded vf r s p c"
  have v: "verified_answer vf ?r = verified_answer vf r"
    by (rule verified_answer_cong) (simp_all add: record_simps unknown_keeps(1) assms(3))
  have n: "record_now vf ?r c = record_now vf r c"
    using v by (simp add: record_now_def unknown_keeps(2) assms(3) max.commute)
  have anchor: "anchor vf ?r c = anchor vf r c"
    using assms(5) v by (auto simp: anchor_def record_simps split: option.splits)
  have "grace_ends vf r k c \<le> grace_ends vf ?r k c"
    using heard_unknown_after [of vf s p r c] assms(1,2,3,5) anchor v
    by (auto simp: grace_ends_def Let_def)
  moreover have "\<not> (says_over (verified_answer vf r) (record_now vf r c) \<or>
      grace_ends vf r k c \<le> record_now vf r c)"
    using assms(6) status_Free_iff [of r k vf c] assms(2,4) by auto
  ultimately have "\<not> (says_over (verified_answer vf ?r) (record_now vf ?r c) \<or>
      grace_ends vf ?r k c \<le> record_now vf ?r c)"
    using v n by auto
  then show ?thesis
    using status_Free_iff [of ?r k vf c] assms(2,4)
    by (auto simp: record_simps simp flip: edition_not_Pro)
qed

section \<open>The Vault's copy\<close>

lemma record_default_fields [simp]:
  "rc_key_id record_default = None" "rc_entered_at record_default = None"
  "rc_answer record_default = None" "rc_unknown record_default = None"
  "rc_clock_high record_default = 0"
  by (simp_all add: record_default_def)

text \<open>The entry time a copy gives back is never later than the record's own.\<close>

lemma restore_entered_earlier:
  assumes "rc_key_id r = Some key_id" "rc_entered_at r = Some e"
  shows "\<exists>e'. rc_entered_at (record_restore vf r copy key_id clock) = Some e' \<and> e' \<le> e"
  using assms
  by (auto simp: record_restore_def Let_def split: option.splits prod.splits)

text \<open>A record lost by itself comes back from its copy with the same answer and entry time.\<close>

lemma restore_lost_fields:
  assumes "rc_key_id r = Some kid" "rc_entered_at r = Some e" "e \<le> clock"
    and "\<forall>a. verified_answer vf r = Some a \<longrightarrow> ap_state a \<noteq> Unknown"
  defines "r' \<equiv> record_restore vf record_default (record_copy_of vf r) kid clock"
  shows "rc_key_id r' = Some kid" "rc_entered_at r' = Some e"
    and "verified_answer vf r' = verified_answer vf r"
    and "rc_unknown r' = None" "rc_clock_high r' = max clock 0"
proof -
  have "rc_key_id r' = Some kid \<and> rc_entered_at r' = Some e \<and>
      verified_answer vf r' = verified_answer vf r \<and> rc_unknown r' = None \<and>
      rc_clock_high r' = max clock 0"
  proof (cases "verified_answer vf r")
    case None
    then show ?thesis
      using assms(1-3)
      by (simp add: r'_def record_restore_def record_copy_of_def copied_answer_def Let_def
          record_now_def verified_answer_def le_max_iff_disj)
  next
    case (Some a)
    then obtain s where s: "rc_answer r = Some s" "vf s = Some a" "ap_key_id a = kid"
      using assms(1) by (auto simp: verified_answer_def split: option.splits if_splits)
    with Some show ?thesis
      using assms(1-4)
      by (simp add: r'_def record_restore_def record_copy_of_def copied_answer_def Let_def
          record_now_def verified_answer_def le_max_iff_disj)
  qed
  then show "rc_key_id r' = Some kid" "rc_entered_at r' = Some e"
    "verified_answer vf r' = verified_answer vf r" "rc_unknown r' = None"
    "rc_clock_high r' = max clock 0"
    by simp_all
qed

lemma status_after_lost_record:
  assumes "rc_key_id r = Some kid" "rc_entered_at r = Some e" "e \<le> clock"
    and "\<forall>a. verified_answer vf r = Some a \<longrightarrow> ap_state a \<noteq> Unknown"
    and "rc_unknown r = None" "rc_clock_high r \<le> clock" "0 \<le> clock"
  shows "record_status vf (record_restore vf record_default (record_copy_of vf r) kid clock) k clock
           = record_status vf r k clock"
  using restore_lost_fields [OF assms(1-4)] assms
  by (intro record_status_verified_cong) (simp_all add: verified_unknown_def)

section \<open>When to check next\<close>

lemma retry_after_bounds: "i < length retry_after \<Longrightarrow> 3600 \<le> retry_after ! i \<and> retry_after ! i \<le> day"
  by (auto simp: retry_after_def day_def less_Suc_eq nth_Cons split: nat.splits)

lemma next_check_bounds:
  assumes "rc_last_attempt r = Some tried" "next_check r = Some at"
  shows "i64_sat_add tried 3600 \<le> at \<and> at \<le> i64_sat_add tried every"
proof (cases "rc_failures r = 0")
  case True
  with assms show ?thesis
    by (auto simp: next_check_def every_def day_def split: option.splits intro!: i64_sat_add_mono)
next
  case False
  let ?i = "min (rc_failures r - 1) (length retry_after - 1)"
  have "?i < length retry_after" by (simp add: retry_after_def)
  note b = retry_after_bounds [OF this]
  have "at = i64_sat_add tried (retry_after ! ?i)"
    using assms False by (auto simp: next_check_def Let_def split: option.splits)
  with b show ?thesis
    by (auto simp: every_def day_def intro!: i64_sat_add_mono)
qed

end
