(* ===== verification/Licensing.thy ===== *)
theory Licensing
  imports Licensing_State
begin

text \<open>
  The license on this PC (\<open>crates/licensing/src/license.rs\<close>): the key from the Vault, the record
  from the data folder, and the operations the app's license host calls. An event is one call of
  the host; a run is a sequence of events. The properties here are the promises the source makes
  about Pro, over the model's own checks (\<open>answer_ok C\<close>, \<open>key_parse C\<close>).
\<close>

section \<open>The license\<close>

record license =
  lic_key :: "license_key option"
  lic_rec :: lic_record
  lic_problem :: "string option"

datatype check_outcome = Answered subscription_state | Failed string

definition license_load :: "crypto \<Rightarrow> string option \<Rightarrow> lic_record \<Rightarrow> int \<Rightarrow> license" where
  "license_load C key_text rec0 clock =
     (let (key, problem) =
            (case map_option (key_parse C) key_text of
               Some (Inr k) \<Rightarrow> (Some k, None)
             | Some (Inl e) \<Rightarrow> (None, Some (key_error_words e))
             | None \<Rightarrow> (None, None));
          rec1 =
            (case key of
               None \<Rightarrow> rec0
             | Some k \<Rightarrow>
                 if rc_key_id rec0 = Some (lk_key_id k)
                 then
                   let now = record_now (answer_ok C) rec0 clock
                   in (case rc_entered_at rec0 of
                         None \<Rightarrow> rec0\<lparr>rc_entered_at := Some now\<rparr>
                       | Some at \<Rightarrow> if at > now then rec0\<lparr>rc_entered_at := Some now\<rparr> else rec0)
                 else record_entered k clock rec0)
      in \<lparr> lic_key = key, lic_rec = saw_clock rec1 clock, lic_problem = problem \<rparr>)"

definition license_restore :: "crypto \<Rightarrow> license \<Rightarrow> record_copy \<Rightarrow> string \<Rightarrow> int \<Rightarrow> license" where
  "license_restore C l copy key_id clock =
     l\<lparr>lic_rec := record_restore (answer_ok C) (lic_rec l) copy key_id clock\<rparr>"

definition license_enter :: "crypto \<Rightarrow> license \<Rightarrow> string \<Rightarrow> int \<Rightarrow> license \<times> (key_error + license_key)" where
  "license_enter C l t clock =
     (case key_parse C t of
        Inl e \<Rightarrow> (l, Inl e)
      | Inr key \<Rightarrow>
          let rec1 = (if rc_key_id (lic_rec l) = Some (lk_key_id key)
                      then saw_clock (lic_rec l) clock
                      else record_entered key clock (lic_rec l))
          in (l\<lparr>lic_rec := rec1, lic_problem := None, lic_key := Some key\<rparr>, Inr key))"

definition license_remove :: "license \<Rightarrow> license \<times> license_key option" where
  "license_remove l = (l\<lparr>lic_problem := None, lic_key := None\<rparr>, lic_key l)"

definition license_status :: "crypto \<Rightarrow> license \<Rightarrow> int \<Rightarrow> status" where
  "license_status C l clock = record_status (answer_ok C) (lic_rec l) (lic_key l) clock"

definition license_edition :: "crypto \<Rightarrow> license \<Rightarrow> int \<Rightarrow> edition" where
  "license_edition C l clock = st_edition (license_status C l clock)"

definition check_due :: "license \<Rightarrow> int \<Rightarrow> bool" where
  "check_due l clock \<longleftrightarrow>
     lic_key l \<noteq> None \<and>
     ((case next_check (lic_rec l) of None \<Rightarrow> False | Some at \<Rightarrow> clock \<ge> at) \<or>
      (case rc_last_attempt (lic_rec l) of
         None \<Rightarrow> False | Some at \<Rightarrow> at > i64_sat_add clock 3600))"

definition license_answered :: "crypto \<Rightarrow> license \<Rightarrow> byte list \<Rightarrow> int \<Rightarrow> license \<times> check_outcome" where
  "license_answered C l body clock =
     (case lic_key l of
        None \<Rightarrow> (l, Failed ''there is no key'')
      | Some key \<Rightarrow>
          (case answer_accept C body (lk_key_id key) of
             Inr (sa, payload) \<Rightarrow>
               (l\<lparr>lic_rec := record_succeeded (answer_ok C) (lic_rec l) sa payload clock\<rparr>,
                Answered (ap_state payload))
           | Inl e \<Rightarrow>
               let why = answer_error_words e
               in (l\<lparr>lic_rec := record_failed (lic_rec l) why clock\<rparr>, Failed why)))"

definition license_failed :: "license \<Rightarrow> string \<Rightarrow> int \<Rightarrow> license \<times> check_outcome" where
  "license_failed l why clock = (l\<lparr>lic_rec := record_failed (lic_rec l) why clock\<rparr>, Failed why)"

definition license_saw_clock :: "license \<Rightarrow> int \<Rightarrow> license" where
  "license_saw_clock l clock = l\<lparr>lic_rec := saw_clock (lic_rec l) clock\<rparr>"

section \<open>Settings\<close>

text \<open>\<open>LicenseView\<close>; \<open>LicenseReason\<close> names the same six reasons as \<open>Reason\<close>.\<close>

record license_view =
  lv_edition :: edition
  lv_reason :: reason
  lv_key_id :: "string option"
  lv_key_edition :: "key_edition option"
  lv_organizations_covered :: "nat option"
  lv_organizations_in_use :: nat
  lv_holder :: "string option"
  lv_plan :: "plan option"
  lv_paid_through :: "int option"
  lv_ends_at :: "int option"
  lv_last_checked :: "int option"
  lv_last_tried :: "int option"
  lv_next_check :: "int option"
  lv_grace_ends :: "int option"
  lv_problem :: "string option"
  lv_free_limits :: "nat \<times> nat \<times> nat \<times> nat"
  lv_test_build :: bool
  lv_clock_ahead_days :: "nat option"

definition ms :: "int \<Rightarrow> int" where
  "ms secs = i64_sat_mul secs 1000"

definition license_view_of :: "crypto \<Rightarrow> license \<Rightarrow> int \<Rightarrow> license_view" where
  "license_view_of C l clock =
     (let s = license_status C l clock;
          payload = map_option lk_payload (lic_key l);
          has_key = (lic_key l \<noteq> None)
      in \<lparr> lv_edition = st_edition s,
           lv_reason = st_reason s,
           lv_key_id = map_option kp_key_id payload,
           lv_key_edition = map_option lk_edition (lic_key l),
           lv_organizations_covered =
             (case st_edition s of
                Free \<Rightarrow> Some free_organizations
              | Pro \<Rightarrow> Option.bind (lic_key l) lk_organizations),
           lv_organizations_in_use = 0,
           lv_holder = map_option kp_holder payload,
           lv_plan = map_option kp_plan payload,
           lv_paid_through = map_option ms (st_paid_through s),
           lv_ends_at = map_option ms (st_ends_at s),
           lv_last_checked = map_option ms (st_last_success s),
           lv_last_tried = (if has_key then map_option ms (rc_last_attempt (lic_rec l)) else None),
           lv_next_check =
             (if has_key
              then map_option (\<lambda>at. ms (max at clock)) (next_check (lic_rec l)) else None),
           lv_grace_ends = map_option ms (st_grace_ends s),
           lv_problem =
             (if has_key then rc_last_problem (lic_rec l)
              else map_option
                     (\<lambda>why. ''The license key kept on this PC no longer works: '' @ why @
                            '' Enter the newest key 8 West emailed you.'')
                     (lic_problem l)),
           lv_free_limits =
             (free_organizations, free_departments, free_projects, free_workers_at_once),
           lv_test_build = built_for_tests C,
           lv_clock_ahead_days =
             (if has_key
              then map_option (\<lambda>x. u32_or_max (i64_quot x day)) (rc_clock_ahead (lic_rec l))
              else None) \<rparr>)"

section \<open>Runs\<close>

text \<open>One call of the license host, in the order the host makes them.\<close>

datatype lic_event =
    EvClock int
  | EvFailed string int
  | EvAnswered "byte list" int
  | EvEnter string int
  | EvRemove

fun lic_step :: "crypto \<Rightarrow> license \<Rightarrow> lic_event \<Rightarrow> license" where
  "lic_step C l (EvClock clock) = license_saw_clock l clock"
| "lic_step C l (EvFailed why clock) = fst (license_failed l why clock)"
| "lic_step C l (EvAnswered body clock) = fst (license_answered C l body clock)"
| "lic_step C l (EvEnter t clock) = fst (license_enter C l t clock)"
| "lic_step C l EvRemove = fst (license_remove l)"

definition lic_run :: "crypto \<Rightarrow> license \<Rightarrow> lic_event list \<Rightarrow> license" where
  "lic_run C l evs = foldl (lic_step C) l evs"

section \<open>The record follows the key\<close>

text \<open>A record about a key has an entry time, and a key in use has its record.\<close>

definition record_wf :: "lic_record \<Rightarrow> bool" where
  "record_wf r \<longleftrightarrow> (rc_key_id r \<noteq> None \<longrightarrow> rc_entered_at r \<noteq> None)"

definition license_inv :: "license \<Rightarrow> bool" where
  "license_inv l \<longleftrightarrow>
     record_wf (lic_rec l) \<and>
     (\<forall>k. lic_key l = Some k \<longrightarrow> rc_key_id (lic_rec l) = Some (lk_key_id k))"

lemma record_entered_fields [record_simps]:
  "rc_key_id (record_entered k c r) = Some (lk_key_id k)"
  "rc_entered_at (record_entered k c r) = Some (max c (rc_clock_high r))"
  "rc_answer (record_entered k c r) = None"
  "rc_unknown (record_entered k c r) = None"
  by (simp_all add: record_entered_def Let_def)

lemmas license_ops =
  license_saw_clock_def license_failed_def license_answered_def license_enter_def
  license_remove_def license_status_def license_edition_def

lemma license_load_inv: "record_wf r \<Longrightarrow> license_inv (license_load C t r clock)"
  by (auto simp: license_inv_def record_wf_def license_load_def Let_def record_simps
      split: option.splits sum.splits)

lemma license_step_inv: "license_inv l \<Longrightarrow> license_inv (lic_step C l ev)"
  by (cases ev)
    (auto simp: license_inv_def record_wf_def license_ops Let_def record_simps
      split: option.splits sum.splits prod.splits)

interpretation lic: event_system "lic_step C" license_inv "\<lambda>_. True" for C
  by unfold_locales (rule license_step_inv)

lemma license_run_inv: "license_inv l \<Longrightarrow> license_inv (lic_run C l evs)"
  unfolding lic_run_def by (rule lic.run_inv) (simp_all add: list_all_iff)

section \<open>No way back without a newer answer\<close>

text \<open>
  Events that bring nothing new about the key \<open>kid\<close> when \<open>a\<close> is the newest answer: clock readings,
  failed checks, answers that do not check, that are older than \<open>a\<close>, that are \<open>a\<close> once more or that
  say "unknown", the same key entered again, and the key removed.
\<close>

fun nothing_new :: "crypto \<Rightarrow> string \<Rightarrow> answer_payload \<Rightarrow> lic_event \<Rightarrow> bool" where
  "nothing_new C kid a (EvAnswered body clock) =
     (case answer_accept C body kid of
        Inl _ \<Rightarrow> True
      | Inr (sa, p) \<Rightarrow> ap_state p = Unknown \<or> ap_as_of p < ap_as_of a \<or> p = a)"
| "nothing_new C kid a (EvEnter txt clock) =
     (case key_parse C txt of Inl _ \<Rightarrow> True | Inr k \<Rightarrow> lk_key_id k = kid)"
| "nothing_new C kid a _ = True"

text \<open>The subscription \<open>k\<close> is over for Plenipo, as the newest answer \<open>a\<close> and the time say.\<close>

definition spent :: "crypto \<Rightarrow> license_key \<Rightarrow> answer_payload \<Rightarrow> license \<Rightarrow> bool" where
  "spent C k a l \<longleftrightarrow>
     (let r = lic_rec l in
      rc_key_id r = Some (lk_key_id k) \<and> rc_entered_at r \<noteq> None \<and>
      verified_answer (answer_ok C) r = Some a \<and>
      (\<forall>k'. lic_key l = Some k' \<longrightarrow> lk_key_id k' = lk_key_id k) \<and>
      st_edition (record_status (answer_ok C) r (Some k) (rc_clock_high r)) = Free)"

lemma record_status_same_id:
  assumes "verified_answer vf r = Some a" "lk_key_id k' = lk_key_id k"
  shows "st_edition (record_status vf r (Some k') c) = st_edition (record_status vf r (Some k) c)"
  using assms grace_ends_with_answer [OF assms(1)]
  by (auto simp: record_status_def Let_def split: prod.splits)

lemma spent_Free:
  assumes "spent C k a l" "lk_key_id k' = lk_key_id k"
  shows "st_edition (record_status (answer_ok C) (lic_rec l) (Some k') c) = Free"
proof -
  let ?r = "lic_rec l" and ?vf = "answer_ok C"
  have s: "rc_key_id ?r = Some (lk_key_id k)" "rc_entered_at ?r \<noteq> None"
    "verified_answer ?vf ?r = Some a"
    "st_edition (record_status ?vf ?r (Some k) (rc_clock_high ?r)) = Free"
    using assms(1) by (simp_all add: spent_def Let_def)
  have "st_edition (record_status ?vf ?r (Some k) (max c (rc_clock_high ?r))) = Free"
    by (rule status_Free_later [OF s(1,2) _ s(4)]) simp
  moreover have "record_status ?vf ?r (Some k) (max c (rc_clock_high ?r)) =
      record_status ?vf ?r (Some k) c"
    by (rule record_status_cong) simp_all
  ultimately show ?thesis
    using record_status_same_id [OF s(3) assms(2)] by simp
qed

lemma spent_record_step:
  assumes "spent C k a l" "rc_key_id r' = rc_key_id (lic_rec l)"
    and "rc_entered_at r' = rc_entered_at (lic_rec l)"
    and "verified_answer (answer_ok C) r' = Some a"
    and "rc_clock_high (lic_rec l) \<le> rc_clock_high r'"
  shows "st_edition (record_status (answer_ok C) r' (Some k) (rc_clock_high r')) = Free"
proof -
  let ?r = "lic_rec l" and ?vf = "answer_ok C"
  have s: "rc_key_id ?r = Some (lk_key_id k)" "verified_answer ?vf ?r = Some a"
    using assms(1) by (simp_all add: spent_def Let_def)
  have "st_edition (record_status ?vf ?r (Some k) (rc_clock_high r')) = Free"
    by (rule spent_Free [OF assms(1) refl])
  moreover have "record_now ?vf r' (rc_clock_high r') = record_now ?vf ?r (rc_clock_high r')"
    using assms(4,5) s(2) by (simp add: record_now_def)
  ultimately show ?thesis
    using status_Free_iff [of r' k ?vf] status_Free_iff [OF s(1), of ?vf]
      grace_ends_with_answer [OF s(2)] grace_ends_with_answer [OF assms(4)] s assms(2,4)
    by simp
qed

lemma succeeded_nothing_new:
  assumes "verified_answer vf r = Some a" "ap_state p = Unknown \<or> ap_as_of p < ap_as_of a"
  shows "rc_answer (record_succeeded vf r s p c) = rc_answer r"
    and "rc_clock_high (record_succeeded vf r s p c) = max (rc_clock_high r) c"
  using assms by (auto simp: record_succeeded_def record_simps Let_def split: option.splits)

text \<open>The newest answer again: it is kept, and "now" does not move back.\<close>

lemma succeeded_again:
  assumes "verified_answer vf r = Some a" "vf s = Some a"
  shows "verified_answer vf (record_succeeded vf r s a c) = Some a"
    and "rc_clock_high (record_succeeded vf r s a c) = max (rc_clock_high r) c"
proof -
  have id: "rc_key_id r = Some (ap_key_id a)"
    using assms(1) by (auto simp: verified_answer_def split: option.splits if_splits)
  show "verified_answer vf (record_succeeded vf r s a c) = Some a"
  proof (cases "ap_state a = Unknown")
    case True
    then have "rc_answer (record_succeeded vf r s a c) = rc_answer r"
      using succeeded_nothing_new(1) [OF assms(1)] by blast
    with assms(1) show ?thesis
      using verified_answer_cong [of "record_succeeded vf r s a c" r] by (simp add: record_simps)
  next
    case False
    then have "rc_answer (record_succeeded vf r s a c) = Some s"
      using assms(1) by (simp add: record_succeeded_def Let_def)
    with assms(2) id show ?thesis by (simp add: verified_answer_def record_simps)
  qed
  show "rc_clock_high (record_succeeded vf r s a c) = max (rc_clock_high r) c"
    using assms(1) by (auto simp: record_succeeded_def record_simps Let_def split: option.splits)
qed

lemma spent_renew:
  assumes "spent C k a l" "lic_rec l' = r'" "rc_key_id r' = rc_key_id (lic_rec l)"
    and "rc_entered_at r' = rc_entered_at (lic_rec l)" "verified_answer (answer_ok C) r' = Some a"
    and "rc_clock_high (lic_rec l) \<le> rc_clock_high r'"
    and "\<And>k'. lic_key l' = Some k' \<Longrightarrow> lk_key_id k' = lk_key_id k"
  shows "spent C k a l'"
  using assms spent_record_step [OF assms(1,3,4,5,6)] by (simp add: spent_def Let_def)

lemma spent_keep:
  assumes "spent C k a l" "lic_rec l' = r'" "rc_key_id r' = rc_key_id (lic_rec l)"
    and "rc_entered_at r' = rc_entered_at (lic_rec l)" "rc_answer r' = rc_answer (lic_rec l)"
    and "rc_clock_high (lic_rec l) \<le> rc_clock_high r'"
    and "\<And>k'. lic_key l' = Some k' \<Longrightarrow> lk_key_id k' = lk_key_id k"
  shows "spent C k a l'"
proof -
  have "verified_answer (answer_ok C) r' = Some a"
    using assms(1,3,5) verified_answer_cong [of r' "lic_rec l"] by (simp add: spent_def Let_def)
  from spent_renew [OF assms(1-4) this assms(6,7)] show ?thesis .
qed

lemma spent_step:
  assumes l: "spent C k a l" and ev: "nothing_new C (lk_key_id k) a ev"
  shows "spent C k a (lic_step C l ev)"
proof -
  have key: "lic_key l = Some k' \<Longrightarrow> lk_key_id k' = lk_key_id k" for k'
    using l by (simp add: spent_def Let_def)
  have v: "verified_answer (answer_ok C) (lic_rec l) = Some a"
    and rid: "rc_key_id (lic_rec l) = Some (lk_key_id k)"
    using l by (simp_all add: spent_def Let_def)
  note keep = spent_keep [OF l refl]
  show ?thesis
  proof (cases ev)
    case (EvAnswered body clock)
    then consider "lic_key l = None" | k' e where "lic_key l = Some k'"
        "answer_accept C body (lk_key_id k) = Inl e"
      | k' sa p where "lic_key l = Some k'" "answer_accept C body (lk_key_id k) = Inr (sa, p)"
        "ap_state p = Unknown \<or> ap_as_of p < ap_as_of a"
      | k' sa where "lic_key l = Some k'" "answer_accept C body (lk_key_id k) = Inr (sa, a)"
      using ev by (cases "lic_key l"; cases "answer_accept C body (lk_key_id k)") auto
    then show ?thesis
    proof cases
      case 4
      then have "answer_ok C sa = Some a" using answer_accept_Inr by (simp add: answer_ok_Some)
      note again = succeeded_again [OF v this]
      from 4 key EvAnswered show ?thesis
        by (auto intro!: spent_renew [OF l refl] simp: license_answered_def record_simps again)
    qed (use key EvAnswered l in
        \<open>auto intro!: keep simp: license_answered_def record_simps Let_def succeeded_nothing_new [OF v]\<close>)
  next
    case (EvEnter t clock)
    then show ?thesis
      using l ev rid
      by (cases "key_parse C t") (auto intro!: keep simp: license_enter_def record_simps)
  qed (use key in \<open>auto intro!: keep simp: license_ops record_simps\<close>)
qed

interpretation spent: event_system "lic_step C" "spent C k a" "nothing_new C (lk_key_id k) a"
  for C k a
  by unfold_locales (rule spent_step)

section \<open>A license to try the properties on\<close>

text \<open>The license of \<open>demo_key\<close>, just loaded, and after the service said it ended.\<close>

definition demo_license :: license where
  "demo_license = license_load demo_crypto (Some demo_text) record_default 1770500000"

definition demo_spent :: license where
  "demo_spent = lic_run demo_crypto demo_license [EvAnswered [69] 1775000100]"

text \<open>The license with an answer that it is active, 40 days later.\<close>

definition demo_lapsed :: license where
  "demo_lapsed = lic_run demo_crypto demo_license [EvAnswered [65] 1771000000, EvClock 1774456000]"

lemma license_inv_code [code]:
  "license_inv l \<longleftrightarrow>
     (rc_key_id (lic_rec l) = None \<or> rc_entered_at (lic_rec l) \<noteq> None) \<and>
     (case lic_key l of None \<Rightarrow> True | Some k \<Rightarrow> rc_key_id (lic_rec l) = Some (lk_key_id k))"
  by (auto simp: license_inv_def record_wf_def split: option.split)

lemma spent_code [code]:
  "spent C k a l \<longleftrightarrow>
     (let r = lic_rec l in
      rc_key_id r = Some (lk_key_id k) \<and> rc_entered_at r \<noteq> None \<and>
      verified_answer (answer_ok C) r = Some a \<and>
      (case lic_key l of None \<Rightarrow> True | Some k' \<Rightarrow> lk_key_id k' = lk_key_id k) \<and>
      st_edition (record_status (answer_ok C) r (Some k) (rc_clock_high r)) = Free)"
  by (simp add: spent_def Let_def split: option.split)

lemma demo_license_key [simp]: "license_inv demo_license" "lic_key demo_license = Some demo_key"
  by code_simp+

lemma demo_license_record [simp]:
  "verified_answer (answer_ok demo_crypto) (lic_rec demo_license) = None"
  "rc_unknown (lic_rec demo_license) = None" "rc_entered_at (lic_rec demo_license) = Some 1770500000"
  "rc_clock_high (lic_rec demo_license) = 1770500000" "rc_last_attempt (lic_rec demo_license) = None"
  "rc_failures (lic_rec demo_license) = 0"
  by code_simp+

lemma demo_key_parse [simp]: "key_parse demo_crypto demo_text = Inr demo_key"
  by code_simp

section \<open>Properties\<close>

text \<open>
  C2: Pro drops in exactly two cases. With a key in use, the edition is Free exactly when the
  newest signed answer says the subscription is over (ended, or cancelled and its paid period is
  over), or when the 30 days are over: 30 days after the newest signed answer, and before the
  first one 30 days after the key was entered, with the key's paid period as a ceiling unless the
  service has answered that it does not know the key.
\<close>

theorem pro_drops_in_two_cases:
  assumes "license_inv l" "lic_key l = Some k"
  shows "license_edition C l clock = Free \<longleftrightarrow>
     (let now = record_now (answer_ok C) (lic_rec l) clock in
      (case verified_answer (answer_ok C) (lic_rec l) of
         Some a \<Rightarrow>
           ap_state a = Ended \<or>
           (ap_state a = Cancelled \<and> (\<exists>e. ap_ends_at a = Some e \<and> e \<le> now)) \<or>
           i64_sat_add (ap_as_of a) grace \<le> now
       | None \<Rightarrow>
           (let e = the (rc_entered_at (lic_rec l)) in
            if (\<exists>u. verified_unknown (answer_ok C) (lic_rec l) = Some u \<and> e \<le> ap_as_of u)
            then i64_sat_add e grace \<le> now
            else i64_sat_add (min e (kp_paid_through (lk_payload k))) grace \<le> now)))"
proof -
  let ?vf = "answer_ok C" and ?r = "lic_rec l"
  obtain e where r: "rc_key_id ?r = Some (lk_key_id k)" and e: "rc_entered_at ?r = Some e"
    using assms by (auto simp: license_inv_def record_wf_def)
  note iff = status_Free_iff [OF r, of ?vf clock]
  show ?thesis
  proof (cases "verified_answer ?vf ?r")
    case None
    then show ?thesis
      using iff grace_ends_without_answer [OF None e, of k clock] e
      by (auto simp: license_ops assms(2) says_over_def split: option.splits)
  next
    case (Some a)
    then show ?thesis
      using iff grace_ends_with_answer [OF Some, of k clock]
      by (auto simp: license_ops assms(2) says_over_def split: option.splits)
  qed
qed

theorem pro_drops_in_two_cases_witness:
  "license_inv demo_license \<and> lic_key demo_license = Some demo_key \<and>
   license_edition demo_crypto demo_license (1770500000 + grace) = Free"
  using pro_drops_in_two_cases [OF demo_license_key, of demo_crypto "1770500000 + grace"]
  by (simp add: record_now_def width_simps grace_def day_def)

text \<open>
  C3: Once a subscription is over for Plenipo, nothing but a newer signed answer brings Pro back:
  no clock reading (forward or wound back), failed check, forged or unreadable answer, replayed
  answer (an older one, or the newest one itself), "unknown" answer, removal of the key or typing the
  same key in again does.
\<close>

theorem no_way_back_to_pro:
  assumes "spent C k a l" "list_all (nothing_new C (lk_key_id k) a) evs"
  shows "license_edition C (lic_run C l evs) clock = Free"
proof -
  have s: "spent C k a (lic_run C l evs)"
    unfolding lic_run_def using assms by (rule spent.run_inv)
  show ?thesis
  proof (cases "lic_key (lic_run C l evs)")
    case None
    then show ?thesis by (simp add: license_ops record_status_def status_free_def)
  next
    case (Some k')
    with s have "lk_key_id k' = lk_key_id k" by (simp add: spent_def Let_def)
    from spent_Free [OF s this] Some show ?thesis by (simp add: license_ops)
  qed
qed

theorem no_way_back_to_pro_witness:
  "license_edition demo_crypto
     (lic_run demo_crypto demo_spent
        [EvClock 1, EvAnswered [65] 1775000200, EvAnswered [69] 1, EvAnswered [85] 1775000300, EvRemove,
         EvEnter demo_text 5, EvFailed ''no internet'' 1775000400]) 1771000000 = Free \<and>
   license_edition demo_crypto
     (lic_run demo_crypto demo_lapsed [EvAnswered [65] 1771000000]) 1771000000 = Free"
proof
  show "license_edition demo_crypto
     (lic_run demo_crypto demo_spent
        [EvClock 1, EvAnswered [65] 1775000200, EvAnswered [69] 1, EvAnswered [85] 1775000300, EvRemove,
         EvEnter demo_text 5, EvFailed ''no internet'' 1775000400]) 1771000000 = Free"
    by (rule no_way_back_to_pro [where k = demo_key and a = "demo_answer Ended 1775000000"]) code_simp+
  show "license_edition demo_crypto
     (lic_run demo_crypto demo_lapsed [EvAnswered [65] 1771000000]) 1771000000 = Free"
    by (rule no_way_back_to_pro [where k = demo_key and a = "demo_answer Active 1771000000"]) code_simp+
qed

lemma failed_check_cases:
  assumes "license_inv l" "lic_key l = Some k"
  shows "license_status C (fst (license_failed l why clock)) clock = license_status C l clock"
    and "answer_accept C body (lk_key_id k) = Inl e \<Longrightarrow>
      license_status C (fst (license_answered C l body clock)) clock = license_status C l clock"
    and "answer_accept C body (lk_key_id k) = Inr (sa, p) \<Longrightarrow> ap_state p = Unknown \<Longrightarrow>
      license_edition C l clock = Pro \<Longrightarrow>
      license_edition C (fst (license_answered C l body clock)) clock = Pro"
proof -
  show "license_status C (fst (license_failed l why clock)) clock = license_status C l clock"
    by (simp add: license_ops status_after_failed)
  show "license_status C (fst (license_answered C l body clock)) clock = license_status C l clock"
    if "answer_accept C body (lk_key_id k) = Inl e"
    using that assms(2) by (simp add: license_ops status_after_failed Let_def)
  show "license_edition C (fst (license_answered C l body clock)) clock = Pro"
    if a: "answer_accept C body (lk_key_id k) = Inr (sa, p)" "ap_state p = Unknown"
      and pro: "license_edition C l clock = Pro"
  proof -
    have p: "answer_ok C sa = Some p" "ap_key_id p = lk_key_id k"
      using answer_accept_Inr [OF a(1)] by (simp_all add: answer_ok_Some)
    have r: "rc_key_id (lic_rec l) = Some (ap_key_id p)" "rc_entered_at (lic_rec l) \<noteq> None"
      using assms p(2) by (auto simp: license_inv_def record_wf_def)
    have "st_edition (record_status (answer_ok C)
        (record_succeeded (answer_ok C) (lic_rec l) sa p clock) (Some k) clock) = Pro"
      using status_after_unknown [of "answer_ok C", OF p(1) r(1) a(2) p(2) [symmetric] r(2)] pro
        assms(2) by (simp add: license_ops)
    with a(1) assms(2) show ?thesis by (simp add: license_ops)
  qed
qed

text \<open>
  A check that fails never changes Free or Pro by itself: no internet, the service down, or a
  body that does not check leave the whole status at that moment as it was, and an "unknown"
  answer leaves Pro on.
\<close>

theorem failed_check_changes_nothing:
  assumes "license_inv l" "lic_key l = Some k"
  shows "license_status C (fst (license_failed l why clock)) clock = license_status C l clock \<and>
    (case answer_accept C body (lk_key_id k) of
       Inl e \<Rightarrow>
         license_status C (fst (license_answered C l body clock)) clock = license_status C l clock
     | Inr (sa, p) \<Rightarrow>
         ap_state p = Unknown \<longrightarrow> license_edition C l clock = Pro \<longrightarrow>
         license_edition C (fst (license_answered C l body clock)) clock = Pro)"
  using failed_check_cases [OF assms, of C] by (auto split: sum.split)

theorem failed_check_changes_nothing_witness:
  "license_status demo_crypto (fst (license_failed demo_license ''offline'' 1771000000)) 1771000000
     = license_status demo_crypto demo_license 1771000000 \<and>
   license_status demo_crypto (fst (license_answered demo_crypto demo_license [1] 1771000000))
     1771000000 = license_status demo_crypto demo_license 1771000000 \<and>
   license_edition demo_crypto (fst (license_answered demo_crypto demo_license [85] 1771000000))
     1771000000 = Pro"
proof -
  note holds = failed_check_changes_nothing [OF demo_license_key, of demo_crypto]
  have a: "answer_accept demo_crypto [1] (lk_key_id demo_key) = Inl AnsUnreadable"
    and u: "answer_accept demo_crypto [85] (lk_key_id demo_key) =
      Inr (\<lparr> sa_answer = ''U'', sa_signature = replicate 64 CHR ''A'' \<rparr>,
           demo_answer Unknown 1776000000)"
    and p: "license_edition demo_crypto demo_license 1771000000 = Pro"
    and s: "ap_state (demo_answer Unknown 1776000000) = Unknown"
    by code_simp+
  show ?thesis
    using holds [of "''offline''" 1771000000 "[1]"] holds [of "''offline''" 1771000000 "[85]"]
    by (simp only: a u p s sum.case prod.case simp_thms)
qed

text \<open>
  A signed answer that says the subscription is active and is newer than the one kept brings
  Pro at once, even on a PC whose clock was once set ahead: the newer answer's own time replaces
  the time Plenipo had seen.
\<close>

theorem newer_active_answer_brings_pro:
  assumes "license_inv l" "lic_key l = Some k"
    and "answer_accept C body (lk_key_id k) = Inr (sa, p)" "ap_state p = Active"
    and "\<forall>a. verified_answer (answer_ok C) (lic_rec l) = Some a \<longrightarrow> ap_as_of a < ap_as_of p"
    and "clock < ap_as_of p + grace" "is_i64 (ap_as_of p + grace)"
  shows "license_edition C (fst (license_answered C l body clock)) clock = Pro"
proof -
  have p: "answer_ok C sa = Some p" "ap_key_id p = lk_key_id k"
    using answer_accept_Inr [OF assms(3)] by (simp_all add: answer_ok_Some)
  have r: "rc_key_id (lic_rec l) = Some (ap_key_id p)"
    using assms(1,2) p(2) by (simp add: license_inv_def)
  have n: "case verified_answer (answer_ok C) (lic_rec l) of
      None \<Rightarrow> True | Some a \<Rightarrow> ap_as_of a < ap_as_of p"
    using assms(5) by (simp split: option.split)
  have "st_edition (record_status (answer_ok C)
      (record_succeeded (answer_ok C) (lic_rec l) sa p clock) (Some k) clock) = Pro"
    by (rule status_after_newer_active [of "answer_ok C", OF p(1) r assms(4) n p(2) [symmetric]
          ans.checked_as_of_pos [OF p(1)] assms(7,6)])
  with assms(2,3) show ?thesis by (simp add: license_ops)
qed

theorem newer_active_answer_brings_pro_witness:
  "license_edition demo_crypto demo_spent 1779000000 = Free \<and>
   license_edition demo_crypto (fst (license_answered demo_crypto demo_spent [66] 1779000000))
     1779000000 = Pro"
proof
  show "license_edition demo_crypto demo_spent 1779000000 = Free"
    by code_simp
  have l: "license_inv demo_spent" "lic_key demo_spent = Some demo_key"
    and v: "verified_answer (answer_ok demo_crypto) (lic_rec demo_spent) =
      Some (demo_answer Ended 1775000000)"
    and a: "answer_accept demo_crypto [66] (lk_key_id demo_key) =
      Inr (\<lparr> sa_answer = ''B'', sa_signature = replicate 64 CHR ''A'' \<rparr>,
           demo_answer Active 1779000000)"
    by code_simp+
  show "license_edition demo_crypto
      (fst (license_answered demo_crypto demo_spent [66] 1779000000)) 1779000000 = Pro"
    by (rule newer_active_answer_brings_pro [OF l a])
      (use v in \<open>simp_all add: demo_answer_def width_simps grace_def day_def\<close>)
qed

text \<open>
  Losing the record loses nothing a paying owner needs. A record restored from its copy in
  the Vault, after the record in the data folder was deleted, gives the same status as the record
  that was lost.
\<close>

theorem lost_record_is_restored:
  assumes "license_inv l" "lic_key l = Some k"
    and "the (rc_entered_at (lic_rec l)) \<le> clock" "rc_clock_high (lic_rec l) \<le> clock" "0 \<le> clock"
    and "\<forall>a. verified_answer (answer_ok C) (lic_rec l) = Some a \<longrightarrow> ap_state a \<noteq> Unknown"
    and "rc_unknown (lic_rec l) = None"
  shows "license_status C
           (license_restore C (l\<lparr>lic_rec := record_default\<rparr>)
              (record_copy_of (answer_ok C) (lic_rec l)) (lk_key_id k) clock) clock
         = license_status C l clock"
proof -
  obtain e where "rc_key_id (lic_rec l) = Some (lk_key_id k)" "rc_entered_at (lic_rec l) = Some e"
    using assms(1,2) by (auto simp: license_inv_def record_wf_def)
  then show ?thesis
    using status_after_lost_record [of "lic_rec l" "lk_key_id k" e clock "answer_ok C"] assms
    by (simp add: license_ops license_restore_def)
qed

theorem lost_record_is_restored_witness:
  "license_status demo_crypto
     (license_restore demo_crypto (demo_license\<lparr>lic_rec := record_default\<rparr>)
        (record_copy_of (answer_ok demo_crypto) (lic_rec demo_license)) (lk_key_id demo_key)
        1771000000) 1771000000
   = license_status demo_crypto demo_license 1771000000"
  by (rule lost_record_is_restored [OF demo_license_key]) simp_all

text \<open>
  Removing the key and typing it in again carries on where it was: the status afterwards is the
  one before, so the 30 days never start again and an "ended" is never forgotten.
\<close>

theorem reentered_key_carries_on:
  assumes "license_inv l" "lic_key l = Some k" "key_parse C t = Inr k" "clock \<le> later"
  shows "license_status C (fst (license_enter C (fst (license_remove l)) t clock)) later
           = license_status C l later"
  using assms by (simp add: license_ops license_inv_def Let_def status_after_saw_clock max_absorb2)

theorem reentered_key_carries_on_witness:
  "license_status demo_crypto
     (fst (license_enter demo_crypto (fst (license_remove demo_license)) demo_text 1772000000))
     1773000000
   = license_status demo_crypto demo_license 1773000000"
  by (rule reentered_key_carries_on [OF demo_license_key]) simp_all

lemma check_due_cases:
  assumes "license_inv l" "lic_key l = Some k"
  shows "rc_last_attempt (lic_rec l) = None \<Longrightarrow> is_i64 clock \<Longrightarrow> check_due l clock"
    and "rc_last_attempt (lic_rec l) = Some tried \<Longrightarrow> i64_sat_add tried every \<le> clock \<Longrightarrow>
           check_due l clock"
    and "rc_last_attempt (lic_rec l) = Some tried \<Longrightarrow> 0 < rc_failures (lic_rec l) \<Longrightarrow>
           i64_sat_add tried day \<le> clock \<Longrightarrow> check_due l clock"
    and "rc_last_attempt (lic_rec l) = Some tried \<Longrightarrow> check_due l clock \<Longrightarrow>
           i64_sat_add tried 3600 \<le> clock \<or> i64_sat_add clock 3600 < tried"
proof -
  have key: "rc_key_id (lic_rec l) = Some (lk_key_id k)"
    using assms by (simp add: license_inv_def)
  show "check_due l clock" if "rc_last_attempt (lic_rec l) = None" "is_i64 clock"
    using that assms(2) key by (simp add: check_due_def next_check_def is_i64_def)
  show "check_due l clock"
    if "rc_last_attempt (lic_rec l) = Some tried" "i64_sat_add tried every \<le> clock"
    using that assms(2) key next_check_bounds [OF that(1)]
    by (force simp: check_due_def next_check_def Let_def)
  show "check_due l clock"
    if t: "rc_last_attempt (lic_rec l) = Some tried" "0 < rc_failures (lic_rec l)"
      "i64_sat_add tried day \<le> clock"
  proof -
    let ?i = "min (rc_failures (lic_rec l) - 1) (length retry_after - 1)"
    have "?i < length retry_after" by (simp add: retry_after_def)
    then have "i64_sat_add tried (retry_after ! ?i) \<le> i64_sat_add tried day"
      using retry_after_bounds by (intro i64_sat_add_mono) simp_all
    with t assms(2) key show ?thesis by (simp add: check_due_def next_check_def Let_def)
  qed
  show "i64_sat_add tried 3600 \<le> clock \<or> i64_sat_add clock 3600 < tried"
    if "rc_last_attempt (lic_rec l) = Some tried" "check_due l clock"
    using that next_check_bounds [OF that(1)]
    by (force simp: check_due_def split: option.splits)
qed

text \<open>
  A Pro copy keeps checking in. With a key in use a check is due at once when none was tried,
  when seven days have passed since the last one, and, after failed checks, when a day has; and
  never less than an hour after the last try, unless the clock was set back past it.
\<close>

theorem check_due_bounds:
  assumes "license_inv l" "lic_key l = Some k" "is_i64 clock"
  shows "case rc_last_attempt (lic_rec l) of
       None \<Rightarrow> check_due l clock
     | Some tried \<Rightarrow>
         (i64_sat_add tried every \<le> clock \<longrightarrow> check_due l clock) \<and>
         (0 < rc_failures (lic_rec l) \<and> i64_sat_add tried day \<le> clock \<longrightarrow> check_due l clock) \<and>
         (check_due l clock \<longrightarrow>
            i64_sat_add tried 3600 \<le> clock \<or> i64_sat_add clock 3600 < tried)"
  using check_due_cases [OF assms(1,2)] assms(3) by (simp split: option.split)

theorem check_due_bounds_witness:
  "check_due demo_license 1770500000 \<and>
   (let l = fst (license_failed demo_license ''offline'' 1770500000) in
    check_due l (1770500000 + every) \<and> check_due l (1770500000 + day) \<and>
    \<not> check_due l (1770500000 + 3599))"
proof -
  let ?l = "fst (license_failed demo_license ''offline'' 1770500000)"
  have inv: "license_inv ?l" "lic_key ?l = Some demo_key"
    using license_step_inv [of demo_license demo_crypto "EvFailed ''offline'' 1770500000"]
    by (simp_all add: license_failed_def)
  have tried: "rc_last_attempt (lic_rec ?l) = Some 1770500000" "rc_failures (lic_rec ?l) = 1"
    by (simp_all add: license_failed_def record_failed_def record_simps width_simps Let_def)
  note first = check_due_bounds [OF demo_license_key, of 1770500000]
  note later = check_due_bounds [OF inv, unfolded tried option.case]
  have "check_due demo_license 1770500000"
    using first by (simp add: width_simps)
  moreover have "check_due ?l (1770500000 + every)"
    using later [of "1770500000 + every"] by (simp add: every_def day_def width_simps)
  moreover have "check_due ?l (1770500000 + day)"
    using later [of "1770500000 + day"] by (simp add: day_def width_simps)
  moreover have "\<not> check_due ?l (1770500000 + 3599)"
    using later [of "1770500000 + 3599"] by (auto simp: width_simps)
  ultimately show ?thesis by (simp add: Let_def)
qed

section \<open>Keys and answers that check\<close>

text \<open>
  What the service's side relies on of the third-party code: base64 texts decode to what was
  encoded and use the URL-safe alphabet, and a signature made with the signing key \<open>sk\<close> is 64
  bytes and verifies under the trusted key of \<open>signer\<close>.
\<close>

definition b64_laws :: "crypto \<Rightarrow> byte list \<Rightarrow> bool" where
  "b64_laws C bs \<longleftrightarrow>
     b64_decode C (b64_encode C bs) = Some bs \<and> b64_encode C bs \<noteq> [] \<and>
     list_all is_b64_char (b64_encode C bs)"

definition signs :: "crypto \<Rightarrow> byte list \<Rightarrow> string \<Rightarrow> byte list \<Rightarrow> bool" where
  "signs C sk signer msg \<longleftrightarrow>
     (case trust_find C signer of
        None \<Rightarrow> False
      | Some pub \<Rightarrow>
          ed_verify_strict C pub msg (ed_sign C sk msg) \<and> length (ed_sign C sk msg) = 64 \<and>
          b64_laws C (ed_sign C sk msg))"

lemma codec_decode_encode: "b64_laws C bs \<Longrightarrow> codec_decode C (b64_encode C bs) = Some bs"
  by (simp add: b64_laws_def codec_decode_def)

lemma codec_verify_sign:
  "signs C sk signer (message ctx p) \<Longrightarrow> codec_verify C ctx p (codec_sign C ctx p sk) signer = Inr ()"
  by (auto simp: signs_def codec_verify_def codec_sign_def codec_decode_encode split: option.splits)

lemma is_b64_char_plain: "is_b64_char c \<Longrightarrow> \<not> is_whitespace c \<and> c \<noteq> CHR ''.''"
  by (auto simp: is_b64_char_def text_simps)

lemma split_on_pair:
  "list_all is_b64_char p \<Longrightarrow> list_all is_b64_char q \<Longrightarrow> split_on CHR ''.'' (p @ ''.'' @ q) = [p, q]"
proof (induction p)
  case Nil
  then have "\<forall>c \<in> set q. c \<noteq> CHR ''.''" by (auto simp: list_all_iff dest: is_b64_char_plain)
  then show ?case by (simp add: split_on_def split_chars_none)
next
  case (Cons c p)
  then show ?case by (auto simp: split_on_def dest: is_b64_char_plain)
qed

lemma normalize_append: "normalize (s @ t) = normalize s @ normalize t"
  by (simp add: normalize_def)

lemma normalize_b64: "list_all is_b64_char s \<Longrightarrow> normalize s = s"
  using is_b64_char_plain by (auto simp: normalize_def filter_id_conv list_all_iff)

lemma normalize_fixed: "normalize key_prefix = key_prefix" "normalize ''.'' = ''.''"
  by code_simp+

lemma key_parse_plain:
  assumes "normalize t = t" "byte_len t \<le> max_key_chars" "t = key_prefix @ rest"
    and "split_on CHR ''.'' rest = [p, s]"
  shows "key_parse C t = key_check C t p s"
proof -
  have "strip_prefix key_prefix t = Some rest" using assms(3) by (simp add: strip_prefix_Some)
  with assms(1,2,4) show ?thesis by (simp add: key_parse_def)
qed

text \<open>
  C18: Every key Plenipo accepts was signed by 8 West. In a release build, a text is accepted as a
  license key only when its second part is a valid signature, by one of the two production keys
  built in, of exactly the text of its first part under the license-key context; what the key is taken
  to say is what that signed first part says, in version 1; and it makes sense.
\<close>

theorem accepted_key_is_signed:
  assumes "key_parse C input = Inr k" "\<not> built_for_tests C"
  shows "\<exists>p s sig pub.
     normalize input = key_prefix @ p @ ''.'' @ s \<and> lk_text k = normalize input \<and>
     (kp_signer (lk_payload k), pub) \<in> set production \<and>
     codec_decode C s = Some sig \<and> length sig = 64 \<and>
     ed_verify_strict C pub (message key_context p) sig \<and>
     (\<exists>bytes. codec_decode C p = Some bytes \<and> json_key C bytes = Some (Some 1, Some (lk_payload k))) \<and>
     is_key_id (lk_key_id k) \<and> lk_organizations k \<noteq> Some 0 \<and>
     0 < kp_issued_at (lk_payload k) \<and> kp_issued_at (lk_payload k) \<le> kp_paid_through (lk_payload k)"
proof -
  from assms(1) obtain p s where ps: "normalize input = key_prefix @ p @ ''.'' @ s"
    "key_check C (normalize input) p s = Inr k"
    by (rule key_parse_Inr)
  note k = key_check_Inr [OF ps(2)]
  from k(4) obtain sig pub where "codec_decode C s = Some sig" "length sig = 64"
    "trust_find C (kp_signer (lk_payload k)) = Some pub"
    "ed_verify_strict C pub (message key_context p) sig"
    by (rule codec_verify_Inr)
  moreover from this(3) have "(kp_signer (lk_payload k), pub) \<in> set production"
    by (rule trust_find_release [OF assms(2)])
  ultimately show ?thesis using ps(1) k by blast
qed

definition release_crypto :: crypto where
  "release_crypto =
     demo_crypto\<lparr>built_for_tests := False,
       json_key := (\<lambda>_. Some (Some 1, Some (demo_payload\<lparr>kp_signer := ''prod-2''\<rparr>)))\<rparr>"

theorem accepted_key_is_signed_witness:
  "key_parse release_crypto demo_text =
     Inr (demo_key\<lparr>lk_payload := demo_payload\<lparr>kp_signer := ''prod-2''\<rparr>\<rparr>) \<and>
   (\<exists>pub. (''prod-2'', pub) \<in> set production \<and>
     (\<exists>p sig. ed_verify_strict release_crypto pub (message key_context p) sig))"
proof -
  have a: "key_parse release_crypto demo_text =
      Inr (demo_key\<lparr>lk_payload := demo_payload\<lparr>kp_signer := ''prod-2''\<rparr>\<rparr>)"
    by code_simp
  have b: "\<not> built_for_tests release_crypto" by code_simp
  from accepted_key_is_signed [OF a b] have "\<exists>pub. (''prod-2'', pub) \<in> set production \<and>
      (\<exists>p sig. ed_verify_strict release_crypto pub (message key_context p) sig)"
    by auto
  with a show ?thesis by blast
qed

text \<open>
  C19: A minted key is accepted, and read back as it was written: for a payload that makes sense,
  signed with the key that its signer's trusted public key belongs to, the key text is at most
  2,048 bytes, and checking it gives the payload.
\<close>

theorem minted_key_parses:
  assumes "signs C sk (kp_signer p) (message key_context (b64_encode C (json_key_write C p)))"
    and "b64_laws C (json_key_write C p)" "json_key C (json_key_write C p) = Some (Some 1, Some p)"
    and "key_says (mint C p sk) p = Inr k" "byte_len (mint C p sk) \<le> max_key_chars"
  shows "key_parse C (mint C p sk) = Inr k \<and> lk_payload k = p \<and> lk_text k = mint C p sk"
proof -
  let ?p = "b64_encode C (json_key_write C p)"
  let ?s = "codec_sign C key_context ?p sk"
  have t: "mint C p sk = key_prefix @ ?p @ ''.'' @ ?s"
    by (simp add: mint_def Let_def)
  have b: "list_all is_b64_char ?p" "list_all is_b64_char ?s"
    using assms(1,2) by (auto simp: b64_laws_def signs_def codec_sign_def split: option.splits)
  have n: "normalize (mint C p sk) = mint C p sk"
    unfolding t normalize_append normalize_b64 [OF b(1)] normalize_b64 [OF b(2)] normalize_fixed ..
  have "key_check C (mint C p sk) ?p ?s = Inr k"
    using assms(3,4) codec_decode_encode [OF assms(2)] codec_verify_sign [OF assms(1)]
    by (simp add: key_check_def)
  then have "key_parse C (mint C p sk) = Inr k"
    using key_parse_plain [OF n assms(5) t split_on_pair [OF b]] by simp
  with key_says_Inr [OF assms(4)] show ?thesis by simp
qed

theorem minted_key_parses_witness:
  "key_parse demo_crypto (mint demo_crypto demo_payload [1]) = Inr demo_key \<and>
   mint demo_crypto demo_payload [1] = demo_text"
proof -
  have "key_parse demo_crypto (mint demo_crypto demo_payload [1]) = Inr demo_key \<and>
      lk_payload demo_key = demo_payload \<and> lk_text demo_key = mint demo_crypto demo_payload [1]"
    by (rule minted_key_parses) code_simp+
  then show ?thesis by (simp add: demo_key_def)
qed

text \<open>
  A signed answer is accepted for its key, and for no other: what the service signs and
  sends is read back as it was written, and asked about any other key it is refused.
\<close>

theorem signed_answer_accepted:
  assumes "signs C sk (ap_signer p) (message answer_context (b64_encode C (json_answer_write C p)))"
    and "b64_laws C (json_answer_write C p)" "json_answer C (json_answer_write C p) = Some p"
    and "json_signed C (answer_body C (answer_sign C p sk)) = Some (answer_sign C p sk)"
    and "sensible p" "length (answer_body C (answer_sign C p sk)) \<le> max_answer_bytes"
  shows "answer_accept C (answer_body C (answer_sign C p sk)) kid =
     (if kid = ap_key_id p then Inr (answer_sign C p sk, p) else Inl AnsOtherKey)"
proof -
  have "answer_verify C (answer_sign C p sk) = Inr p"
    using assms(3,5) codec_decode_encode [OF assms(2)] codec_verify_sign [OF assms(1)]
    by (simp add: answer_verify_def answer_sign_def Let_def)
  with assms(4,6) show ?thesis by (simp add: answer_accept_def)
qed

theorem signed_answer_accepted_witness:
  "answer_accept demo_crypto
     (answer_body demo_crypto (answer_sign demo_crypto (demo_answer Active 1771000000) [1])) ''other'' =
   Inl AnsOtherKey"
proof -
  have "answer_accept demo_crypto
      (answer_body demo_crypto (answer_sign demo_crypto (demo_answer Active 1771000000) [1])) ''other'' =
    (if ''other'' = ap_key_id (demo_answer Active 1771000000)
     then Inr (answer_sign demo_crypto (demo_answer Active 1771000000) [1], demo_answer Active 1771000000)
     else Inl AnsOtherKey)"
    by (rule signed_answer_accepted) code_simp+
  then show ?thesis by (simp add: demo_answer_def demo_id_def)
qed

end
