(* ===== verification/Store.thy ===== *)
theory Store
  imports Prelude "HOL-Library.AList"
begin

text \<open>
  Keyed tables. A Rust \<open>HashMap\<close> or \<open>BTreeMap\<close> is an association list whose keys are
  distinct (\<open>wf_store\<close>): the list gives the order in which the source iterates, which Rust
  leaves open for a hash map, so every law below holds for every order. The locale
  \<open>keyed_store\<close> is the contract the components rely on (what a lookup returns after each
  operation, and that each operation keeps the keys distinct); the interpretation \<open>hm\<close> shows
  that the association lists provide it. \<open>tally\<close> sums a weight over a table: the counters
  the sources keep beside a table are stated with it.
\<close>

type_synonym ('k, 'v) store = "('k \<times> 'v) list"

section \<open>Operations\<close>

definition get :: "('k, 'v) store \<Rightarrow> 'k \<Rightarrow> 'v option" where
  "get m k = map_of m k"

definition put :: "'k \<Rightarrow> 'v \<Rightarrow> ('k, 'v) store \<Rightarrow> ('k, 'v) store" where
  "put k v m = AList.update k v m"

definition del :: "'k \<Rightarrow> ('k, 'v) store \<Rightarrow> ('k, 'v) store" where
  "del k m = filter (\<lambda>p. fst p \<noteq> k) m"

text \<open>\<open>get_mut\<close> followed by a change in place: nothing happens to an absent key.\<close>

definition modify :: "'k \<Rightarrow> ('v \<Rightarrow> 'v) \<Rightarrow> ('k, 'v) store \<Rightarrow> ('k, 'v) store" where
  "modify k f m = map (\<lambda>(k', v). if k' = k then (k', f v) else (k', v)) m"

text \<open>\<open>entry(k).or_default()\<close> followed by a change in place.\<close>

definition entry :: "'v \<Rightarrow> 'k \<Rightarrow> ('v \<Rightarrow> 'v) \<Rightarrow> ('k, 'v) store \<Rightarrow> ('k, 'v) store" where
  "entry d k f m = put k (f (case get m k of None \<Rightarrow> d | Some v \<Rightarrow> v)) m"

definition retain :: "('k \<Rightarrow> 'v \<Rightarrow> bool) \<Rightarrow> ('k, 'v) store \<Rightarrow> ('k, 'v) store" where
  "retain p m = filter (\<lambda>(k, v). p k v) m"

definition keys :: "('k, 'v) store \<Rightarrow> 'k set" where
  "keys m = fst ` set m"

definition wf_store :: "('k, 'v) store \<Rightarrow> bool" where
  "wf_store m \<longleftrightarrow> distinct (map fst m)"

definition tally :: "('v \<Rightarrow> nat) \<Rightarrow> ('k, 'v) store \<Rightarrow> nat" where
  "tally f m = sum_list (map (\<lambda>p. f (snd p)) m)"

text \<open>The weight of one key's entry: 0 where there is none.\<close>

definition weight :: "('v \<Rightarrow> nat) \<Rightarrow> 'v option \<Rightarrow> nat" where
  "weight f x = (case x of None \<Rightarrow> 0 | Some v \<Rightarrow> f v)"

lemma weight_simps [simp]: "weight f None = 0" "weight f (Some v) = f v"
  by (simp_all add: weight_def)

section \<open>The contract\<close>

locale keyed_store =
  fixes lookup :: "'m \<Rightarrow> 'k \<Rightarrow> 'v option"
    and insert_at :: "'k \<Rightarrow> 'v \<Rightarrow> 'm \<Rightarrow> 'm"
    and remove_at :: "'k \<Rightarrow> 'm \<Rightarrow> 'm"
    and change_at :: "'k \<Rightarrow> ('v \<Rightarrow> 'v) \<Rightarrow> 'm \<Rightarrow> 'm"
    and keep_where :: "('k \<Rightarrow> 'v \<Rightarrow> bool) \<Rightarrow> 'm \<Rightarrow> 'm"
    and invar :: "'m \<Rightarrow> bool"
  assumes lookup_insert:
      "lookup (insert_at k v m) k' = (if k' = k then Some v else lookup m k')"
    and lookup_remove: "lookup (remove_at k m) k' = (if k' = k then None else lookup m k')"
    and lookup_change:
      "lookup (change_at k f m) k' =
         (if k' = k then map_option f (lookup m k) else lookup m k')"
    and lookup_keep:
      "invar m \<Longrightarrow>
         lookup (keep_where p m) k =
           (case lookup m k of None \<Rightarrow> None | Some v \<Rightarrow> if p k v then Some v else None)"
    and invar_insert: "invar m \<Longrightarrow> invar (insert_at k v m)"
    and invar_remove: "invar m \<Longrightarrow> invar (remove_at k m)"
    and invar_change: "invar m \<Longrightarrow> invar (change_at k f m)"
    and invar_keep: "invar m \<Longrightarrow> invar (keep_where p m)"
begin

lemma lookup_insert_same [simp]: "lookup (insert_at k v m) k = Some v"
  by (simp add: lookup_insert)

lemma lookup_insert_other: "k' \<noteq> k \<Longrightarrow> lookup (insert_at k v m) k' = lookup m k'"
  by (simp add: lookup_insert)

lemma lookup_remove_same [simp]: "lookup (remove_at k m) k = None"
  by (simp add: lookup_remove)

lemma lookup_keep_Some:
  "invar m \<Longrightarrow> lookup (keep_where p m) k = Some v \<longleftrightarrow> lookup m k = Some v \<and> p k v"
  by (auto simp: lookup_keep split: option.splits)

lemma lookup_keep_subset:
  "invar m \<Longrightarrow> lookup (keep_where p m) k = Some v \<Longrightarrow> lookup m k = Some v"
  by (simp add: lookup_keep_Some)

lemmas store_laws =
  lookup_insert lookup_remove lookup_change lookup_keep
  invar_insert invar_remove invar_change invar_keep

end

section \<open>Association lists provide it\<close>

lemma map_of_filter_wf:
  "distinct (map fst m) \<Longrightarrow>
     map_of (filter (\<lambda>(k, v). p k v) m) k =
       (case map_of m k of None \<Rightarrow> None | Some v \<Rightarrow> if p k v then Some v else None)"
proof (induction m)
  case (Cons a m)
  obtain k' v' where a: "a = (k', v')" by (cases a)
  show ?case
  proof (cases "k' = k")
    case True
    with Cons.prems a have "map_of m k = None" by (simp add: map_of_eq_None_iff)
    with Cons a True show ?thesis by simp
  qed (use Cons a in simp)
qed simp

lemma keys_filter_subset: "set (map fst (filter p m)) \<subseteq> set (map fst m)"
  by auto

lemma get_put [simp]: "get (put k v m) k' = (if k' = k then Some v else get m k')"
  by (simp add: get_def put_def update_conv)

lemma get_del [simp]: "get (del k m) k' = (if k' = k then None else get m k')"
  by (induction m) (auto simp: get_def del_def)

lemma get_modify [simp]:
  "get (modify k f m) k' = (if k' = k then map_option f (get m k) else get m k')"
  by (induction m) (auto simp: get_def modify_def)

lemma get_retain:
  "wf_store m \<Longrightarrow>
     get (retain p m) k =
       (case get m k of None \<Rightarrow> None | Some v \<Rightarrow> if p k v then Some v else None)"
  by (simp add: get_def retain_def wf_store_def map_of_filter_wf)

lemma get_entry [simp]:
  "get (entry d k f m) k' =
     (if k' = k then Some (f (case get m k of None \<Rightarrow> d | Some v \<Rightarrow> v)) else get m k')"
  by (simp add: entry_def)

lemma get_empty [simp]: "get [] k = None"
  by (simp add: get_def)

lemma map_fst_modify [simp]: "map fst (modify k f m) = map fst m"
  by (induction m) (auto simp: modify_def)

lemma wf_store_empty [simp]: "wf_store []"
  by (simp add: wf_store_def)

lemma wf_store_put [simp]: "wf_store m \<Longrightarrow> wf_store (put k v m)"
  by (simp add: wf_store_def put_def distinct_update)

lemma wf_store_filter: "wf_store m \<Longrightarrow> wf_store (filter p m)"
  by (simp add: wf_store_def distinct_map_filter)

lemma wf_store_del [simp]: "wf_store m \<Longrightarrow> wf_store (del k m)"
  by (simp add: del_def wf_store_filter)

lemma wf_store_modify [simp]: "wf_store m \<Longrightarrow> wf_store (modify k f m)"
  by (simp add: wf_store_def)

lemma wf_store_retain [simp]: "wf_store m \<Longrightarrow> wf_store (retain p m)"
  by (simp add: retain_def wf_store_filter)

lemma wf_store_entry [simp]: "wf_store m \<Longrightarrow> wf_store (entry d k f m)"
  by (simp add: entry_def)

interpretation hm: keyed_store get put del modify retain wf_store
  by unfold_locales (simp_all add: get_retain)

section \<open>Keys and lookups\<close>

lemma keys_get: "k \<in> keys m \<longleftrightarrow> get m k \<noteq> None"
  by (simp add: keys_def get_def map_of_eq_None_iff)

lemma get_in_set: "wf_store m \<Longrightarrow> get m k = Some v \<longleftrightarrow> (k, v) \<in> set m"
  by (simp add: get_def wf_store_def)

lemma get_set: "get m k = Some v \<Longrightarrow> (k, v) \<in> set m"
  by (simp add: get_def map_of_SomeD)

lemma length_put:
  "length (put k v m) = (if get m k = None then Suc (length m) else length m)"
  by (induction m) (auto simp: put_def get_def)

lemma length_modify [simp]: "length (modify k f m) = length m"
  by (simp add: modify_def)

lemma length_entry:
  "length (entry d k f m) = (if get m k = None then Suc (length m) else length m)"
  by (simp add: entry_def length_put)

lemma length_retain: "length (retain p m) \<le> length m"
  by (simp add: retain_def)

lemma length_del: "length (del k m) \<le> length m"
  by (simp add: del_def)

lemma length_del_less: "get m k \<noteq> None \<Longrightarrow> length (del k m) < length m"
proof -
  assume "get m k \<noteq> None"
  then obtain v where "(k, v) \<in> set m" by (auto dest: get_set)
  then show ?thesis by (auto simp: del_def intro!: length_filter_less)
qed

section \<open>Tallies\<close>

lemma tally_empty [simp]: "tally f [] = 0"
  by (simp add: tally_def)

lemma get_Cons [simp]: "get ((a, b) # m) k = (if k = a then Some b else get m k)"
  by (simp add: get_def)

lemma tally_Cons [simp]: "tally f ((a, b) # m) = f b + tally f m"
  by (simp add: tally_def)

lemma wf_store_Cons [simp]: "wf_store ((a, b) # m) \<longleftrightarrow> get m a = None \<and> wf_store m"
  by (auto simp: wf_store_def get_def map_of_eq_None_iff)

lemma put_Cons [simp]:
  "put k v ((a, b) # m) = (if a = k then (k, v) # m else (a, b) # put k v m)"
  by (simp add: put_def)

lemma put_Nil [simp]: "put k v [] = [(k, v)]"
  by (simp add: put_def)

lemma del_Cons [simp]: "del k ((a, b) # m) = (if a = k then del k m else (a, b) # del k m)"
  by (simp add: del_def)

lemma del_Nil [simp]: "del k [] = []"
  by (simp add: del_def)

lemma modify_Cons [simp]:
  "modify k f ((a, b) # m) = (if a = k then (a, f b) else (a, b)) # modify k f m"
  by (simp add: modify_def)

lemma modify_Nil [simp]: "modify k f [] = []"
  by (simp add: modify_def)

lemma retain_Cons [simp]:
  "retain p ((a, b) # m) = (if p a b then (a, b) # retain p m else retain p m)"
  by (simp add: retain_def)

lemma retain_Nil [simp]: "retain p [] = []"
  by (simp add: retain_def)

lemma del_absent [simp]: "get m k = None \<Longrightarrow> del k m = m"
  by (induction m) (auto split: if_splits)

lemma modify_absent [simp]: "get m k = None \<Longrightarrow> modify k f m = m"
  by (induction m) (auto split: if_splits)

lemma tally_put: "tally f (put k v m) + weight f (get m k) = tally f m + f v"
  by (induction m) auto

lemma tally_del: "wf_store m \<Longrightarrow> tally f (del k m) + weight f (get m k) = tally f m"
  by (induction m) auto

lemma tally_modify:
  "wf_store m \<Longrightarrow>
     tally f (modify k g m) + weight f (get m k) = tally f m + weight (f \<circ> g) (get m k)"
  by (induction m) auto

lemma weight_le_tally: "weight f (get m k) \<le> tally f m"
  by (induction m) (auto simp: trans_le_add2)

lemma tally_retain_all:
  "\<forall>(k, v) \<in> set m. p k v \<or> f v = 0 \<Longrightarrow> tally f (retain p m) = tally f m"
  by (induction m) auto

lemma tally_entry:
  "tally f (entry d k g m) + weight f (get m k) =
     tally f m + f (g (case get m k of None \<Rightarrow> d | Some v \<Rightarrow> v))"
  by (simp add: entry_def tally_put)

lemma tally_zero: "tally f m = 0 \<Longrightarrow> get m k = Some v \<Longrightarrow> f v = 0"
  using weight_le_tally [of f m k] by simp

lemma tally_le_length: "\<forall>v. f v \<le> 1 \<Longrightarrow> tally f m \<le> length m"
  by (induction m) (auto simp: add_le_mono [of _ 1, simplified])

end
