(* ===== verification/Entitlements.thy ===== *)
theory Entitlements
  imports Licensing_State Store
begin

text \<open>
  The Free limits (\<open>crates/licensing/src/entitlements.rs\<close>): \<open>Entitlements\<close> with every
  operation that changes it. The counts of what is live on the PC (the trait \<open>Usage\<close>, provided
  by the app) are an argument of the operations that read them; so are the time and the fresh
  token of an admission. A message is the template the source formats it from.
\<close>

section \<open>State\<close>

datatype limit =
    Organizations
  | Departments
  | Projects
  | WorkersAtOnce
  | BusinessDepartment
  | Connections
  | AddOnTools
  | Lessons
  | PhoneAccess
  | CommunityStart

datatype limit_message = LimitMessage limit | PlanCovers nat

record blocked =
  bl_limit :: limit
  bl_message :: limit_message

definition blocked_new :: "limit \<Rightarrow> blocked" where
  "blocked_new l = \<lparr> bl_limit = l, bl_message = LimitMessage l \<rparr>"

definition blocked_plan_covers :: "nat \<Rightarrow> blocked" where
  "blocked_plan_covers n = \<lparr> bl_limit = Organizations, bl_message = PlanCovers n \<rparr>"

datatype decision = Allowed | Blocked blocked

fun is_allowed :: "decision \<Rightarrow> bool" where
  "is_allowed Allowed = True"
| "is_allowed (Blocked _) = False"

fun into_result :: "decision \<Rightarrow> blocked + unit" where
  "into_result Allowed = Inr ()"
| "into_result (Blocked b) = Inl b"

record usage =
  us_organizations :: nat
  us_departments :: nat
  us_projects :: nat
  us_workers_on_the_job :: "string list"

record admission =
  ad_token :: "string option"

record admitted =
  am_token :: string
  am_task_id :: "string option"
  am_at :: nat

record task_editions =
  te_by_task :: "(string, edition) store"
  te_order :: "string list"

text \<open>\<open>en_usage\<close>: whether the app has provided its counts (\<open>set_usage\<close>).\<close>

record entitlements =
  en_fixed :: bool
  en_edition :: edition
  en_organizations :: "nat option"
  en_usage :: bool
  en_tasks :: task_editions
  en_admitted :: "admitted list"

definition admitted_for :: nat where "admitted_for = from_secs 60"
definition tasks_kept :: nat where "tasks_kept = 20000"

section \<open>Operations\<close>

definition ent_build :: "edition \<Rightarrow> bool \<Rightarrow> entitlements" where
  "ent_build e fx =
     \<lparr> en_fixed = fx, en_edition = e, en_organizations = None, en_usage = False,
       en_tasks = \<lparr> te_by_task = [], te_order = [] \<rparr>, en_admitted = [] \<rparr>"

definition ent_new :: "edition \<Rightarrow> entitlements" where
  "ent_new e = ent_build e False"

definition ent_unlocked :: entitlements where
  "ent_unlocked = ent_build Pro True"

definition set_edition :: "entitlements \<Rightarrow> edition \<Rightarrow> entitlements \<times> bool" where
  "set_edition s e =
     (if en_fixed s then (s, False) else (s\<lparr>en_edition := e\<rparr>, en_edition s \<noteq> e))"

definition set_organizations :: "entitlements \<Rightarrow> nat option \<Rightarrow> entitlements \<times> bool" where
  "set_organizations s n = (s\<lparr>en_organizations := n\<rparr>, en_organizations s \<noteq> n)"

definition organizations_covered :: "entitlements \<Rightarrow> nat option" where
  "organizations_covered s =
     (case en_edition s of Free \<Rightarrow> Some free_organizations | Pro \<Rightarrow> en_organizations s)"

definition set_usage :: "entitlements \<Rightarrow> entitlements" where
  "set_usage s = s\<lparr>en_usage := True\<rparr>"

definition ent_usage :: "entitlements \<Rightarrow> usage \<Rightarrow> usage option" where
  "ent_usage s u = (if en_usage s then Some u else None)"

definition organizations_in_use :: "entitlements \<Rightarrow> usage \<Rightarrow> nat" where
  "organizations_in_use s u = (case ent_usage s u of None \<Rightarrow> 0 | Some v \<Rightarrow> us_organizations v)"

text \<open>The tasks on the job, none when the app has not provided its counts.\<close>

definition running_of :: "usage option \<Rightarrow> string list" where
  "running_of u = (case u of None \<Rightarrow> [] | Some v \<Rightarrow> us_workers_on_the_job v)"

text \<open>An admission still counts: it is less than a minute old, and its task is not on the job.\<close>

definition still_admitted :: "nat \<Rightarrow> string list \<Rightarrow> admitted \<Rightarrow> bool" where
  "still_admitted now running a \<longleftrightarrow>
     now - am_at a < admitted_for \<and>
     (case am_task_id a of None \<Rightarrow> True | Some t \<Rightarrow> t \<notin> set running)"

definition on_the_job :: "entitlements \<Rightarrow> usage option \<Rightarrow> nat \<Rightarrow> entitlements \<times> nat" where
  "on_the_job s u now =
     (let running = running_of u;
          kept = filter (still_admitted now running) (en_admitted s)
      in (s\<lparr>en_admitted := kept\<rparr>, min u32_max (length running + length kept)))"

definition ent_check :: "entitlements \<Rightarrow> limit \<Rightarrow> usage \<Rightarrow> nat \<Rightarrow> entitlements \<times> decision" where
  "ent_check s l u now =
     (if en_edition s = Pro then
        (s, if l = Organizations then
              (case organizations_covered s of
                 Some n \<Rightarrow>
                   if organizations_in_use s u \<ge> n then Blocked (blocked_plan_covers n) else Allowed
               | None \<Rightarrow> Allowed)
            else Allowed)
      else
        (let v = ent_usage s u;
             count = (\<lambda>f. case v of None \<Rightarrow> 0 | Some w \<Rightarrow> f w);
             (s1, reached) =
               (case l of
                  Organizations \<Rightarrow> (s, count us_organizations \<ge> free_organizations)
                | Departments \<Rightarrow> (s, count us_departments \<ge> free_departments)
                | Projects \<Rightarrow> (s, count us_projects \<ge> free_projects)
                | WorkersAtOnce \<Rightarrow>
                    (let (s', n) = on_the_job s v now in (s', n \<ge> free_workers_at_once))
                | _ \<Rightarrow> (s, True))
         in (s1, if reached then Blocked (blocked_new l) else Allowed)))"

text \<open>The loop that forgets the oldest tasks; each round takes one off the front.\<close>

function forget_tasks :: "task_editions \<Rightarrow> task_editions" where
  "forget_tasks ts =
     (if length (te_order ts) > tasks_kept
      then forget_tasks
             (ts\<lparr>te_by_task := del (hd (te_order ts)) (te_by_task ts), te_order := tl (te_order ts)\<rparr>)
      else ts)"
  by auto
termination by (relation "measure (\<lambda>ts. length (te_order ts))") auto

declare forget_tasks.simps [simp del]

definition task_edition :: "entitlements \<Rightarrow> string \<Rightarrow> entitlements \<times> edition" where
  "task_edition s t =
     (case get (te_by_task (en_tasks s)) t of
        Some e \<Rightarrow> (s, e)
      | None \<Rightarrow>
          let e = en_edition s; ts = en_tasks s;
              ts1 = ts\<lparr>te_by_task := put t e (te_by_task ts), te_order := te_order ts @ [t]\<rparr>
          in (s\<lparr>en_tasks := forget_tasks ts1\<rparr>, e))"

definition check_for_task :: "entitlements \<Rightarrow> string option \<Rightarrow> limit \<Rightarrow> entitlements \<times> decision" where
  "check_for_task s t l =
     (let (s1, e) = (case t of None \<Rightarrow> (s, en_edition s) | Some i \<Rightarrow> task_edition s i)
      in (s1, if e = Pro then Allowed else Blocked (blocked_new l)))"

definition admit_worker ::
  "entitlements \<Rightarrow> string option \<Rightarrow> usage \<Rightarrow> nat \<Rightarrow> string \<Rightarrow> entitlements \<times> (blocked + admission)"
where
  "admit_worker s t u now fresh =
     (if en_edition s = Pro then (s, Inr \<lparr> ad_token = None \<rparr>)
      else
        let running = running_of (ent_usage s u);
            kept = filter (still_admitted now running) (en_admitted s);
            s1 = s\<lparr>en_admitted := kept\<rparr>
        in if (case t of
                 None \<Rightarrow> False
               | Some i \<Rightarrow> i \<in> set running \<or> list_ex (\<lambda>a. am_task_id a = Some i) kept)
           then (s1, Inr \<lparr> ad_token = None \<rparr>)
           else if length running + length kept \<ge> free_workers_at_once
           then (s1, Inl (blocked_new WorkersAtOnce))
           else (s1\<lparr>en_admitted :=
                      kept @ [\<lparr> am_token = fresh, am_task_id = t, am_at = now \<rparr>]\<rparr>,
                 Inr \<lparr> ad_token = Some fresh \<rparr>))"

fun bind_first :: "string \<Rightarrow> string \<Rightarrow> admitted list \<Rightarrow> admitted list" where
  "bind_first token t [] = []"
| "bind_first token t (a # as) =
     (if am_token a = token then a\<lparr>am_task_id := Some t\<rparr> # as else a # bind_first token t as)"

definition ent_bind :: "entitlements \<Rightarrow> admission \<Rightarrow> string \<Rightarrow> entitlements" where
  "ent_bind s ad t =
     (case ad_token ad of
        None \<Rightarrow> s
      | Some token \<Rightarrow> s\<lparr>en_admitted := bind_first token t (en_admitted s)\<rparr>)"

definition ent_release :: "entitlements \<Rightarrow> admission \<Rightarrow> entitlements" where
  "ent_release s ad =
     (case ad_token ad of
        None \<Rightarrow> s
      | Some token \<Rightarrow> s\<lparr>en_admitted := filter (\<lambda>a. am_token a \<noteq> token) (en_admitted s)\<rparr>)"

section \<open>Remembered tasks\<close>

text \<open>The tasks remembered are the ones in line, each once, and at most \<open>tasks_kept\<close>.\<close>

definition tasks_inv :: "task_editions \<Rightarrow> bool" where
  "tasks_inv ts \<longleftrightarrow>
     wf_store (te_by_task ts) \<and> distinct (te_order ts) \<and>
     (\<forall>t. t \<in> set (te_order ts) \<longleftrightarrow> get (te_by_task ts) t \<noteq> None)"

lemma forget_tasks_short [simp]: "length (te_order ts) \<le> tasks_kept \<Longrightarrow> forget_tasks ts = ts"
  by (subst forget_tasks.simps) simp

lemma forget_tasks_one:
  "te_order ts = t # rest \<Longrightarrow> length rest = tasks_kept \<Longrightarrow>
     forget_tasks ts = ts\<lparr>te_by_task := del t (te_by_task ts), te_order := rest\<rparr>"
  by (subst forget_tasks.simps) simp

lemma tasks_inv_append:
  "tasks_inv ts \<Longrightarrow> get (te_by_task ts) t = None \<Longrightarrow>
     tasks_inv (ts\<lparr>te_by_task := put t e (te_by_task ts), te_order := te_order ts @ [t]\<rparr>)"
  by (auto simp: tasks_inv_def)

lemma tasks_inv_drop:
  "tasks_inv ts \<Longrightarrow> te_order ts = t # rest \<Longrightarrow>
     tasks_inv (ts\<lparr>te_by_task := del t (te_by_task ts), te_order := rest\<rparr>)"
  by (simp add: tasks_inv_def) (metis set_ConsD)

text \<open>What a new task does to the line: it goes to the end, and a full line loses its front.\<close>

lemma task_edition_new:
  assumes "get (te_by_task (en_tasks s)) t = None" "length (te_order (en_tasks s)) \<le> tasks_kept"
  defines "ts \<equiv> en_tasks s" and "m \<equiv> put t (en_edition s) (te_by_task (en_tasks s))"
  shows "task_edition s t =
     (if length (te_order ts) < tasks_kept
      then (s\<lparr>en_tasks := ts\<lparr>te_by_task := m, te_order := te_order ts @ [t]\<rparr>\<rparr>, en_edition s)
      else (s\<lparr>en_tasks := ts\<lparr>te_by_task := del (hd (te_order ts)) m,
                             te_order := tl (te_order ts) @ [t]\<rparr>\<rparr>, en_edition s))"
proof (cases "length (te_order ts) < tasks_kept")
  case False
  then obtain x xs where o: "te_order ts = x # xs" "Suc (length xs) = tasks_kept"
    using assms(2) by (cases "te_order ts") (auto simp: ts_def tasks_kept_def)
  then show ?thesis
    using assms(1) False by (simp add: task_edition_def Let_def ts_def m_def forget_tasks_one)
qed (use assms in \<open>simp add: task_edition_def Let_def\<close>)

definition remembered :: "entitlements \<Rightarrow> bool" where
  "remembered s \<longleftrightarrow> tasks_inv (en_tasks s) \<and> length (te_order (en_tasks s)) \<le> tasks_kept"

lemma task_edition_remembered:
  assumes "remembered s"
  shows "remembered (fst (task_edition s t))"
proof (cases "get (te_by_task (en_tasks s)) t")
  case None
  let ?ts = "en_tasks s"
  let ?ts1 = "?ts\<lparr>te_by_task := put t (en_edition s) (te_by_task ?ts), te_order := te_order ?ts @ [t]\<rparr>"
  have i: "tasks_inv ?ts1"
    using assms None by (intro tasks_inv_append) (simp_all add: remembered_def)
  show ?thesis
  proof (cases "length (te_order ?ts) < tasks_kept")
    case True
    with i None assms show ?thesis
      by (simp add: task_edition_new remembered_def)
  next
    case False
    then obtain x xs where o: "te_order ?ts = x # xs"
      by (cases "te_order ?ts") (auto simp: tasks_kept_def)
    have "tasks_inv (?ts1\<lparr>te_by_task := del x (te_by_task ?ts1), te_order := xs @ [t]\<rparr>)"
      by (rule tasks_inv_drop [OF i]) (simp add: o)
    with False o None assms show ?thesis
      by (simp add: task_edition_new remembered_def)
  qed
qed (use assms in \<open>simp add: task_edition_def\<close>)

section \<open>Calls\<close>

text \<open>One call of the entitlements, by any of the services that share them.\<close>

datatype ent_event =
    EnSetEdition edition
  | EnSetOrganizations "nat option"
  | EnSetUsage
  | EnCheck limit usage nat
  | EnTask "string option" limit
  | EnAdmit "string option" usage nat string
  | EnBind admission string
  | EnRelease admission

fun ent_step :: "entitlements \<Rightarrow> ent_event \<Rightarrow> entitlements" where
  "ent_step s (EnSetEdition e) = fst (set_edition s e)"
| "ent_step s (EnSetOrganizations n) = fst (set_organizations s n)"
| "ent_step s EnSetUsage = set_usage s"
| "ent_step s (EnCheck l u now) = fst (ent_check s l u now)"
| "ent_step s (EnTask t l) = fst (check_for_task s t l)"
| "ent_step s (EnAdmit t u now fresh) = fst (admit_worker s t u now fresh)"
| "ent_step s (EnBind ad t) = ent_bind s ad t"
| "ent_step s (EnRelease ad) = ent_release s ad"

definition ent_run :: "entitlements \<Rightarrow> ent_event list \<Rightarrow> entitlements" where
  "ent_run s evs = foldl ent_step s evs"

fun asks_task :: "ent_event \<Rightarrow> nat" where
  "asks_task (EnTask (Some t) l) = 1"
| "asks_task _ = 0"

lemmas ent_ops =
  set_edition_def set_organizations_def set_usage_def ent_check_def on_the_job_def
  check_for_task_def admit_worker_def ent_bind_def ent_release_def

text \<open>Only a question about a task touches what is remembered of tasks.\<close>

lemma ent_step_tasks:
  "en_tasks (ent_step s ev) =
     (case ev of EnTask (Some t) l \<Rightarrow> en_tasks (fst (task_edition s t)) | _ \<Rightarrow> en_tasks s)"
  by (cases ev) (auto simp: ent_ops Let_def case_prod_beta split: option.split limit.split)

lemma ent_step_remembered: "remembered s \<Longrightarrow> remembered (ent_step s ev)"
  using task_edition_remembered [of s]
  by (simp add: remembered_def ent_step_tasks split: ent_event.split option.split)

lemma bind_first_length [simp]: "length (bind_first token t as) = length as"
  by (induction as) auto

lemma ent_step_admitted_le:
  assumes "length (en_admitted s) \<le> free_workers_at_once"
  shows "length (en_admitted (ent_step s ev)) \<le> free_workers_at_once"
proof -
  have f: "length (filter p (en_admitted s)) \<le> free_workers_at_once" for p
    using assms length_filter_le order_trans by blast
  show ?thesis
  proof (cases ev)
    case (EnCheck l u now)
    then show ?thesis
      using assms f by (auto simp: ent_ops Let_def split: limit.split option.split)
  next
    case (EnTask t l)
    then show ?thesis
      using assms by (auto simp: ent_ops task_edition_def Let_def split: option.split)
  next
    case (EnAdmit t u now fresh)
    then show ?thesis
      using assms f by (auto simp: ent_ops Let_def not_le)
  qed (use assms f in \<open>auto simp: ent_ops split: option.split\<close>)
qed

interpretation ent: event_system ent_step
  "\<lambda>s. remembered s \<and> length (en_admitted s) \<le> free_workers_at_once" "\<lambda>_. True"
  by unfold_locales (simp add: ent_step_remembered ent_step_admitted_le)

text \<open>How many tasks are behind \<open>t\<close> in the line.\<close>

definition behind :: "string \<Rightarrow> string list \<Rightarrow> nat" where
  "behind t ord = length (takeWhile (\<lambda>x. x \<noteq> t) (rev ord))"

lemma behind_snoc: "x \<noteq> t \<Longrightarrow> behind t (ord @ [x]) = Suc (behind t ord)"
  by (simp add: behind_def)

lemma behind_last [simp]: "behind t (ord @ [t]) = 0"
  by (simp add: behind_def)

lemma behind_Cons: "t \<in> set ord \<Longrightarrow> behind t (x # ord) = behind t ord"
  by (simp add: behind_def takeWhile_append1 [of t])

lemma behind_hd: "t \<notin> set ord \<Longrightarrow> behind t (t # ord) = length ord"
  unfolding behind_def by (simp add: takeWhile_tail [of _ t "[]"] takeWhile_eq_all_conv)
    (subst takeWhile_append2, auto)

definition keeps :: "string \<Rightarrow> edition \<Rightarrow> nat \<Rightarrow> entitlements \<Rightarrow> bool" where
  "keeps t e n s \<longleftrightarrow>
     remembered s \<and> get (te_by_task (en_tasks s)) t = Some e \<and> behind t (te_order (en_tasks s)) \<le> n"

lemma keeps_task_edition:
  assumes "keeps t e n s" "n < tasks_kept - 1"
  shows "keeps t e (Suc n) (fst (task_edition s i))"
proof (cases "get (te_by_task (en_tasks s)) i")
  case None
  have k: "remembered s" "get (te_by_task (en_tasks s)) t = Some e"
    "behind t (te_order (en_tasks s)) \<le> n" "i \<noteq> t"
    using assms(1) None by (auto simp: keeps_def)
  have r: "remembered (fst (task_edition s i))"
    by (rule task_edition_remembered [OF k(1)])
  have len: "length (te_order (en_tasks s)) \<le> tasks_kept"
    using k(1) by (simp add: remembered_def)
  show ?thesis
  proof (cases "length (te_order (en_tasks s)) < tasks_kept")
    case True
    with r k None len show ?thesis by (simp add: keeps_def task_edition_new behind_snoc)
  next
    case False
    then obtain x xs where o: "te_order (en_tasks s) = x # xs" "Suc (length xs) = tasks_kept"
      using len by (cases "te_order (en_tasks s)") (auto simp: tasks_kept_def)
    have ts: "tasks_inv (en_tasks s)" using k(1) by (simp add: remembered_def)
    have t: "t \<in> set (x # xs)" "distinct (x # xs)"
      using ts k(2) o(1) by (auto simp: tasks_inv_def)
    have "x \<noteq> t"
      using t o assms(2) k(3) behind_hd [of x xs] by auto
    with t o have "behind t xs = behind t (te_order (en_tasks s))"
      by (simp add: behind_Cons)
    with r k None len False o \<open>x \<noteq> t\<close> show ?thesis
      by (simp add: keeps_def task_edition_new behind_snoc)
  qed
qed (use assms in \<open>simp add: keeps_def task_edition_def\<close>)

lemma asks_task_0: "\<forall>i l. ev \<noteq> EnTask (Some i) l \<Longrightarrow> asks_task ev = 0"
  by (cases ev rule: asks_task.cases) auto

lemma keeps_step:
  assumes "keeps t e n s" "n + asks_task ev < tasks_kept"
  shows "keeps t e (n + asks_task ev) (ent_step s ev)"
proof (cases "\<exists>i l. ev = EnTask (Some i) l")
  case True
  then obtain i l where ev: "ev = EnTask (Some i) l" by blast
  then have "keeps t e (Suc n) (fst (task_edition s i))"
    using assms by (intro keeps_task_edition) simp_all
  with ev show ?thesis
    by (simp add: keeps_def remembered_def check_for_task_def case_prod_beta)
next
  case False
  then have "asks_task ev = 0" "en_tasks (ent_step s ev) = en_tasks s"
    by (auto simp: ent_step_tasks split: ent_event.split option.split dest: asks_task_0)
  with assms show ?thesis by (simp add: keeps_def remembered_def)
qed

lemma keeps_run:
  "keeps t e n s \<Longrightarrow> n + sum_list (map asks_task evs) < tasks_kept \<Longrightarrow>
     keeps t e (n + sum_list (map asks_task evs)) (ent_run s evs)"
proof (induction evs arbitrary: n s)
  case (Cons ev evs)
  then have "keeps t e (n + asks_task ev) (ent_step s ev)"
    by (intro keeps_step) simp_all
  with Cons.IH [OF this] Cons.prems(2) show ?case by (simp add: ent_run_def add.assoc)
qed (simp add: ent_run_def)

section \<open>Three workers at once\<close>







subsection \<open>Lengths of filters\<close>







lemma bind_first_other:
  "(\<And>a. a \<in> set as \<Longrightarrow> am_token a = token \<Longrightarrow> P (a\<lparr>am_task_id := Some t\<rparr>) = P a \<and> \<not> P a) \<Longrightarrow>
     filter P (bind_first token t as) = filter P as"
  by (induction as) auto

subsection \<open>Every step keeps it\<close>












lemma task_edition_known:
  assumes "remembered s" "task_edition s t = (s1, e)"
  shows "get (te_by_task (en_tasks s1)) t = Some e"
proof (cases "get (te_by_task (en_tasks s)) t")
  case None
  have len: "length (te_order (en_tasks s)) \<le> tasks_kept"
    using assms(1) by (simp add: remembered_def)
  have "t \<noteq> hd (te_order (en_tasks s))" if "te_order (en_tasks s) \<noteq> []"
    using assms(1) None hd_in_set [OF that] by (force simp: remembered_def tasks_inv_def)
  moreover have "te_order (en_tasks s) \<noteq> []" if "\<not> length (te_order (en_tasks s)) < tasks_kept"
    using that by (auto simp: tasks_kept_def)
  ultimately show ?thesis
    using assms(2) task_edition_new [OF None len] by (auto split: if_splits)
qed (use assms(2) in \<open>simp add: task_edition_def\<close>)

section \<open>Properties\<close>





text \<open>
  A task keeps the edition it started with. Once a task's edition was asked for, every later
  question about it gives the same answer, whatever happens to the edition and however many
  workers come and go, while fewer than 20,000 questions are asked about tasks.
\<close>

theorem task_keeps_edition:
  assumes "remembered s" "task_edition s t = (s1, e)"
    and "behind t (te_order (en_tasks s1)) + sum_list (map asks_task evs) < tasks_kept"
  shows "task_edition (ent_run s1 evs) t = (ent_run s1 evs, e)"
proof -
  have "remembered s1" using task_edition_remembered [OF assms(1), of t] assms(2) by simp
  moreover have "get (te_by_task (en_tasks s1)) t = Some e"
    by (rule task_edition_known [OF assms(1,2)])
  ultimately have "keeps t e (behind t (te_order (en_tasks s1))) s1"
    by (simp add: keeps_def)
  from keeps_run [OF this assms(3)] show ?thesis
    by (simp add: keeps_def task_edition_def)
qed

definition ent_one :: entitlements where
  "ent_one = fst (task_edition (ent_new Pro) ''a'')"

theorem task_keeps_edition_witness:
  "task_edition (ent_run ent_one [EnSetEdition Free, EnTask (Some ''b'') Lessons]) ''a'' =
     (ent_run ent_one [EnSetEdition Free, EnTask (Some ''b'') Lessons], Pro)"
proof (rule task_keeps_edition [of "ent_new Pro"])
  show "remembered (ent_new Pro)"
    by (simp add: remembered_def tasks_inv_def ent_new_def ent_build_def)
  show e: "task_edition (ent_new Pro) ''a'' = (ent_one, Pro)"
    by (simp add: ent_one_def task_edition_new ent_new_def ent_build_def tasks_kept_def)
  show "behind ''a'' (te_order (en_tasks ent_one)) +
      sum_list (map asks_task [EnSetEdition Free, EnTask (Some ''b'') Lessons]) < tasks_kept"
    by (simp add: ent_one_def task_edition_new ent_new_def ent_build_def tasks_kept_def behind_def)
qed

text \<open>
  What the entitlements keep is bounded, and consistent. After any calls, at most 20,000
  tasks are remembered, each once and each with its edition, and at most three admissions are
  held.
\<close>

theorem entitlements_bounded:
  "remembered (ent_run (ent_build e fx) evs) \<and>
   length (te_by_task (en_tasks (ent_run (ent_build e fx) evs))) \<le> tasks_kept \<and>
   length (en_admitted (ent_run (ent_build e fx) evs)) \<le> free_workers_at_once"
proof -
  have r: "remembered (ent_run (ent_build e fx) evs)"
    "length (en_admitted (ent_run (ent_build e fx) evs)) \<le> free_workers_at_once"
    using ent.run_inv [of "ent_build e fx" evs]
    by (simp_all add: ent_run_def list_all_iff remembered_def tasks_inv_def ent_build_def)
  moreover have "length (te_by_task ts) = length (te_order ts)" if "tasks_inv ts" for ts
  proof -
    have "set (map fst (te_by_task ts)) = set (te_order ts)"
      using that by (auto simp: tasks_inv_def get_def map_of_eq_None_iff set_eq_iff)
    with that show ?thesis
      by (metis tasks_inv_def wf_store_def distinct_card length_map)
  qed
  ultimately show ?thesis by (simp add: remembered_def)
qed

end
