(* ===== verification/Relay_Limits.thy ===== *)
theory Relay_Limits
  imports Prelude
begin

text \<open>
  The relay's limits (\<open>crates/relay/src/limits.rs\<close>): the record of limits with its defaults,
  the address key that the per-address limits count by (an IPv6 address by its /64), and the
  per-minute counter \<open>Window\<close>. The locale \<open>rate_counter\<close> is what the door and the line rely
  on: a counter reports what it counted, and forgets at the next minute; the interpretation
  \<open>win\<close> shows that \<open>Window\<close> provides it.
\<close>

section \<open>Limits\<close>

record limits =
  connections_max :: nat
  connections_per_address :: nat
  new_per_address_per_minute :: nat
  tries_per_address_per_minute :: nat
  addresses_remembered :: nat
  address_sweep :: nat
  phones_per_pc :: nat
  pcs_per_license :: nat
  pcs_per_address :: nat
  messages_per_minute :: nat
  bytes_per_minute :: nat
  first_message :: nat
  idle_time :: nat
  ping_every :: nat
  mailbox_life :: nat
  mailbox_tries :: nat
  dropped_per_pc :: nat
  outgoing_queue :: nat
  outgoing_bytes :: nat

definition default_limits :: limits where
  "default_limits =
     \<lparr> connections_max = 512,
       connections_per_address = 32,
       new_per_address_per_minute = 120,
       tries_per_address_per_minute = 30,
       addresses_remembered = 100000,
       address_sweep = from_secs 60,
       phones_per_pc = 40,
       pcs_per_license = 10,
       pcs_per_address = 32,
       messages_per_minute = 1200,
       bytes_per_minute = 16 * 1024 * 1024,
       first_message = from_secs 10,
       idle_time = from_secs 90,
       ping_every = from_secs 30,
       mailbox_life = from_secs 600,
       mailbox_tries = 3,
       dropped_per_pc = 1000,
       outgoing_queue = 256,
       outgoing_bytes = 1024 * 1024 \<rparr>"

section \<open>Addresses\<close>

text \<open>
  An \<open>IpAddr\<close> is its octets: four for IPv4 and sixteen for IPv6 (\<open>Ipv4Addr::octets\<close>,
  \<open>Ipv6Addr::octets\<close>).
\<close>

datatype ip_addr = IpV4 "byte list" | IpV6 "byte list"

datatype address_key = AddrV4 "byte list" | AddrV6 "byte list"

text \<open>\<open>Ipv6Addr::to_ipv4_mapped\<close>: \<open>::ffff:a.b.c.d\<close> and nothing else.\<close>

definition to_ipv4_mapped :: "byte list \<Rightarrow> byte list option" where
  "to_ipv4_mapped os =
     (if take 12 os = replicate 10 0 @ [255, 255] then Some (drop 12 os) else None)"

fun address_key_from :: "ip_addr \<Rightarrow> address_key" where
  "address_key_from (IpV4 v4) = AddrV4 v4"
| "address_key_from (IpV6 v6) =
     (case to_ipv4_mapped v6 of
        Some v4 \<Rightarrow> AddrV4 v4
      | None \<Rightarrow> AddrV6 (take 8 v6))"

text \<open>
  Two IPv6 addresses are counted as one exactly when they share their /64, unless they are
  IPv4 addresses in IPv6 form; an IPv4 address counts the same in either form.
\<close>

lemma address_key_v6_same_64:
  "to_ipv4_mapped a = None \<Longrightarrow> to_ipv4_mapped b = None \<Longrightarrow>
     address_key_from (IpV6 a) = address_key_from (IpV6 b) \<longleftrightarrow> take 8 a = take 8 b"
  by simp

lemma address_key_mapped:
  "address_key_from (IpV6 (replicate 10 0 @ [255, 255] @ v4)) = address_key_from (IpV4 v4)"
  by (simp add: to_ipv4_mapped_def)

section \<open>The per-minute counter\<close>

record window =
  win_minute :: int
  win_count :: nat

definition window_default :: window where
  "window_default = \<lparr> win_minute = 0, win_count = 0 \<rparr>"

text \<open>\<open>Window::bump\<close>: count \<open>n\<close> more at \<open>now\<close>; the window and the new count.\<close>

definition bump :: "window \<Rightarrow> int \<Rightarrow> nat \<Rightarrow> window \<times> nat" where
  "bump w now n =
     (let minute = now div 60;
          w1 = (if minute \<noteq> win_minute w then w\<lparr>win_minute := minute, win_count := 0\<rparr> else w);
          w2 = w1\<lparr>win_count := u64_sat_add (win_count w1) n\<rparr>
      in (w2, win_count w2))"

definition count_at :: "window \<Rightarrow> int \<Rightarrow> nat" where
  "count_at w now = (if now div 60 = win_minute w then win_count w else 0)"

section \<open>What a counter promises\<close>

text \<open>Counting a list of amounts at one time: the counts reported, in order.\<close>

fun run_bumps :: "('w \<Rightarrow> int \<Rightarrow> nat \<Rightarrow> 'w \<times> nat) \<Rightarrow> 'w \<Rightarrow> int \<Rightarrow> nat list \<Rightarrow> nat list" where
  "run_bumps b w now [] = []"
| "run_bumps b w now (n # ns) =
     (let (w', c) = b w now n in c # run_bumps b w' now ns)"

text \<open>What a gate that lets through while the new count is at most \<open>limit\<close> lets through.\<close>

fun let_through :: "nat \<Rightarrow> nat list \<Rightarrow> nat list \<Rightarrow> nat" where
  "let_through limit (n # ns) (c # cs) = (if c \<le> limit then n else 0) + let_through limit ns cs"
| "let_through limit _ _ = 0"

locale rate_counter =
  fixes bump_c :: "'w \<Rightarrow> int \<Rightarrow> nat \<Rightarrow> 'w \<times> nat"
    and count_c :: "'w \<Rightarrow> int \<Rightarrow> nat"
  assumes bump_reports: "snd (bump_c w now n) = count_c (fst (bump_c w now n)) now"
    and bump_adds: "count_c (fst (bump_c w now n)) now = u64_sat_add (count_c w now) n"
    and bump_forgets:
      "now' div 60 \<noteq> now div 60 \<Longrightarrow> count_c (fst (bump_c w now n)) now' = 0"
    and count_minute: "now' div 60 = now div 60 \<Longrightarrow> count_c w now' = count_c w now"
begin

lemma bump_mono: "count_c w now \<le> u64_max \<Longrightarrow> count_c w now \<le> snd (bump_c w now n)"
  by (simp add: bump_reports bump_adds u64_sat_add_ge)

lemma let_through_nothing:
  "limit < u64_max \<Longrightarrow> limit < count_c w now \<Longrightarrow>
     let_through limit ns (run_bumps bump_c w now ns) = 0"
proof (induction ns arbitrary: w)
  case (Cons n ns)
  have c: "count_c (fst (bump_c w now n)) now > limit"
    using Cons.prems by (simp add: bump_adds u64_sat_add_def)
  with Cons.IH [OF Cons.prems(1) c] show ?case
    by (simp add: case_prod_beta bump_reports)
qed simp

text \<open>
  In any one minute a gate over the counter lets through at most its limit, however much is
  asked for and in whatever pieces.
\<close>

lemma let_through_bound:
  "limit < u64_max \<Longrightarrow> count_c w now \<le> limit \<Longrightarrow>
     let_through limit ns (run_bumps bump_c w now ns) \<le> limit - count_c w now"
proof (induction ns arbitrary: w)
  case (Cons n ns)
  let ?w = "fst (bump_c w now n)"
  have c: "count_c ?w now = u64_sat_add (count_c w now) n"
    by (rule bump_adds)
  show ?case
  proof (cases "count_c ?w now \<le> limit")
    case True
    with Cons.prems(1) c have "count_c ?w now = count_c w now + n"
      by (simp add: u64_sat_add_def)
    moreover have "let_through limit ns (run_bumps bump_c ?w now ns) \<le> limit - count_c ?w now"
      using Cons.IH Cons.prems(1) True by blast
    ultimately show ?thesis
      using True by (simp add: case_prod_beta bump_reports)
  next
    case False
    then show ?thesis
      using let_through_nothing [OF Cons.prems(1), of ?w now ns]
      by (simp add: case_prod_beta bump_reports)
  qed
qed simp

end

interpretation win: rate_counter bump count_at
  by unfold_locales (auto simp: bump_def count_at_def Let_def)

lemma count_at_default [simp]: "count_at window_default now = 0"
  by (simp add: count_at_def window_default_def)

lemma count_at_bump [simp]: "count_at (fst (bump w now n)) now = u64_sat_add (count_at w now) n"
  by (rule win.bump_adds)

lemma snd_bump [simp]: "snd (bump w now n) = u64_sat_add (count_at w now) n"
  by (simp add: win.bump_reports)

end
