(* ===== verification/Relay_Wire.thy ===== *)
theory Relay_Wire
  imports Licensing_Keys Store Relay_Limits
begin

text \<open>
  The relay's written contract (\<open>crates/relay-contract/src/wire.rs\<close>, \<open>pass.rs\<close>, \<open>b64.rs\<close>,
  \<open>lib.rs\<close>): the messages, the codes, the passes and how they are checked, and one connection's
  outgoing queue (\<open>Link\<close> of \<open>crates/relay/src/hub.rs\<close>, its writer in \<open>http.rs\<close>). The
  third-party calls (JSON, base64, Ed25519, SHA-256) are the parameter \<open>relay_env\<close>.
\<close>

section \<open>Messages\<close>

datatype relay_to_pc =
    Challenge string
  | Welcome string
  | PcRefused string
  | Joined string "string option" bool
  | PcData string string
  | Left string
  | PcError string

datatype pc_to_relay =
    Hello nat string string signed_answer
  | PcMailbox string
  | CloseMailbox
  | PcDrop string int
  | PcSend string string
  | PcClose string

datatype phone_to_relay = PhonePass string | PhoneMailbox string | PhoneData string

datatype relay_to_phone = Ready | PhoneRefused string | ToPhoneData string | PcOffline

definition not_pro :: string where "not_pro = ''not_pro''"
definition bad_proof :: string where "bad_proof = ''bad_proof''"
definition bad_hello :: string where "bad_hello = ''bad_hello''"
definition pc_offline :: string where "pc_offline = ''pc_offline''"
definition bad_pass :: string where "bad_pass = ''bad_pass''"
definition mailbox_closed :: string where "mailbox_closed = ''mailbox_closed''"
definition too_many_tries :: string where "too_many_tries = ''too_many_tries''"
definition too_big :: string where "too_big = ''too_big''"
definition unknown_conn :: string where "unknown_conn = ''unknown_conn''"

lemmas relay_codes =
  not_pro_def bad_proof_def bad_hello_def pc_offline_def bad_pass_def mailbox_closed_def
  too_many_tries_def too_big_def unknown_conn_def

definition pc_proof_context :: string where "pc_proof_context = ''plenipo-relay-pc.v1.''"
definition max_relay_message :: nat where "max_relay_message = 96 * 1024"
definition max_data :: nat where "max_data = 65535"

record pass_payload =
  pp_v :: nat
  pp_pc :: string
  pp_phone :: string
  pp_exp :: int

datatype pass_error = PassMalformed | PassOtherPc | PassBadSignature | PassExpired

text \<open>
  The third-party calls: serde\_json on the contract's messages, the base64 engine, Ed25519
  keys and signatures, SHA-256; \<open>env_crypto\<close> is what the weekly answer is checked with.
\<close>

record relay_env =
  json_read_pc :: "string \<Rightarrow> pc_to_relay option"
  json_read_phone :: "string \<Rightarrow> phone_to_relay option"
  json_write_pc :: "relay_to_pc \<Rightarrow> string"
  json_write_phone :: "relay_to_phone \<Rightarrow> string"
  json_pass :: "byte list \<Rightarrow> pass_payload option"
  url_encode :: "byte list \<Rightarrow> string"
  url_decode :: "string \<Rightarrow> byte list option"
  key_ok :: "byte list \<Rightarrow> bool"
  verify_strict :: "byte list \<Rightarrow> byte list \<Rightarrow> byte list \<Rightarrow> bool"
  sha256 :: "byte list \<Rightarrow> byte list"
  env_crypto :: crypto

definition wire_read_pc :: "relay_env \<Rightarrow> string \<Rightarrow> pc_to_relay option" where
  "wire_read_pc E t = (if byte_len t > max_relay_message then None else json_read_pc E t)"

definition wire_read_phone :: "relay_env \<Rightarrow> string \<Rightarrow> phone_to_relay option" where
  "wire_read_phone E t = (if byte_len t > max_relay_message then None else json_read_phone E t)"

section \<open>Base64 and fingerprints\<close>

definition b64url_decode :: "relay_env \<Rightarrow> string \<Rightarrow> nat \<Rightarrow> byte list option" where
  "b64url_decode E t lim =
     (if byte_len t > div_ceil lim 3 * 4 + 4 then None
      else
        (case url_decode E t of
           None \<Rightarrow> None
         | Some bytes \<Rightarrow> if length bytes \<le> lim then Some bytes else None))"

definition b64url_exact :: "relay_env \<Rightarrow> nat \<Rightarrow> string \<Rightarrow> byte list option" where
  "b64url_exact E n t =
     (case b64url_decode E t n of
        None \<Rightarrow> None
      | Some bytes \<Rightarrow> if length bytes = n then Some bytes else None)"

definition is_id :: "relay_env \<Rightarrow> string \<Rightarrow> nat \<Rightarrow> bool" where
  "is_id E t n \<longleftrightarrow>
     byte_len t = div_ceil (n * 4) 3 \<and>
     (case b64url_decode E t n of None \<Rightarrow> False | Some b \<Rightarrow> length b = n)"

definition fingerprint :: "relay_env \<Rightarrow> byte list \<Rightarrow> string" where
  "fingerprint E relay_public = url_encode E (sha256 E relay_public)"

section \<open>Passes\<close>

definition pass_context :: string where "pass_context = ''plenipo-relay-pass.v1.''"
definition max_pass :: nat where "max_pass = 512"

definition pass_check :: "relay_env \<Rightarrow> string \<Rightarrow> byte list \<Rightarrow> int \<Rightarrow> pass_error + pass_payload" where
  "pass_check E pass relay_public now =
     (if byte_len pass > max_pass then Inl PassMalformed
      else
        (case split_once CHR ''.'' pass of
           None \<Rightarrow> Inl PassMalformed
         | Some (t, sig) \<Rightarrow>
             (case Option.bind (b64url_decode E t max_pass) (json_pass E) of
                None \<Rightarrow> Inl PassMalformed
              | Some payload \<Rightarrow>
                  if pp_v payload \<noteq> 1 \<or> \<not> is_id E (pp_phone payload) 16 then Inl PassMalformed
                  else if pp_pc payload \<noteq> fingerprint E relay_public then Inl PassOtherPc
                  else
                    (case b64url_exact E 64 sig of
                       None \<Rightarrow> Inl PassMalformed
                     | Some s \<Rightarrow>
                         if \<not> key_ok E relay_public then Inl PassBadSignature
                         else if \<not> verify_strict E relay_public
                                     (as_bytes pass_context @ as_bytes t) s
                         then Inl PassBadSignature
                         else if pp_exp payload \<le> now then Inl PassExpired
                         else Inr payload))))"

definition pc_of :: "relay_env \<Rightarrow> string \<Rightarrow> string option" where
  "pc_of E pass =
     (if byte_len pass > max_pass then None
      else
        (case split_once CHR ''.'' pass of
           None \<Rightarrow> None
         | Some (t, _) \<Rightarrow>
             map_option pp_pc (Option.bind (b64url_decode E t max_pass) (json_pass E))))"

text \<open>A pass that checks is signed by that PC's key, is for a phone, and has not ended.\<close>

lemma pass_check_Inr:
  assumes "pass_check E pass key now = Inr p"
  obtains t sig s where "pass = t @ ''.'' @ sig" "b64url_exact E 64 sig = Some s" "key_ok E key"
    "verify_strict E key (as_bytes pass_context @ as_bytes t) s"
    "pp_pc p = fingerprint E key" "now < pp_exp p" "is_id E (pp_phone p) 16" "pp_v p = 1"
  using assms
  by (auto simp: pass_check_def not_le split: if_splits option.splits dest!: split_once_Some)

lemma pass_check_pc_of: "pass_check E pass key now = Inr p \<Longrightarrow> pc_of E pass = Some (pp_pc p)"
  by (auto simp: pass_check_def pc_of_def split: if_splits option.splits)

section \<open>One connection's outgoing queue\<close>

datatype frame = TextFrame string | PingFrame | CloseFrame

fun frame_len :: "frame \<Rightarrow> nat" where
  "frame_len (TextFrame t) = byte_len t"
| "frame_len PingFrame = 0"
| "frame_len CloseFrame = 0"

text \<open>
  \<open>Link\<close>: the queue (a channel of \<open>ln_room\<close> places, open while the writer reads it), the count
  of bytes queued, and whether the connection was told to end (\<open>kill\<close>).
\<close>

record link =
  ln_out :: "frame list"
  ln_room :: nat
  ln_open :: bool
  ln_queued :: nat
  ln_most_queued :: nat
  ln_killed :: bool

definition link_new :: "limits \<Rightarrow> link" where
  "link_new L =
     \<lparr> ln_out = [], ln_room = outgoing_queue L, ln_open = True, ln_queued = 0,
       ln_most_queued = outgoing_bytes L, ln_killed = False \<rparr>"

text \<open>\<open>Sender::try_send\<close>: \<open>None\<close> when the queue is full or nobody reads it.\<close>

definition try_send :: "link \<Rightarrow> frame \<Rightarrow> link option" where
  "try_send l m =
     (if ln_open l \<and> length (ln_out l) < ln_room l then Some (l\<lparr>ln_out := ln_out l @ [m]\<rparr>)
      else None)"

definition send_message :: "link \<Rightarrow> frame \<Rightarrow> link" where
  "send_message l m =
     (let len = frame_len m; before = ln_queued l; l1 = l\<lparr>ln_queued := before + len\<rparr> in
      if before + len > ln_most_queued l then l1\<lparr>ln_killed := True\<rparr>
      else (case try_send l1 m of None \<Rightarrow> l1\<lparr>ln_killed := True\<rparr> | Some l2 \<Rightarrow> l2))"

text \<open>
  One round of the writer: it takes the next frame, writes it (\<open>sent\<close> says whether the socket
  took it) and takes its bytes off the count; after a failure or a close it ends, and the reader
  is told to.
\<close>

definition writer_step :: "link \<Rightarrow> bool \<Rightarrow> link \<times> frame option" where
  "writer_step l sent =
     (case ln_out l of
        [] \<Rightarrow> (l, None)
      | m # rest \<Rightarrow>
          if \<not> ln_open l then (l, None)
          else
            let l1 = l\<lparr>ln_out := rest, ln_queued := ln_queued l - frame_len m\<rparr>
            in (if \<not> sent \<or> m = CloseFrame
                then l1\<lparr>ln_open := False, ln_killed := True\<rparr> else l1,
                Some m))"

definition queued_bytes :: "link \<Rightarrow> nat" where
  "queued_bytes l = sum_list (map frame_len (ln_out l))"

definition link_inv :: "link \<Rightarrow> bool" where
  "link_inv l \<longleftrightarrow>
     queued_bytes l \<le> ln_queued l \<and> length (ln_out l) \<le> ln_room l \<and>
     queued_bytes l \<le> ln_most_queued l \<and>
     (\<not> ln_killed l \<longrightarrow> ln_queued l = queued_bytes l)"

lemma link_new_inv: "link_inv (link_new L)"
  by (simp add: link_inv_def link_new_def queued_bytes_def)

lemma send_message_inv: "link_inv l \<Longrightarrow> link_inv (send_message l m)"
  by (auto simp: link_inv_def send_message_def try_send_def queued_bytes_def Let_def)

lemma writer_step_inv: "link_inv l \<Longrightarrow> link_inv (fst (writer_step l sent))"
  by (auto simp: link_inv_def writer_step_def queued_bytes_def Let_def split: list.split)

datatype link_event = LinkSend frame | LinkWrite bool

fun link_step :: "link \<Rightarrow> link_event \<Rightarrow> link" where
  "link_step l (LinkSend m) = send_message l m"
| "link_step l (LinkWrite sent) = fst (writer_step l sent)"

interpretation ln: event_system link_step link_inv "\<lambda>_. True"
  by unfold_locales (metis link_step.elims send_message_inv writer_step_inv)

lemma link_limits:
  "ln_room (link_step l e) = ln_room l" "ln_most_queued (link_step l e) = ln_most_queued l"
  by (cases e; auto simp: send_message_def writer_step_def try_send_def Let_def split: list.split)+

lemma link_run_limits:
  "ln_room (foldl link_step l es) = ln_room l"
  "ln_most_queued (foldl link_step l es) = ln_most_queued l"
  by (induction es arbitrary: l) (simp_all add: link_limits)

text \<open>
  A peer that does not read never costs the relay more than its share: whatever is sent to a
  connection and however little of it is written, at most 256 frames and at most 1 MiB of them
  wait in its queue.
\<close>

theorem outgoing_queue_bounded:
  "length (ln_out (foldl link_step (link_new L) es)) \<le> outgoing_queue L \<and>
   queued_bytes (foldl link_step (link_new L) es) \<le> outgoing_bytes L"
  using ln.run_inv [OF link_new_inv, of es L] link_run_limits [of "link_new L" es]
  by (simp add: link_inv_def list_all_iff) (simp add: link_new_def)

text \<open>
  A frame is dropped only when the connection is being ended for it: while the hub has not
  told the connection to end, everything sent to it is queued, in order, behind what waits.
\<close>

theorem nothing_dropped_silently:
  assumes "\<not> ln_killed (send_message l m)"
  shows "ln_out (send_message l m) = ln_out l @ [m] \<and>
    ln_queued (send_message l m) = ln_queued l + frame_len m"
  using assms by (auto simp: send_message_def try_send_def Let_def split: if_splits option.splits)

theorem nothing_dropped_silently_witness:
  "ln_out (send_message (link_new default_limits) (TextFrame ''hi'')) = [TextFrame ''hi'']"
  using nothing_dropped_silently [of "link_new default_limits" "TextFrame ''hi''"] by code_simp

end
