(* ===== verification/Relay_Hub.thy ===== *)
theory Relay_Hub
  imports Relay_Wire
begin

text \<open>
  The relay's hub (\<open>crates/relay/src/hub.rs\<close>): what the relay knows while it runs, and every
  operation on it. Each operation of the source runs under the hub's one lock, so an operation is
  a function on the hub's state. Sending never reads the hub's state: an operation returns, with
  the new state, the frames it sends, in order, each with the link it goes to; \<open>deliver\<close> puts
  them on the links. The clock (\<open>hub.now()\<close>, Unix seconds) and the time of \<open>Instant\<close> (in
  nanoseconds) are arguments. A \<open>HashSet\<close> of connections is a list without duplicates.
\<close>

section \<open>State\<close>

type_synonym link_id = nat
type_synonym conn_id = string
type_synonym sends = "(link_id \<times> frame) list"

record mailbox =
  mb_name :: string
  mb_opened :: nat
  mb_tries :: nat

record pc =
  pc_link :: link_id
  pc_key :: "byte list"
  pc_mailbox :: "mailbox option"
  pc_dropped :: "(string, int) store"
  pc_phones :: "conn_id list"
  pc_generation :: nat
  pc_license :: "byte list"
  pc_address :: address_key

record phone =
  ph_link :: link_id
  ph_pc :: string
  ph_phone :: "string option"

record address_use =
  au_open :: nat
  au_pcs :: nat
  au_new :: window
  au_tries :: window

definition address_use_default :: address_use where
  "address_use_default =
     \<lparr> au_open = 0, au_pcs = 0, au_new = window_default, au_tries = window_default \<rparr>"

record hub =
  hb_pcs :: "(string, pc) store"
  hb_phones :: "(conn_id, phone) store"
  hb_addresses :: "(address_key, address_use) store"
  hb_licenses :: "(byte list, nat) store"
  hb_connections :: nat
  hb_next_conn :: nat
  hb_next_generation :: nat
  hb_off :: bool
  hb_refused :: "(string, nat) store"
  hb_turned_away :: nat

definition hub_default :: hub where
  "hub_default =
     \<lparr> hb_pcs = [], hb_phones = [], hb_addresses = [], hb_licenses = [], hb_connections = 0,
       hb_next_conn = 0, hb_next_generation = 0, hb_off = False, hb_refused = [],
       hb_turned_away = 0 \<rparr>"

datatype turned = TurnedOff | TurnedFull | TurnedTooMany

definition license_mark :: "relay_env \<Rightarrow> byte list \<Rightarrow> string \<Rightarrow> byte list" where
  "license_mark E salt key_id = sha256 E (salt @ as_bytes key_id)"

record stats =
  sx_connections :: nat
  sx_pcs :: nat
  sx_phones :: nat
  sx_addresses :: nat
  sx_refused :: "(string, nat) store"
  sx_turned_away :: nat
  sx_off :: bool

definition hub_stats :: "hub \<Rightarrow> stats" where
  "hub_stats st =
     \<lparr> sx_connections = hb_connections st, sx_pcs = length (hb_pcs st),
       sx_phones = length (hb_phones st), sx_addresses = length (hb_addresses st),
       sx_refused = hb_refused st, sx_turned_away = hb_turned_away st, sx_off = hb_off st \<rparr>"

text \<open>What a link is sent.\<close>

definition deliver :: "(link_id \<Rightarrow> link) \<Rightarrow> sends \<Rightarrow> link_id \<Rightarrow> link" where
  "deliver links out = foldl (\<lambda>ls (i, m). ls(i := send_message (ls i) m)) links out"

definition to_pc :: "relay_env \<Rightarrow> link_id \<Rightarrow> relay_to_pc \<Rightarrow> link_id \<times> frame" where
  "to_pc E i m = (i, TextFrame (json_write_pc E m))"

definition to_phone :: "relay_env \<Rightarrow> link_id \<Rightarrow> relay_to_phone \<Rightarrow> link_id \<times> frame" where
  "to_phone E i m = (i, TextFrame (json_write_phone E m))"

definition close_link :: "link_id \<Rightarrow> link_id \<times> frame" where
  "close_link i = (i, CloseFrame)"

section \<open>The off switch\<close>

definition close_all :: "relay_env \<Rightarrow> hub \<Rightarrow> sends" where
  "close_all E st =
     concat (map (\<lambda>(_, p). [to_phone E (ph_link p) PcOffline, close_link (ph_link p)]) (hb_phones st)) @
     map (\<lambda>(_, p). close_link (pc_link p)) (hb_pcs st)"

text \<open>
  \<open>set_off\<close> of the source takes the lock once to set the flag and once more in \<open>close_all\<close>; it is one
  step here. Between the two the relay is off already and no connection enters; one that had entered
  before may still register or leave there, and \<open>close_all\<close> then closes the lines of that moment.
\<close>

definition set_off :: "relay_env \<Rightarrow> hub \<Rightarrow> bool \<Rightarrow> hub \<times> sends" where
  "set_off E st off =
     (let was = hb_off st; st1 = st\<lparr>hb_off := off\<rparr>
      in (st1, if off \<and> \<not> was then close_all E st1 else []))"

section \<open>The door\<close>

definition address_idle :: "address_use \<Rightarrow> int \<Rightarrow> bool" where
  "address_idle u now \<longleftrightarrow>
     au_open u = 0 \<and> au_pcs u = 0 \<and> count_at (au_new u) now = 0 \<and> count_at (au_tries u) now = 0"

definition sweep :: "hub \<Rightarrow> int \<Rightarrow> hub" where
  "sweep st now = st\<lparr>hb_addresses := retain (\<lambda>_ u. \<not> address_idle u now) (hb_addresses st)\<rparr>"

definition sweep_addresses :: "hub \<Rightarrow> int \<Rightarrow> hub" where
  "sweep_addresses st now = sweep st now"

definition braked :: "address_use \<Rightarrow> limits \<Rightarrow> int \<Rightarrow> bool" where
  "braked u L now \<longleftrightarrow>
     count_at (au_tries u) now \<ge> tries_per_address_per_minute L \<or>
     count_at (au_new u) now \<ge> new_per_address_per_minute L"

definition no_room_for :: "hub \<Rightarrow> address_key \<Rightarrow> limits \<Rightarrow> int \<Rightarrow> hub \<times> bool" where
  "no_room_for st address L now =
     (let lim = addresses_remembered L in
      if get (hb_addresses st) address \<noteq> None \<or> length (hb_addresses st) < lim then (st, False)
      else
        let st1 = sweep st now;
            st2 = (if length (hb_addresses st1) \<ge> lim
                   then st1\<lparr>hb_addresses :=
                          retain (\<lambda>_ u. au_open u > 0 \<or> au_pcs u > 0 \<or> braked u L now)
                            (hb_addresses st1)\<rparr>
                   else st1);
            st3 = (if length (hb_addresses st2) \<ge> lim
                   then st2\<lparr>hb_addresses :=
                          retain (\<lambda>_ u. au_open u > 0 \<or> au_pcs u > 0) (hb_addresses st2)\<rparr>
                   else st2)
        in (st3, length (hb_addresses st3) \<ge> lim))"

definition forget_idle_address :: "hub \<Rightarrow> address_key \<Rightarrow> int \<Rightarrow> hub" where
  "forget_idle_address st address now =
     (case get (hb_addresses st) address of
        None \<Rightarrow> st
      | Some u \<Rightarrow>
          if address_idle u now then st\<lparr>hb_addresses := del address (hb_addresses st)\<rparr> else st)"

text \<open>The end of \<open>enter\<close> for a connection that is turned away.\<close>

definition turn_away :: "hub \<Rightarrow> address_key \<Rightarrow> int \<Rightarrow> turned \<Rightarrow> hub \<times> (turned + unit)" where
  "turn_away st address now t =
     (forget_idle_address (st\<lparr>hb_turned_away := hb_turned_away st + 1\<rparr>) address now, Inl t)"

text \<open>\<open>addresses.entry(address).or_default()\<close>, changed by \<open>f\<close>.\<close>

definition at_address :: "address_key \<Rightarrow> (address_use \<Rightarrow> address_use) \<Rightarrow> hub \<Rightarrow> hub" where
  "at_address address f st =
     st\<lparr>hb_addresses := entry address_use_default address f (hb_addresses st)\<rparr>"

definition use_of :: "hub \<Rightarrow> address_key \<Rightarrow> address_use" where
  "use_of st address =
     (case get (hb_addresses st) address of None \<Rightarrow> address_use_default | Some u \<Rightarrow> u)"

definition enter :: "limits \<Rightarrow> hub \<Rightarrow> address_key \<Rightarrow> int \<Rightarrow> hub \<times> (turned + unit)" where
  "enter L st address now =
     (if hb_off st then turn_away st address now TurnedOff
      else if hb_connections st \<ge> connections_max L then turn_away st address now TurnedFull
      else
        let (st1, full) = no_room_for st address L now in
        if full then turn_away st1 address now TurnedFull
        else
          let st2 = at_address address (\<lambda>u. u) st1; u = use_of st2 address in
          if au_open u \<ge> connections_per_address L \<or>
             count_at (au_tries u) now \<ge> tries_per_address_per_minute L
          then turn_away st2 address now TurnedTooMany
          else
            let (w, n) = bump (au_new u) now 1;
                st3 = at_address address (\<lambda>v. v\<lparr>au_new := w\<rparr>) st2
            in if n > new_per_address_per_minute L then turn_away st3 address now TurnedTooMany
               else
                 (at_address address (\<lambda>v. v\<lparr>au_open := au_open v + 1\<rparr>)
                    (st3\<lparr>hb_connections := hb_connections st3 + 1\<rparr>),
                  Inr ()))"

definition leave :: "hub \<Rightarrow> address_key \<Rightarrow> int \<Rightarrow> hub" where
  "leave st address now =
     forget_idle_address
       (st\<lparr>hb_connections := hb_connections st - 1,
           hb_addresses := modify address (\<lambda>u. u\<lparr>au_open := au_open u - 1\<rparr>) (hb_addresses st)\<rparr>)
       address now"

definition hub_refused :: "hub \<Rightarrow> string \<Rightarrow> address_key \<Rightarrow> int \<Rightarrow> hub" where
  "hub_refused st why address now =
     at_address address (\<lambda>u. u\<lparr>au_tries := fst (bump (au_tries u) now 1)\<rparr>)
       (st\<lparr>hb_refused := entry 0 why (\<lambda>n. n + 1) (hb_refused st)\<rparr>)"

section \<open>PCs\<close>

definition forget_pc :: "hub \<Rightarrow> pc \<Rightarrow> hub" where
  "forget_pc st p =
     st\<lparr>hb_licenses :=
          (case get (hb_licenses st) (pc_license p) of
             None \<Rightarrow> hb_licenses st
           | Some n \<Rightarrow>
               if n - 1 = 0 then del (pc_license p) (hb_licenses st)
               else put (pc_license p) (n - 1) (hb_licenses st)),
        hb_addresses :=
          modify (pc_address p) (\<lambda>u. u\<lparr>au_pcs := au_pcs u - 1\<rparr>) (hb_addresses st)\<rparr>"

fun lose_phones :: "relay_env \<Rightarrow> hub \<Rightarrow> conn_id list \<Rightarrow> hub \<times> sends" where
  "lose_phones E st [] = (st, [])"
| "lose_phones E st (c # cs) =
     (case get (hb_phones st) c of
        None \<Rightarrow> lose_phones E st cs
      | Some p \<Rightarrow>
          let (st1, out) = lose_phones E (st\<lparr>hb_phones := del c (hb_phones st)\<rparr>) cs
          in (st1, to_phone E (ph_link p) PcOffline # close_link (ph_link p) # out))"

definition phones_lose_pc :: "relay_env \<Rightarrow> hub \<Rightarrow> pc \<Rightarrow> hub \<times> sends" where
  "phones_lose_pc E st p = lose_phones E st (pc_phones p)"

definition register_pc ::
  "relay_env \<Rightarrow> limits \<Rightarrow> hub \<Rightarrow> string \<Rightarrow> byte list \<Rightarrow> link_id \<Rightarrow> byte list \<Rightarrow> address_key \<Rightarrow>
     hub \<times> sends \<times> (string + nat)" where
  "register_pc E L st fp key lnk license address =
     (let old = get (hb_pcs st) fp;
          replaces_on_license =
            (case old of None \<Rightarrow> 0 | Some p \<Rightarrow> if pc_license p = license then 1 else 0);
          replaces_at_address =
            (case old of None \<Rightarrow> 0 | Some p \<Rightarrow> if pc_address p = address then 1 else 0);
          on_license =
            (case get (hb_licenses st) license of None \<Rightarrow> 0 | Some n \<Rightarrow> n) - replaces_on_license;
          at_addr =
            (case get (hb_addresses st) address of None \<Rightarrow> 0 | Some u \<Rightarrow> au_pcs u) - replaces_at_address
      in if on_license \<ge> pcs_per_license L \<or> at_addr \<ge> pcs_per_address L
         then (st, [], Inl too_many_tries)
         else
           let st1 = st\<lparr>hb_next_generation := hb_next_generation st + 1\<rparr>;
               generation = hb_next_generation st1;
               (st2, out) =
                 (case get (hb_pcs st1) fp of
                    None \<Rightarrow> (st1, [])
                  | Some p \<Rightarrow>
                      let (st', out') = phones_lose_pc E (st1\<lparr>hb_pcs := del fp (hb_pcs st1)\<rparr>) p
                      in (forget_pc st' p, out' @ [close_link (pc_link p)]));
               st3 = st2\<lparr>hb_licenses := entry 0 license (\<lambda>n. n + 1) (hb_licenses st2)\<rparr>;
               st4 = at_address address (\<lambda>u. u\<lparr>au_pcs := au_pcs u + 1\<rparr>) st3;
               st5 = st4\<lparr>hb_pcs :=
                       put fp \<lparr> pc_link = lnk, pc_key = key, pc_mailbox = None, pc_dropped = [],
                                pc_phones = [], pc_generation = generation, pc_license = license,
                                pc_address = address \<rparr> (hb_pcs st4)\<rparr>
           in (st5, out, Inr generation))"

definition unregister_pc :: "relay_env \<Rightarrow> hub \<Rightarrow> string \<Rightarrow> nat \<Rightarrow> hub \<times> sends" where
  "unregister_pc E st fp generation =
     (case get (hb_pcs st) fp of
        None \<Rightarrow> (st, [])
      | Some p \<Rightarrow>
          if pc_generation p \<noteq> generation then (st, [])
          else
            let (st1, out) = phones_lose_pc E (st\<lparr>hb_pcs := del fp (hb_pcs st)\<rparr>) p
            in (forget_pc st1 p, out))"

definition pc_mut :: "hub \<Rightarrow> string \<Rightarrow> nat \<Rightarrow> pc option" where
  "pc_mut st fp generation =
     (case get (hb_pcs st) fp of
        None \<Rightarrow> None
      | Some p \<Rightarrow> if pc_generation p = generation then Some p else None)"

definition open_mailbox :: "hub \<Rightarrow> string \<Rightarrow> nat \<Rightarrow> string \<Rightarrow> nat \<Rightarrow> hub" where
  "open_mailbox st fp generation name instant =
     (case pc_mut st fp generation of
        None \<Rightarrow> st
      | Some p \<Rightarrow>
          st\<lparr>hb_pcs := put fp (p\<lparr>pc_mailbox :=
               Some \<lparr> mb_name = name, mb_opened = instant, mb_tries = 0 \<rparr>\<rparr>) (hb_pcs st)\<rparr>)"

definition close_mailbox :: "hub \<Rightarrow> string \<Rightarrow> nat \<Rightarrow> hub" where
  "close_mailbox st fp generation =
     (case pc_mut st fp generation of
        None \<Rightarrow> st
      | Some p \<Rightarrow> st\<lparr>hb_pcs := put fp (p\<lparr>pc_mailbox := None\<rparr>) (hb_pcs st)\<rparr>)"

text \<open>\<open>min_by_key\<close>: an entry that ends soonest (which of several, the source leaves open).\<close>

fun soonest :: "(string, int) store \<Rightarrow> string option" where
  "soonest [] = None"
| "soonest ((k, u) # m) =
     (case soonest m of
        None \<Rightarrow> Some k
      | Some k' \<Rightarrow> (case get m k' of
                      None \<Rightarrow> Some k
                    | Some u' \<Rightarrow> if u \<le> u' then Some k else Some k'))"

definition remember_dropped ::
  "limits \<Rightarrow> int \<Rightarrow> string \<Rightarrow> int \<Rightarrow> (string, int) store \<Rightarrow> (string, int) store" where
  "remember_dropped L now phone until dropped =
     (let d1 = retain (\<lambda>_ u. u > now) dropped;
          d2 = (if length d1 \<ge> dropped_per_pc L
                then (case soonest d1 of None \<Rightarrow> d1 | Some k \<Rightarrow> del k d1) else d1)
      in put phone until d2)"

text \<open>Each connection of the phone hears \<open>bad_pass\<close> and is closed.\<close>

fun drop_conns :: "relay_env \<Rightarrow> hub \<Rightarrow> string \<Rightarrow> nat \<Rightarrow> conn_id list \<Rightarrow> hub \<times> sends" where
  "drop_conns E st fp generation [] = (st, [])"
| "drop_conns E st fp generation (c # cs) =
     (let st1 = (case pc_mut st fp generation of
                   None \<Rightarrow> st
                 | Some p \<Rightarrow>
                     st\<lparr>hb_pcs := put fp (p\<lparr>pc_phones := removeAll c (pc_phones p)\<rparr>) (hb_pcs st)\<rparr>)
      in (case get (hb_phones st1) c of
            None \<Rightarrow> drop_conns E st1 fp generation cs
          | Some l \<Rightarrow>
              let (st2, out) =
                    drop_conns E
                      (st1\<lparr>hb_phones := del c (hb_phones st1),
                           hb_refused := entry 0 bad_pass (\<lambda>n. n + 1) (hb_refused st1)\<rparr>)
                      fp generation cs
              in (st2, to_phone E (ph_link l) (PhoneRefused bad_pass) # close_link (ph_link l) # out)))"

definition drop_phone ::
  "relay_env \<Rightarrow> limits \<Rightarrow> hub \<Rightarrow> string \<Rightarrow> nat \<Rightarrow> string \<Rightarrow> int \<Rightarrow> int \<Rightarrow> hub \<times> sends" where
  "drop_phone E L st fp generation phone until now =
     (case pc_mut st fp generation of
        None \<Rightarrow> (st, [])
      | Some p \<Rightarrow>
          let p1 = p\<lparr>pc_dropped := remember_dropped L now phone until (pc_dropped p)\<rparr>;
              st1 = st\<lparr>hb_pcs := put fp p1 (hb_pcs st)\<rparr>;
              gone = filter (\<lambda>c. case get (hb_phones st1) c of
                                   None \<Rightarrow> False | Some l \<Rightarrow> ph_phone l = Some phone) (pc_phones p1)
          in drop_conns E st1 fp generation gone)"

definition send_to_phone ::
  "relay_env \<Rightarrow> hub \<Rightarrow> string \<Rightarrow> conn_id \<Rightarrow> string \<Rightarrow> sends \<times> (unit + unit)" where
  "send_to_phone E st fp conn dat =
     (case get (hb_phones st) conn of
        None \<Rightarrow> ([], Inl ())
      | Some p \<Rightarrow>
          if ph_pc p \<noteq> fp then ([], Inl ())
          else ([to_phone E (ph_link p) (ToPhoneData dat)], Inr ()))"

definition close_phone :: "hub \<Rightarrow> string \<Rightarrow> conn_id \<Rightarrow> hub \<times> sends" where
  "close_phone st fp conn =
     (case get (hb_phones st) conn of
        None \<Rightarrow> (st, [])
      | Some p \<Rightarrow>
          if ph_pc p \<noteq> fp then (st, [])
          else
            (st\<lparr>hb_phones := del conn (hb_phones st),
                hb_pcs := modify fp (\<lambda>q. q\<lparr>pc_phones := removeAll conn (pc_phones q)\<rparr>) (hb_pcs st)\<rparr>,
             [close_link (ph_link p)]))"

section \<open>Phones\<close>

definition add_phone ::
  "relay_env \<Rightarrow> hub \<Rightarrow> string \<Rightarrow> string option \<Rightarrow> link_id \<Rightarrow> hub \<times> sends \<times> conn_id" where
  "add_phone E st fp phone lnk =
     (let st1 = st\<lparr>hb_next_conn := hb_next_conn st + 1\<rparr>;
          conn = CHR ''c'' # dec6 (hb_next_conn st1);
          (st2, out) =
            (case get (hb_pcs st1) fp of
               None \<Rightarrow> (st1, [])
             | Some p \<Rightarrow>
                 (st1\<lparr>hb_pcs := put fp (p\<lparr>pc_phones := List.insert conn (pc_phones p)\<rparr>) (hb_pcs st1)\<rparr>,
                  [to_pc E (pc_link p) (Joined conn phone (phone = None))]))
      in (st2\<lparr>hb_phones := put conn \<lparr> ph_link = lnk, ph_pc = fp, ph_phone = phone \<rparr> (hb_phones st2)\<rparr>,
          out, conn))"

definition join_with_pass ::
  "relay_env \<Rightarrow> limits \<Rightarrow> hub \<Rightarrow> string \<Rightarrow> link_id \<Rightarrow> int \<Rightarrow> hub \<times> sends \<times> (string + conn_id)" where
  "join_with_pass E L st pass lnk now =
     (case pc_of E pass of
        None \<Rightarrow> (st, [], Inl bad_pass)
      | Some fp \<Rightarrow>
          (case get (hb_pcs st) fp of
             None \<Rightarrow> (st, [], Inl pc_offline)
           | Some p \<Rightarrow>
               (case pass_check E pass (pc_key p) now of
                  Inl _ \<Rightarrow> (st, [], Inl bad_pass)
                | Inr payload \<Rightarrow>
                    if (case get (pc_dropped p) (pp_phone payload) of
                          None \<Rightarrow> False | Some until \<Rightarrow> until > now)
                    then (st, [], Inl bad_pass)
                    else if length (pc_phones p) \<ge> phones_per_pc L
                    then (st, [], Inl too_many_tries)
                    else
                      let (st1, out, conn) = add_phone E st fp (Some (pp_phone payload)) lnk
                      in (st1, out, Inr conn))))"

definition mailbox_over :: "limits \<Rightarrow> nat \<Rightarrow> mailbox option \<Rightarrow> bool" where
  "mailbox_over L instant mb =
     (case mb of None \<Rightarrow> False | Some b \<Rightarrow> instant - mb_opened b > mailbox_life L)"

definition close_old_mailboxes :: "limits \<Rightarrow> nat \<Rightarrow> (string, pc) store \<Rightarrow> (string, pc) store" where
  "close_old_mailboxes L instant pcs =
     map (\<lambda>(fp, p). (fp, if mailbox_over L instant (pc_mailbox p) then p\<lparr>pc_mailbox := None\<rparr> else p)) pcs"

definition has_mailbox :: "string \<Rightarrow> pc \<Rightarrow> bool" where
  "has_mailbox name p = (case pc_mailbox p of None \<Rightarrow> False | Some b \<Rightarrow> mb_name b = name)"

definition join_mailbox ::
  "relay_env \<Rightarrow> limits \<Rightarrow> hub \<Rightarrow> string \<Rightarrow> link_id \<Rightarrow> nat \<Rightarrow> hub \<times> sends \<times> (string + conn_id)" where
  "join_mailbox E L st name lnk instant =
     (let st1 = st\<lparr>hb_pcs := close_old_mailboxes L instant (hb_pcs st)\<rparr> in
      case find (\<lambda>(_, p). has_mailbox name p) (hb_pcs st1) of
        None \<Rightarrow> (st1, [], Inl mailbox_closed)
      | Some (fp, p) \<Rightarrow>
          if length (pc_phones p) \<ge> phones_per_pc L then (st1, [], Inl too_many_tries)
          else
            (case pc_mailbox p of
               None \<Rightarrow> (st1, [], Inl mailbox_closed)
             | Some b \<Rightarrow>
                 if mb_tries b \<ge> mailbox_tries L then (st1, [], Inl too_many_tries)
                 else
                   let st2 = st1\<lparr>hb_pcs := put fp (p\<lparr>pc_mailbox :=
                                    Some (b\<lparr>mb_tries := mb_tries b + 1\<rparr>)\<rparr>) (hb_pcs st1)\<rparr>;
                       (st3, out, conn) = add_phone E st2 fp None lnk
                   in (st3, out, Inr conn)))"

definition send_to_pc ::
  "relay_env \<Rightarrow> hub \<Rightarrow> conn_id \<Rightarrow> string \<Rightarrow> sends \<times> (unit + unit)" where
  "send_to_pc E st conn dat =
     (case get (hb_phones st) conn of
        None \<Rightarrow> ([], Inl ())
      | Some ph \<Rightarrow>
          (case get (hb_pcs st) (ph_pc ph) of
             None \<Rightarrow> ([], Inl ())
           | Some p \<Rightarrow> ([to_pc E (pc_link p) (PcData conn dat)], Inr ())))"

definition unregister_phone :: "relay_env \<Rightarrow> hub \<Rightarrow> conn_id \<Rightarrow> hub \<times> sends" where
  "unregister_phone E st conn =
     (case get (hb_phones st) conn of
        None \<Rightarrow> (st, [])
      | Some ph \<Rightarrow>
          let st1 = st\<lparr>hb_phones := del conn (hb_phones st)\<rparr> in
          (case get (hb_pcs st1) (ph_pc ph) of
             None \<Rightarrow> (st1, [])
           | Some p \<Rightarrow>
               (st1\<lparr>hb_pcs := put (ph_pc ph) (p\<lparr>pc_phones := removeAll conn (pc_phones p)\<rparr>) (hb_pcs st1)\<rparr>,
                [to_pc E (pc_link p) (Left conn)])))"

end
