(* ===== verification/Relay_Hub_Inv.thy ===== *)
theory Relay_Hub_Inv
  imports Relay_Hub
begin

text \<open>
  What is true of the relay's hub at every moment: every phone's connection belongs to a connected
  PC that lists it, and the other way round; the counts per license and per address are the
  counts of the PCs connected; every limit holds. \<open>relay_step\<close> is one operation, called as the
  connections of \<open>pc.rs\<close>, \<open>phone.rs\<close> and \<open>http.rs\<close> call it; the invariant holds in every state
  reached from a relay that just started.
\<close>

section \<open>The invariant\<close>

definition on_license :: "byte list \<Rightarrow> pc \<Rightarrow> nat" where
  "on_license l p = (if pc_license p = l then 1 else 0)"

definition at_addr :: "address_key \<Rightarrow> pc \<Rightarrow> nat" where
  "at_addr a p = (if pc_address p = a then 1 else 0)"

definition conn_name :: "nat \<Rightarrow> conn_id" where
  "conn_name n = CHR ''c'' # dec6 n"

lemma conn_name_inject [simp]: "conn_name m = conn_name n \<longleftrightarrow> m = n"
  by (simp add: conn_name_def)

text \<open>The PCs and their phones.\<close>

definition roster :: "hub \<Rightarrow> bool" where
  "roster st \<longleftrightarrow>
     wf_store (hb_pcs st) \<and> wf_store (hb_phones st) \<and>
     (\<forall>c ph. get (hb_phones st) c = Some ph \<longrightarrow>
        (\<exists>p. get (hb_pcs st) (ph_pc ph) = Some p \<and> c \<in> set (pc_phones p))) \<and>
     (\<forall>f p. get (hb_pcs st) f = Some p \<longrightarrow>
        distinct (pc_phones p) \<and> pc_generation p \<le> hb_next_generation st \<and>
        (\<forall>c \<in> set (pc_phones p). \<exists>ph. get (hb_phones st) c = Some ph \<and> ph_pc ph = f)) \<and>
     (\<forall>c ph. get (hb_phones st) c = Some ph \<longrightarrow> (\<exists>n \<le> hb_next_conn st. c = conn_name n))"

text \<open>One PC is within its own limits.\<close>

definition pc_ok :: "limits \<Rightarrow> pc \<Rightarrow> bool" where
  "pc_ok L p \<longleftrightarrow>
     length (pc_phones p) \<le> phones_per_pc L \<and>
     wf_store (pc_dropped p) \<and> length (pc_dropped p) \<le> max 1 (dropped_per_pc L) \<and>
     (case pc_mailbox p of None \<Rightarrow> True | Some b \<Rightarrow> mb_tries b \<le> mailbox_tries L)"

definition pcs_ok :: "limits \<Rightarrow> hub \<Rightarrow> bool" where
  "pcs_ok L st \<longleftrightarrow> (\<forall>f p. get (hb_pcs st) f = Some p \<longrightarrow> pc_ok L p)"

text \<open>The counts are right, and within the limits.\<close>

definition counts :: "limits \<Rightarrow> hub \<Rightarrow> bool" where
  "counts L st \<longleftrightarrow>
     wf_store (hb_licenses st) \<and>
     (\<forall>l. weight id (get (hb_licenses st) l) = tally (on_license l) (hb_pcs st)) \<and>
     (\<forall>l. get (hb_licenses st) l \<noteq> Some 0) \<and>
     (\<forall>a. weight au_pcs (get (hb_addresses st) a) = tally (at_addr a) (hb_pcs st)) \<and>
     (\<forall>l. tally (on_license l) (hb_pcs st) \<le> pcs_per_license L) \<and>
     (\<forall>a. tally (at_addr a) (hb_pcs st) \<le> pcs_per_address L)"

text \<open>The door.\<close>

definition door :: "limits \<Rightarrow> hub \<Rightarrow> bool" where
  "door L st \<longleftrightarrow>
     wf_store (hb_addresses st) \<and>
     hb_connections st = tally au_open (hb_addresses st) \<and>
     hb_connections st \<le> connections_max L \<and>
     length (hb_addresses st) \<le> addresses_remembered L \<and>
     (\<forall>a u. get (hb_addresses st) a = Some u \<longrightarrow> au_open u \<le> connections_per_address L)"

definition hub_inv :: "limits \<Rightarrow> hub \<Rightarrow> bool" where
  "hub_inv L st \<longleftrightarrow> roster st \<and> pcs_ok L st \<and> counts L st \<and> door L st"

lemma hub_inv_default: "hub_inv L hub_default"
  by (simp add: hub_inv_def roster_def pcs_ok_def counts_def door_def hub_default_def)

section \<open>What each part reads\<close>

named_theorems hub_frame \<open>the fields an operation leaves alone\<close>

lemma roster_cong:
  "hb_pcs st' = hb_pcs st \<Longrightarrow> hb_phones st' = hb_phones st \<Longrightarrow> hb_next_conn st' = hb_next_conn st \<Longrightarrow>
   hb_next_generation st' = hb_next_generation st \<Longrightarrow> roster st' = roster st"
  by (simp add: roster_def)

lemma pcs_ok_cong: "hb_pcs st' = hb_pcs st \<Longrightarrow> pcs_ok L st' = pcs_ok L st"
  by (simp add: pcs_ok_def)

lemma counts_cong:
  "hb_licenses st' = hb_licenses st \<Longrightarrow>
   (\<And>l. tally (on_license l) (hb_pcs st') = tally (on_license l) (hb_pcs st)) \<Longrightarrow>
   (\<And>a. tally (at_addr a) (hb_pcs st') = tally (at_addr a) (hb_pcs st)) \<Longrightarrow>
   (\<And>a. weight au_pcs (get (hb_addresses st') a) = weight au_pcs (get (hb_addresses st) a)) \<Longrightarrow>
   counts L st' = counts L st"
  by (simp add: counts_def)

lemma door_cong:
  "hb_addresses st' = hb_addresses st \<Longrightarrow> hb_connections st' = hb_connections st \<Longrightarrow>
   door L st' = door L st"
  by (simp add: door_def)

text \<open>Changing a PC without its license and address leaves the tallies.\<close>

lemma tally_put_same:
  "get m k = Some v \<Longrightarrow> f w = f v \<Longrightarrow> tally f (put k w m) = tally f m"
  using tally_put [of f k w m] by simp

lemma fold_del_get: "get (fold del cs m) c = (if c \<in> set cs then None else get m c)"
  by (induction cs arbitrary: m) auto

lemma fold_del_wf: "wf_store m \<Longrightarrow> wf_store (fold del cs m)"
  by (induction cs arbitrary: m) auto

section \<open>The address table\<close>

text \<open>Forgetting addresses that have nothing open and no PC keeps the door and the counts.\<close>

lemma tally_retain:
  "wf_store m \<Longrightarrow> (\<And>k v. get m k = Some v \<Longrightarrow> \<not> p k v \<Longrightarrow> f v = 0) \<Longrightarrow>
     tally f (retain p m) = tally f m"
  by (rule tally_retain_all) (force simp: get_in_set)

definition forgets :: "hub \<Rightarrow> hub \<Rightarrow> bool" where
  "forgets st st' \<longleftrightarrow>
     (\<exists>p. hb_addresses st' = retain p (hb_addresses st) \<and>
        (\<forall>a u. get (hb_addresses st) a = Some u \<longrightarrow> \<not> p a u \<longrightarrow> au_open u = 0 \<and> au_pcs u = 0))"

lemma forgets_trans:
  assumes "wf_store (hb_addresses st)" "forgets st st'" "forgets st' st''"
  shows "forgets st st''"
proof -
  obtain p q where p: "hb_addresses st' = retain p (hb_addresses st)"
      "\<forall>a u. get (hb_addresses st) a = Some u \<longrightarrow> \<not> p a u \<longrightarrow> au_open u = 0 \<and> au_pcs u = 0"
    and q: "hb_addresses st'' = retain q (hb_addresses st')"
      "\<forall>a u. get (hb_addresses st') a = Some u \<longrightarrow> \<not> q a u \<longrightarrow> au_open u = 0 \<and> au_pcs u = 0"
    using assms(2,3) by (auto simp: forgets_def)
  have "hb_addresses st'' = retain (\<lambda>a u. p a u \<and> q a u) (hb_addresses st)"
    using p(1) q(1) by (auto simp: retain_def intro!: filter_cong)
  moreover have "get (hb_addresses st) a = Some u \<Longrightarrow> \<not> (p a u \<and> q a u) \<Longrightarrow>
      au_open u = 0 \<and> au_pcs u = 0" for a u
    using p q(2) get_retain [OF assms(1), of p a] by (cases "p a u") auto
  ultimately show ?thesis unfolding forgets_def by blast
qed

lemma forgets_refl: "hb_addresses st' = hb_addresses st \<Longrightarrow> forgets st st'"
  by (auto simp: forgets_def retain_def intro!: exI [of _ "\<lambda>_ _. True"])

lemma forgets_weight:
  assumes "wf_store (hb_addresses st)" "forgets st st'"
  shows "weight au_pcs (get (hb_addresses st') a) = weight au_pcs (get (hb_addresses st) a)"
    and "tally au_open (hb_addresses st') = tally au_open (hb_addresses st)"
    and "length (hb_addresses st') \<le> length (hb_addresses st)"
    and "wf_store (hb_addresses st')"
    and "get (hb_addresses st') a = Some u \<Longrightarrow> get (hb_addresses st) a = Some u"
  using assms by (auto simp: forgets_def get_retain length_retain split: option.splits if_splits
      intro!: tally_retain)

lemma del_retain: "del k m = retain (\<lambda>k' _. k' \<noteq> k) m"
  by (auto simp: del_def retain_def intro!: filter_cong)

lemma forgets_idle: "wf_store (hb_addresses st) \<Longrightarrow> forgets st (forget_idle_address st a now)"
proof (cases "\<exists>u. get (hb_addresses st) a = Some u \<and> address_idle u now")
  case True
  then obtain u where u: "get (hb_addresses st) a = Some u" "address_idle u now" by blast
  then have "hb_addresses (forget_idle_address st a now) = retain (\<lambda>k _. k \<noteq> a) (hb_addresses st)"
    by (simp add: forget_idle_address_def del_retain)
  with u show ?thesis unfolding forgets_def address_idle_def by force
qed (auto simp: forget_idle_address_def split: option.split intro!: forgets_refl)

lemma forgets_sweep: "forgets st (sweep st now)"
  by (auto simp: forgets_def sweep_def address_idle_def)

lemma forgets_retain:
  "hb_addresses st' = retain p (hb_addresses st) \<Longrightarrow>
     (\<And>a u. \<not> p a u \<Longrightarrow> au_open u = 0 \<and> au_pcs u = 0) \<Longrightarrow> forgets st st'"
  by (auto simp: forgets_def)

lemma no_room_forgets:
  assumes "wf_store (hb_addresses st)"
  shows "forgets st (fst (no_room_for st a L now))"
proof -
  let ?s1 = "sweep st now"
  let ?s2 = "if length (hb_addresses ?s1) \<ge> addresses_remembered L
     then ?s1\<lparr>hb_addresses := retain (\<lambda>_ u. au_open u > 0 \<or> au_pcs u > 0 \<or> braked u L now) (hb_addresses ?s1)\<rparr>
     else ?s1"
  let ?s3 = "if length (hb_addresses ?s2) \<ge> addresses_remembered L
     then ?s2\<lparr>hb_addresses := retain (\<lambda>_ u. au_open u > 0 \<or> au_pcs u > 0) (hb_addresses ?s2)\<rparr>
     else ?s2"
  have 1: "forgets st ?s1" by (rule forgets_sweep)
  have "forgets ?s1 ?s2"
    by (simp add: forgets_refl) (auto intro!: forgets_retain)
  from forgets_trans [OF assms 1 this] have 2: "forgets st ?s2" .
  have "forgets s (if b then s\<lparr>hb_addresses := retain (\<lambda>_ u. au_open u > 0 \<or> au_pcs u > 0)
      (hb_addresses s)\<rparr> else s)" for s b
    by (simp add: forgets_refl) (auto intro!: forgets_retain)
  then have "forgets ?s2 ?s3" .
  from forgets_trans [OF assms 2 this] have 3: "forgets st ?s3" .
  show ?thesis
  proof (cases "get (hb_addresses st) a \<noteq> None \<or> length (hb_addresses st) < addresses_remembered L")
    case True
    then show ?thesis by (simp add: no_room_for_def forgets_refl)
  next
    case False
    with 3 show ?thesis by (simp add: no_room_for_def Let_def)
  qed
qed

section \<open>The door keeps the invariant\<close>

text \<open>An operation of the door touches no PC, phone or license.\<close>

definition door_only :: "hub \<Rightarrow> hub \<Rightarrow> bool" where
  "door_only st st' \<longleftrightarrow>
     hb_pcs st' = hb_pcs st \<and> hb_phones st' = hb_phones st \<and> hb_licenses st' = hb_licenses st \<and>
     hb_next_conn st' = hb_next_conn st \<and> hb_next_generation st' = hb_next_generation st"

lemma door_only_inv:
  assumes "hub_inv L st" "door_only st st'"
    and "\<And>a. weight au_pcs (get (hb_addresses st') a) = weight au_pcs (get (hb_addresses st) a)"
    and "door L st'"
  shows "hub_inv L st'"
  using assms roster_cong [of st' st] pcs_ok_cong [of st' st L] counts_cong [of st' st L]
  by (simp add: hub_inv_def door_only_def)

lemma forgets_inv:
  assumes "hub_inv L st" "door_only st st'" "forgets st st'" "hb_connections st' = hb_connections st"
  shows "hub_inv L st'"
proof (rule door_only_inv [OF assms(1,2)])
  have wf: "wf_store (hb_addresses st)" using assms(1) by (simp add: hub_inv_def door_def)
  note f = forgets_weight [OF wf assms(3)]
  show "weight au_pcs (get (hb_addresses st') a) = weight au_pcs (get (hb_addresses st) a)" for a
    by (rule f(1))
  show "door L st'"
    using assms(1,4) f(2-5) by (fastforce simp: hub_inv_def door_def)
qed

lemma at_address_inv:
  assumes "hub_inv L st" "get (hb_addresses st) a \<noteq> None \<or> length (hb_addresses st) < addresses_remembered L"
    and f: "\<And>u. au_open (f u) = au_open u" "\<And>u. au_pcs (f u) = au_pcs u"
  shows "hub_inv L (at_address a f st)"
proof (rule door_only_inv [OF assms(1)])
  let ?st = "at_address a f st"
  have d: "door L st" using assms(1) by (simp add: hub_inv_def)
  show "door_only st ?st" by (simp add: door_only_def at_address_def)
  show "weight au_pcs (get (hb_addresses ?st) b) = weight au_pcs (get (hb_addresses st) b)" for b
    by (simp add: at_address_def f address_use_default_def split: option.split)
  have "tally au_open (hb_addresses ?st) = tally au_open (hb_addresses st)"
    using tally_entry [of au_open address_use_default a f "hb_addresses st"]
    by (simp add: at_address_def f address_use_default_def split: option.splits)
  moreover have "length (hb_addresses ?st) \<le> addresses_remembered L"
    using d assms(2) by (auto simp: at_address_def length_entry door_def)
  moreover have "get (hb_addresses ?st) b = Some u \<Longrightarrow> au_open u \<le> connections_per_address L" for b u
    using d by (auto simp: at_address_def f door_def address_use_default_def split: if_splits option.splits)
  ultimately show "door L ?st"
    using d by (simp add: door_def at_address_def)
qed

lemma forget_idle_inv: "hub_inv L st \<Longrightarrow> hub_inv L (forget_idle_address st a now)"
  by (rule forgets_inv [OF _ _ forgets_idle])
    (auto simp: hub_inv_def door_def door_only_def forget_idle_address_def split: option.split)

lemma turn_away_inv: "hub_inv L st \<Longrightarrow> hub_inv L (fst (turn_away st a now t))"
  unfolding turn_away_def fst_conv
  by (rule forget_idle_inv, rule forgets_inv) (auto simp: door_only_def intro: forgets_refl)

lemma no_room_inv:
  assumes "hub_inv L st"
  shows "hub_inv L (fst (no_room_for st a L now))"
proof (rule forgets_inv [OF assms])
  show "forgets st (fst (no_room_for st a L now))"
    using assms by (intro no_room_forgets) (simp add: hub_inv_def door_def)
qed (simp_all add: door_only_def no_room_for_def sweep_def Let_def)

lemma no_room_False:
  "no_room_for st a L now = (st', False) \<Longrightarrow>
     get (hb_addresses st') a \<noteq> None \<or> length (hb_addresses st') < addresses_remembered L"
  by (auto simp: no_room_for_def Let_def not_le split: if_splits)

lemma no_room_connections [simp]:
  "hb_connections (fst (no_room_for st a L now)) = hb_connections st"
  by (simp add: no_room_for_def sweep_def Let_def)

lemma use_of_at_address [simp]: "use_of (at_address a f st) a = f (use_of st a)"
  by (simp add: use_of_def at_address_def split: option.split)

text \<open>Letting a connection in that the limits allow.\<close>

lemma let_in_inv:
  assumes "hub_inv L st" "get (hb_addresses st) a = Some u" "hb_connections st < connections_max L"
    and "au_open u < connections_per_address L"
  shows "hub_inv L (at_address a (\<lambda>v. v\<lparr>au_open := au_open v + 1\<rparr>)
           (st\<lparr>hb_connections := hb_connections st + 1\<rparr>))" (is "hub_inv L ?st")
proof (rule door_only_inv [OF assms(1)])
  have d: "door L st" using assms(1) by (simp add: hub_inv_def)
  show "door_only st ?st" by (simp add: door_only_def at_address_def)
  show "weight au_pcs (get (hb_addresses ?st) b) = weight au_pcs (get (hb_addresses st) b)" for b
    using assms(2) by (simp add: at_address_def)
  have "tally au_open (hb_addresses ?st) = tally au_open (hb_addresses st) + 1"
    using tally_entry [of au_open address_use_default a "\<lambda>v. v\<lparr>au_open := au_open v + 1\<rparr>" "hb_addresses st"]
      assms(2) by (simp add: at_address_def)
  with d assms(2-4) show "door L ?st"
    by (auto simp: door_def at_address_def length_entry)
qed

lemma enter_inv:
  assumes "hub_inv L st"
  shows "hub_inv L (fst (enter L st a now))"
proof (cases "hb_off st \<or> hb_connections st \<ge> connections_max L")
  case True
  then show ?thesis using assms by (auto simp: enter_def turn_away_inv)
next
  case False
  obtain st1 full where nr: "no_room_for st a L now = (st1, full)" by fastforce
  have i1: "hub_inv L st1" and c1: "hb_connections st1 = hb_connections st"
    using no_room_inv [OF assms, of a now] no_room_connections [of st a L now] nr by simp_all
  show ?thesis
  proof (cases full)
    case True
    with False nr i1 show ?thesis by (simp add: enter_def turn_away_inv)
  next
    case nf: False
    let ?s2 = "at_address a (\<lambda>u. u) st1"
    let ?u = "use_of ?s2 a"
    let ?s3 = "at_address a (\<lambda>v. v\<lparr>au_new := fst (bump (au_new ?u) now 1)\<rparr>) ?s2"
    have i2: "hub_inv L ?s2"
      using no_room_False [of st a L now st1] nr nf by (intro at_address_inv [OF i1]) simp_all
    have g2: "get (hb_addresses ?s2) a = Some ?u"
      by (simp add: at_address_def use_of_def)
    have i3: "hub_inv L ?s3"
      using g2 by (intro at_address_inv [OF i2]) simp_all
    have g3: "get (hb_addresses ?s3) a = Some (?u\<lparr>au_new := fst (bump (au_new ?u) now 1)\<rparr>)"
      using g2 by (simp add: at_address_def)
    have c3: "hb_connections ?s3 = hb_connections st" by (simp add: at_address_def c1)
    note let_in = let_in_inv [OF i3 g3]
    from False nr nf show ?thesis
      by (auto simp: enter_def Let_def case_prod_beta turn_away_inv i2 i3 not_le c3
          simp del: use_of_at_address One_nat_def intro!: let_in [unfolded c3])
  qed
qed

definition has_open :: "hub \<Rightarrow> address_key \<Rightarrow> bool" where
  "has_open st a = (case get (hb_addresses st) a of None \<Rightarrow> False | Some u \<Rightarrow> au_open u > 0)"

lemma leave_inv:
  assumes "hub_inv L st" "has_open st a"
  shows "hub_inv L (leave st a now)"
  unfolding leave_def
proof (rule forget_idle_inv, rule door_only_inv [OF assms(1)])
  let ?st = "st\<lparr>hb_connections := hb_connections st - 1,
      hb_addresses := modify a (\<lambda>u. u\<lparr>au_open := au_open u - 1\<rparr>) (hb_addresses st)\<rparr>"
  have d: "door L st" using assms(1) by (simp add: hub_inv_def)
  obtain u where u: "get (hb_addresses st) a = Some u" "au_open u > 0"
    using assms(2) by (auto simp: has_open_def split: option.splits)
  show "door_only st ?st" by (simp add: door_only_def)
  show "weight au_pcs (get (hb_addresses ?st) b) = weight au_pcs (get (hb_addresses st) b)" for b
    using u by simp
  have "tally au_open (hb_addresses ?st) + 1 = tally au_open (hb_addresses st)"
    using tally_modify [of "hb_addresses st" au_open a "\<lambda>u. u\<lparr>au_open := au_open u - 1\<rparr>"] u d
    by (simp add: door_def)
  with d u show "door L ?st" by (fastforce simp: door_def split: if_splits)
qed

lemma sweep_inv: "hub_inv L st \<Longrightarrow> hub_inv L (sweep_addresses st now)"
  unfolding sweep_addresses_def
  by (rule forgets_inv [OF _ _ forgets_sweep]) (simp_all add: door_only_def sweep_def)

lemma other_fields_inv:
  assumes "hub_inv L st" "door_only st st'" "hb_addresses st' = hb_addresses st"
    and "hb_connections st' = hb_connections st"
  shows "hub_inv L st'"
  using forgets_inv [OF assms(1,2) forgets_refl [OF assms(3)] assms(4)] .

lemma refused_inv:
  assumes "hub_inv L st" "has_open st a"
  shows "hub_inv L (hub_refused st c a now)"
  unfolding hub_refused_def
proof (rule at_address_inv)
  show "hub_inv L (st\<lparr>hb_refused := entry 0 c (\<lambda>n. n + 1) (hb_refused st)\<rparr>)"
    by (rule other_fields_inv [OF assms(1)]) (simp_all add: door_only_def)
qed (use assms(2) in \<open>auto simp: has_open_def split: option.splits\<close>)

lemma set_off_inv: "hub_inv L st \<Longrightarrow> hub_inv L (fst (set_off E st b))"
  by (rule other_fields_inv) (simp_all add: set_off_def door_only_def Let_def)

section \<open>PCs and phones keep the invariant\<close>

text \<open>An operation on PCs and phones that leaves the address table and the counts alone.\<close>

lemma roster_only_inv:
  assumes "hub_inv L st" "roster st'" "pcs_ok L st'"
    and "hb_licenses st' = hb_licenses st" "hb_addresses st' = hb_addresses st"
    and "hb_connections st' = hb_connections st"
    and "\<And>l. tally (on_license l) (hb_pcs st') = tally (on_license l) (hb_pcs st)"
    and "\<And>a. tally (at_addr a) (hb_pcs st') = tally (at_addr a) (hb_pcs st)"
  shows "hub_inv L st'"
  using assms counts_cong [of st' st L] door_cong [of st' st L] by (simp add: hub_inv_def)

text \<open>A PC changed in its mailbox, its dropped passes or its list of phones only.\<close>

definition same_pc :: "pc \<Rightarrow> pc \<Rightarrow> bool" where
  "same_pc p q \<longleftrightarrow>
     pc_link q = pc_link p \<and> pc_key q = pc_key p \<and> pc_generation q = pc_generation p \<and>
     pc_license q = pc_license p \<and> pc_address q = pc_address p"

lemma put_pc_tally:
  assumes "get m f = Some p" "same_pc p q"
  shows "tally (on_license l) (put f q m) = tally (on_license l) m"
    "tally (at_addr a) (put f q m) = tally (at_addr a) m"
  using assms by (simp_all add: tally_put_same on_license_def at_addr_def same_pc_def)

lemma put_pc_roster:
  assumes "roster st" "get (hb_pcs st) f = Some p" "same_pc p q" "pc_phones q = pc_phones p"
  shows "roster (st\<lparr>hb_pcs := put f q (hb_pcs st)\<rparr>)"
  using assms unfolding roster_def same_pc_def by (auto 4 4)

lemma put_pc_inv:
  assumes "hub_inv L st" "get (hb_pcs st) f = Some p" "same_pc p q" "pc_phones q = pc_phones p"
    and "pc_ok L q"
  shows "hub_inv L (st\<lparr>hb_pcs := put f q (hb_pcs st)\<rparr>)"
proof (rule roster_only_inv [OF assms(1)])
  show "roster (st\<lparr>hb_pcs := put f q (hb_pcs st)\<rparr>)"
    using assms by (intro put_pc_roster) (simp_all add: hub_inv_def)
  show "pcs_ok L (st\<lparr>hb_pcs := put f q (hb_pcs st)\<rparr>)"
    using assms by (simp add: hub_inv_def pcs_ok_def)
qed (simp_all add: put_pc_tally [OF assms(2,3)])

lemma hub_pc_ok: "hub_inv L st \<Longrightarrow> get (hb_pcs st) f = Some p \<Longrightarrow> pc_ok L p"
  by (simp add: hub_inv_def pcs_ok_def)

lemma pc_mut_Some:
  "pc_mut st f g = Some p \<longleftrightarrow> get (hb_pcs st) f = Some p \<and> pc_generation p = g"
  by (auto simp: pc_mut_def split: option.splits)

lemma open_mailbox_inv: "hub_inv L st \<Longrightarrow> hub_inv L (open_mailbox st f g name t)"
  by (auto simp: open_mailbox_def pc_mut_Some same_pc_def pc_ok_def dest: hub_pc_ok
      split: option.split intro!: put_pc_inv)

lemma close_mailbox_inv: "hub_inv L st \<Longrightarrow> hub_inv L (close_mailbox st f g)"
  by (auto simp: close_mailbox_def pc_mut_Some same_pc_def pc_ok_def dest: hub_pc_ok
      split: option.split intro!: put_pc_inv)

subsection \<open>A phone's connection goes\<close>

text \<open>A connection taken out of the phones and out of its PC's list.\<close>

definition take_out :: "hub \<Rightarrow> conn_id \<Rightarrow> string \<Rightarrow> pc \<Rightarrow> hub" where
  "take_out st c f p =
     st\<lparr>hb_phones := del c (hb_phones st),
        hb_pcs := put f (p\<lparr>pc_phones := removeAll c (pc_phones p)\<rparr>) (hb_pcs st)\<rparr>"

lemma roster_phone:
  assumes "roster st" "get (hb_phones st) c = Some ph"
  obtains p where "get (hb_pcs st) (ph_pc ph) = Some p" "c \<in> set (pc_phones p)"
  using assms unfolding roster_def by blast

lemma roster_listed:
  assumes "roster st" "get (hb_pcs st) f = Some p" "c \<in> set (pc_phones p)"
  obtains ph where "get (hb_phones st) c = Some ph" "ph_pc ph = f"
  using assms unfolding roster_def by blast

lemma take_out_roster:
  assumes "roster st" "get (hb_pcs st) f = Some p"
    and "\<And>ph. get (hb_phones st) c = Some ph \<Longrightarrow> ph_pc ph = f"
  shows "roster (take_out st c f p)"
  using assms unfolding roster_def take_out_def by (auto 4 4 simp: distinct_removeAll)

lemma take_out_inv:
  assumes "hub_inv L st" "get (hb_pcs st) f = Some p"
    and "\<And>ph. get (hb_phones st) c = Some ph \<Longrightarrow> ph_pc ph = f"
  shows "hub_inv L (take_out st c f p)"
proof (rule roster_only_inv [OF assms(1)])
  show "roster (take_out st c f p)"
    using assms by (intro take_out_roster) (simp_all add: hub_inv_def)
  have "pc_ok L p" by (rule hub_pc_ok [OF assms(1,2)])
  then have "length (pc_phones p) \<le> phones_per_pc L" by (simp add: pc_ok_def)
  then have "length (removeAll c (pc_phones p)) \<le> phones_per_pc L"
    by (rule order_trans [OF length_removeAll_less_eq])
  with \<open>pc_ok L p\<close> have "pc_ok L (p\<lparr>pc_phones := removeAll c (pc_phones p)\<rparr>)"
    by (simp add: pc_ok_def)
  with assms(1) show "pcs_ok L (take_out st c f p)"
    by (simp add: hub_inv_def pcs_ok_def take_out_def)
  have same: "same_pc p (p\<lparr>pc_phones := removeAll c (pc_phones p)\<rparr>)" by (simp add: same_pc_def)
  show "tally (on_license l) (hb_pcs (take_out st c f p)) = tally (on_license l) (hb_pcs st)" for l
    by (simp add: take_out_def put_pc_tally [OF assms(2) same])
  show "tally (at_addr a) (hb_pcs (take_out st c f p)) = tally (at_addr a) (hb_pcs st)" for a
    by (simp add: take_out_def put_pc_tally [OF assms(2) same])
qed (simp_all add: take_out_def)

lemma modify_put: "get m k = Some v \<Longrightarrow> wf_store m \<Longrightarrow> modify k f m = put k (f v) m"
  by (induction m) auto

lemma close_phone_eq:
  assumes "roster st" "get (hb_phones st) c = Some ph" "ph_pc ph = f" "get (hb_pcs st) f = Some p"
  shows "close_phone st f c = (take_out st c f p, [close_link (ph_link ph)])"
  using assms by (simp add: close_phone_def take_out_def modify_put roster_def)

lemma close_phone_inv:
  assumes "hub_inv L st"
  shows "hub_inv L (fst (close_phone st f c))"
proof (cases "\<exists>ph. get (hb_phones st) c = Some ph \<and> ph_pc ph = f")
  case True
  then obtain ph where ph: "get (hb_phones st) c = Some ph" "ph_pc ph = f" by blast
  have r: "roster st" using assms by (simp add: hub_inv_def)
  obtain p where p: "get (hb_pcs st) f = Some p"
    using roster_phone [OF r ph(1)] ph(2) by blast
  have "hub_inv L (take_out st c f p)"
    using ph by (intro take_out_inv [OF assms p]) simp
  with close_phone_eq [OF r ph p] show ?thesis by simp
qed (use assms in \<open>auto simp: close_phone_def split: option.split\<close>)

lemma unregister_phone_eq:
  assumes "get (hb_phones st) c = Some ph" "get (hb_pcs st) (ph_pc ph) = Some p"
  shows "unregister_phone E st c = (take_out st c (ph_pc ph) p, [to_pc E (pc_link p) (Left c)])"
  using assms by (simp add: unregister_phone_def take_out_def Let_def)

lemma unregister_phone_inv:
  assumes "hub_inv L st"
  shows "hub_inv L (fst (unregister_phone E st c))"
proof (cases "get (hb_phones st) c")
  case (Some ph)
  have r: "roster st" using assms by (simp add: hub_inv_def)
  obtain p where p: "get (hb_pcs st) (ph_pc ph) = Some p"
    using roster_phone [OF r Some] by blast
  have "hub_inv L (take_out st c (ph_pc ph) p)"
    using Some by (intro take_out_inv [OF assms p]) simp
  with unregister_phone_eq [OF Some p] show ?thesis by simp
qed (use assms in \<open>simp add: unregister_phone_def\<close>)

subsection \<open>A phone is dropped\<close>

lemma soonest_in: "soonest m = Some k \<Longrightarrow> get m k \<noteq> None"
  by (induction m arbitrary: k rule: soonest.induct) (auto split: option.splits if_splits)

lemma soonest_None: "soonest m = None \<Longrightarrow> m = []"
  by (cases m rule: soonest.cases) (auto split: option.splits if_splits)

lemma remember_dropped_ok:
  assumes "wf_store d" "length d \<le> max 1 (dropped_per_pc L)"
  shows "wf_store (remember_dropped L now ph until d)"
    and "length (remember_dropped L now ph until d) \<le> max 1 (dropped_per_pc L)"
    and "get (remember_dropped L now ph until d) ph = Some until"
proof -
  let ?d1 = "retain (\<lambda>_ u. u > now) d"
  have l1: "length ?d1 \<le> max 1 (dropped_per_pc L)"
    using assms(2) length_retain order_trans by blast
  define d2 where "d2 = (if length ?d1 \<ge> dropped_per_pc L
      then (case soonest ?d1 of None \<Rightarrow> ?d1 | Some k \<Rightarrow> del k ?d1) else ?d1)"
  have wf: "wf_store d2" using assms(1) by (simp add: d2_def split: option.split)
  have "length d2 < max 1 (dropped_per_pc L)"
  proof (cases "soonest ?d1")
    case None
    then have "?d1 = []" by (rule soonest_None)
    then show ?thesis by (simp add: d2_def split: option.split)
  next
    case (Some k)
    then have "length (del k ?d1) < length ?d1" by (intro length_del_less soonest_in)
    with Some l1 show ?thesis by (auto simp: d2_def)
  qed
  moreover have r: "remember_dropped L now ph until d = put ph until d2"
    by (simp add: remember_dropped_def d2_def Let_def)
  ultimately show "length (remember_dropped L now ph until d) \<le> max 1 (dropped_per_pc L)"
    by (simp add: length_put)
  show "wf_store (remember_dropped L now ph until d)"
    "get (remember_dropped L now ph until d) ph = Some until"
    using wf by (simp_all add: r)
qed

text \<open>The loop over the phone's connections, one at a time.\<close>

lemma drop_conns_Cons:
  assumes "get (hb_pcs st) f = Some p" "pc_generation p = g" "get (hb_phones st) c = Some ph"
  shows "drop_conns E st f g (c # cs) =
    (let (st', out) = drop_conns E ((take_out st c f p)
           \<lparr>hb_refused := entry 0 bad_pass (\<lambda>n. n + 1) (hb_refused st)\<rparr>) f g cs
     in (st', to_phone E (ph_link ph) (PhoneRefused bad_pass) # close_link (ph_link ph) # out))"
proof -
  have "pc_mut st f g = Some p" using assms by (simp add: pc_mut_Some)
  with assms(3) show ?thesis by (cases st) (simp add: take_out_def Let_def)
qed

lemma drop_conns_inv:
  assumes "hub_inv L st" "get (hb_pcs st) f = Some p" "pc_generation p = g" "distinct cs"
    and "\<forall>c \<in> set cs. \<exists>ph. get (hb_phones st) c = Some ph \<and> ph_pc ph = f"
  shows "hub_inv L (fst (drop_conns E st f g cs)) \<and>
    hb_phones (fst (drop_conns E st f g cs)) = fold del cs (hb_phones st) \<and>
    (\<exists>p'. get (hb_pcs (fst (drop_conns E st f g cs))) f = Some p' \<and> pc_dropped p' = pc_dropped p \<and>
       pc_generation p' = g)"
  using assms
proof (induction cs arbitrary: st p)
  case (Cons c cs)
  obtain ph where ph: "get (hb_phones st) c = Some ph" "ph_pc ph = f"
    using Cons.prems(5) by auto
  let ?st = "(take_out st c f p)\<lparr>hb_refused := entry 0 bad_pass (\<lambda>n. n + 1) (hb_refused st)\<rparr>"
  let ?p = "p\<lparr>pc_phones := removeAll c (pc_phones p)\<rparr>"
  have "hub_inv L (take_out st c f p)"
    using ph by (intro take_out_inv [OF Cons.prems(1,2)]) simp
  then have "hub_inv L ?st" by (rule other_fields_inv) (simp_all add: door_only_def)
  moreover have "get (hb_pcs ?st) f = Some ?p" "pc_generation ?p = g"
    using Cons.prems(3) by (simp_all add: take_out_def)
  moreover have "\<forall>d \<in> set cs. \<exists>ph. get (hb_phones ?st) d = Some ph \<and> ph_pc ph = f"
    using Cons.prems(4,5) by (auto simp: take_out_def)
  ultimately have "hub_inv L (fst (drop_conns E ?st f g cs)) \<and>
      hb_phones (fst (drop_conns E ?st f g cs)) = fold del cs (hb_phones ?st) \<and>
      (\<exists>p'. get (hb_pcs (fst (drop_conns E ?st f g cs))) f = Some p' \<and>
        pc_dropped p' = pc_dropped ?p \<and> pc_generation p' = g)"
    using Cons.IH [of ?st ?p] Cons.prems(4) by simp
  then show ?case
    unfolding drop_conns_Cons [OF Cons.prems(2,3) ph(1)]
    by (simp add: case_prod_beta Let_def take_out_def)
qed auto

text \<open>The connections of a phone that its PC drops.\<close>

definition conns_of :: "hub \<Rightarrow> pc \<Rightarrow> string \<Rightarrow> conn_id list" where
  "conns_of st p phone =
     filter (\<lambda>c. case get (hb_phones st) c of None \<Rightarrow> False | Some l \<Rightarrow> ph_phone l = Some phone)
       (pc_phones p)"

lemma drop_phone_inv:
  assumes "hub_inv L st" "get (hb_pcs st) f = Some p" "pc_generation p = g"
  shows "hub_inv L (fst (drop_phone E L st f g phone until now)) \<and>
    hb_phones (fst (drop_phone E L st f g phone until now)) =
      fold del (conns_of st p phone) (hb_phones st) \<and>
    (\<exists>p'. get (hb_pcs (fst (drop_phone E L st f g phone until now))) f = Some p' \<and>
       pc_dropped p' = remember_dropped L now phone until (pc_dropped p) \<and> pc_generation p' = g)"
proof -
  let ?p = "p\<lparr>pc_dropped := remember_dropped L now phone until (pc_dropped p)\<rparr>"
  let ?st = "st\<lparr>hb_pcs := put f ?p (hb_pcs st)\<rparr>"
  have m: "pc_mut st f g = Some p" using assms by (simp add: pc_mut_Some)
  have ok: "pc_ok L p" by (rule hub_pc_ok [OF assms(1,2)])
  then have "pc_ok L ?p" by (simp add: pc_ok_def remember_dropped_ok del: One_nat_def)
  then have i: "hub_inv L ?st"
    by (intro put_pc_inv [OF assms(1,2)]) (simp_all add: same_pc_def)
  have r: "roster st" using assms(1) by (simp add: hub_inv_def)
  have cs: "conns_of ?st ?p phone = conns_of st p phone" by (simp add: conns_of_def)
  have d: "distinct (conns_of st p phone)"
    using r assms(2) by (auto simp: conns_of_def roster_def)
  have l: "\<forall>c \<in> set (conns_of st p phone). \<exists>ph. get (hb_phones ?st) c = Some ph \<and> ph_pc ph = f"
    using r assms(2) by (auto simp: conns_of_def elim: roster_listed)
  have "drop_phone E L st f g phone until now = drop_conns E ?st f g (conns_of st p phone)"
    using m cs by (simp add: drop_phone_def conns_of_def)
  with drop_conns_inv [OF i _ _ d l, of ?p g E] assms(3) show ?thesis by simp
qed

lemma drop_phone_none: "pc_mut st f g = None \<Longrightarrow> drop_phone E L st f g phone until now = (st, [])"
  by (simp add: drop_phone_def)

lemma drop_phone_keeps:
  "hub_inv L st \<Longrightarrow> hub_inv L (fst (drop_phone E L st f g phone until now))"
  using drop_phone_inv by (cases "pc_mut st f g") (auto simp: drop_phone_none pc_mut_Some)

subsection \<open>A phone joins\<close>

lemma roster_fresh: "roster st \<Longrightarrow> get (hb_phones st) (conn_name (Suc (hb_next_conn st))) = None"
  unfolding roster_def by (metis conn_name_inject not_less_eq_eq option.exhaust order_refl)

lemma roster_fresh_listed:
  "roster st \<Longrightarrow> get (hb_pcs st) f = Some p \<Longrightarrow> conn_name (Suc (hb_next_conn st)) \<notin> set (pc_phones p)"
  using roster_fresh by (metis roster_listed option.distinct(1))

lemma add_phone_eq:
  assumes "get (hb_pcs st) f = Some p"
  defines "c \<equiv> conn_name (Suc (hb_next_conn st))"
  shows "add_phone E st f phone lnk =
    (st\<lparr>hb_next_conn := Suc (hb_next_conn st),
        hb_pcs := put f (p\<lparr>pc_phones := List.insert c (pc_phones p)\<rparr>) (hb_pcs st),
        hb_phones := put c \<lparr> ph_link = lnk, ph_pc = f, ph_phone = phone \<rparr> (hb_phones st)\<rparr>,
     [to_pc E (pc_link p) (Joined c phone (phone = None))], c)"
  using assms by (simp add: add_phone_def Let_def conn_name_def)

lemma add_phone_roster:
  assumes "roster st" "get (hb_pcs st) f = Some p"
  shows "roster (fst (add_phone E st f phone lnk))"
proof -
  have c: "get (hb_phones st) (conn_name (Suc (hb_next_conn st))) = None"
    by (rule roster_fresh [OF assms(1)])
  have n: "get (hb_pcs st) g = Some q \<Longrightarrow> conn_name (Suc (hb_next_conn st)) \<notin> set (pc_phones q)" for g q
    by (rule roster_fresh_listed [OF assms(1)])
  have le: "\<And>m n. m \<le> n \<Longrightarrow> m \<le> Suc n" by simp
  show ?thesis
    using assms c n
    unfolding roster_def add_phone_eq [OF assms(2)] by (auto 4 4 intro: le)
qed

lemma add_phone_inv:
  assumes "hub_inv L st" "get (hb_pcs st) f = Some p" "length (pc_phones p) < phones_per_pc L"
  shows "hub_inv L (fst (add_phone E st f phone lnk))"
proof -
  let ?p = "p\<lparr>pc_phones := List.insert (conn_name (Suc (hb_next_conn st))) (pc_phones p)\<rparr>"
  have r: "roster st" using assms(1) by (simp add: hub_inv_def)
  have same: "same_pc p ?p" by (simp add: same_pc_def)
  have "pc_ok L ?p"
    using hub_pc_ok [OF assms(1,2)] assms(3) roster_fresh_listed [OF r assms(2)]
    by (simp add: pc_ok_def)
  then have "pcs_ok L (fst (add_phone E st f phone lnk))"
    using assms(1) by (simp add: add_phone_eq [OF assms(2)] hub_inv_def pcs_ok_def)
  then show ?thesis
    by (rule roster_only_inv [OF assms(1) add_phone_roster [OF r assms(2)]])
      (simp_all add: add_phone_eq [OF assms(2)] put_pc_tally [OF assms(2) same])
qed

lemma join_with_pass_inv:
  assumes "hub_inv L st"
  shows "hub_inv L (fst (join_with_pass E L st pass lnk now))"
  using assms add_phone_inv
  by (auto simp: join_with_pass_def case_prod_beta not_le Let_def
      split: option.split sum.split)

definition old_box :: "limits \<Rightarrow> nat \<Rightarrow> pc \<Rightarrow> pc" where
  "old_box L t p = (if mailbox_over L t (pc_mailbox p) then p\<lparr>pc_mailbox := None\<rparr> else p)"

lemma old_box_same [simp]:
  "pc_phones (old_box L t p) = pc_phones p" "pc_generation (old_box L t p) = pc_generation p"
  "pc_dropped (old_box L t p) = pc_dropped p" "pc_key (old_box L t p) = pc_key p"
  "pc_link (old_box L t p) = pc_link p"
  by (simp_all add: old_box_def)

lemma old_box_ok: "pc_ok L p \<Longrightarrow> pc_ok L (old_box L' t p)"
  by (auto simp: pc_ok_def old_box_def split: option.splits)

lemma close_old_get: "get (close_old_mailboxes L t m) f = map_option (old_box L t) (get m f)"
  by (induction m) (auto simp: close_old_mailboxes_def old_box_def)

lemma close_old_keys [simp]: "map fst (close_old_mailboxes L t m) = map fst m"
  by (induction m) (auto simp: close_old_mailboxes_def)

lemma close_old_tally:
  "(\<And>p. f (p\<lparr>pc_mailbox := None\<rparr>) = f p) \<Longrightarrow> tally f (close_old_mailboxes L t m) = tally f m"
  by (induction m) (auto simp: close_old_mailboxes_def)

lemma close_old_inv:
  assumes "hub_inv L st"
  shows "hub_inv L (st\<lparr>hb_pcs := close_old_mailboxes L t (hb_pcs st)\<rparr>)" (is "hub_inv L ?st")
proof (rule roster_only_inv [OF assms])
  have wf: "wf_store (close_old_mailboxes L t (hb_pcs st)) = wf_store (hb_pcs st)"
    by (simp add: wf_store_def)
  show "roster ?st"
    using assms unfolding hub_inv_def roster_def
    by (auto simp: wf close_old_get) (metis old_box_same(1))
  show "pcs_ok L ?st"
    using assms by (auto simp: hub_inv_def pcs_ok_def close_old_get old_box_ok)
qed (simp_all add: close_old_tally on_license_def at_addr_def)

lemma join_mailbox_inv:
  assumes "hub_inv L st"
  shows "hub_inv L (fst (join_mailbox E L st name lnk t))"
proof -
  let ?s1 = "st\<lparr>hb_pcs := close_old_mailboxes L t (hb_pcs st)\<rparr>"
  have i: "hub_inv L ?s1" by (rule close_old_inv [OF assms])
  have j: "hub_inv L (fst (add_phone E
      (?s1\<lparr>hb_pcs := put f (p\<lparr>pc_mailbox := Some (b\<lparr>mb_tries := mb_tries b + 1\<rparr>)\<rparr>) (hb_pcs ?s1)\<rparr>) f None lnk))"
    if "get (hb_pcs ?s1) f = Some p" "length (pc_phones p) < phones_per_pc L"
      "pc_mailbox p = Some b" "mb_tries b < mailbox_tries L" for f p b
  proof (rule add_phone_inv [where p = "p\<lparr>pc_mailbox := Some (b\<lparr>mb_tries := mb_tries b + 1\<rparr>)\<rparr>"])
    have "pc_ok L (p\<lparr>pc_mailbox := Some (b\<lparr>mb_tries := mb_tries b + 1\<rparr>)\<rparr>)"
      using hub_pc_ok [OF i that(1)] that by (simp add: pc_ok_def)
    then show "hub_inv L (?s1\<lparr>hb_pcs :=
        put f (p\<lparr>pc_mailbox := Some (b\<lparr>mb_tries := mb_tries b + 1\<rparr>)\<rparr>) (hb_pcs ?s1)\<rparr>)"
      by (intro put_pc_inv [OF i that(1)]) (simp_all add: same_pc_def)
  qed (use that in simp_all)
  have f: "get (hb_pcs ?s1) f = Some p"
    if "find (\<lambda>(_, p). has_mailbox name p) (hb_pcs ?s1) = Some (f, p)" for f p
  proof -
    have "(f, p) \<in> set (hb_pcs ?s1)"
      using that by (auto simp: find_Some_iff dest: nth_mem)
    moreover have "wf_store (hb_pcs ?s1)" using i by (simp add: hub_inv_def roster_def)
    ultimately show ?thesis by (simp add: get_in_set)
  qed
  show ?thesis
    using i j f unfolding join_mailbox_def Let_def
    by (auto simp: case_prod_beta not_le split: option.split)
qed

subsection \<open>A PC goes\<close>

text \<open>The phones of a PC, each sent \<open>pc_offline\<close> and closed.\<close>

lemma lose_phones_state: "fst (lose_phones E st cs) = st\<lparr>hb_phones := fold del cs (hb_phones st)\<rparr>"
  by (induction cs arbitrary: st) (auto simp: case_prod_beta Let_def split: option.split)

definition goodbye :: "relay_env \<Rightarrow> hub \<Rightarrow> conn_id \<Rightarrow> sends" where
  "goodbye E st c =
     (case get (hb_phones st) c of
        None \<Rightarrow> [] | Some ph \<Rightarrow> [to_phone E (ph_link ph) PcOffline, close_link (ph_link ph)])"

lemma goodbye_simps [simp]:
  "get (hb_phones st) c = None \<Longrightarrow> goodbye E st c = []"
  "get (hb_phones st) c = Some ph \<Longrightarrow>
     goodbye E st c = [to_phone E (ph_link ph) PcOffline, close_link (ph_link ph)]"
  by (simp_all add: goodbye_def)

lemma lose_phones_sends: "distinct cs \<Longrightarrow> snd (lose_phones E st cs) = concat (map (goodbye E st) cs)"
proof (induction cs arbitrary: st)
  case (Cons c cs)
  let ?st = "st\<lparr>hb_phones := del c (hb_phones st)\<rparr>"
  have "map (goodbye E ?st) cs = map (goodbye E st) cs"
    using Cons.prems by (intro map_cong refl) (auto simp: goodbye_def)
  then have "snd (lose_phones E ?st cs) = concat (map (goodbye E st) cs)"
    using Cons.IH [of ?st] Cons.prems by (simp only: distinct.simps)
  moreover have "snd (lose_phones E st cs) = concat (map (goodbye E st) cs)"
    using Cons by simp
  ultimately show ?case
    by (cases "get (hb_phones st) c") (simp_all add: case_prod_beta Let_def)
qed simp

definition without_pc :: "hub \<Rightarrow> string \<Rightarrow> pc \<Rightarrow> hub" where
  "without_pc st f p =
     forget_pc (st\<lparr>hb_pcs := del f (hb_pcs st), hb_phones := fold del (pc_phones p) (hb_phones st)\<rparr>) p"

lemma phones_lose_pc_state:
  "fst (phones_lose_pc E (st\<lparr>hb_pcs := m\<rparr>) p) =
     st\<lparr>hb_pcs := m, hb_phones := fold del (pc_phones p) (hb_phones st)\<rparr>"
  by (simp add: phones_lose_pc_def lose_phones_state)

lemma without_pc_roster:
  assumes "roster st" "get (hb_pcs st) f = Some p"
  shows "roster (without_pc st f p)"
proof -
  have l: "get (hb_phones st) c = Some ph \<Longrightarrow> ph_pc ph = f \<Longrightarrow> c \<in> set (pc_phones p)" for c ph
    using roster_phone [OF assms(1)] assms(2) by (metis option.inject)
  have o: "get (hb_pcs st) g = Some q \<Longrightarrow> g \<noteq> f \<Longrightarrow> c \<in> set (pc_phones q) \<Longrightarrow> c \<notin> set (pc_phones p)"
    for g q c
    using roster_listed [OF assms(1)] assms(2) by (metis option.inject)
  show ?thesis
    using assms(1) l o
    unfolding roster_def without_pc_def forget_pc_def
    by (auto simp: fold_del_get fold_del_wf split: if_splits)
qed

lemma weight_id: "weight id x = (case x of None \<Rightarrow> 0 | Some n \<Rightarrow> n)"
  by (cases x) simp_all

lemma without_pc_counts:
  assumes "counts L st" "roster st" "get (hb_pcs st) f = Some p"
  shows "counts L (without_pc st f p)"
proof -
  have wf: "wf_store (hb_pcs st)" using assms(2) by (simp add: roster_def)
  have t: "tally g (del f (hb_pcs st)) + g p = tally g (hb_pcs st)" for g
    using tally_del [OF wf, of g f] assms(3) by simp
  have tl: "tally (on_license l) (del f (hb_pcs st)) =
      tally (on_license l) (hb_pcs st) - on_license l p" for l using t [of "on_license l"] by linarith
  have ta: "tally (at_addr a) (del f (hb_pcs st)) =
      tally (at_addr a) (hb_pcs st) - at_addr a p" for a using t [of "at_addr a"] by linarith
  have c: "wf_store (hb_licenses st)"
    "\<And>l. weight id (get (hb_licenses st) l) = tally (on_license l) (hb_pcs st)"
    "\<And>l. get (hb_licenses st) l \<noteq> Some 0"
    "\<And>a. weight au_pcs (get (hb_addresses st) a) = tally (at_addr a) (hb_pcs st)"
    "\<And>l. tally (on_license l) (hb_pcs st) \<le> pcs_per_license L"
    "\<And>a. tally (at_addr a) (hb_pcs st) \<le> pcs_per_address L"
    using assms(1) by (simp_all add: counts_def)
  have "weight id (get (hb_licenses (without_pc st f p)) l) =
      tally (on_license l) (hb_pcs (without_pc st f p))" for l
    using c(2) [of l]
    by (auto simp: without_pc_def forget_pc_def tl on_license_def weight_id split: option.splits)
  moreover have "weight au_pcs (get (hb_addresses (without_pc st f p)) a) =
      tally (at_addr a) (hb_pcs (without_pc st f p))" for a
    using c(4) [of a]
    by (cases "get (hb_addresses st) a")
      (auto simp: without_pc_def forget_pc_def ta at_addr_def)
  moreover have "get (hb_licenses (without_pc st f p)) l \<noteq> Some 0" for l
    using c(3) [of l] by (auto simp: without_pc_def forget_pc_def split: option.split)
  moreover have "tally (on_license l) (hb_pcs (without_pc st f p)) \<le> pcs_per_license L"
    "tally (at_addr a) (hb_pcs (without_pc st f p)) \<le> pcs_per_address L" for l a
    using c(5) [of l] c(6) [of a] by (simp_all add: without_pc_def forget_pc_def tl ta)
  moreover have "wf_store (hb_licenses (without_pc st f p))"
    using c(1) by (simp add: without_pc_def forget_pc_def split: option.split)
  ultimately show ?thesis by (simp add: counts_def)
qed

text \<open>A change of one address's count of PCs leaves the door as it is.\<close>

lemma door_pcs_change:
  assumes "door L st" "hb_connections st' = hb_connections st"
    and "hb_addresses st' = modify a (\<lambda>u. u\<lparr>au_pcs := f u\<rparr>) (hb_addresses st)"
  shows "door L st'"
proof -
  have "tally au_open (hb_addresses st') = tally au_open (hb_addresses st)"
    using tally_modify [of "hb_addresses st" au_open a "\<lambda>u. u\<lparr>au_pcs := f u\<rparr>"] assms(1,3)
    by (cases "get (hb_addresses st) a") (simp_all add: door_def)
  with assms show ?thesis by (fastforce simp: door_def split: if_splits)
qed

lemma without_pc_inv:
  assumes "hub_inv L st" "get (hb_pcs st) f = Some p"
  shows "hub_inv L (without_pc st f p)"
proof -
  have i: "roster st" "pcs_ok L st" "counts L st" "door L st"
    using assms(1) by (simp_all add: hub_inv_def)
  have "pcs_ok L (without_pc st f p)"
    using i(2) by (auto simp: pcs_ok_def without_pc_def forget_pc_def split: if_splits)
  moreover have "door L (without_pc st f p)"
    by (rule door_pcs_change [OF i(4)]) (simp_all add: without_pc_def forget_pc_def)
  ultimately show ?thesis
    using without_pc_roster [OF i(1) assms(2)] without_pc_counts [OF i(3,1) assms(2)]
    by (simp add: hub_inv_def)
qed

lemma unregister_pc_eq:
  "unregister_pc E st f g =
     (case pc_mut st f g of
        None \<Rightarrow> (st, [])
      | Some p \<Rightarrow> (without_pc st f p, snd (phones_lose_pc E (st\<lparr>hb_pcs := del f (hb_pcs st)\<rparr>) p)))"
  by (auto simp: unregister_pc_def pc_mut_def phones_lose_pc_state without_pc_def case_prod_beta
      Let_def split: option.split)

lemma unregister_pc_inv: "hub_inv L st \<Longrightarrow> hub_inv L (fst (unregister_pc E st f g))"
  by (auto simp: unregister_pc_eq pc_mut_Some without_pc_inv split: option.split)

subsection \<open>A PC comes\<close>

text \<open>A new PC, after the one it replaces is gone.\<close>

definition new_pc :: "byte list \<Rightarrow> link_id \<Rightarrow> nat \<Rightarrow> byte list \<Rightarrow> address_key \<Rightarrow> pc" where
  "new_pc key lnk g license a =
     \<lparr> pc_link = lnk, pc_key = key, pc_mailbox = None, pc_dropped = [], pc_phones = [],
       pc_generation = g, pc_license = license, pc_address = a \<rparr>"

definition with_pc :: "hub \<Rightarrow> string \<Rightarrow> pc \<Rightarrow> hub" where
  "with_pc st f p =
     (at_address (pc_address p) (\<lambda>u. u\<lparr>au_pcs := au_pcs u + 1\<rparr>)
        (st\<lparr>hb_licenses := entry 0 (pc_license p) (\<lambda>n. n + 1) (hb_licenses st)\<rparr>))
     \<lparr>hb_pcs := put f p (hb_pcs st)\<rparr>"

definition before_pc :: "hub \<Rightarrow> string \<Rightarrow> hub" where
  "before_pc st f =
     (let st1 = st\<lparr>hb_next_generation := hb_next_generation st + 1\<rparr>
      in case get (hb_pcs st) f of None \<Rightarrow> st1 | Some p \<Rightarrow> without_pc st1 f p)"

text \<open>The license and the address have room, not counting the connection replaced.\<close>

definition room_for_pc :: "limits \<Rightarrow> hub \<Rightarrow> string \<Rightarrow> byte list \<Rightarrow> address_key \<Rightarrow> bool" where
  "room_for_pc L st f license a \<longleftrightarrow>
     tally (on_license license) (del f (hb_pcs st)) < pcs_per_license L \<and>
     tally (at_addr a) (del f (hb_pcs st)) < pcs_per_address L"

lemma register_room:
  assumes "hub_inv L st"
  shows "tally (on_license license) (del f (hb_pcs st)) =
      (case get (hb_licenses st) license of None \<Rightarrow> 0 | Some n \<Rightarrow> n) -
      (case get (hb_pcs st) f of None \<Rightarrow> 0 | Some p \<Rightarrow> if pc_license p = license then 1 else 0)"
    and "tally (at_addr a) (del f (hb_pcs st)) =
      (case get (hb_addresses st) a of None \<Rightarrow> 0 | Some u \<Rightarrow> au_pcs u) -
      (case get (hb_pcs st) f of None \<Rightarrow> 0 | Some p \<Rightarrow> if pc_address p = a then 1 else 0)"
proof -
  have wf: "wf_store (hb_pcs st)" using assms by (simp add: hub_inv_def roster_def)
  have t: "tally g (del f (hb_pcs st)) = tally g (hb_pcs st) - weight g (get (hb_pcs st) f)" for g
    using tally_del [OF wf, of g f] by simp
  have "weight id (get (hb_licenses st) license) = tally (on_license license) (hb_pcs st)"
    "weight au_pcs (get (hb_addresses st) a) = tally (at_addr a) (hb_pcs st)"
    using assms by (simp_all add: hub_inv_def counts_def)
  then show "tally (on_license license) (del f (hb_pcs st)) =
      (case get (hb_licenses st) license of None \<Rightarrow> 0 | Some n \<Rightarrow> n) -
      (case get (hb_pcs st) f of None \<Rightarrow> 0 | Some p \<Rightarrow> if pc_license p = license then 1 else 0)"
    "tally (at_addr a) (del f (hb_pcs st)) =
      (case get (hb_addresses st) a of None \<Rightarrow> 0 | Some u \<Rightarrow> au_pcs u) -
      (case get (hb_pcs st) f of None \<Rightarrow> 0 | Some p \<Rightarrow> if pc_address p = a then 1 else 0)"
    by (auto simp: t on_license_def at_addr_def weight_id split: option.splits)
qed

definition replaced_sends :: "relay_env \<Rightarrow> hub \<Rightarrow> string \<Rightarrow> sends" where
  "replaced_sends E st f =
     (case get (hb_pcs st) f of
        None \<Rightarrow> []
      | Some p \<Rightarrow> snd (lose_phones E st (pc_phones p)) @ [close_link (pc_link p)])"

lemma lose_phones_sends_cong:
  "hb_phones st' = hb_phones st \<Longrightarrow> snd (lose_phones E st' cs) = snd (lose_phones E st cs)"
proof (induction cs arbitrary: st st')
  case (Cons c cs)
  have "snd (lose_phones E (st'\<lparr>hb_phones := del c (hb_phones st')\<rparr>) cs) =
      snd (lose_phones E (st\<lparr>hb_phones := del c (hb_phones st)\<rparr>) cs)"
    by (rule Cons.IH) (simp add: Cons.prems)
  moreover have "snd (lose_phones E st' cs) = snd (lose_phones E st cs)"
    by (rule Cons.IH [OF Cons.prems])
  ultimately show ?case
    using Cons.prems by (simp add: case_prod_beta Let_def split: option.split)
qed simp

lemma register_pc_eq:
  assumes "hub_inv L st"
  shows "register_pc E L st f key lnk license a =
    (if room_for_pc L st f license a
     then (with_pc (before_pc st f) f (new_pc key lnk (Suc (hb_next_generation st)) license a),
           replaced_sends E st f, Inr (Suc (hb_next_generation st)))
     else (st, [], Inl too_many_tries))"
proof (cases "get (hb_pcs st) f")
  case None
  then show ?thesis
    unfolding register_pc_def Let_def register_room [OF assms, symmetric]
    by (simp add: room_for_pc_def not_le before_pc_def with_pc_def new_pc_def at_address_def
        replaced_sends_def)
next
  case (Some p)
  let ?st = "st\<lparr>hb_next_generation := Suc (hb_next_generation st), hb_pcs := del f (hb_pcs st)\<rparr>"
  have out: "snd (phones_lose_pc E ?st p) = snd (lose_phones E st (pc_phones p))"
    unfolding phones_lose_pc_def by (rule lose_phones_sends_cong) simp
  have fst: "fst (phones_lose_pc E ?st p) = ?st\<lparr>hb_phones := fold del (pc_phones p) (hb_phones st)\<rparr>"
    by (simp add: phones_lose_pc_def lose_phones_state)
  from Some show ?thesis
    unfolding register_pc_def Let_def register_room [OF assms, symmetric]
    by (simp add: room_for_pc_def not_le case_prod_beta out fst Let_def before_pc_def without_pc_def with_pc_def new_pc_def at_address_def
        replaced_sends_def)
qed

lemma before_pc_inv: "hub_inv L st \<Longrightarrow> hub_inv L (before_pc st f)"
proof -
  let ?st = "st\<lparr>hb_next_generation := hb_next_generation st + 1\<rparr>"
  assume i: "hub_inv L st"
  have "hub_inv L ?st"
  proof (rule roster_only_inv [OF i])
    show "roster ?st" using i by (fastforce simp: hub_inv_def roster_def)
  qed (use i in \<open>simp_all add: hub_inv_def pcs_ok_def\<close>)
  then show ?thesis by (simp add: before_pc_def without_pc_inv Let_def split: option.split)
qed

lemma before_pc_fields:
  "hb_pcs (before_pc st f) = del f (hb_pcs st)"
  "hb_next_generation (before_pc st f) = Suc (hb_next_generation st)"
  "get (hb_addresses (before_pc st f)) a = None \<longleftrightarrow> get (hb_addresses st) a = None"
  by (auto simp: before_pc_def without_pc_def forget_pc_def Let_def split: option.split)

lemma with_pc_counts:
  assumes "counts L st" "get (hb_pcs st) f = None"
    and "tally (on_license (pc_license p)) (hb_pcs st) < pcs_per_license L"
    and "tally (at_addr (pc_address p)) (hb_pcs st) < pcs_per_address L"
  shows "counts L (with_pc st f p)"
proof -
  have t: "tally g (put f p (hb_pcs st)) = tally g (hb_pcs st) + g p" for g
    using tally_put [of g f p "hb_pcs st"] assms(2) by simp
  have c: "\<And>l. weight id (get (hb_licenses st) l) = tally (on_license l) (hb_pcs st)"
    "\<And>a. weight au_pcs (get (hb_addresses st) a) = tally (at_addr a) (hb_pcs st)"
    "wf_store (hb_licenses st)" "\<And>l. get (hb_licenses st) l \<noteq> Some 0"
    "\<And>l. tally (on_license l) (hb_pcs st) \<le> pcs_per_license L"
    "\<And>a. tally (at_addr a) (hb_pcs st) \<le> pcs_per_address L"
    using assms(1) by (simp_all add: counts_def)
  have "weight id (get (hb_licenses (with_pc st f p)) l) = tally (on_license l) (hb_pcs (with_pc st f p))"
    for l using c(1) [of l]
    by (auto simp: with_pc_def at_address_def t on_license_def weight_id split: option.splits)
  moreover have "weight au_pcs (get (hb_addresses (with_pc st f p)) a) =
      tally (at_addr a) (hb_pcs (with_pc st f p))" for a
    using c(2) [of a] by (cases "get (hb_addresses st) a")
      (auto simp: with_pc_def at_address_def t at_addr_def address_use_default_def)
  moreover have "tally (on_license l) (hb_pcs (with_pc st f p)) \<le> pcs_per_license L"
    "tally (at_addr a) (hb_pcs (with_pc st f p)) \<le> pcs_per_address L" for l a
    using c(5) [of l] c(6) [of a] assms(3,4)
    by (auto simp: with_pc_def at_address_def t on_license_def at_addr_def)
  ultimately show ?thesis
    using c(3,4) by (auto simp: counts_def) (simp_all add: with_pc_def at_address_def split: if_splits)
qed

lemma with_pc_roster:
  assumes "roster st" "get (hb_pcs st) f = None" "pc_phones p = []"
    and "pc_generation p \<le> hb_next_generation st"
  shows "roster (with_pc st f p)"
proof -
  have g: "get (hb_pcs (with_pc st f p)) h = (if h = f then Some p else get (hb_pcs st) h)" for h
    by (simp add: with_pc_def at_address_def)
  have o: "hb_phones (with_pc st f p) = hb_phones st" "hb_next_conn (with_pc st f p) = hb_next_conn st"
    "hb_next_generation (with_pc st f p) = hb_next_generation st"
    by (simp_all add: with_pc_def at_address_def)
  have "wf_store (hb_pcs (with_pc st f p))"
    using assms(1) by (simp add: roster_def with_pc_def at_address_def)
  moreover have "\<exists>q. get (hb_pcs (with_pc st f p)) (ph_pc ph) = Some q \<and> c \<in> set (pc_phones q)"
    if ph: "get (hb_phones st) c = Some ph" for c ph
  proof -
    obtain q where q: "get (hb_pcs st) (ph_pc ph) = Some q" "c \<in> set (pc_phones q)"
      by (rule roster_phone [OF assms(1) ph])
    moreover from q(1) assms(2) have "ph_pc ph \<noteq> f" by auto
    ultimately show ?thesis by (simp add: g)
  qed
  moreover have "distinct (pc_phones q) \<and> pc_generation q \<le> hb_next_generation st \<and>
      (\<forall>c \<in> set (pc_phones q). \<exists>ph. get (hb_phones st) c = Some ph \<and> ph_pc ph = h)"
    if "get (hb_pcs (with_pc st f p)) h = Some q" for h q
  proof (cases "h = f")
    case True
    with that assms(3,4) show ?thesis by (simp add: g)
  next
    case False
    with that have "get (hb_pcs st) h = Some q" by (simp add: g)
    with assms(1) show ?thesis unfolding roster_def by blast
  qed
  moreover have "wf_store (hb_phones st)"
    "\<forall>c ph. get (hb_phones st) c = Some ph \<longrightarrow> (\<exists>n \<le> hb_next_conn st. c = conn_name n)"
    using assms(1) unfolding roster_def by blast+
  ultimately show ?thesis
    unfolding roster_def o by blast
qed

lemma with_pc_inv:
  assumes "hub_inv L st" "get (hb_pcs st) f = None" "get (hb_addresses st) (pc_address p) \<noteq> None"
    and "tally (on_license (pc_license p)) (hb_pcs st) < pcs_per_license L"
    and "tally (at_addr (pc_address p)) (hb_pcs st) < pcs_per_address L"
    and "pc_phones p = []" "pc_ok L p" "pc_generation p \<le> hb_next_generation st"
  shows "hub_inv L (with_pc st f p)"
proof -
  have i: "roster st" "pcs_ok L st" "counts L st" "door L st"
    using assms(1) by (simp_all add: hub_inv_def)
  have "roster (with_pc st f p)"
    by (rule with_pc_roster [OF i(1) assms(2,6,8)])
  moreover have "pcs_ok L (with_pc st f p)"
    using i(2) assms(7) by (simp add: pcs_ok_def with_pc_def at_address_def)
  moreover have "hub_inv L (with_pc st f p) \<longleftrightarrow> roster (with_pc st f p) \<and> pcs_ok L (with_pc st f p) \<and>
      counts L (with_pc st f p) \<and> door L (with_pc st f p)" by (simp add: hub_inv_def)
  moreover have "door L (with_pc st f p)"
  proof (rule door_pcs_change [OF i(4)])
    obtain u where "get (hb_addresses st) (pc_address p) = Some u" using assms(3) by blast
    then show "hb_addresses (with_pc st f p) =
        modify (pc_address p) (\<lambda>u. u\<lparr>au_pcs := au_pcs u + 1\<rparr>) (hb_addresses st)"
      using i(4) modify_put [of "hb_addresses st" "pc_address p" u]
      by (simp add: with_pc_def at_address_def entry_def door_def)
  qed (simp add: with_pc_def at_address_def)
  ultimately show ?thesis
    using with_pc_counts [OF i(3) assms(2,4,5)] by simp
qed

lemma register_pc_inv:
  assumes "hub_inv L st" "has_open st a"
  shows "hub_inv L (fst (register_pc E L st f key lnk license a))"
proof (cases "room_for_pc L st f license a")
  case True
  have "get (hb_addresses st) a \<noteq> None" using assms(2) by (auto simp: has_open_def split: option.splits)
  then have "hub_inv L (with_pc (before_pc st f) f (new_pc key lnk (Suc (hb_next_generation st)) license a))"
    using True
    by (intro with_pc_inv before_pc_inv assms(1))
      (simp_all add: new_pc_def before_pc_fields room_for_pc_def pc_ok_def)
  with True show ?thesis by (simp add: register_pc_eq [OF assms(1)])
qed (simp add: register_pc_eq [OF assms(1)] assms(1))

section \<open>Every moment of a relay\<close>

text \<open>
  One operation of a running relay, with the frames it sends. The door's \<open>leave\<close> is called once
  for a connection that was let in, and refusals and PCs come from a connection that is still
  open: \<open>http.rs\<close> calls \<open>enter\<close> first, runs the PC's or the phone's session, and \<open>leave\<close> last.
\<close>

text \<open>The calls that a PC's dropped passes depend on, by name.\<close>

datatype call = RegisterPc string | UnregisterPc string nat | DropPhone string nat | OtherCall

inductive relay_step :: "relay_env \<Rightarrow> limits \<Rightarrow> call \<Rightarrow> hub \<Rightarrow> sends \<Rightarrow> hub \<Rightarrow> bool" for E L where
  rs_enter: "relay_step E L OtherCall st [] (fst (enter L st a now))"
| rs_leave: "has_open st a \<Longrightarrow> relay_step E L OtherCall st [] (leave st a now)"
| rs_sweep: "relay_step E L OtherCall st [] (sweep_addresses st now)"
| rs_refused: "has_open st a \<Longrightarrow> relay_step E L OtherCall st [] (hub_refused st c a now)"
| rs_set_off: "set_off E st b = (st', out) \<Longrightarrow> relay_step E L OtherCall st out st'"
| rs_close_all: "relay_step E L OtherCall st (close_all E st) st"
| rs_register_pc:
    "has_open st a \<Longrightarrow> register_pc E L st f key lnk license a = (st', out, r) \<Longrightarrow>
     relay_step E L (RegisterPc f) st out st'"
| rs_unregister_pc: "unregister_pc E st f g = (st', out) \<Longrightarrow> relay_step E L (UnregisterPc f g) st out st'"
| rs_open_mailbox: "relay_step E L OtherCall st [] (open_mailbox st f g name t)"
| rs_close_mailbox: "relay_step E L OtherCall st [] (close_mailbox st f g)"
| rs_drop_phone:
    "drop_phone E L st f g phone until now = (st', out) \<Longrightarrow> relay_step E L (DropPhone f g) st out st'"
| rs_send_to_phone: "send_to_phone E st f c dat = (out, r) \<Longrightarrow> relay_step E L OtherCall st out st"
| rs_close_phone: "close_phone st f c = (st', out) \<Longrightarrow> relay_step E L OtherCall st out st'"
| rs_join_with_pass:
    "join_with_pass E L st pass lnk now = (st', out, r) \<Longrightarrow> relay_step E L OtherCall st out st'"
| rs_join_mailbox:
    "join_mailbox E L st name lnk t = (st', out, r) \<Longrightarrow> relay_step E L OtherCall st out st'"
| rs_send_to_pc: "send_to_pc E st c dat = (out, r) \<Longrightarrow> relay_step E L OtherCall st out st"
| rs_unregister_phone: "unregister_phone E st c = (st', out) \<Longrightarrow> relay_step E L OtherCall st out st'"

lemmas hub_keeps =
  enter_inv leave_inv sweep_inv refused_inv set_off_inv register_pc_inv unregister_pc_inv
  open_mailbox_inv close_mailbox_inv drop_phone_keeps close_phone_inv join_with_pass_inv
  join_mailbox_inv unregister_phone_inv

lemma relay_step_inv: "relay_step E L lab st out st' \<Longrightarrow> hub_inv L st \<Longrightarrow> hub_inv L st'"
  by (induction rule: relay_step.induct) (metis hub_keeps fst_conv)+

inductive relay_reach :: "relay_env \<Rightarrow> limits \<Rightarrow> hub \<Rightarrow> bool" for E L where
  reach_start: "relay_reach E L hub_default"
| reach_step: "relay_reach E L st \<Longrightarrow> relay_step E L lab st out st' \<Longrightarrow> relay_reach E L st'"

lemma relay_reach_inv: "relay_reach E L st \<Longrightarrow> hub_inv L st"
  by (induction rule: relay_reach.induct) (auto intro: hub_inv_default relay_step_inv)

end
