(* ===== verification/Relay_Sessions.thy ===== *)
theory Relay_Sessions
  imports Relay_Hub_Inv
begin

text \<open>
  The relay's connections: what comes in on a line (\<open>crates/relay/src/line.rs\<close>), a PC's session
  (\<open>pc.rs\<close>) and a phone's session (\<open>phone.rs\<close>), each as a function of the hub's state and of
  what came next. A session that ends has unregistered itself. The random challenge, the hub's
  salt, the clock and the time of \<open>Instant\<close> are arguments.
\<close>

section \<open>One line\<close>

datatype line_next = NextText string | NextGone | NextTooFast

text \<open>What happens next on a line: a frame, the end of the stream, or one of its timers.\<close>

datatype incoming =
    InText string
  | InOther nat
  | InClose
  | InEnd
  | InBroken
  | InPingDue
  | InKilled
  | InDeadline

record line =
  li_link :: link_id
  li_messages :: window
  li_bytes :: window

definition line_new :: "link_id \<Rightarrow> line" where
  "line_new lnk = \<lparr> li_link = lnk, li_messages = window_default, li_bytes = window_default \<rparr>"

text \<open>A frame of \<open>n\<close> bytes counts against the line's budget; is it too much this minute?\<close>

definition line_count :: "limits \<Rightarrow> line \<Rightarrow> int \<Rightarrow> nat \<Rightarrow> line \<times> bool" where
  "line_count L li now n =
     (let (w, c) = bump (li_messages li) now 1; li1 = li\<lparr>li_messages := w\<rparr> in
      if c > messages_per_minute L then (li1, True)
      else let (v, b) = bump (li_bytes li1) now n; li2 = li1\<lparr>li_bytes := v\<rparr>
           in (li2, b > bytes_per_minute L))"

text \<open>One round of \<open>Line::read\<close>; \<open>None\<close>: it waits on.\<close>

definition line_read :: "limits \<Rightarrow> line \<Rightarrow> int \<Rightarrow> incoming \<Rightarrow> line \<times> sends \<times> line_next option" where
  "line_read L li now m =
     (case m of
        InText t \<Rightarrow>
          (let (li1, fast) = line_count L li now (byte_len t)
           in (li1, [], Some (if fast then NextTooFast else NextText t)))
      | InOther n \<Rightarrow>
          (let (li1, fast) = line_count L li now n
           in (li1, [], if fast then Some NextTooFast else None))
      | InClose \<Rightarrow> (li, [], Some NextGone)
      | InEnd \<Rightarrow> (li, [], Some NextGone)
      | InBroken \<Rightarrow> (li, [], Some NextGone)
      | InPingDue \<Rightarrow> (li, [(li_link li, PingFrame)], None)
      | InKilled \<Rightarrow> (li, [], Some NextGone)
      | InDeadline \<Rightarrow> (li, [], Some NextGone))"

section \<open>Names and sizes\<close>

definition is_mailbox_name :: "string \<Rightarrow> bool" where
  "is_mailbox_name name \<longleftrightarrow>
     byte_len name = 32 \<and>
     list_all (\<lambda>c. is_ascii_digit c \<or> (97 \<le> code c \<and> code c \<le> 102)) name"

definition fits :: "relay_env \<Rightarrow> string \<Rightarrow> bool" where
  "fits E dat \<longleftrightarrow>
     byte_len dat \<le> div_ceil max_data 3 * 4 \<and> b64url_decode E dat max_data \<noteq> None"

section \<open>A PC's session\<close>

definition fresh_secs :: int where "fresh_secs = 30 * 86400"
definition most_unreadable :: nat where "most_unreadable = 20"

definition shows_pro :: "answer_payload \<Rightarrow> int \<Rightarrow> bool" where
  "shows_pro answer now \<longleftrightarrow>
     i64_sat_sub now (ap_as_of answer) < fresh_secs \<and>
     (case ap_state answer of
        Active \<Rightarrow> True
      | Cancelled \<Rightarrow> (case ap_ends_at answer of None \<Rightarrow> False | Some e \<Rightarrow> e > now)
      | Ended \<Rightarrow> False
      | Unknown \<Rightarrow> False)"

definition pc_refuse ::
  "relay_env \<Rightarrow> hub \<Rightarrow> link_id \<Rightarrow> address_key \<Rightarrow> string \<Rightarrow> int \<Rightarrow> hub \<times> sends" where
  "pc_refuse E st lnk a why now =
     (hub_refused st why a now, [to_pc E lnk (PcRefused why), close_link lnk])"

record pc_session =
  ps_pc :: string
  ps_generation :: nat
  ps_unreadable :: nat

definition proof_ok :: "relay_env \<Rightarrow> byte list \<Rightarrow> string \<Rightarrow> byte list \<Rightarrow> bool" where
  "proof_ok E key nonce prf \<longleftrightarrow>
     key_ok E key \<and> verify_strict E key (as_bytes (pc_proof_context @ nonce)) prf"

text \<open>The first message, after the challenge \<open>nonce\<close> was sent.\<close>

definition pc_hello ::
  "relay_env \<Rightarrow> limits \<Rightarrow> byte list \<Rightarrow> hub \<Rightarrow> link_id \<Rightarrow> address_key \<Rightarrow> string \<Rightarrow> string \<Rightarrow> int \<Rightarrow>
     hub \<times> sends \<times> pc_session option" where
  "pc_hello E L salt st lnk a nonce first now =
     (let refuse = (\<lambda>why. let (st', out) = pc_refuse E st lnk a why now in (st', out, None)) in
      case wire_read_pc E first of
        Some (Hello v key_text proof_text answer) \<Rightarrow>
          if v \<noteq> 1 then refuse bad_hello
          else
            (case (b64url_exact E 32 key_text, b64url_exact E 64 proof_text) of
               (Some key, Some prf) \<Rightarrow>
                 if \<not> proof_ok E key nonce prf then refuse bad_proof
                 else
                   (case answer_ok (env_crypto E) answer of
                      None \<Rightarrow> refuse not_pro
                    | Some checked \<Rightarrow>
                        if \<not> shows_pro checked now then refuse not_pro
                        else
                          let license = license_mark E salt (ap_key_id checked);
                              fp = fingerprint E key
                          in (case register_pc E L st fp key lnk license a of
                                (st1, out, Inr g) \<Rightarrow>
                                  (st1, out @ [to_pc E lnk (Welcome fp)],
                                   Some \<lparr> ps_pc = fp, ps_generation = g, ps_unreadable = 0 \<rparr>)
                              | (st1, out, Inl why) \<Rightarrow>
                                  (let (st2, out2) = pc_refuse E st1 lnk a why now
                                   in (st2, out @ out2, None))))
             | _ \<Rightarrow> refuse bad_hello)
      | _ \<Rightarrow> refuse bad_hello)"

text \<open>A message the relay cannot take counts; \<open>u32\<close> wraps.\<close>

definition one_more :: "pc_session \<Rightarrow> pc_session" where
  "one_more s = s\<lparr>ps_unreadable := (ps_unreadable s + 1) mod 2 ^ 32\<rparr>"

text \<open>One message of the loop; the session, or \<open>None\<close> when the loop breaks.\<close>

definition pc_message ::
  "relay_env \<Rightarrow> limits \<Rightarrow> hub \<Rightarrow> link_id \<Rightarrow> pc_session \<Rightarrow> string \<Rightarrow> int \<Rightarrow> nat \<Rightarrow>
     hub \<times> sends \<times> pc_session option" where
  "pc_message E L st lnk s t now instant =
     (let fp = ps_pc s; g = ps_generation s in
      case wire_read_pc E t of
        None \<Rightarrow>
          (let s1 = one_more s in
           if ps_unreadable s1 > most_unreadable then (st, [close_link lnk], None)
           else (st, [], Some s1))
      | Some (PcMailbox name) \<Rightarrow>
          if is_mailbox_name name then (open_mailbox st fp g name instant, [], Some s)
          else (st, [], Some (one_more s))
      | Some CloseMailbox \<Rightarrow> (close_mailbox st fp g, [], Some s)
      | Some (PcDrop phone until) \<Rightarrow>
          if is_id E phone 16
          then (let (st1, out) = drop_phone E L st fp g phone until now in (st1, out, Some s))
          else (st, [], Some (one_more s))
      | Some (PcSend conn dat) \<Rightarrow>
          if \<not> fits E dat then (st, [to_pc E lnk (PcError too_big)], Some s)
          else
            (case send_to_phone E st fp conn dat of
               (out, Inr _) \<Rightarrow> (st, out, Some s)
             | (out, Inl _) \<Rightarrow> (st, out @ [to_pc E lnk (PcError unknown_conn)], Some s))
      | Some (PcClose conn) \<Rightarrow> (let (st1, out) = close_phone st fp conn in (st1, out, Some s))
      | Some (Hello v key prf answer) \<Rightarrow> (st, [], Some (one_more s)))"

definition pc_next ::
  "relay_env \<Rightarrow> limits \<Rightarrow> hub \<Rightarrow> link_id \<Rightarrow> address_key \<Rightarrow> pc_session \<Rightarrow> line_next \<Rightarrow> int \<Rightarrow> nat \<Rightarrow>
     hub \<times> sends \<times> pc_session option" where
  "pc_next E L st lnk a s n now instant =
     (let (st1, out, s1) =
        (case n of
           NextText t \<Rightarrow> pc_message E L st lnk s t now instant
         | NextTooFast \<Rightarrow>
             (hub_refused st too_many_tries a now,
              [to_pc E lnk (PcError too_many_tries), close_link lnk], None)
         | NextGone \<Rightarrow> (st, [], None))
      in (case s1 of
            Some _ \<Rightarrow> (st1, out, s1)
          | None \<Rightarrow>
              let (st2, out2) = unregister_pc E st1 (ps_pc s) (ps_generation s)
              in (st2, out @ out2, None)))"

section \<open>A phone's session\<close>

definition phone_refuse ::
  "relay_env \<Rightarrow> hub \<Rightarrow> link_id \<Rightarrow> address_key \<Rightarrow> string \<Rightarrow> int \<Rightarrow> hub \<times> sends" where
  "phone_refuse E st lnk a why now =
     (hub_refused st why a now, [to_phone E lnk (PhoneRefused why), close_link lnk])"

record phone_session =
  hs_conn :: conn_id
  hs_unreadable :: nat

definition phone_first ::
  "relay_env \<Rightarrow> limits \<Rightarrow> hub \<Rightarrow> link_id \<Rightarrow> address_key \<Rightarrow> string \<Rightarrow> int \<Rightarrow> nat \<Rightarrow>
     hub \<times> sends \<times> phone_session option" where
  "phone_first E L st lnk a first now instant =
     (let (st1, out, joined) =
        (case wire_read_phone E first of
           Some (PhonePass pass) \<Rightarrow> join_with_pass E L st pass lnk now
         | Some (PhoneMailbox name) \<Rightarrow>
             if is_mailbox_name name then join_mailbox E L st name lnk instant
             else (st, [], Inl bad_pass)
         | _ \<Rightarrow> (st, [], Inl bad_pass))
      in (case joined of
            Inl why \<Rightarrow>
              (let (st2, out2) = phone_refuse E st1 lnk a why now in (st2, out @ out2, None))
          | Inr conn \<Rightarrow>
              (st1, out @ [to_phone E lnk Ready], Some \<lparr> hs_conn = conn, hs_unreadable = 0 \<rparr>)))"

definition phone_message ::
  "relay_env \<Rightarrow> hub \<Rightarrow> link_id \<Rightarrow> address_key \<Rightarrow> phone_session \<Rightarrow> string \<Rightarrow> int \<Rightarrow>
     hub \<times> sends \<times> phone_session option" where
  "phone_message E st lnk a s t now =
     (case wire_read_phone E t of
        Some (PhoneData dat) \<Rightarrow>
          if \<not> fits E dat
          then (let (st1, out) = phone_refuse E st lnk a too_big now in (st1, out, None))
          else
            (case send_to_pc E st (hs_conn s) dat of
               (out, Inr _) \<Rightarrow> (st, out, Some s)
             | (out, Inl _) \<Rightarrow> (st, out @ [to_phone E lnk PcOffline, close_link lnk], None))
      | _ \<Rightarrow>
          (let n = (hs_unreadable s + 1) mod 2 ^ 32 in
           if n > most_unreadable then (st, [close_link lnk], None)
           else (st, [], Some (s\<lparr>hs_unreadable := n\<rparr>))))"

definition phone_next ::
  "relay_env \<Rightarrow> hub \<Rightarrow> link_id \<Rightarrow> address_key \<Rightarrow> phone_session \<Rightarrow> line_next \<Rightarrow> int \<Rightarrow>
     hub \<times> sends \<times> phone_session option" where
  "phone_next E st lnk a s n now =
     (let (st1, out, s1) =
        (case n of
           NextText t \<Rightarrow> phone_message E st lnk a s t now
         | NextTooFast \<Rightarrow>
             (let (st', out') = phone_refuse E st lnk a too_many_tries now in (st', out', None))
         | NextGone \<Rightarrow> (st, [], None))
      in (case s1 of
            Some _ \<Rightarrow> (st1, out, s1)
          | None \<Rightarrow>
              let (st2, out2) = unregister_phone E st1 (hs_conn s) in (st2, out @ out2, None)))"

end
