(* ===== verification/Relay.thy ===== *)
theory Relay
  imports Relay_Sessions
begin

text \<open>
  What the relay promises: its limits hold at every moment, a sealed message reaches only the PC or
  the phone it is for, a pass lets in only the phone it was made for, a dropped phone stays out, a
  replaced connection undoes nothing, and the sessions are runs of the hub's operations.
\<close>

section \<open>Sessions are made of the hub's operations\<close>

lemma has_open_cong: "hb_addresses st' = hb_addresses st \<Longrightarrow> has_open st' a = has_open st a"
  by (simp add: has_open_def)

lemma add_phone_addresses [simp]: "hb_addresses (fst (add_phone E st f ph lnk)) = hb_addresses st"
  by (simp add: add_phone_def Let_def case_prod_beta split: option.split)

lemma join_addresses [simp]:
  "hb_addresses (fst (join_with_pass E L st pass lnk now)) = hb_addresses st"
  "hb_addresses (fst (join_mailbox E L st name lnk t)) = hb_addresses st"
  by (auto simp: join_with_pass_def join_mailbox_def Let_def case_prod_beta
      split: option.split sum.split)

lemmas reach_intros =
  reach_step [OF _ rs_refused] reach_step [OF _ rs_register_pc] reach_step [OF _ rs_unregister_pc]
  reach_step [OF _ rs_drop_phone] reach_step [OF _ rs_close_phone]
  reach_step [OF _ rs_join_with_pass] reach_step [OF _ rs_join_mailbox]
  reach_step [OF _ rs_unregister_phone] reach_step [OF _ rs_open_mailbox]
  reach_step [OF _ rs_close_mailbox]

lemma register_Inl_state:
  "register_pc E L st f key lnk license a = (st', out, Inl why) \<Longrightarrow> st' = st"
  by (auto simp: register_pc_def Let_def case_prod_beta split: if_splits)

lemma pc_hello_reach:
  assumes "relay_reach E L st" "has_open st a" "pc_hello E L salt st lnk a nonce first now = (st', out, r)"
  shows "relay_reach E L st'"
proof -
  have f: "relay_reach E L (hub_refused st why a now)" for why
    using assms(1,2) by (rule reach_intros)
  have g: "relay_reach E L st1"
    if "register_pc E L st fp key lnk license a = (st1, o1, r1)" for fp key license st1 o1 r1
    using assms(1,2) that by (rule reach_intros)
  show ?thesis
    using assms(3) f g register_Inl_state
    by (auto simp: pc_hello_def pc_refuse_def Let_def split: option.splits pc_to_relay.splits
        if_splits prod.splits sum.splits) (metis f)+
qed

lemma pc_message_reach:
  assumes "relay_reach E L st" "pc_message E L st lnk s t now instant = (st', out, r)"
  shows "relay_reach E L st'"
proof -
  have d: "relay_reach E L st1"
    if "drop_phone E L st (ps_pc s) (ps_generation s) phone until now = (st1, o1)" for phone until st1 o1
    using assms(1) that by (rule reach_intros)
  have c: "relay_reach E L st1" if "close_phone st (ps_pc s) conn = (st1, o1)" for conn st1 o1
    using assms(1) that by (rule reach_intros)
  have b: "relay_reach E L (open_mailbox st f g name instant)" "relay_reach E L (close_mailbox st f g)"
    for f g name
    using assms(1) by (rule reach_intros)+
  show ?thesis
    using assms d c b
    by (auto simp: pc_message_def Let_def split: option.splits pc_to_relay.splits if_splits
        prod.splits sum.splits)
qed

lemma pc_next_reach:
  assumes "relay_reach E L st" "has_open st a" "pc_next E L st lnk a s n now instant = (st', out, r)"
  shows "relay_reach E L st'"
proof -
  obtain st1 o1 r1 where body:
    "(case n of
        NextText t \<Rightarrow> pc_message E L st lnk s t now instant
      | NextTooFast \<Rightarrow>
          (hub_refused st too_many_tries a now,
           [to_pc E lnk (PcError too_many_tries), close_link lnk], None)
      | NextGone \<Rightarrow> (st, [], None)) = (st1, o1, r1)"
    using prod_cases3 by blast
  have "relay_reach E L (hub_refused st too_many_tries a now)"
    using assms(1,2) by (rule reach_intros)
  with body have 1: "relay_reach E L st1"
    using assms(1) pc_message_reach [OF assms(1)] by (cases n) auto
  have "relay_reach E L (fst (unregister_pc E st1 (ps_pc s) (ps_generation s)))"
    by (rule reach_step [OF 1 rs_unregister_pc [OF prod.collapse [symmetric]]])
  with 1 assms(3) body show ?thesis
    by (auto simp: pc_next_def Let_def case_prod_beta split: option.splits)
qed

lemma phone_first_reach:
  assumes "relay_reach E L st" "has_open st a" "phone_first E L st lnk a first now instant = (st', out, r)"
  shows "relay_reach E L st'"
proof -
  have j: "relay_reach E L (fst (join_with_pass E L st pass lnk now))" for pass
  proof -
    obtain st1 o1 r1 where e: "join_with_pass E L st pass lnk now = (st1, o1, r1)"
      using prod_cases3 by blast
    from reach_step [OF assms(1) rs_join_with_pass [OF e]] e show ?thesis by simp
  qed
  have m: "relay_reach E L (fst (join_mailbox E L st name lnk instant))" for name
  proof -
    obtain st1 o1 r1 where e: "join_mailbox E L st name lnk instant = (st1, o1, r1)"
      using prod_cases3 by blast
    from reach_step [OF assms(1) rs_join_mailbox [OF e]] e show ?thesis by simp
  qed
  have o: "has_open (fst (join_with_pass E L st pass lnk now)) a"
    "has_open (fst (join_mailbox E L st name lnk instant)) a" for pass name
    using assms(2) has_open_cong [OF join_addresses(1)] has_open_cong [OF join_addresses(2)] by blast+
  have k: "relay_reach E L (hub_refused (fst (join_with_pass E L st pass lnk now)) why a now)"
    "relay_reach E L (hub_refused (fst (join_mailbox E L st name lnk instant)) why a now)"
    "relay_reach E L (hub_refused st why a now)" for pass name why
    by (rule reach_step [OF j rs_refused [OF o(1)]], rule reach_step [OF m rs_refused [OF o(2)]],
        rule reach_step [OF assms(1) rs_refused [OF assms(2)]])
  show ?thesis
    using assms(1,3) j m k
    by (auto simp: phone_first_def phone_refuse_def Let_def case_prod_beta
        split: option.splits phone_to_relay.splits if_splits sum.splits)
qed

lemma phone_next_reach:
  assumes "relay_reach E L st" "has_open st a" "phone_next E st lnk a s n now = (st', out, r)"
  shows "relay_reach E L st'"
proof -
  have f: "relay_reach E L (hub_refused st why a now)" for why
    using assms(1,2) by (rule reach_intros)
  have u: "relay_reach E L (fst (unregister_phone E st1 c))" if "relay_reach E L st1" for st1 c
    by (rule reach_step [OF that rs_unregister_phone [OF prod.collapse [symmetric]]])
  show ?thesis
    using assms(1,3) f u [OF assms(1)] u [OF f]
    by (auto simp: phone_next_def phone_message_def phone_refuse_def Let_def case_prod_beta
        split: line_next.splits option.splits phone_to_relay.splits if_splits sum.splits prod.splits)
qed

section \<open>A relay to try the properties on\<close>

text \<open>
  A concrete instance of the third-party calls, and a relay with one PC and one phone: the PC's
  relay key has the fingerprint \<open>fp\<close>, its phone shows a pass.
\<close>

definition demo_phone_id :: string where "demo_phone_id = replicate 22 CHR ''p''"

definition demo_env :: relay_env where
  "demo_env =
     \<lparr> json_read_pc = (\<lambda>t. if t = ''hello''
         then Some (Hello 1 (replicate 43 CHR ''k'') (replicate 86 CHR ''s'')
                      \<lparr> sa_answer = ''A'', sa_signature = replicate 64 CHR ''A'' \<rparr>)
         else if t = ''box'' then Some (PcMailbox ''bad name'') else None),
       json_read_phone = (\<lambda>t. if t = ''pass'' then Some (PhonePass (''x.'' @ replicate 86 CHR ''s'')) else None),
       json_write_pc = (\<lambda>_. ''to pc''),
       json_write_phone = (\<lambda>_. ''to phone''),
       json_pass = (\<lambda>_. Some \<lparr> pp_v = 1, pp_pc = ''fp'', pp_phone = demo_phone_id, pp_exp = 1780000000 \<rparr>),
       url_encode = (\<lambda>_. ''fp''),
       url_decode = (\<lambda>t. if length t = 22 then Some (replicate 16 0)
         else if length t = 43 then Some (replicate 32 1)
         else if length t = 86 then Some (replicate 64 2) else Some (as_bytes t)),
       key_ok = (\<lambda>_. True),
       verify_strict = (\<lambda>_ _ sig. sig = replicate 64 2),
       sha256 = (\<lambda>bs. bs),
       env_crypto = demo_crypto \<rparr>"

definition demo_address :: address_key where "demo_address = AddrV4 [192, 0, 2, 7]"

definition demo_pass :: string where "demo_pass = ''x.'' @ replicate 86 CHR ''s''"

definition demo_hub1 :: hub where
  "demo_hub1 = fst (enter default_limits hub_default demo_address 1771000000)"

definition demo_hub2 :: hub where
  "demo_hub2 = fst (register_pc demo_env default_limits demo_hub1 ''fp'' (replicate 32 1) 1 [9] demo_address)"

definition demo_hub3 :: hub where
  "demo_hub3 = fst (join_with_pass demo_env default_limits demo_hub2 demo_pass 2 1771000000)"

lemma demo_reach:
  "relay_reach demo_env default_limits demo_hub1" "relay_reach demo_env default_limits demo_hub2"
  "relay_reach demo_env default_limits demo_hub3"
proof -
  show 1: "relay_reach demo_env default_limits demo_hub1"
    unfolding demo_hub1_def by (rule reach_step [OF reach_start rs_enter])
  have "has_open demo_hub1 demo_address" by code_simp
  then show 2: "relay_reach demo_env default_limits demo_hub2"
    unfolding demo_hub2_def
    by (cases "register_pc demo_env default_limits demo_hub1 ''fp'' (replicate 32 1) 1 [9] demo_address")
      (simp, rule reach_step [OF 1 rs_register_pc])
  show "relay_reach demo_env default_limits demo_hub3"
    unfolding demo_hub3_def
    by (cases "join_with_pass demo_env default_limits demo_hub2 demo_pass 2 1771000000")
      (simp, rule reach_step [OF 2 rs_join_with_pass])
qed

section \<open>Properties\<close>

text \<open>
  C1: The relay's limits hold at every moment. Whatever PCs, phones and strangers do, in whatever
  order: the connections in all and from one address, the PCs on one license and from one
  address, one PC's phones and dropped passes, one mailbox's tries and the addresses remembered
  never pass their limits, and the counts the limits are checked against are the true counts.
\<close>

theorem relay_limits_hold:
  assumes "relay_reach E L st"
  shows "hb_connections st \<le> connections_max L \<and>
    hb_connections st = tally au_open (hb_addresses st) \<and>
    length (hb_addresses st) \<le> addresses_remembered L \<and>
    (\<forall>a u. get (hb_addresses st) a = Some u \<longrightarrow> au_open u \<le> connections_per_address L \<and>
       au_pcs u = tally (at_addr a) (hb_pcs st)) \<and>
    (\<forall>l. tally (on_license l) (hb_pcs st) \<le> pcs_per_license L) \<and>
    (\<forall>a. tally (at_addr a) (hb_pcs st) \<le> pcs_per_address L) \<and>
    (\<forall>f p. get (hb_pcs st) f = Some p \<longrightarrow> pc_ok L p)"
proof -
  have i: "pcs_ok L st" "counts L st" "door L st"
    using relay_reach_inv [OF assms] by (simp_all add: hub_inv_def)
  have "au_pcs u = tally (at_addr a) (hb_pcs st)" if "get (hb_addresses st) a = Some u" for a u
    using i(2) that weight_simps(2) [of au_pcs u] unfolding counts_def by metis
  with i show ?thesis by (simp add: pcs_ok_def counts_def door_def)
qed

theorem relay_limits_hold_witness:
  "relay_reach demo_env default_limits demo_hub3 \<and> hb_connections demo_hub3 = 1 \<and>
   hb_connections demo_hub3 \<le> connections_max default_limits"
proof -
  have "hb_connections demo_hub3 = 1" by code_simp
  with demo_reach(3) relay_limits_hold [OF demo_reach(3)] show ?thesis by blast
qed

text \<open>
  C13: A phone belongs to one connected PC. At every moment each phone's connection names a PC that
  is connected and lists it, each connection a PC lists is a phone of that PC, and a connection's
  name is used once: a phone that joins gets a name no connection has.
\<close>

theorem phones_belong_to_their_pc:
  assumes "relay_reach E L st"
  shows "(\<forall>c ph. get (hb_phones st) c = Some ph \<longrightarrow>
       (\<exists>p. get (hb_pcs st) (ph_pc ph) = Some p \<and> c \<in> set (pc_phones p))) \<and>
    (\<forall>f p c. get (hb_pcs st) f = Some p \<longrightarrow> c \<in> set (pc_phones p) \<longrightarrow>
       (\<exists>ph. get (hb_phones st) c = Some ph \<and> ph_pc ph = f)) \<and>
    (\<forall>f ph lnk. get (hb_phones st) (snd (snd (add_phone E st f ph lnk))) = None)"
proof -
  have r: "roster st" using relay_reach_inv [OF assms] by (simp add: hub_inv_def)
  have "snd (snd (add_phone E st f ph lnk)) = conn_name (Suc (hb_next_conn st))" for f ph lnk
    by (simp add: add_phone_def conn_name_def Let_def case_prod_beta)
  with r roster_fresh [OF r] show ?thesis unfolding roster_def by metis
qed

theorem phones_belong_to_their_pc_witness:
  "\<exists>p. get (hb_pcs demo_hub3) ''fp'' = Some p \<and> ''c000001'' \<in> set (pc_phones p)"
proof -
  have "get (hb_phones demo_hub3) ''c000001'' =
      Some \<lparr> ph_link = 2, ph_pc = ''fp'', ph_phone = Some demo_phone_id \<rparr>"
    by code_simp
  with phones_belong_to_their_pc [OF demo_reach(3)] show ?thesis by (metis phone.select_convs(2))
qed

text \<open>
  C14: A sealed message from a PC reaches one of its own phones and nothing else. The relay passes it,
  as it is, to exactly the connection the PC named, when that is one of this PC's phones; every
  other link is left as it was. Otherwise nothing is sent and the PC is told.
\<close>

theorem pc_message_reaches_own_phone:
  assumes "relay_reach E L st" "send_to_phone E st f c dat = (out, r)"
  shows "(case r of
      Inl _ \<Rightarrow> out = [] \<and> (\<forall>p. get (hb_pcs st) f = Some p \<longrightarrow> c \<notin> set (pc_phones p))
    | Inr _ \<Rightarrow> (\<exists>ph p. get (hb_phones st) c = Some ph \<and> get (hb_pcs st) f = Some p \<and>
        c \<in> set (pc_phones p) \<and>
        out = [(ph_link ph, TextFrame (json_write_phone E (ToPhoneData dat)))] \<and>
        (\<forall>links i. i \<noteq> ph_link ph \<longrightarrow> deliver links out i = links i)))"
proof -
  have r: "roster st" using relay_reach_inv [OF assms(1)] by (simp add: hub_inv_def)
  show ?thesis
  proof (cases "\<exists>ph. get (hb_phones st) c = Some ph \<and> ph_pc ph = f")
    case True
    then obtain ph where ph: "get (hb_phones st) c = Some ph" "ph_pc ph = f" by blast
    obtain p where p: "get (hb_pcs st) f = Some p" "c \<in> set (pc_phones p)"
      using roster_phone [OF r ph(1)] ph(2) by blast
    from ph p assms(2) show ?thesis
      by (auto simp: send_to_phone_def to_phone_def deliver_def)
  next
    case False
    then have "\<forall>p. get (hb_pcs st) f = Some p \<longrightarrow> c \<notin> set (pc_phones p)"
      using roster_listed [OF r] by blast
    with False assms(2) show ?thesis by (auto simp: send_to_phone_def split: option.splits)
  qed
qed

theorem pc_message_reaches_own_phone_witness:
  "\<exists>ph. get (hb_phones demo_hub3) ''c000001'' = Some ph \<and>
     send_to_phone demo_env demo_hub3 ''fp'' ''c000001'' ''hi'' =
       ([(ph_link ph, TextFrame ''to phone'')], Inr ())"
proof -
  have e: "send_to_phone demo_env demo_hub3 ''fp'' ''c000001'' ''hi'' =
      ([(2, TextFrame ''to phone'')], Inr ())"
    by code_simp
  from pc_message_reaches_own_phone [OF demo_reach(3) e] e show ?thesis by auto
qed

text \<open>
  A sealed message from a phone reaches its own PC and nothing else, with the connection it came
  on; it is refused only when the phone's connection is no longer known. A phone never reaches a
  PC other than the one it joined.
\<close>

theorem phone_message_reaches_own_pc:
  assumes "relay_reach E L st" "send_to_pc E st c dat = (out, r)"
  shows "(case get (hb_phones st) c of
      None \<Rightarrow> out = [] \<and> r = Inl ()
    | Some ph \<Rightarrow> r = Inr () \<and> (\<exists>p. get (hb_pcs st) (ph_pc ph) = Some p \<and> c \<in> set (pc_phones p) \<and>
        out = [(pc_link p, TextFrame (json_write_pc E (PcData c dat)))] \<and>
        (\<forall>links i. i \<noteq> pc_link p \<longrightarrow> deliver links out i = links i)))"
proof (cases "get (hb_phones st) c")
  case (Some ph)
  have r: "roster st" using relay_reach_inv [OF assms(1)] by (simp add: hub_inv_def)
  obtain p where "get (hb_pcs st) (ph_pc ph) = Some p" "c \<in> set (pc_phones p)"
    by (rule roster_phone [OF r Some])
  with Some assms(2) show ?thesis by (auto simp: send_to_pc_def to_pc_def deliver_def)
qed (use assms(2) in \<open>simp add: send_to_pc_def\<close>)

theorem phone_message_reaches_own_pc_witness:
  "send_to_pc demo_env demo_hub3 ''c000001'' ''hi'' = ([(1, TextFrame ''to pc'')], Inr ()) \<and>
   (\<exists>p. get (hb_pcs demo_hub3) ''fp'' = Some p \<and> pc_link p = 1)"
proof -
  have e: "send_to_pc demo_env demo_hub3 ''c000001'' ''hi'' = ([(1, TextFrame ''to pc'')], Inr ())"
    "get (hb_phones demo_hub3) ''c000001'' =
      Some \<lparr> ph_link = 2, ph_pc = ''fp'', ph_phone = Some demo_phone_id \<rparr>"
    by code_simp+
  from phone_message_reaches_own_pc [OF demo_reach(3) e(1)] e show ?thesis by auto
qed

text \<open>
  A pass lets in only the phone it was made for, to the PC that signed it. A phone that shows a
  pass is let through only when the PC the pass names is connected, the pass is signed with that
  PC's relay key and has not ended, the PC has not dropped that phone, and the PC has room; then
  that PC is told of a new connection with the phone's ID.
\<close>

theorem pass_lets_in_its_phone:
  assumes "join_with_pass E L st pass lnk now = (st', out, Inr c)"
  shows "\<exists>p (payload :: pass_payload) t sig s. get (hb_pcs st) (pp_pc payload) = Some p \<and>
    pp_pc payload = fingerprint E (pc_key p) \<and> pass = t @ ''.'' @ sig \<and>
    b64url_exact E 64 sig = Some s \<and>
    verify_strict E (pc_key p) (as_bytes pass_context @ as_bytes t) s \<and>
    now < pp_exp payload \<and>
    (\<forall>until. get (pc_dropped p) (pp_phone payload) = Some until \<longrightarrow> until \<le> now) \<and>
    length (pc_phones p) < phones_per_pc L \<and>
    out = [to_pc E (pc_link p) (Joined c (Some (pp_phone payload)) False)] \<and>
    get (hb_phones st') c =
      Some \<lparr> ph_link = lnk, ph_pc = pp_pc payload, ph_phone = Some (pp_phone payload) \<rparr>"
proof -
  obtain f p payload where p: "pc_of E pass = Some f" "get (hb_pcs st) f = Some p"
    "pass_check E pass (pc_key p) now = Inr payload"
    "\<not> (case get (pc_dropped p) (pp_phone payload) of None \<Rightarrow> False | Some until \<Rightarrow> until > now)"
    "length (pc_phones p) < phones_per_pc L"
    "add_phone E st f (Some (pp_phone payload)) lnk = (st', out, c)"
    using assms by (auto simp: join_with_pass_def not_le split: option.splits sum.splits if_splits
        prod.splits)
  have f: "f = pp_pc payload" using pass_check_pc_of [OF p(3)] p(1) by simp
  from p(3) obtain t sig s where "pass = t @ ''.'' @ sig" "b64url_exact E 64 sig = Some s"
    "verify_strict E (pc_key p) (as_bytes pass_context @ as_bytes t) s"
    "pp_pc payload = fingerprint E (pc_key p)" "now < pp_exp payload"
    by (rule pass_check_Inr)
  moreover have "\<forall>until. get (pc_dropped p) (pp_phone payload) = Some until \<longrightarrow> until \<le> now"
    using p(4) by (auto simp: not_less split: option.splits)
  ultimately show ?thesis
    using p(2,5,6) add_phone_eq [OF p(2), of E "Some (pp_phone payload)" lnk] f
    by (intro exI [of _ p] exI [of _ payload] exI [of _ t] exI [of _ sig] exI [of _ s]) auto
qed

theorem pass_lets_in_its_phone_witness:
  "\<exists>p. get (hb_pcs demo_hub2) ''fp'' = Some p \<and> length (pc_phones p) < phones_per_pc default_limits \<and>
     get (hb_phones demo_hub3) ''c000001'' =
       Some \<lparr> ph_link = 2, ph_pc = ''fp'', ph_phone = Some demo_phone_id \<rparr>"
proof -
  have e: "join_with_pass demo_env default_limits demo_hub2 demo_pass 2 1771000000 =
      (demo_hub3, [(1, TextFrame ''to pc'')], Inr ''c000001'')"
    by code_simp
  have c: "get (hb_phones demo_hub3) ''c000001'' =
      Some \<lparr> ph_link = 2, ph_pc = ''fp'', ph_phone = Some demo_phone_id \<rparr>"
    by code_simp
  obtain p and payload :: pass_payload where "get (hb_pcs demo_hub2) (pp_pc payload) = Some p"
    "length (pc_phones p) < phones_per_pc default_limits"
    "get (hb_phones demo_hub3) ''c000001'' =
      Some \<lparr> ph_link = 2, ph_pc = pp_pc payload, ph_phone = Some (pp_phone payload) \<rparr>"
    using pass_lets_in_its_phone [OF e] by blast
  with c show ?thesis by simp
qed

section \<open>Dropped phones\<close>

text \<open>What a later join reads of a PC: its key, its generation and its dropped passes.\<close>

definition drops_of :: "hub \<Rightarrow> string \<Rightarrow> (byte list \<times> nat \<times> (string, int) store) option" where
  "drops_of st f = map_option (\<lambda>p. (pc_key p, pc_generation p, pc_dropped p)) (get (hb_pcs st) f)"

lemma drops_same_pcs: "hb_pcs st' = hb_pcs st \<Longrightarrow> drops_of st' f = drops_of st f"
  by (simp add: drops_of_def)

lemma drops_put:
  "get (hb_pcs st) h = Some p \<Longrightarrow> same_pc p q \<Longrightarrow> pc_dropped q = pc_dropped p \<Longrightarrow>
     hb_pcs st' = put h q (hb_pcs st) \<Longrightarrow> drops_of st' f = drops_of st f"
  by (simp add: drops_of_def same_pc_def)

lemma drops_take_out:
  "get (hb_pcs st) h = Some p \<Longrightarrow> drops_of (take_out st c h p) f = drops_of st f"
  by (rule drops_put [where h = h]) (simp_all add: take_out_def same_pc_def)

lemma drops_mailbox:
  "drops_of (open_mailbox st h g name t) f = drops_of st f"
  "drops_of (close_mailbox st h g) f = drops_of st f"
  by (auto simp: open_mailbox_def close_mailbox_def pc_mut_Some drops_of_def split: option.split)

lemma drops_close_phone: "drops_of (fst (close_phone st h c)) f = drops_of st f"
  by (cases "get (hb_pcs st) f") (auto simp: close_phone_def drops_of_def split: option.split)

lemma drops_unregister_phone: "drops_of (fst (unregister_phone E st c)) f = drops_of st f"
  by (auto simp: unregister_phone_def drops_of_def Let_def split: option.split)

lemma drops_add_phone: "drops_of (fst (add_phone E st h ph lnk)) f = drops_of st f"
  by (auto simp: add_phone_def drops_of_def Let_def case_prod_beta split: option.split)

lemma drops_join_with_pass: "drops_of (fst (join_with_pass E L st pass lnk now)) f = drops_of st f"
  by (auto simp: join_with_pass_def drops_add_phone Let_def case_prod_beta
      split: option.split sum.split)

lemma drops_join_mailbox:
  assumes "wf_store (hb_pcs st)"
  shows "drops_of (fst (join_mailbox E L st name lnk t)) f = drops_of st f"
proof -
  let ?s1 = "st\<lparr>hb_pcs := close_old_mailboxes L t (hb_pcs st)\<rparr>"
  have 1: "drops_of ?s1 f = drops_of st f"
    by (cases "get (hb_pcs st) f") (simp_all add: drops_of_def close_old_get)
  have 2: "drops_of (fst (add_phone E (?s1\<lparr>hb_pcs := put h (p\<lparr>pc_mailbox := b\<rparr>) (hb_pcs ?s1)\<rparr>) h None lnk)) f =
      drops_of st f" if "find (\<lambda>(_, p). has_mailbox name p) (hb_pcs ?s1) = Some (h, p)" for h p b
  proof -
    have "wf_store (hb_pcs ?s1)" using assms by (simp add: wf_store_def)
    moreover have "(h, p) \<in> set (hb_pcs ?s1)"
      using that by (auto simp: find_Some_iff dest: nth_mem)
    ultimately have "get (hb_pcs ?s1) h = Some p" by (simp add: get_in_set)
    then have "drops_of (?s1\<lparr>hb_pcs := put h (p\<lparr>pc_mailbox := b\<rparr>) (hb_pcs ?s1)\<rparr>) f = drops_of ?s1 f"
      by (rule drops_put) (simp_all add: same_pc_def)
    with 1 show ?thesis by (simp add: drops_add_phone)
  qed
  show ?thesis
    using 1 2 unfolding join_mailbox_def Let_def
    by (auto simp: case_prod_beta split: option.split)
qed

lemma drops_drop_conns: "f \<noteq> h \<Longrightarrow> drops_of (fst (drop_conns E st h g cs)) f = drops_of st f"
proof (induction cs arbitrary: st)
  case (Cons c cs)
  have "drops_of (st\<lparr>hb_pcs := put h q (hb_pcs st), hb_phones := x, hb_refused := y\<rparr>) f = drops_of st f"
    "drops_of (st\<lparr>hb_phones := x, hb_refused := y\<rparr>) f = drops_of st f"
    "drops_of (st\<lparr>hb_pcs := put h q (hb_pcs st)\<rparr>) f = drops_of st f" for q x y
    using Cons.prems by (simp_all add: drops_of_def)
  with Cons show ?case
    by (auto simp: Let_def case_prod_beta split: option.split)
qed simp

lemma drops_drop_phone:
  assumes "f \<noteq> h \<or> drops_of st f = Some (k, g', d) \<and> g' \<noteq> g"
  shows "drops_of (fst (drop_phone E L st h g phone until now)) f = drops_of st f"
proof (cases "f = h")
  case True
  with assms have "pc_mut st h g = None"
    by (auto simp: drops_of_def pc_mut_def split: option.splits)
  then show ?thesis by (simp add: drop_phone_none)
next
  case False
  have "drops_of (st\<lparr>hb_pcs := put h q (hb_pcs st)\<rparr>) f = drops_of st f" for q
    using False by (simp add: drops_of_def)
  with False show ?thesis
    by (auto simp: drop_phone_def drops_drop_conns Let_def split: option.split)
qed

lemma drops_without_pc: "f \<noteq> h \<Longrightarrow> drops_of (without_pc st h p) f = drops_of st f"
  by (simp add: drops_of_def without_pc_def forget_pc_def)

lemma drops_unregister_pc:
  assumes "f \<noteq> h \<or> drops_of st f = Some (k, g', d) \<and> g' \<noteq> g"
  shows "drops_of (fst (unregister_pc E st h g)) f = drops_of st f"
proof (cases "f = h")
  case True
  with assms have "pc_mut st h g = None"
    by (auto simp: drops_of_def pc_mut_def split: option.splits)
  then show ?thesis by (simp add: unregister_pc_eq)
qed (simp add: unregister_pc_eq drops_without_pc split: option.split)

lemma drops_register_pc:
  "hub_inv L st \<Longrightarrow> f \<noteq> h \<Longrightarrow>
     drops_of (fst (register_pc E L st h key lnk license a)) f = drops_of st f"
  by (auto simp: register_pc_eq with_pc_def at_address_def drops_of_def before_pc_fields)

lemma drops_door:
  "drops_of (fst (enter L st a now)) f = drops_of st f" "drops_of (leave st a now) f = drops_of st f"
  "drops_of (sweep_addresses st now) f = drops_of st f"
  "drops_of (hub_refused st c a now) f = drops_of st f" "drops_of (fst (set_off E st b)) f = drops_of st f"
proof -
  have t: "hb_pcs (fst (turn_away s a now w)) = hb_pcs s" "hb_pcs (forget_idle_address s a now) = hb_pcs s"
    for s w
    by (auto simp: turn_away_def forget_idle_address_def split: option.split)
  have "hb_pcs (fst (enter L st a now)) = hb_pcs st"
    by (auto simp: enter_def Let_def case_prod_beta t at_address_def no_room_for_def sweep_def)
  then show "drops_of (fst (enter L st a now)) f = drops_of st f" by (rule drops_same_pcs)
  show "drops_of (leave st a now) f = drops_of st f"
    by (rule drops_same_pcs) (simp add: leave_def t)
qed (simp_all add: drops_of_def sweep_addresses_def sweep_def hub_refused_def at_address_def
    set_off_def Let_def)

text \<open>Calls that can change what a PC has dropped: the PC's own, and it leaving or coming again.\<close>

definition touches :: "string \<Rightarrow> nat \<Rightarrow> call \<Rightarrow> bool" where
  "touches f g lab \<longleftrightarrow> lab = RegisterPc f \<or> lab = UnregisterPc f g \<or> lab = DropPhone f g"

lemma drops_step:
  assumes "relay_step E L lab st out st'" "hub_inv L st" "drops_of st f = Some (k, g, d)"
    and "\<not> touches f g lab"
  shows "drops_of st' f = Some (k, g, d)"
  using assms
proof (induction rule: relay_step.induct)
  case (rs_register_pc st a h key lnk license st' out r)
  then have "f \<noteq> h" by (auto simp: touches_def)
  with rs_register_pc show ?case using drops_register_pc [of L st f h E key lnk license a] by simp
next
  case (rs_unregister_pc st h g' st' out)
  then have "f \<noteq> h \<or> g \<noteq> g'" by (auto simp: touches_def)
  with rs_unregister_pc show ?case using drops_unregister_pc [of f h st k g d g' E] by auto
next
  case (rs_drop_phone st h g' phone until now st' out)
  then have "f \<noteq> h \<or> g \<noteq> g'" by (auto simp: touches_def)
  with rs_drop_phone show ?case
    using drops_drop_phone [of f h st k g d g' E L phone until now] by auto
next
  case (rs_set_off st b st' out)
  then show ?case using drops_door(5) [of E st b f] by simp
next
  case (rs_close_phone st h c st' out)
  then show ?case using drops_close_phone [of st h c f] by simp
next
  case (rs_join_with_pass st pass lnk now st' out r)
  then show ?case using drops_join_with_pass [of E L st pass lnk now f] by simp
next
  case (rs_join_mailbox st name lnk t st' out r)
  then show ?case
    using drops_join_mailbox [of st E L name lnk t f] by (simp add: hub_inv_def roster_def)
next
  case (rs_unregister_phone st c st' out)
  then show ?case using drops_unregister_phone [of E st c f] by simp
qed (simp_all add: drops_door drops_mailbox)

text \<open>
  A drop that lasts until \<open>until\<close> is not pushed out by another one at \<open>now\<close>: fewer drops are in force than
  the relay remembers for a PC, or one of them ends sooner.
\<close>

definition keeps_drop :: "limits \<Rightarrow> int \<Rightarrow> int \<Rightarrow> (string, int) store \<Rightarrow> bool" where
  "keeps_drop L now until d \<longleftrightarrow>
     length (filter (\<lambda>(_, u). now < u) d) < dropped_per_pc L \<or> list_ex (\<lambda>(_, u). now < u \<and> u < until) d"

lemma soonest_least:
  assumes "soonest m = Some k" "wf_store m" "(k', u') \<in> set m"
  shows "\<exists>u. get m k = Some u \<and> u \<le> u'"
  using assms
proof (induction m arbitrary: k k' u')
  case (Cons x m)
  obtain a b where x: "x = (a, b)" by force
  have wf: "wf_store m" "a \<notin> fst ` set m" using Cons.prems(2) x by (auto simp: wf_store_def)
  show ?case
  proof (cases "soonest m")
    case None
    then have "m = []" by (rule soonest_None)
    with Cons.prems x show ?thesis by (auto simp: get_def)
  next
    case (Some j)
    obtain v where v: "get m j = Some v" using soonest_in [OF Some] by auto
    have j: "j \<noteq> a" using wf(2) v by (force simp: get_def dest: map_of_SomeD)
    have least: "v \<le> u'" if "(k', u') \<in> set m" for k' u'
      using Cons.IH [OF Some wf(1) that] v by auto
    show ?thesis
    proof (cases "b \<le> v")
      case True
      with Some v Cons.prems(1) x have "k = a" by simp
      moreover have "b \<le> u'" using Cons.prems(3) x least True by fastforce
      ultimately show ?thesis using x by (simp add: get_def)
    next
      case False
      with Some v Cons.prems(1) x have "k = j" by simp
      moreover have "v \<le> u'" using Cons.prems(3) x least False by fastforce
      ultimately show ?thesis using x v j by (simp add: get_def)
    qed
  qed
qed simp

lemma remember_keeps:
  assumes "wf_store d" "get d phone = Some v" "until \<le> v" "now < until"
    and "keeps_drop L now until d" "other = phone \<Longrightarrow> until \<le> u"
  shows "\<exists>v'. get (remember_dropped L now other u d) phone = Some v' \<and> until \<le> v'"
proof -
  let ?d1 = "retain (\<lambda>_ u. u > now) d"
  have wf: "wf_store ?d1" and d1: "get ?d1 phone = Some v"
    using assms(1-4) by (simp_all add: get_retain)
  define d2 where "d2 = (if length ?d1 \<ge> dropped_per_pc L
      then (case soonest ?d1 of None \<Rightarrow> ?d1 | Some k \<Rightarrow> del k ?d1) else ?d1)"
  have "get d2 phone = Some v"
  proof (cases "length ?d1 \<ge> dropped_per_pc L")
    case True
    then obtain k0 u0 where k0: "(k0, u0) \<in> set ?d1" "u0 < until"
      using assms(5) by (auto simp: keeps_drop_def retain_def list_ex_iff)
    have "k \<noteq> phone" if "soonest ?d1 = Some k" for k
      using soonest_least [OF that wf k0(1)] k0(2) d1 assms(3) by auto
    with d1 show ?thesis by (auto simp: d2_def split: option.split)
  qed (use d1 in \<open>simp add: d2_def\<close>)
  then show ?thesis
    using assms(3,6) by (cases "other = phone") (auto simp: remember_dropped_def d2_def Let_def)
qed

text \<open>
  A run in which the PC \<open>f\<close> stays connected (generation \<open>g\<close>). Anything else may happen at the relay; the PC
  may drop more phones, before \<open>until\<close>, as long as that does not push out the drop of \<open>phone\<close> or shorten it.
\<close>

inductive calm_run ::
    "relay_env \<Rightarrow> limits \<Rightarrow> string \<Rightarrow> nat \<Rightarrow> string \<Rightarrow> int \<Rightarrow> hub \<Rightarrow> hub \<Rightarrow> bool" for E L f g phone until where
  calm_none: "calm_run E L f g phone until st st"
| calm_more:
    "calm_run E L f g phone until st st' \<Longrightarrow> relay_step E L lab st' out st'' \<Longrightarrow> \<not> touches f g lab \<Longrightarrow>
     calm_run E L f g phone until st st''"
| calm_drop:
    "calm_run E L f g phone until st st' \<Longrightarrow> drop_phone E L st' f g other u now = (st'', out) \<Longrightarrow>
     now < until \<Longrightarrow> (other = phone \<longrightarrow> until \<le> u) \<Longrightarrow>
     (\<forall>p. get (hb_pcs st') f = Some p \<longrightarrow> keeps_drop L now until (pc_dropped p)) \<Longrightarrow>
     calm_run E L f g phone until st st''"

text \<open>The drop of \<open>phone\<close> by the PC \<open>f\<close>, with its key and its connection, in force until \<open>until\<close> at least.\<close>

definition drop_stands :: "hub \<Rightarrow> string \<Rightarrow> byte list \<Rightarrow> nat \<Rightarrow> string \<Rightarrow> int \<Rightarrow> bool" where
  "drop_stands st f k g phone until \<longleftrightarrow>
     (\<exists>d v. drops_of st f = Some (k, g, d) \<and> get d phone = Some v \<and> until \<le> v)"

lemma drop_conns_key:
  "get (hb_pcs st) f = Some p \<Longrightarrow> get (hb_pcs (fst (drop_conns E st h g cs))) f = Some q \<Longrightarrow>
     pc_key q = pc_key p"
proof (induction cs arbitrary: st p)
  case (Cons c cs)
  let ?st = "(case pc_mut st h g of
      None \<Rightarrow> st
    | Some p \<Rightarrow> st\<lparr>hb_pcs := put h (p\<lparr>pc_phones := removeAll c (pc_phones p)\<rparr>) (hb_pcs st)\<rparr>)"
  obtain p' where p': "get (hb_pcs ?st) f = Some p'" "pc_key p' = pc_key p"
    using Cons.prems(1) by (cases "f = h"; cases "pc_mut st h g") (auto simp: pc_mut_Some)
  have "\<exists>st2. hb_pcs st2 = hb_pcs ?st \<and>
      fst (drop_conns E st h g (c # cs)) = fst (drop_conns E st2 h g cs)"
  proof (cases "get (hb_phones ?st) c")
    case None
    then show ?thesis by (intro exI [of _ ?st]) (simp add: Let_def)
  next
    case (Some l)
    then show ?thesis
      by (intro exI [of _ "?st\<lparr>hb_phones := del c (hb_phones ?st),
            hb_refused := entry 0 bad_pass (\<lambda>n. n + 1) (hb_refused ?st)\<rparr>"])
        (simp add: Let_def case_prod_beta)
  qed
  then obtain st2 where st2: "hb_pcs st2 = hb_pcs ?st"
    "fst (drop_conns E st h g (c # cs)) = fst (drop_conns E st2 h g cs)" by blast
  have "get (hb_pcs st2) f = Some p'" by (simp only: st2(1) p'(1))
  moreover have "get (hb_pcs (fst (drop_conns E st2 h g cs))) f = Some q"
    using Cons.prems(2) st2(2) by simp
  ultimately have "pc_key q = pc_key p'" by (rule Cons.IH)
  with p'(2) show ?case by simp
qed simp

lemma drop_phone_key:
  assumes "get (hb_pcs st) f = Some p" "pc_generation p = g"
    and "drop_phone E L st f g phone until now = (st1, out)" "get (hb_pcs st1) f = Some p1"
  shows "pc_key p1 = pc_key p"
proof -
  let ?p = "p\<lparr>pc_dropped := remember_dropped L now phone until (pc_dropped p)\<rparr>"
  have m: "pc_mut st f g = Some p" using assms by (simp add: pc_mut_Some)
  have "get (hb_pcs (st\<lparr>hb_pcs := put f ?p (hb_pcs st)\<rparr>)) f = Some ?p" by simp
  moreover have "drop_phone E L st f g phone until now =
      drop_conns E (st\<lparr>hb_pcs := put f ?p (hb_pcs st)\<rparr>) f g (conns_of st p phone)"
    using m by (simp add: drop_phone_def conns_of_def)
  then have "st1 = fst (drop_conns E (st\<lparr>hb_pcs := put f ?p (hb_pcs st)\<rparr>) f g (conns_of st p phone))"
    using assms(3) by (metis fst_conv)
  ultimately have "pc_key p1 = pc_key ?p" using assms(4) drop_conns_key by blast
  then show ?thesis by simp
qed

lemma drop_stands_drop:
  assumes "hub_inv L st" "drop_stands st f k g phone until" "drop_phone E L st f g other u now = (st', out)"
    and "now < until" "other = phone \<longrightarrow> until \<le> u"
    and "\<forall>p. get (hb_pcs st) f = Some p \<longrightarrow> keeps_drop L now until (pc_dropped p)"
  shows "hub_inv L st' \<and> drop_stands st' f k g phone until"
proof -
  obtain p v where p: "get (hb_pcs st) f = Some p" "pc_generation p = g" "pc_key p = k"
    "get (pc_dropped p) phone = Some v" "until \<le> v"
    using assms(2) by (auto simp: drop_stands_def drops_of_def)
  have "hub_inv L st' \<and>
      (\<exists>p'. get (hb_pcs st') f = Some p' \<and>
        pc_dropped p' = remember_dropped L now other u (pc_dropped p) \<and> pc_generation p' = g)"
    using drop_phone_inv [OF assms(1) p(1,2), of E other u now] assms(3) by simp
  then obtain p' where inv: "hub_inv L st'" and p': "get (hb_pcs st') f = Some p'" "pc_generation p' = g"
    "pc_dropped p' = remember_dropped L now other u (pc_dropped p)" by blast
  have wf: "wf_store (pc_dropped p)" using hub_pc_ok [OF assms(1) p(1)] by (simp add: pc_ok_def)
  obtain v' where "get (pc_dropped p') phone = Some v'" "until \<le> v'"
    using remember_keeps [OF wf p(4,5) assms(4), of L other u] assms(5,6) p(1) p'(3) by auto
  moreover have "pc_key p' = k" using drop_phone_key [OF p(1,2) assms(3) p'(1)] p(3) by simp
  ultimately show ?thesis
    using inv p'(1,2) by (auto simp: drop_stands_def drops_of_def)
qed

lemma calm_run_drops:
  "calm_run E L f g phone until st st' \<Longrightarrow> hub_inv L st \<Longrightarrow> drop_stands st f k g phone until \<Longrightarrow>
     hub_inv L st' \<and> drop_stands st' f k g phone until"
proof (induction rule: calm_run.induct)
  case (calm_more st st' lab out st'')
  then show ?case using drops_step relay_step_inv unfolding drop_stands_def by blast
next
  case (calm_drop st st' other u now st'' out)
  then show ?case using drop_stands_drop by blast
qed simp

text \<open>
  C15: A phone its PC dropped stays out. Once a PC drops a phone until some time, none of that phone's
  connections to it is left; and from then on, while the PC stays connected, whatever else happens
  at the relay, a pass of that phone is refused with \<open>bad_pass\<close> until that time. The PC may drop other
  phones meanwhile: their drops never undo this one, unless the PC has as many drops in force as
  the relay remembers and this one is the first of them to end.
\<close>

theorem dropped_phone_stays_out:
  assumes "relay_reach E L st" "pc_mut st f g = Some p"
    and "drop_phone E L st f g phone until now = (st1, out)"
    and "calm_run E L f g phone until st1 st2"
    and "pass_check E pass (pc_key p) later = Inr payload" "pp_phone payload = phone"
    and "pc_of E pass = Some f" "later < until"
  shows "(\<forall>c ph. get (hb_phones st1) c = Some ph \<longrightarrow> ph_pc ph = f \<longrightarrow> ph_phone ph \<noteq> Some phone) \<and>
    join_with_pass E L st2 pass lnk later = (st2, [], Inl bad_pass)"
proof -
  have i: "hub_inv L st" by (rule relay_reach_inv [OF assms(1)])
  have p: "get (hb_pcs st) f = Some p" "pc_generation p = g" using assms(2) by (simp_all add: pc_mut_Some)
  have "hub_inv L st1 \<and> hb_phones st1 = fold del (conns_of st p phone) (hb_phones st) \<and>
      (\<exists>p'. get (hb_pcs st1) f = Some p' \<and>
        pc_dropped p' = remember_dropped L now phone until (pc_dropped p) \<and> pc_generation p' = g)"
    using drop_phone_inv [OF i p, of E phone until now] assms(3) by simp
  then obtain p1 where st1: "hub_inv L st1" "hb_phones st1 = fold del (conns_of st p phone) (hb_phones st)"
    and p1: "get (hb_pcs st1) f = Some p1" "pc_generation p1 = g"
      "pc_dropped p1 = remember_dropped L now phone until (pc_dropped p)" by blast
  have ok: "wf_store (pc_dropped p)" "length (pc_dropped p) \<le> max 1 (dropped_per_pc L)"
    using hub_pc_ok [OF i p(1)] by (simp_all add: pc_ok_def)
  have r: "roster st" using i by (simp add: hub_inv_def)
  have gone: "ph_phone ph \<noteq> Some phone" if "get (hb_phones st1) c = Some ph" "ph_pc ph = f" for c ph
  proof -
    have c: "get (hb_phones st) c = Some ph" "c \<notin> set (conns_of st p phone)"
      using that(1) by (auto simp: st1(2) fold_del_get split: if_splits)
    have "c \<in> set (pc_phones p)" using roster_phone [OF r c(1)] that(2) p(1) by (metis option.inject)
    with c show ?thesis by (simp add: conns_of_def)
  qed
  have key: "pc_key p1 = pc_key p" using drop_phone_key [OF p assms(3) p1(1)] .
  have "drop_stands st1 f (pc_key p) g phone until"
    using p1 key remember_dropped_ok(3) [OF ok] by (simp add: drop_stands_def drops_of_def)
  with calm_run_drops [OF assms(4) st1(1)]
  obtain p2 v where p2: "get (hb_pcs st2) f = Some p2" "pc_key p2 = pc_key p"
    "get (pc_dropped p2) phone = Some v" "until \<le> v"
    by (auto simp: drop_stands_def drops_of_def)
  then have "join_with_pass E L st2 pass lnk later = (st2, [], Inl bad_pass)"
    using assms(5-8) p2 by (simp add: join_with_pass_def)
  with gone show ?thesis by blast
qed

definition demo_dropped :: hub where
  "demo_dropped = fst (drop_phone demo_env default_limits demo_hub3 ''fp'' 1 demo_phone_id 1779000000 1771000000)"

text \<open>Another phone dropped right after.\<close>

definition demo_dropped_two :: hub where
  "demo_dropped_two = fst (drop_phone demo_env default_limits demo_dropped ''fp'' 1 ''other'' 1775000000 1771000001)"

theorem dropped_phone_stays_out_witness:
  "hb_phones demo_hub3 \<noteq> [] \<and> hb_phones demo_dropped = [] \<and>
   join_with_pass demo_env default_limits demo_dropped_two demo_pass 3 1771000001 =
     (demo_dropped_two, [], Inl bad_pass)"
proof -
  let ?p = "the (pc_mut demo_hub3 ''fp'' 1)"
  have m: "pc_mut demo_hub3 ''fp'' 1 = Some ?p" by code_simp
  have d: "drop_phone demo_env default_limits demo_hub3 ''fp'' 1 demo_phone_id 1779000000 1771000000 =
      (demo_dropped, [(2, TextFrame ''to phone''), (2, CloseFrame)])"
    by code_simp
  have c: "pass_check demo_env demo_pass (pc_key ?p) 1771000001 =
      Inr \<lparr> pp_v = 1, pp_pc = ''fp'', pp_phone = demo_phone_id, pp_exp = 1780000000 \<rparr>"
    "pc_of demo_env demo_pass = Some ''fp''" "hb_phones demo_hub3 \<noteq> []" "hb_phones demo_dropped = []"
    by code_simp+
  have d2: "drop_phone demo_env default_limits demo_dropped ''fp'' 1 ''other'' 1775000000 1771000001 =
      (demo_dropped_two, [])"
    by code_simp
  have "case get (hb_pcs demo_dropped) ''fp'' of None \<Rightarrow> False
      | Some p \<Rightarrow> keeps_drop default_limits 1771000001 1779000000 (pc_dropped p)" "''other'' \<noteq> demo_phone_id"
    by code_simp+
  then have "calm_run demo_env default_limits ''fp'' 1 demo_phone_id 1779000000 demo_dropped demo_dropped_two"
    by (intro calm_drop [OF calm_none d2]) (auto split: option.splits)
  from dropped_phone_stays_out [OF demo_reach(3) m d this c(1) _ c(2), of 3]
  have "join_with_pass demo_env default_limits demo_dropped_two demo_pass 3 1771000001 =
      (demo_dropped_two, [], Inl bad_pass)"
    by simp
  with c show ?thesis by blast
qed

text \<open>
  A replaced connection undoes nothing. When a PC connects again, its new connection gets a
  generation no connection had; the connection it replaces is closed, its phones hear \<open>pc_offline\<close>
  and are closed; and whatever the replaced connection still does (leave, open or close a mailbox,
  drop a phone) changes nothing.
\<close>

theorem replaced_connection_is_powerless:
  assumes "relay_reach E L st" "get (hb_pcs st) f = Some p"
    and "register_pc E L st f key lnk license a = (st', out, Inr g)"
  defines "old \<equiv> pc_generation p"
  shows "hb_next_generation st < g \<and> old < g \<and>
    (pc_link p, CloseFrame) \<in> set out \<and>
    (\<forall>c ph. get (hb_phones st) c = Some ph \<longrightarrow> ph_pc ph = f \<longrightarrow>
       {to_phone E (ph_link ph) PcOffline, (ph_link ph, CloseFrame)} \<subseteq> set out) \<and>
    (\<forall>c ph. get (hb_phones st') c = Some ph \<longrightarrow> ph_pc ph \<noteq> f) \<and>
    unregister_pc E st' f old = (st', []) \<and> open_mailbox st' f old name t = st' \<and>
    close_mailbox st' f old = st' \<and> drop_phone E L st' f old phone until now = (st', [])"
proof -
  have i: "hub_inv L st" and r: "roster st"
    using relay_reach_inv [OF assms(1)] by (simp_all add: hub_inv_def)
  have st': "st' = with_pc (before_pc st f) f (new_pc key lnk g license a)"
    and g: "g = Suc (hb_next_generation st)" and out: "out = replaced_sends E st f"
    using assms(3) by (auto simp: register_pc_eq [OF i] split: if_splits)
  have old: "old < g" using r assms(2) g by (auto simp: roster_def old_def less_Suc_eq_le)
  have "get (hb_pcs st') f = Some (new_pc key lnk g license a)"
    by (simp add: st' with_pc_def at_address_def)
  then have m: "pc_mut st' f old = None"
    using old by (simp add: pc_mut_def new_pc_def)
  have d: "distinct (pc_phones p)" using r assms(2) by (auto simp: roster_def)
  have o: "out = concat (map (goodbye E st) (pc_phones p)) @ [close_link (pc_link p)]"
    using assms(2) by (simp add: out replaced_sends_def lose_phones_sends [OF d])
  have phones: "{to_phone E (ph_link ph) PcOffline, (ph_link ph, CloseFrame)} \<subseteq> set out"
    if ph: "get (hb_phones st) c = Some ph" "ph_pc ph = f" for c ph
  proof -
    have "c \<in> set (pc_phones p)" using roster_phone [OF r ph(1)] ph(2) assms(2) by (metis option.inject)
    moreover have "goodbye E st c = [to_phone E (ph_link ph) PcOffline, close_link (ph_link ph)]"
      using ph(1) by simp
    ultimately show ?thesis by (force simp: o close_link_def)
  qed
  have none: "ph_pc ph \<noteq> f" if ph: "get (hb_phones st') c = Some ph" for c ph
  proof
    assume "ph_pc ph = f"
    moreover have "get (hb_phones st) c = Some ph" "c \<notin> set (pc_phones p)"
      using ph assms(2)
      by (auto simp: st' with_pc_def at_address_def before_pc_def without_pc_def forget_pc_def
          fold_del_get Let_def split: if_splits)
    ultimately show False using roster_phone [OF r] assms(2) by (metis option.inject)
  qed
  have "(pc_link p, CloseFrame) \<in> set out" by (simp add: o close_link_def)
  with m old g phones none show ?thesis
    by (simp add: unregister_pc_eq open_mailbox_def close_mailbox_def drop_phone_none)
qed

definition demo_again :: hub where
  "demo_again = fst (register_pc demo_env default_limits demo_hub3 ''fp'' (replicate 32 1) 5 [9] demo_address)"

theorem replaced_connection_is_powerless_witness:
  "unregister_pc demo_env demo_again ''fp'' 1 = (demo_again, [])"
proof -
  let ?p = "the (get (hb_pcs demo_hub3) ''fp'')"
  have p: "get (hb_pcs demo_hub3) ''fp'' = Some ?p" "pc_generation ?p = 1" by code_simp+
  have e: "register_pc demo_env default_limits demo_hub3 ''fp'' (replicate 32 1) 5 [9] demo_address =
      (demo_again, [(2, TextFrame ''to phone''), (2, CloseFrame), (1, CloseFrame)], Inr 2)"
    by code_simp
  from replaced_connection_is_powerless [OF demo_reach(3) p(1) e] p(2) show ?thesis by simp
qed

section \<open>Leaving, and the off switch\<close>

text \<open>
  When a PC's connection ends, its phones hear it, and nobody else does. The PC and every phone
  connected to it are forgotten; each of those phones' links is sent \<open>pc_offline\<close> and then the
  close; the phones of every other PC stay as they were.
\<close>

theorem phones_of_a_gone_pc_hear_it:
  assumes "relay_reach E L st" "pc_mut st f g = Some p" "unregister_pc E st f g = (st', out)"
  shows "get (hb_pcs st') f = None \<and>
    out = concat (map (goodbye E st) (pc_phones p)) \<and>
    (\<forall>c. get (hb_phones st') c = (case get (hb_phones st) c of
        None \<Rightarrow> None | Some ph \<Rightarrow> if ph_pc ph = f then None else Some ph))"
proof -
  have i: "hub_inv L st" and r: "roster st"
    using relay_reach_inv [OF assms(1)] by (simp_all add: hub_inv_def)
  have p: "get (hb_pcs st) f = Some p" using assms(2) by (simp add: pc_mut_Some)
  have d: "distinct (pc_phones p)" using r p by (auto simp: roster_def)
  have st': "st' = without_pc st f p"
    and out: "out = snd (phones_lose_pc E (st\<lparr>hb_pcs := del f (hb_pcs st)\<rparr>) p)"
    using assms(2,3) by (simp_all add: unregister_pc_eq)
  have "out = snd (lose_phones E st (pc_phones p))"
    unfolding out phones_lose_pc_def by (rule lose_phones_sends_cong) simp
  moreover have "c \<in> set (pc_phones p) \<longleftrightarrow> ph_pc ph = f" if "get (hb_phones st) c = Some ph" for c ph
    using roster_phone [OF r that] roster_listed [OF r p] that p by (metis option.inject)
  ultimately show ?thesis
    by (auto simp: lose_phones_sends [OF d] st' without_pc_def forget_pc_def fold_del_get
        split: option.split)
qed

theorem phones_of_a_gone_pc_hear_it_witness:
  "\<exists>st'. unregister_pc demo_env demo_hub3 ''fp'' 1 =
     (st', [(2, TextFrame ''to phone''), (2, CloseFrame)]) \<and> get (hb_pcs st') ''fp'' = None"
proof -
  let ?p = "the (pc_mut demo_hub3 ''fp'' 1)" and ?s = "fst (unregister_pc demo_env demo_hub3 ''fp'' 1)"
  have m: "pc_mut demo_hub3 ''fp'' 1 = Some ?p" by code_simp
  have e: "unregister_pc demo_env demo_hub3 ''fp'' 1 = (?s, [(2, TextFrame ''to phone''), (2, CloseFrame)])"
    by code_simp
  from phones_of_a_gone_pc_hear_it [OF demo_reach(3) m e] e show ?thesis by blast
qed

text \<open>
  The off switch closes everything and lets nobody in. Turning the relay off sends every phone
  \<open>pc_offline\<close> and the close, and every PC the close; while it is off, every new connection is
  turned away, and no connection is counted for it.
\<close>

theorem off_switch_closes_everything:
  assumes "\<not> hb_off st" "set_off E st True = (st', out)"
  shows "(\<forall>c ph. get (hb_phones st) c = Some ph \<longrightarrow>
       {to_phone E (ph_link ph) PcOffline, (ph_link ph, CloseFrame)} \<subseteq> set out) \<and>
    (\<forall>f p. get (hb_pcs st) f = Some p \<longrightarrow> (pc_link p, CloseFrame) \<in> set out) \<and>
    (\<forall>L a now. snd (enter L st' a now) = Inl TurnedOff \<and>
       hb_connections (fst (enter L st' a now)) = hb_connections st)"
proof -
  have out: "out = close_all E (st\<lparr>hb_off := True\<rparr>)" and st': "st' = st\<lparr>hb_off := True\<rparr>"
    using assms(1,2) by (auto simp: set_off_def Let_def)
  have "{to_phone E (ph_link ph) PcOffline, (ph_link ph, CloseFrame)} \<subseteq> set out"
    if "get (hb_phones st) c = Some ph" for c ph
    using get_set [OF that] by (force simp: out close_all_def close_link_def)
  moreover have "(pc_link p, CloseFrame) \<in> set out" if "get (hb_pcs st) f = Some p" for f p
    using get_set [OF that] by (force simp: out close_all_def close_link_def)
  moreover have "snd (enter L st' a now) = Inl TurnedOff \<and>
      hb_connections (fst (enter L st' a now)) = hb_connections st" for L a now
    by (auto simp: st' enter_def turn_away_def forget_idle_address_def split: option.split)
  ultimately show ?thesis by blast
qed

theorem off_switch_closes_everything_witness:
  "\<exists>st' out. set_off demo_env demo_hub3 True = (st', out) \<and>
     (1, CloseFrame) \<in> set out \<and> (2, CloseFrame) \<in> set out \<and>
     snd (enter default_limits st' demo_address 1771000000) = Inl TurnedOff"
proof -
  have h: "\<not> hb_off demo_hub3" by code_simp
  obtain st' out where e: "set_off demo_env demo_hub3 True = (st', out)" by fastforce
  have g: "get (hb_phones demo_hub3) ''c000001'' =
      Some \<lparr> ph_link = 2, ph_pc = ''fp'', ph_phone = Some demo_phone_id \<rparr>"
    and l: "get (hb_pcs demo_hub3) ''fp'' = Some (the (get (hb_pcs demo_hub3) ''fp''))"
      "pc_link (the (get (hb_pcs demo_hub3) ''fp'')) = 1"
    by code_simp+
  note holds = off_switch_closes_everything [OF h e]
  have "(2, CloseFrame) \<in> set out" using holds g by fastforce
  moreover have "(1, CloseFrame) \<in> set out" using holds l by metis
  ultimately show ?thesis using holds e by blast
qed

section \<open>Sessions\<close>

text \<open>
  C17: Only a Pro PC that holds its key gets in. A PC is welcomed only when its first message is a
  hello with a key, a signature of this connection's own challenge that verifies under that key,
  and a weekly answer signed by 8 West that is less than 30 days old and says active, or cancelled
  with its paid period not over; it is then known by its key's fingerprint.
\<close>

theorem only_a_pro_pc_gets_in:
  assumes "pc_hello E L salt st lnk a nonce first now = (st', out, Some s)"
  shows "\<exists>kt pt answer key sg payload.
    wire_read_pc E first = Some (Hello 1 kt pt answer) \<and>
    b64url_exact E 32 kt = Some key \<and> b64url_exact E 64 pt = Some sg \<and> key_ok E key \<and>
    verify_strict E key (as_bytes (pc_proof_context @ nonce)) sg \<and>
    answer_verify (env_crypto E) answer = Inr payload \<and>
    i64_sat_sub now (ap_as_of payload) < fresh_secs \<and>
    (ap_state payload = Active \<or>
     ap_state payload = Cancelled \<and> (\<exists>e. ap_ends_at payload = Some e \<and> now < e)) \<and>
    ps_pc s = fingerprint E key \<and>
    (\<exists>out1. register_pc E L st (ps_pc s) key lnk (license_mark E salt (ap_key_id payload)) a =
       (st', out1, Inr (ps_generation s)) \<and> out = out1 @ [to_pc E lnk (Welcome (ps_pc s))])"
proof -
  obtain v kt pt answer where h: "wire_read_pc E first = Some (Hello v kt pt answer)"
    using assms by (auto simp: pc_hello_def pc_refuse_def Let_def split: option.splits pc_to_relay.splits)
  have v: "v = 1"
    using assms h by (auto simp: pc_hello_def pc_refuse_def Let_def split: if_splits)
  obtain key sg where k: "b64url_exact E 32 kt = Some key" "b64url_exact E 64 pt = Some sg"
    using assms h v by (auto simp: pc_hello_def pc_refuse_def Let_def split: option.splits)
  have pr: "proof_ok E key nonce sg"
    using assms h v k by (auto simp: pc_hello_def pc_refuse_def Let_def split: if_splits)
  obtain payload where a: "answer_ok (env_crypto E) answer = Some payload" "shows_pro payload now"
    using assms h v k pr
    by (auto simp: pc_hello_def pc_refuse_def Let_def split: option.splits if_splits)
  have "i64_sat_sub now (ap_as_of payload) < fresh_secs \<and>
      (ap_state payload = Active \<or>
       ap_state payload = Cancelled \<and> (\<exists>e. ap_ends_at payload = Some e \<and> now < e))"
    using a(2) by (auto simp: shows_pro_def split: subscription_state.splits option.splits)
  moreover have "ps_pc s = fingerprint E key \<and>
      (\<exists>out1. register_pc E L st (ps_pc s) key lnk (license_mark E salt (ap_key_id payload)) a =
         (st', out1, Inr (ps_generation s)) \<and> out = out1 @ [to_pc E lnk (Welcome (ps_pc s))])"
    using assms h v k pr a
    by (auto simp: pc_hello_def pc_refuse_def Let_def split: prod.splits sum.splits)
  ultimately show ?thesis
    using h v k pr a(1) by (auto simp: proof_ok_def answer_ok_Some)
qed

theorem only_a_pro_pc_gets_in_witness:
  "\<exists>st' out s. pc_hello demo_env default_limits [] demo_hub1 1 demo_address ''n'' ''hello'' 1771000000 =
     (st', out, Some s) \<and> ps_pc s = fingerprint demo_env (replicate 32 1)"
proof -
  let ?r = "pc_hello demo_env default_limits [] demo_hub1 1 demo_address ''n'' ''hello'' 1771000000"
  let ?s = "\<lparr> ps_pc = ''fp'', ps_generation = 1, ps_unreadable = 0 \<rparr>"
  have e: "?r = (fst ?r, fst (snd ?r), Some ?s)" by code_simp
  from only_a_pro_pc_gets_in [OF e] obtain key where "ps_pc ?s = fingerprint demo_env key" by blast
  moreover have "fingerprint demo_env k = ''fp''" for k by (simp add: fingerprint_def demo_env_def)
  ultimately have "ps_pc ?s = fingerprint demo_env (replicate 32 1)" by simp
  with e show ?thesis by blast
qed

section \<open>Sessions touch only their own\<close>

text \<open>
  What a call of the PC \<open>f\<close>, on the line \<open>lnk\<close>, may change and whom it may speak to: no other PC, no phone of
  another PC; its own line, and the lines of its own phones.
\<close>

definition pc_only_own :: "string \<Rightarrow> link_id \<Rightarrow> hub \<Rightarrow> hub \<Rightarrow> sends \<Rightarrow> bool" where
  "pc_only_own f lnk st st' out \<longleftrightarrow>
     (\<forall>h. h \<noteq> f \<longrightarrow> get (hb_pcs st') h = get (hb_pcs st) h) \<and>
     (\<forall>c ph. ph_pc ph \<noteq> f \<longrightarrow> (get (hb_phones st') c = Some ph \<longleftrightarrow> get (hb_phones st) c = Some ph)) \<and>
     (\<forall>x \<in> set out. fst x = lnk \<or>
        (\<exists>c ph. get (hb_phones st) c = Some ph \<and> ph_pc ph = f \<and> fst x = ph_link ph))"

text \<open>The same for the phone connection \<open>c\<close>: no other phone, no PC but its own.\<close>

definition phone_only_own :: "conn_id \<Rightarrow> link_id \<Rightarrow> hub \<Rightarrow> hub \<Rightarrow> sends \<Rightarrow> bool" where
  "phone_only_own c lnk st st' out \<longleftrightarrow>
     (\<forall>d. d \<noteq> c \<longrightarrow> get (hb_phones st') d = get (hb_phones st) d) \<and>
     (\<forall>h. (\<forall>ph. get (hb_phones st) c = Some ph \<longrightarrow> ph_pc ph \<noteq> h) \<longrightarrow> get (hb_pcs st') h = get (hb_pcs st) h) \<and>
     (\<forall>x \<in> set out. fst x = lnk \<or>
        (\<exists>ph p. get (hb_phones st) c = Some ph \<and> get (hb_pcs st) (ph_pc ph) = Some p \<and> fst x = pc_link p))"

lemma pc_own_same:
  "hb_pcs st' = hb_pcs st \<Longrightarrow> hb_phones st' = hb_phones st \<Longrightarrow> \<forall>x \<in> set out. fst x = lnk \<Longrightarrow>
     pc_only_own f lnk st st' out"
  by (simp add: pc_only_own_def)

lemma refused_same [simp]:
  "hb_pcs (hub_refused st c a now) = hb_pcs st" "hb_phones (hub_refused st c a now) = hb_phones st"
  by (simp_all add: hub_refused_def at_address_def)

lemma to_link [simp]: "fst (to_pc E i m) = i" "fst (to_phone E i n) = i" "fst (close_link i) = i"
  by (simp_all add: to_pc_def to_phone_def close_link_def)

lemma drop_conns_own:
  assumes "\<forall>c \<in> set cs. \<forall>ph. get (hb_phones st) c = Some ph \<longrightarrow> ph_pc ph = f"
  shows "pc_only_own f lnk st (fst (drop_conns E st f g cs)) (snd (drop_conns E st f g cs))"
  using assms
proof (induction cs arbitrary: st)
  case (Cons c cs)
  define st1 where "st1 = (case pc_mut st f g of
      None \<Rightarrow> st
    | Some p \<Rightarrow> st\<lparr>hb_pcs := put f (p\<lparr>pc_phones := removeAll c (pc_phones p)\<rparr>) (hb_pcs st)\<rparr>)"
  have same: "hb_phones st1 = hb_phones st" "\<And>h. h \<noteq> f \<Longrightarrow> get (hb_pcs st1) h = get (hb_pcs st) h"
    by (auto simp: st1_def split: option.split)
  show ?case
  proof (cases "get (hb_phones st) c")
    case None
    then have "drop_conns E st f g (c # cs) = drop_conns E st1 f g cs"
      by (simp add: st1_def [symmetric] same)
    moreover have "pc_only_own f lnk st1 (fst (drop_conns E st1 f g cs)) (snd (drop_conns E st1 f g cs))"
      using Cons.prems same(1) by (intro Cons.IH) simp
    ultimately show ?thesis using same by (simp add: pc_only_own_def)
  next
    case (Some l)
    define st2 where "st2 = st1\<lparr>hb_phones := del c (hb_phones st1),
        hb_refused := entry 0 bad_pass (\<lambda>n. n + 1) (hb_refused st1)\<rparr>"
    have l: "ph_pc l = f" using Cons.prems Some by simp
    have phones: "get (hb_phones st2) d = (if d = c then None else get (hb_phones st) d)" for d
      by (simp add: st2_def same)
    have "pc_only_own f lnk st2 (fst (drop_conns E st2 f g cs)) (snd (drop_conns E st2 f g cs))"
      using Cons.prems by (intro Cons.IH) (simp add: phones)
    moreover have "drop_conns E st f g (c # cs) = (fst (drop_conns E st2 f g cs),
        to_phone E (ph_link l) (PhoneRefused bad_pass) # close_link (ph_link l) # snd (drop_conns E st2 f g cs))"
      using Some by (simp add: st1_def [symmetric] same st2_def case_prod_beta)
    moreover have "get (hb_pcs st2) h = get (hb_pcs st) h" if "h \<noteq> f" for h
      using that by (simp add: st2_def same)
    ultimately show ?thesis
      using Some l by (auto simp: pc_only_own_def phones split: if_splits)
  qed
qed (simp add: pc_only_own_def)

lemma drop_phone_own:
  assumes "roster st"
  shows "pc_only_own f lnk st (fst (drop_phone E L st f g phone until now)) (snd (drop_phone E L st f g phone until now))"
proof (cases "pc_mut st f g")
  case (Some p)
  define st1 where "st1 = st\<lparr>hb_pcs := put f (p\<lparr>pc_dropped := remember_dropped L now phone until (pc_dropped p)\<rparr>) (hb_pcs st)\<rparr>"
  have p: "get (hb_pcs st) f = Some p" using Some by (simp add: pc_mut_Some)
  have "ph_pc ph = f" if "c \<in> set (conns_of st p phone)" "get (hb_phones st1) c = Some ph" for c ph
    using that roster_listed [OF assms p, of c] by (auto simp: conns_of_def st1_def)
  then have "pc_only_own f lnk st1 (fst (drop_conns E st1 f g (conns_of st p phone)))
      (snd (drop_conns E st1 f g (conns_of st p phone)))"
    by (intro drop_conns_own) blast
  moreover have "drop_phone E L st f g phone until now = drop_conns E st1 f g (conns_of st p phone)"
    using Some by (simp add: drop_phone_def conns_of_def st1_def)
  moreover have "hb_phones st1 = hb_phones st" "\<And>h. h \<noteq> f \<Longrightarrow> get (hb_pcs st1) h = get (hb_pcs st) h"
    by (simp_all add: st1_def)
  ultimately show ?thesis by (simp add: pc_only_own_def)
qed (simp add: drop_phone_none pc_only_own_def)

lemma unregister_pc_own:
  assumes "roster st"
  shows "pc_only_own f lnk st (fst (unregister_pc E st f g)) (snd (unregister_pc E st f g))"
proof (cases "pc_mut st f g")
  case (Some p)
  then have p: "get (hb_pcs st) f = Some p" by (simp add: pc_mut_Some)
  have own: "ph_pc ph = f" if "c \<in> set (pc_phones p)" "get (hb_phones st) c = Some ph" for c ph
    using that roster_listed [OF assms p that(1)] by auto
  have "distinct (pc_phones p)" using assms p by (auto simp: roster_def)
  then have out: "snd (unregister_pc E st f g) = concat (map (goodbye E (st\<lparr>hb_pcs := del f (hb_pcs st)\<rparr>)) (pc_phones p))"
    using Some by (simp add: unregister_pc_eq phones_lose_pc_def lose_phones_sends)
  have "\<exists>c ph. get (hb_phones st) c = Some ph \<and> ph_pc ph = f \<and> fst x = ph_link ph"
    if x: "x \<in> set (snd (unregister_pc E st f g))" for x
  proof -
    from x obtain c where c: "c \<in> set (pc_phones p)" "x \<in> set (goodbye E (st\<lparr>hb_pcs := del f (hb_pcs st)\<rparr>) c)"
      by (auto simp: out)
    then obtain ph where "get (hb_phones st) c = Some ph" "fst x = ph_link ph"
      by (cases "get (hb_phones st) c") (auto simp: goodbye_def)
    with own [OF c(1)] show ?thesis by blast
  qed
  moreover have "fst (unregister_pc E st f g) = without_pc st f p" using Some by (simp add: unregister_pc_eq)
  ultimately show ?thesis
    using own by (auto simp: pc_only_own_def without_pc_def forget_pc_def fold_del_get)
qed (simp add: unregister_pc_eq pc_only_own_def)

lemma close_phone_own: "pc_only_own f lnk st (fst (close_phone st f c)) (snd (close_phone st f c))"
  by (auto simp: close_phone_def pc_only_own_def split: option.split)

lemma mailbox_own:
  "pc_only_own f lnk st (open_mailbox st f g name t) []" "pc_only_own f lnk st (close_mailbox st f g) []"
  by (auto simp: open_mailbox_def close_mailbox_def pc_only_own_def split: option.split)

lemma send_to_phone_own:
  "pc_only_own f lnk st st (fst (send_to_phone E st f c dat))"
  by (auto simp: send_to_phone_def pc_only_own_def split: option.split)

lemma pc_own_more:
  "pc_only_own f lnk st st' out \<Longrightarrow> \<forall>x \<in> set extra. fst x = lnk \<Longrightarrow> pc_only_own f lnk st st' (out @ extra)"
  by (auto simp: pc_only_own_def)

lemma pc_message_own:
  assumes "roster st" "pc_message E L st lnk s t now instant = (st', out, s')"
  shows "pc_only_own (ps_pc s) lnk st st' out \<and> (s' = None \<longrightarrow> st' = st \<and> out = [close_link lnk]) \<and>
    (\<forall>s2. s' = Some s2 \<longrightarrow> ps_pc s2 = ps_pc s \<and> ps_generation s2 = ps_generation s)"
proof (cases "wire_read_pc E t")
  case None
  with assms(2) show ?thesis
    by (auto simp: pc_message_def Let_def one_more_def pc_only_own_def split: if_splits)
next
  case (Some msg)
  then show ?thesis
  proof (cases msg)
    case (PcDrop phone until)
    with Some assms drop_phone_own [OF assms(1), of "ps_pc s" lnk E L "ps_generation s" phone until now]
    show ?thesis
      by (auto simp: pc_message_def Let_def one_more_def pc_only_own_def [where out = "[]"] case_prod_beta split: if_splits)
  next
    case (PcSend c dat)
    with Some assms(2) send_to_phone_own [of "ps_pc s" lnk st E c dat] show ?thesis
      by (auto simp: pc_message_def Let_def split: if_splits prod.splits sum.splits
          intro!: pc_own_more pc_own_same)
  next
    case (PcClose c)
    with Some assms(2) close_phone_own [of "ps_pc s" lnk st c] show ?thesis
      by (auto simp: pc_message_def Let_def case_prod_beta)
  next
    case (PcMailbox name)
    with Some assms(2) mailbox_own(1) [of "ps_pc s" lnk st "ps_generation s" name instant] show ?thesis
      by (auto simp: pc_message_def Let_def one_more_def split: if_splits intro: pc_own_same)
  next
    case CloseMailbox
    with Some assms(2) mailbox_own(2) [of "ps_pc s" lnk st "ps_generation s"] show ?thesis
      by (auto simp: pc_message_def Let_def)
  qed (use Some assms(2) in \<open>auto simp: pc_message_def Let_def one_more_def intro!: pc_own_same\<close>)
qed

lemma pc_next_own:
  assumes "roster st" "pc_next E L st lnk a s n now instant = (st', out, s')"
  shows "pc_only_own (ps_pc s) lnk st st' out \<and>
    (\<forall>s2. s' = Some s2 \<longrightarrow> ps_pc s2 = ps_pc s \<and> ps_generation s2 = ps_generation s)"
proof -
  have leave: "pc_only_own (ps_pc s) lnk st (fst (unregister_pc E st1 (ps_pc s) g))
      (extra @ snd (unregister_pc E st1 (ps_pc s) g))"
    if "hb_pcs st1 = hb_pcs st" "hb_phones st1 = hb_phones st" "hb_next_generation st1 = hb_next_generation st"
      "hb_next_conn st1 = hb_next_conn st" "\<forall>x \<in> set extra. fst x = lnk" for st1 g extra
  proof -
    have "roster st1" using assms(1) that by (simp add: roster_def)
    from unregister_pc_own [OF this, of "ps_pc s" lnk E g] that show ?thesis by (auto simp: pc_only_own_def)
  qed
  show ?thesis
  proof (cases n)
    case (NextText t)
    obtain st1 out1 s1 where m: "pc_message E L st lnk s t now instant = (st1, out1, s1)"
      by (cases "pc_message E L st lnk s t now instant") auto
    note own = pc_message_own [OF assms(1) m]
    show ?thesis
    proof (cases s1)
      case None
      with own have "st1 = st" "out1 = [close_link lnk]" by auto
      with None NextText m assms(2) leave [of st "[close_link lnk]" "ps_generation s"] show ?thesis
        by (auto simp: pc_next_def Let_def case_prod_beta)
    qed (use own NextText m assms(2) in \<open>auto simp: pc_next_def\<close>)
  next
    case NextTooFast
    have "hb_next_generation (hub_refused st c a now) = hb_next_generation st"
      "hb_next_conn (hub_refused st c a now) = hb_next_conn st" for c
      by (simp_all add: hub_refused_def at_address_def)
    with NextTooFast assms(2) leave [of "hub_refused st too_many_tries a now" "[to_pc E lnk (PcError too_many_tries), close_link lnk]"
        "ps_generation s"] show ?thesis
      by (auto simp: pc_next_def Let_def case_prod_beta)
  next
    case NextGone
    with assms(2) leave [of st "[]" "ps_generation s"] show ?thesis
      by (auto simp: pc_next_def Let_def case_prod_beta)
  qed
qed

lemma unregister_phone_own:
  assumes "hb_pcs st1 = hb_pcs st" "hb_phones st1 = hb_phones st" "\<forall>x \<in> set extra. fst x = lnk"
  shows "phone_only_own c lnk st (fst (unregister_phone E st1 c)) (extra @ snd (unregister_phone E st1 c))"
  using assms by (auto simp: unregister_phone_def phone_only_own_def Let_def split: option.split)

lemma phone_message_own:
  assumes "phone_message E st lnk a s t now = (st', out, s')"
  shows "(s' = None \<longrightarrow> hb_pcs st' = hb_pcs st \<and> hb_phones st' = hb_phones st \<and> (\<forall>x \<in> set out. fst x = lnk)) \<and>
    (\<forall>s2. s' = Some s2 \<longrightarrow> phone_only_own (hs_conn s) lnk st st' out \<and> hs_conn s2 = hs_conn s)"
  using assms
  by (auto simp: phone_message_def phone_refuse_def phone_only_own_def send_to_pc_def Let_def
      to_pc_def to_phone_def close_link_def
      split: option.splits phone_to_relay.splits if_splits sum.splits)

lemma phone_next_own:
  assumes "phone_next E st lnk a s n now = (st', out, s')"
  shows "phone_only_own (hs_conn s) lnk st st' out \<and> (\<forall>s2. s' = Some s2 \<longrightarrow> hs_conn s2 = hs_conn s)"
proof (cases n)
  case (NextText t)
  obtain st1 out1 s1 where m: "phone_message E st lnk a s t now = (st1, out1, s1)"
    by (cases "phone_message E st lnk a s t now") auto
  note own = phone_message_own [OF m]
  show ?thesis
  proof (cases s1)
    case None
    with own unregister_phone_own [of st1 st out1 lnk "hs_conn s" E] NextText m assms show ?thesis
      by (auto simp: phone_next_def Let_def case_prod_beta)
  qed (use own NextText m assms in \<open>auto simp: phone_next_def\<close>)
next
  case NextTooFast
  with assms unregister_phone_own [of "hub_refused st too_many_tries a now" st
      "[to_phone E lnk (PhoneRefused too_many_tries), close_link lnk]" lnk "hs_conn s" E] show ?thesis
    by (auto simp: phone_next_def phone_refuse_def Let_def case_prod_beta)
next
  case NextGone
  with assms unregister_phone_own [of st st "[]" lnk "hs_conn s" E] show ?thesis
    by (auto simp: phone_next_def Let_def case_prod_beta)
qed

text \<open>
  C20: A session touches only its own. Whatever a PC sends, and whatever happens on its line, up to and
  including its end, no other PC and no phone of another PC changes, and nobody hears anything but
  the PC itself and its own phones; the session goes on as the same connection of the same PC. Whatever a
  phone sends, no other phone and no PC but its own changes, and only the phone and that PC hear of it.
\<close>

theorem sessions_touch_only_their_own:
  assumes "relay_reach E L st"
  shows "(\<forall>st' out s'. pc_next E L st lnk a s n now instant = (st', out, s') \<longrightarrow>
      pc_only_own (ps_pc s) lnk st st' out \<and>
      (\<forall>s2. s' = Some s2 \<longrightarrow> ps_pc s2 = ps_pc s \<and> ps_generation s2 = ps_generation s)) \<and>
    (\<forall>st' out s'. phone_next E st lnk a hs n now = (st', out, s') \<longrightarrow>
      phone_only_own (hs_conn hs) lnk st st' out \<and> (\<forall>s2. s' = Some s2 \<longrightarrow> hs_conn s2 = hs_conn hs))"
proof -
  have r: "roster st" using relay_reach_inv [OF assms] by (simp add: hub_inv_def)
  show ?thesis
    by (rule conjI; intro allI impI; erule pc_next_own [OF r] phone_next_own)
qed

theorem sessions_touch_only_their_own_witness:
  "let r = pc_next demo_env default_limits demo_hub3 7 demo_address
      \<lparr> ps_pc = ''another'', ps_generation = 1, ps_unreadable = 0 \<rparr> NextGone 1771000000 0
   in get (hb_pcs demo_hub3) ''fp'' \<noteq> None \<and> pc_only_own ''another'' 7 demo_hub3 (fst r) (fst (snd r))"
proof -
  let ?r = "pc_next demo_env default_limits demo_hub3 7 demo_address
      \<lparr> ps_pc = ''another'', ps_generation = 1, ps_unreadable = 0 \<rparr> NextGone 1771000000 0"
  have e: "?r = (fst ?r, fst (snd ?r), snd (snd ?r))" by simp
  have "get (hb_pcs demo_hub3) ''fp'' \<noteq> None" by code_simp
  moreover have "pc_only_own ''another'' 7 demo_hub3 (fst ?r) (fst (snd ?r))"
    using sessions_touch_only_their_own [OF demo_reach(3), of 7 demo_address
        "\<lparr> ps_pc = ''another'', ps_generation = 1, ps_unreadable = 0 \<rparr>" NextGone 1771000000 0
        "\<lparr> hs_conn = ''c000001'', hs_unreadable = 0 \<rparr>"] e
    by (metis pc_session.select_convs(1))
  ultimately show ?thesis by (simp add: Let_def)
qed

text \<open>A run of text messages on one line, each read at its own time: the texts that get through.\<close>

fun line_texts :: "limits \<Rightarrow> line \<Rightarrow> (int \<times> string) list \<Rightarrow> string list" where
  "line_texts L li [] = []"
| "line_texts L li ((now, t) # ms) =
     (let (li1, out, r) = line_read L li now (InText t)
      in case r of Some (NextText u) \<Rightarrow> u # line_texts L li1 ms | _ \<Rightarrow> line_texts L li1 ms)"

definition text_bytes :: "string list \<Rightarrow> nat" where
  "text_bytes ts = sum_list (map byte_len ts)"

text \<open>What a frame of \<open>n\<close> bytes does to the line's counts.\<close>

lemma line_count_cases:
  obtains (messages) li1 where "line_count L li now n = (li1, True)" "li_bytes li1 = li_bytes li"
  | (bytes) li1 fast where "line_count L li now n = (li1, fast)"
      "count_at (li_bytes li1) now = u64_sat_add (count_at (li_bytes li) now) n"
      "fast \<longleftrightarrow> u64_sat_add (count_at (li_bytes li) now) n > bytes_per_minute L"
proof (cases "snd (bump (li_messages li) now 1) > messages_per_minute L")
  case True
  then show ?thesis by (intro messages [of "fst (line_count L li now n)"]) (simp_all add: line_count_def Let_def case_prod_beta)
next
  case False
  then show ?thesis
    by (intro bytes [of "fst (line_count L li now n)" "snd (line_count L li now n)"])
      (simp_all add: line_count_def Let_def case_prod_beta)
qed

lemma line_texts_bytes:
  assumes "bytes_per_minute L < u64_max" "\<forall>m \<in> set ms. fst m div 60 = k div 60"
  shows "text_bytes (line_texts L li ms) \<le> bytes_per_minute L - count_at (li_bytes li) k"
  using assms(2)
proof (induction ms arbitrary: li)
  case (Cons m ms)
  obtain now t where m: "m = (now, t)" by (cases m)
  have k: "now div 60 = k div 60" and rest: "\<forall>m \<in> set ms. fst m div 60 = k div 60"
    using Cons.prems m by auto
  have cm: "count_at w now = count_at w k" for w by (rule win.count_minute [OF k])
  note IH = Cons.IH [OF rest]
  show ?case
  proof (cases rule: line_count_cases [of L li now "byte_len t"])
    case (messages li1)
    with IH [of li1] show ?thesis by (simp add: m line_read_def)
  next
    case (bytes li1 fast)
    show ?thesis
    proof (cases fast)
      case True
      with bytes IH [of li1] show ?thesis by (simp add: m line_read_def cm)
    next
      case False
      then have "count_at (li_bytes li1) k = count_at (li_bytes li) k + byte_len t"
        "count_at (li_bytes li) k + byte_len t \<le> bytes_per_minute L"
        using bytes(2,3) assms(1) by (auto simp: cm u64_sat_add_def)
      with bytes False IH [of li1] show ?thesis
        by (simp add: m line_read_def text_bytes_def)
    qed
  qed
qed (simp add: text_bytes_def)

text \<open>
  A connection has a budget. However much a peer sends, and in whatever pieces, at most 16 MiB of
  text in any one minute get through from its connection.
\<close>

theorem line_budget_holds:
  assumes "bytes_per_minute L < u64_max" "\<forall>m \<in> set ms. fst m div 60 = k div 60"
  shows "text_bytes (line_texts L (line_new lnk) ms) \<le> bytes_per_minute L"
  using line_texts_bytes [OF assms, of "line_new lnk"] by simp

theorem line_budget_holds_witness:
  "text_bytes (line_texts default_limits (line_new 1) [(120, ''a''), (130, ''bc'')])
     \<le> bytes_per_minute default_limits \<and>
   line_texts default_limits (line_new 1) [(120, ''a''), (130, ''bc'')] = [''a'', ''bc'']"
proof
  show "text_bytes (line_texts default_limits (line_new 1) [(120, ''a''), (130, ''bc'')])
      \<le> bytes_per_minute default_limits"
    by (rule line_budget_holds [where k = 120]) (simp_all add: default_limits_def u64_max_def)
  show "line_texts default_limits (line_new 1) [(120, ''a''), (130, ''bc'')] = [''a'', ''bc'']"
    by code_simp
qed

section \<open>What the relay gives up on\<close>

text \<open>The same message again and again, \<open>n\<close> times.\<close>

fun pc_repeat ::
  "relay_env \<Rightarrow> limits \<Rightarrow> hub \<Rightarrow> link_id \<Rightarrow> address_key \<Rightarrow> pc_session \<Rightarrow> string \<Rightarrow> int \<Rightarrow> nat \<Rightarrow> nat \<Rightarrow>
     hub \<times> sends \<times> pc_session option" where
  "pc_repeat E L st lnk a s t now instant 0 = (st, [], Some s)"
| "pc_repeat E L st lnk a s t now instant (Suc n) =
     (let (st1, out, s1) = pc_next E L st lnk a s (NextText t) now instant in
      case s1 of
        None \<Rightarrow> (st1, out, None)
      | Some s2 \<Rightarrow>
          let (st2, out2, s3) = pc_repeat E L st1 lnk a s2 t now instant n in (st2, out @ out2, s3))"

text \<open>
  C21: A PC that only sends mailbox names the relay cannot take is never given up on. Such messages
  count with the unreadable ones, of which the relay takes 20 before it closes the connection, but
  the count is looked at only when a message cannot be read at all: any number of them leaves the
  session, and the hub, as they were but for the count.
\<close>

theorem bad_mailbox_names_never_end_a_session:
  assumes "wire_read_pc E t = Some (PcMailbox name)" "\<not> is_mailbox_name name"
  shows "pc_repeat E L st lnk a s t now instant n =
    (st, [], Some (s\<lparr>ps_unreadable := (if n = 0 then ps_unreadable s else (ps_unreadable s + n) mod 2 ^ 32)\<rparr>))"
proof (induction n arbitrary: s)
  case (Suc n)
  have "pc_next E L st lnk a s (NextText t) now instant = (st, [], Some (one_more s))"
    using assms by (simp add: pc_next_def pc_message_def Let_def)
  with Suc show ?case
    by (auto simp: one_more_def Let_def mod_add_left_eq mod_Suc_eq)
qed simp

theorem bad_mailbox_names_never_end_a_session_witness:
  "pc_repeat demo_env default_limits demo_hub2 1 demo_address
     \<lparr> ps_pc = ''fp'', ps_generation = 1, ps_unreadable = 0 \<rparr> ''box'' 0 0 1000 =
   (demo_hub2, [], Some \<lparr> ps_pc = ''fp'', ps_generation = 1, ps_unreadable = 1000 \<rparr>)"
proof -
  have b: "wire_read_pc demo_env ''box'' = Some (PcMailbox ''bad name'')" "\<not> is_mailbox_name ''bad name''"
    by code_simp+
  show ?thesis
    by (subst bad_mailbox_names_never_end_a_session [OF b]) simp
qed

end
