(* ===== verification/Guard_Types.thy ===== *)
theory Guard_Types
  imports Prelude Store
begin

text \<open>
  What Guard's modules share (\<open>crates/guard/src/registry.rs\<close>, \<open>dto.rs\<close>): the capabilities
  and their registry, the levels ordered from strictest to most open, the sensitive kinds, the
  owner's switches and Safety setting, and the parts of a decision.

  \<^bold>\<open>Notes.\<close> The source writes its reasons with \<open>format!\<close>. Here a reason is a value of the
  datatype \<open>words\<close>, one constructor for each template of the source, with the values put into it
  as arguments (there is one such datatype for each module): what is decided and why stays visible, and the wording of the app does not matter.
\<close>

section \<open>The capability registry\<close>

datatype capability =
    FilesystemRead
  | FilesystemWrite
  | ShellExec
  | PowershellExec
  | GitRead
  | GitWrite
  | GithubRead
  | GithubWrite
  | SshConnect
  | BrowserNavigate
  | BrowserAutomate
  | ComputerObserve
  | ComputerControl
  | ConnectionsRead
  | ConnectionsWrite
  | McpInvoke
  | NetworkLocal
  | ProcessManage

record info =
  inf_capability :: capability
  inf_id :: string
  inf_label :: string
  inf_tools :: bool
  inf_arrives :: "string option"

abbreviation with_tools :: "capability \<Rightarrow> string \<Rightarrow> string \<Rightarrow> info" where
  "with_tools c i l \<equiv>
     \<lparr> inf_capability = c, inf_id = i, inf_label = l, inf_tools = True, inf_arrives = None \<rparr>"

abbreviation later_on :: "capability \<Rightarrow> string \<Rightarrow> string \<Rightarrow> info" where
  "later_on c i l \<equiv>
     \<lparr> inf_capability = c, inf_id = i, inf_label = l, inf_tools = False,
       inf_arrives = Some ''a later phase'' \<rparr>"

definition registry :: "info list" where
  "registry =
     [ with_tools FilesystemRead ''filesystem.read'' ''Read files'',
       with_tools FilesystemWrite ''filesystem.write'' ''Change files'',
       with_tools ShellExec ''shell.exec'' ''Run programs'',
       with_tools PowershellExec ''powershell.exec'' ''Run PowerShell scripts'',
       with_tools GitRead ''git.read'' ''Read git history'',
       with_tools GitWrite ''git.write'' ''Save to git'',
       with_tools GithubRead ''github.read'' ''Read GitHub'',
       with_tools GithubWrite ''github.write'' ''Change GitHub'',
       with_tools SshConnect ''ssh.connect'' ''Connect to servers'',
       with_tools BrowserNavigate ''browser.navigate'' ''Visit websites'',
       with_tools BrowserAutomate ''browser.automate'' ''Use websites'',
       with_tools ComputerObserve ''computer.observe'' ''See the screen'',
       with_tools ComputerControl ''computer.control'' ''Use the mouse and keyboard'',
       with_tools ConnectionsRead ''connections.read'' ''Read through Connections'',
       with_tools ConnectionsWrite ''connections.write'' ''Write through Connections'',
       with_tools McpInvoke ''mcp.invoke'' ''Use add-on tools'',
       later_on NetworkLocal ''network.local'' ''Reach local services'',
       later_on ProcessManage ''process.manage'' ''Manage running programs'' ]"

definition capability_all :: "capability list" where
  "capability_all =
     [FilesystemRead, FilesystemWrite, ShellExec, PowershellExec, GitRead, GitWrite, GithubRead,
      GithubWrite, SshConnect, BrowserNavigate, BrowserAutomate, ComputerObserve, ComputerControl,
      ConnectionsRead, ConnectionsWrite, McpInvoke, NetworkLocal, ProcessManage]"

definition capability_info :: "capability \<Rightarrow> info" where
  "capability_info c =
     (case find (\<lambda>i. inf_capability i = c) registry of None \<Rightarrow> hd registry | Some i \<Rightarrow> i)"

definition capability_id :: "capability \<Rightarrow> string" where
  "capability_id c = inf_id (capability_info c)"

definition capability_label :: "capability \<Rightarrow> string" where
  "capability_label c = inf_label (capability_info c)"

definition capability_parse :: "string \<Rightarrow> capability option" where
  "capability_parse i = map_option inf_capability (find (\<lambda>x. inf_id x = i) registry)"

definition has_tools :: "capability \<Rightarrow> bool" where
  "has_tools c = inf_tools (capability_info c)"

definition is_connection :: "capability \<Rightarrow> bool" where
  "is_connection c \<longleftrightarrow> c \<in> {ConnectionsRead, ConnectionsWrite, McpInvoke}"

definition needs_folder :: "capability \<Rightarrow> bool" where
  "needs_folder c \<longleftrightarrow>
     c \<in> {FilesystemRead, FilesystemWrite, ShellExec, PowershellExec, GitRead, GitWrite, GithubRead,
          GithubWrite}"

lemma capability_all_complete: "c \<in> set capability_all"
  by (cases c) (simp_all add: capability_all_def)

lemma registry_complete: "map inf_capability registry = capability_all"
  by (simp add: registry_def capability_all_def)

lemma registry_ids_distinct: "distinct (map inf_id registry)"
  by (simp add: registry_def)

lemma find_key:
  "distinct (map f xs) \<Longrightarrow> x \<in> set xs \<Longrightarrow> find (\<lambda>y. f y = f x) xs = Some x"
  by (induction xs) auto

lemma find_some:
  assumes "x \<in> set xs" "P x"
  obtains y where "find P xs = Some y" "y \<in> set xs" "P y"
  using assms by (metis find_None_iff find_Some_iff not_Some_eq nth_mem)

text \<open>The registry's entry of a capability is that capability's own.\<close>

lemma capability_info_own: "inf_capability (capability_info c) = c \<and> capability_info c \<in> set registry"
proof -
  have "c \<in> inf_capability ` set registry"
    by (metis capability_all_complete registry_complete set_map)
  then obtain i where "i \<in> set registry" "inf_capability i = c" by auto
  then obtain j where "find (\<lambda>i. inf_capability i = c) registry = Some j" "j \<in> set registry"
    "inf_capability j = c"
    by (rule find_some)
  then show ?thesis by (simp add: capability_info_def)
qed

lemma capability_parse_id: "capability_parse (capability_id c) = Some c"
  unfolding capability_parse_def capability_id_def
  using find_key [OF registry_ids_distinct, of "capability_info c"] capability_info_own [of c] by simp

section \<open>Levels\<close>

datatype level = LBlocked | LAsk | LAllowed

fun level_rank :: "level \<Rightarrow> nat" where
  "level_rank LBlocked = 0"
| "level_rank LAsk = 1"
| "level_rank LAllowed = 2"

instantiation level :: linorder
begin

definition less_eq_level :: "level \<Rightarrow> level \<Rightarrow> bool" where
  "less_eq_level a b \<longleftrightarrow> level_rank a \<le> level_rank b"

definition less_level :: "level \<Rightarrow> level \<Rightarrow> bool" where
  "less_level a b \<longleftrightarrow> level_rank a < level_rank b"

instance
proof
  fix x y :: level
  show "x \<le> y \<Longrightarrow> y \<le> x \<Longrightarrow> x = y"
    by (cases x; cases y; simp add: less_eq_level_def)
qed (auto simp: less_eq_level_def less_level_def)

end

lemma level_order [simp]:
  "LBlocked \<le> l" "l \<le> LAllowed" "l \<le> LBlocked \<longleftrightarrow> l = LBlocked" "LAllowed \<le> l \<longleftrightarrow> l = LAllowed"
  "LBlocked < l \<longleftrightarrow> l \<noteq> LBlocked" "\<not> l < LBlocked" "l < LAllowed \<longleftrightarrow> l \<noteq> LAllowed" "\<not> LAllowed < l"
  "LAsk \<le> l \<longleftrightarrow> l \<noteq> LBlocked" "l < LAsk \<longleftrightarrow> l = LBlocked" "LAsk < l \<longleftrightarrow> l = LAllowed"
  "l \<le> LAsk \<longleftrightarrow> l \<noteq> LAllowed"
  by (cases l; simp add: less_eq_level_def less_level_def)+

fun level_words :: "level \<Rightarrow> string" where
  "level_words LBlocked = ''blocked''"
| "level_words LAsk = ''ask me''"
| "level_words LAllowed = ''allowed''"

section \<open>Permission sets and the owner's rules\<close>

record permission_set =
  set_id :: string
  set_name :: string
  set_description :: string
  set_levels :: "(capability, level) store"
  set_built_in :: bool

definition set_level :: "permission_set \<Rightarrow> capability \<Rightarrow> level" where
  "set_level s c = (case get (set_levels s) c of None \<Rightarrow> LBlocked | Some l \<Rightarrow> l)"

record secret_rule =
  sr_rule :: string
  sr_secrets :: "string list"

record command_rules =
  cr_approved :: "string list"
  cr_ask :: "string list"
  cr_blocked :: "string list"
  cr_with_secrets :: "secret_rule list"

datatype sensitive_kind =
    Production
  | Dns
  | Credentials
  | Database
  | CloudDelete
  | Payment
  | Outbound
  | Privilege
  | OutsideWorkspace
  | SignIn
  | DesktopControl

fun kind_label :: "sensitive_kind \<Rightarrow> string" where
  "kind_label Production = ''Deploying or changing live systems''"
| "kind_label Dns = ''Changing DNS''"
| "kind_label Credentials = ''Changing passwords, keys, or other credentials''"
| "kind_label Database = ''Deleting or wiping database data''"
| "kind_label CloudDelete = ''Deleting online: cloud resources, mail, files, messages''"
| "kind_label Payment = ''Money: buying, payments, refunds, payouts''"
| "kind_label Outbound = ''Sending or publishing outside this computer''"
| "kind_label Privilege = ''Running as administrator''"
| "kind_label OutsideWorkspace = ''Deleting or overwriting files outside the project folder''"
| "kind_label SignIn = ''Signing in to a website or app''"
| "kind_label DesktopControl = ''Taking control of your mouse and keyboard''"

datatype sensitive_rule = RuleAsk | RuleBlock

record switches =
  sw_browser :: bool
  sw_desktop :: bool
  sw_send_without_asking :: bool
  sw_buy_without_asking :: bool
  sw_sign_in_without_asking :: bool
  sw_captcha_to_owner :: bool
  sw_screenshots :: bool
  sw_servers :: bool
  sw_paid_ai_keys :: bool
  sw_hire_on_its_own :: bool

definition switches_default :: switches where
  "switches_default =
     \<lparr> sw_browser = True, sw_desktop = False, sw_send_without_asking = False,
       sw_buy_without_asking = False, sw_sign_in_without_asking = False,
       sw_captcha_to_owner = True, sw_screenshots = True, sw_servers = False,
       sw_paid_ai_keys = False, sw_hire_on_its_own = False \<rparr>"

fun without_asking :: "switches \<Rightarrow> sensitive_kind \<Rightarrow> bool option" where
  "without_asking s Outbound = Some (sw_send_without_asking s)"
| "without_asking s Payment = Some (sw_buy_without_asking s)"
| "without_asking s SignIn = Some (sw_sign_in_without_asking s)"
| "without_asking s _ = None"

datatype safety = Light | Careful | Strict

section \<open>Decisions\<close>

datatype risk = RiskRead | RiskChange | RiskRun | RiskDelete | RiskExternal | RiskWeb | RiskScreen | RiskServer

datatype verdict = Allow | Ask | Deny

datatype layer = LayerGrant | LayerRole | LayerProject | LayerDepartment | LayerTarget | LayerRisk | LayerRule

text \<open>
  One constructor per template of the source: the clauses a level is explained with and the
  decision's own sentences (\<open>engine.rs\<close>), what is said of a server (\<open>servers.rs\<close>) and of a
  connection (\<open>connections.rs\<close>). The last argument of \<open>SetSays\<close>, \<open>ListGives\<close>, \<open>LimitSays\<close>
  and \<open>StartingPermission\<close> is what \<open>says\<close> produced.
\<close>

datatype (plugins only: code size) clause =
    RoleHasNoSet string
  | RoleSetGone string
  | SetSays string string string
  | ListLeavesOut string string
  | ListGives string string string string
  | NoLimit string
  | LimitUnknown string string
  | LimitSays string string string
  | BrowserOff
  | DesktopOff
  | ServersOff
  | SafetyStrict
  | SafetyCareful
  | StartingPermission string

datatype (plugins only: code size) server_words =
    RoleMayNotUse string string
  | NotPinned string
  | ForwardAsks string
  | ForwardOff string
  | ForwardNotListed string string "string list"
  | NeverOnServer
  | ServerFileBlocked string string
  | OutsideHome string string string
  | OutsideFolders string string "string list"
  | ClassNotAllowed string string bool
  | ProductionAsks string
  | DestroyAsks
  | AdminAsks
  | EveryAsks string
  | ChangesAsk string

datatype (plugins only: code size) connection_words =
    NotConnectedYet string
  | SignInAgain string
  | NoPartForPersonal string string
  | PartOff string string
  | PartReadOnly string string

datatype (plugins only: code size) words =
    Clause clause
  | Revoked
  | BlockedBy clause
  | ServerBlocks server_words
  | ConnectionBlocks connection_words
  | NeedsWrite
  | AddOnOff string
  | AddOnToolOff string string bool
  | GitFiles
  | BlockedFile string string
  | SiteBlocked string string
  | SiteLocal string
  | SiteOther string
  | CommandBlocked string string
  | ShellTextBlocked string string string
  | ScriptBlocked string nat string
  | SendsToListed string string
  | OnAllowedSite string string
  | Sensitive string string string
  | KindBlocked string string
  | ToolIsChanging string string
  | ServerAsks string server_words
  | SiteNotListed string string
  | OnAskList string string
  | ShellTextAsks string string string string
  | ShellTextOpaque string string string
  | ScriptAsks string string nat string
  | ScriptOpaque string nat string
  | LevelAsks string clause
  | NotApproved string
  | GivenSecrets string "string list"
  | RuleGivesSecrets "string list"
  | ThroughConnection string
  | ThroughAddOn string
  | InsideFolder
  | AllowedBecause clause

record check =
  ck_layer :: layer
  ck_verdict :: verdict
  ck_note :: words

record guard_decision =
  gd_verdict :: verdict
  gd_reason :: words
  gd_layer :: layer
  gd_risk :: risk
  gd_sensitive :: "sensitive_kind option"
  gd_checks :: "check list"

fun verdict_rank :: "verdict \<Rightarrow> nat" where
  "verdict_rank Deny = 0"
| "verdict_rank Ask = 1"
| "verdict_rank Allow = 2"

instantiation verdict :: linorder
begin

definition less_eq_verdict :: "verdict \<Rightarrow> verdict \<Rightarrow> bool" where
  "less_eq_verdict a b \<longleftrightarrow> verdict_rank a \<le> verdict_rank b"

definition less_verdict :: "verdict \<Rightarrow> verdict \<Rightarrow> bool" where
  "less_verdict a b \<longleftrightarrow> verdict_rank a < verdict_rank b"

instance
proof
  fix x y :: verdict
  show "x \<le> y \<Longrightarrow> y \<le> x \<Longrightarrow> x = y"
    by (cases x; cases y; simp add: less_eq_verdict_def)
qed (auto simp: less_eq_verdict_def less_verdict_def)

end

lemma verdict_order [simp]:
  "Deny \<le> v" "v \<le> Allow" "v \<le> Deny \<longleftrightarrow> v = Deny" "Allow \<le> v \<longleftrightarrow> v = Allow"
  "Ask \<le> v \<longleftrightarrow> v \<noteq> Deny" "v \<le> Ask \<longleftrightarrow> v \<noteq> Allow"
  by (cases v; simp add: less_eq_verdict_def)+

text \<open>
  Every capability has its own entry in the registry, and its dotted name is read back as the
  capability it names.
\<close>

theorem capability_names_round_trip:
  "capability_parse (capability_id c) = Some c \<and> inf_capability (capability_info c) = c"
  using capability_parse_id capability_info_own by simp

end
