(* ===== verification/Guard_Commands.thy ===== *)
theory Guard_Commands
  imports Guard_Types
begin

text \<open>
  Command lines and the owner's command rules (\<open>crates/guard/src/commands.rs\<close>). The source's
  \<open>cfg!(windows)\<close> is the argument \<open>win\<close>: whether this system's program names ignore case.
  The relation \<open>wildcard\<close> says what a pattern means, and \<open>word_match\<close> decides it; a rule that
  blocks catches a program however it is written, and a rule that allows a program inside the
  project names that program's own path.
\<close>

section \<open>Command lines\<close>

record command_line =
  cl_program :: string
  cl_args :: "string list"

definition run_extensions :: "string list" where
  "run_extensions = [''.exe'', ''.cmd'', ''.bat'', ''.com'']"

datatype compare = Exact | Loose

definition ignores_case :: "bool \<Rightarrow> compare \<Rightarrow> bool" where
  "ignores_case win cmp \<longleftrightarrow> cmp = Loose \<or> win"

abbreviation backslash :: char where "backslash \<equiv> CHR 0x5C"
abbreviation quotes :: char where "quotes \<equiv> CHR 0x22"
abbreviation apostrophe :: char where "apostrophe \<equiv> CHR 0x27"
abbreviation backtick :: char where "backtick \<equiv> CHR 0x60"
abbreviation newline :: char where "newline \<equiv> CHR 0x0A"

definition to_slashes :: "string \<Rightarrow> string" where
  "to_slashes s = map (\<lambda>c. if c = backslash then CHR ''/'' else c) s"

fun find_map :: "('a \<Rightarrow> 'b option) \<Rightarrow> 'a list \<Rightarrow> 'b option" where
  "find_map f [] = None"
| "find_map f (x # xs) = (case f x of None \<Rightarrow> find_map f xs | Some y \<Rightarrow> Some y)"

definition drop_extension :: "string \<Rightarrow> string" where
  "drop_extension lower =
     (case find_map (\<lambda>ext. strip_suffix ext lower) run_extensions of None \<Rightarrow> lower | Some s \<Rightarrow> s)"

text \<open>\<open>C:\<close> at the start of a text.\<close>

definition has_drive :: "string \<Rightarrow> bool" where
  "has_drive p = (case p of a # b # _ \<Rightarrow> is_ascii_alphabetic a \<and> b = CHR '':'' | _ \<Rightarrow> False)"

definition cmd_key :: "bool \<Rightarrow> string \<Rightarrow> compare \<Rightarrow> string" where
  "cmd_key win program cmp =
     (let p0 = to_slashes (trim program);
          p = (if ignores_case win cmp then drop_extension (to_lowercase p0) else p0)
      in if CHR ''/'' \<in> set p \<and> \<not> starts_with ''./'' p \<and> \<not> starts_with ''/'' p \<and> \<not> has_drive p
         then ''./'' @ p else p)"

definition program_key :: "bool \<Rightarrow> string \<Rightarrow> string" where
  "program_key win program = cmd_key win program Exact"

text \<open>The last part of a program key.\<close>

definition key_bare :: "string \<Rightarrow> string" where
  "key_bare k = last (split_on (CHR ''/'') k)"

definition program_name :: "bool \<Rightarrow> command_line \<Rightarrow> string" where
  "program_name win cmd = key_bare (program_key win (cl_program cmd))"

definition needs_quotes :: "string \<Rightarrow> bool" where
  "needs_quotes w \<longleftrightarrow> w = [] \<or> list_ex is_whitespace w \<or> quotes \<in> set w"

definition shown_word :: "string \<Rightarrow> string" where
  "shown_word w =
     (if needs_quotes w
      then quotes # concat (map (\<lambda>c. if c = quotes then [backslash, quotes] else [c]) w) @ [quotes]
      else w)"

definition cmd_shown :: "command_line \<Rightarrow> string" where
  "cmd_shown cmd = join '' '' (map shown_word (cl_program cmd # cl_args cmd))"

text \<open>A loose comparison is the same on every system, so the flag does not matter here.\<close>

definition words_lower :: "command_line \<Rightarrow> string list" where
  "words_lower cmd =
     key_bare (cmd_key False (cl_program cmd) Loose) # map to_lowercase (cl_args cmd)"

section \<open>Matching words\<close>

primrec word_go :: "string \<Rightarrow> string \<Rightarrow> bool" where
  "word_go [] = (\<lambda>t. t = [])"
| "word_go (c # p) = (\<lambda>t.
     if c = CHR ''*'' then list_ex (\<lambda>i. word_go p (drop i t)) [0..<Suc (length t)]
     else if c = CHR ''?'' then t \<noteq> [] \<and> word_go p (tl t)
     else (case t of [] \<Rightarrow> False | d # u \<Rightarrow> d = c \<and> word_go p u))"

definition fold_case :: "bool \<Rightarrow> string \<Rightarrow> string" where
  "fold_case ignore s = (if ignore then to_lowercase s else s)"

definition word_match :: "string \<Rightarrow> string \<Rightarrow> bool \<Rightarrow> bool" where
  "word_match pat txt ignore = word_go (fold_case ignore pat) (fold_case ignore txt)"

text \<open>What a pattern means: \<open>*\<close> stands for any text and \<open>?\<close> for one character.\<close>

inductive wildcard :: "string \<Rightarrow> string \<Rightarrow> bool" where
  wc_end: "wildcard [] []"
| wc_star: "wildcard p t \<Longrightarrow> wildcard (CHR ''*'' # p) (s @ t)"
| wc_any: "wildcard p t \<Longrightarrow> wildcard (CHR ''?'' # p) (c # t)"
| wc_char: "c \<noteq> CHR ''*'' \<Longrightarrow> c \<noteq> CHR ''?'' \<Longrightarrow> wildcard p t \<Longrightarrow> wildcard (c # p) (c # t)"

inductive_simps wildcard_Nil [simp]: "wildcard [] t"
inductive_simps wildcard_Cons: "wildcard (c # p) t"

lemma list_ex_upto: "list_ex P [0..<Suc n] \<longleftrightarrow> (\<exists>i\<le>n. P i)"
  by (metis atLeastLessThan_iff atLeast0LessThan lessThan_iff less_Suc_eq_le list_ex_iff set_upt)

lemma some_suffix: "(\<exists>i\<le>length t. P (drop i t)) \<longleftrightarrow> (\<exists>s u. t = s @ u \<and> P u)"
  by (metis append_eq_conv_conj append_take_drop_id le_add1 length_append)

lemma word_go_wildcard: "word_go p t \<longleftrightarrow> wildcard p t"
proof (induction p arbitrary: t)
  case (Cons c p)
  show ?case
    unfolding wildcard_Cons word_go.simps list_ex_upto some_suffix
    by (cases t) (auto simp: Cons.IH)
qed simp

text \<open>A pattern without \<open>*\<close> and \<open>?\<close> means itself.\<close>

definition no_wildcards :: "string \<Rightarrow> bool" where
  "no_wildcards p \<longleftrightarrow> CHR ''*'' \<notin> set p \<and> CHR ''?'' \<notin> set p"

lemma wildcard_literal: "no_wildcards p \<Longrightarrow> wildcard p t \<longleftrightarrow> t = p"
  by (induction p arbitrary: t) (auto simp: wildcard_Cons no_wildcards_def)

section \<open>Rules\<close>

text \<open>The words of a rule after its program: the fixed ones, and whether any may follow.\<close>

definition rule_rest :: "string list \<Rightarrow> string list \<times> bool" where
  "rule_rest ws = (if ws \<noteq> [] \<and> last ws = ''*'' then (butlast ws, True) else (ws, False))"

definition cmd_matches :: "bool \<Rightarrow> string \<Rightarrow> command_line \<Rightarrow> compare \<Rightarrow> bool" where
  "cmd_matches win rule cmd cmp =
     (let ignore = ignores_case win cmp in
      case split_whitespace rule of
        [] \<Rightarrow> False
      | program # ws \<Rightarrow>
          word_match (cmd_key win program cmp) (cmd_key win (cl_program cmd) cmp) ignore \<and>
          (let (fixed, rest_any) = rule_rest ws in
           length fixed \<le> length (cl_args cmd) \<and>
           (rest_any \<or> length (cl_args cmd) = length fixed) \<and>
           list_all (\<lambda>(w, arg). word_match w arg ignore) (zip fixed (cl_args cmd))))"

definition rule_matches :: "bool \<Rightarrow> string \<Rightarrow> command_line \<Rightarrow> bool" where
  "rule_matches win rule cmd = cmd_matches win rule cmd Exact"

definition rule_catches :: "bool \<Rightarrow> string \<Rightarrow> command_line \<Rightarrow> bool" where
  "rule_catches win rule cmd = cmd_matches win rule cmd Loose"

definition first_match :: "bool \<Rightarrow> string list \<Rightarrow> command_line \<Rightarrow> string option" where
  "first_match win rules cmd = find (\<lambda>r. rule_matches win r cmd) rules"

definition names_the_path :: "string \<Rightarrow> bool" where
  "names_the_path rule =
     (case split_whitespace rule of
        [] \<Rightarrow> False
      | p # _ \<Rightarrow>
          (starts_with ''./'' p \<or> starts_with [CHR ''.'', backslash] p) \<and>
          CHR ''*'' \<notin> set p \<and> CHR ''?'' \<notin> set p)"

definition rule_approves :: "bool \<Rightarrow> string \<Rightarrow> command_line \<Rightarrow> bool" where
  "rule_approves win rule cmd =
     (let in_project = starts_with ''./'' (program_key win (cl_program cmd))
      in (\<not> in_project \<or> names_the_path rule) \<and> rule_matches win rule cmd)"

definition first_approval :: "bool \<Rightarrow> string list \<Rightarrow> command_line \<Rightarrow> string option" where
  "first_approval win rules cmd = find (\<lambda>r. rule_approves win r cmd) rules"

definition first_catch :: "bool \<Rightarrow> string list \<Rightarrow> command_line \<Rightarrow> string option" where
  "first_catch win rules cmd = find (\<lambda>r. rule_catches win r cmd) rules"

datatype rule_error = RuleEmpty | RuleUnusable string | RuleFullPath string | RuleNotAName string

definition valid_rule :: "string \<Rightarrow> rule_error + string" where
  "valid_rule rule =
     (case split_whitespace rule of
        [] \<Rightarrow> Inl RuleEmpty
      | program # ws \<Rightarrow>
          (let joined = join '' '' (program # ws);
               path_like = (CHR ''/'' \<in> set program \<or> backslash \<in> set program);
               relative = (starts_with ''./'' program \<or> starts_with [CHR ''.'', backslash] program)
           in if length joined > 200 \<or> list_ex is_control joined then Inl (RuleUnusable joined)
              else if path_like \<and> \<not> relative then Inl (RuleFullPath program)
              else if starts_with ''-'' program then Inl (RuleNotAName program)
              else Inr joined))"

section \<open>Keys\<close>

lemma lower_char_plain: "lower_char c = d \<Longrightarrow> code d < 97 \<Longrightarrow> c = d"
  by (auto simp: lower_char_def is_ascii_uppercase_def code_char_of split: if_splits)

lemma lower_star [simp]: "lower_char c = CHR ''*'' \<longleftrightarrow> c = CHR ''*''"
  and lower_question [simp]: "lower_char c = CHR ''?'' \<longleftrightarrow> c = CHR ''?''"
  and lower_slash [simp]: "lower_char c = CHR ''/'' \<longleftrightarrow> c = CHR ''/''"
  and lower_dot [simp]: "lower_char c = CHR ''.'' \<longleftrightarrow> c = CHR ''.''"
  using lower_char_plain [of c] by (auto simp: code_def lower_char_def is_ascii_uppercase_def)

lemma no_wildcards_lower [simp]: "no_wildcards (to_lowercase p) \<longleftrightarrow> no_wildcards p"
  by (simp add: no_wildcards_def to_lowercase_def image_iff eq_commute [of _ "lower_char _"])

lemma no_wildcards_append [simp]:
  "no_wildcards (p @ q) \<longleftrightarrow> no_wildcards p \<and> no_wildcards q"
  by (auto simp: no_wildcards_def)

lemma find_map_Some: "find_map f xs = Some y \<Longrightarrow> \<exists>x \<in> set xs. f x = Some y"
  by (induction xs) (auto split: option.splits)

lemma drop_extension_cases:
  obtains "drop_extension l = l" | ext where "ext \<in> set run_extensions" "l = drop_extension l @ ext"
  by (cases "find_map (\<lambda>ext. strip_suffix ext l) run_extensions")
    (auto simp: drop_extension_def strip_suffix_Some dest!: find_map_Some)

lemma set_trim: "set (trim s) \<subseteq> set s"
  by (auto simp: trim_def trim_end_matches_def trim_start_matches_def dest!: set_dropWhileD)

lemma no_wildcards_key: "no_wildcards p \<Longrightarrow> no_wildcards (cmd_key win p cmp)"
proof -
  assume "no_wildcards p"
  then have p0: "no_wildcards (to_slashes (trim p))"
    using set_trim [of p] by (auto simp: no_wildcards_def to_slashes_def)
  have "no_wildcards (drop_extension (to_lowercase (to_slashes (trim p))))"
    using p0 by (cases "to_lowercase (to_slashes (trim p))" rule: drop_extension_cases)
      (simp, metis no_wildcards_append no_wildcards_lower)
  with p0 show ?thesis
    by (auto simp: cmd_key_def Let_def no_wildcards_def)
qed

lemma drop_extension_lower: "to_lowercase l = l \<Longrightarrow> to_lowercase (drop_extension l) = drop_extension l"
  by (cases l rule: drop_extension_cases) (simp, metis append_eq_append_conv length_map map_append
    to_lowercase_def)

lemma key_folded: "ignores_case win cmp \<Longrightarrow> fold_case (ignores_case win cmp) (cmd_key win p cmp) = cmd_key win p cmp"
  using drop_extension_lower [of "to_lowercase (to_slashes (trim p))"]
  by (simp add: fold_case_def cmd_key_def Let_def) (simp add: to_lowercase_def lower_char_def text_simps)

text \<open>For a rule whose program has no wildcards, comparing programs is comparing keys.\<close>

lemma literal_program:
  assumes "no_wildcards p"
  shows "word_match (cmd_key win p cmp) (cmd_key win q cmp) (ignores_case win cmp) \<longleftrightarrow>
    cmd_key win q cmp = cmd_key win p cmp"
proof (cases "ignores_case win cmp")
  case True
  with key_folded [OF True] no_wildcards_key [OF assms] show ?thesis
    by (simp add: word_match_def word_go_wildcard wildcard_literal)
next
  case False
  then show ?thesis
    using no_wildcards_key [OF assms]
    by (simp add: word_match_def fold_case_def word_go_wildcard wildcard_literal)
qed

lemma lower_whitespace [simp]: "is_whitespace (lower_char c) \<longleftrightarrow> is_whitespace c"
  by (auto simp: lower_char_def is_whitespace_def is_ascii_uppercase_def code_char_of)

lemma lower_backslash [simp]: "lower_char c = backslash \<longleftrightarrow> c = backslash"
  using lower_char_plain [of c backslash] by (auto simp: code_def lower_char_def is_ascii_uppercase_def)

lemma trim_lower: "trim (to_lowercase p) = to_lowercase (trim p)"
  by (simp add: trim_def trim_start_matches_def trim_end_matches_def to_lowercase_def dropWhile_map
      rev_map comp_def)

lemma to_slashes_lower: "to_slashes (to_lowercase p) = to_lowercase (to_slashes p)"
  by (simp add: to_slashes_def to_lowercase_def eq_commute [of "CHR ''/''" "lower_char _"])

text \<open>A loose key depends only on the letters, not on their case or on the system.\<close>

lemma loose_key_lower: "cmd_key win p Loose = cmd_key win' (to_lowercase p) Loose"
  by (simp add: cmd_key_def ignores_case_def trim_lower to_slashes_lower)

lemma drop_extension_append:
  "ext \<in> set run_extensions \<Longrightarrow> drop_extension (l @ ext) = l"
  by (auto simp: drop_extension_def run_extensions_def strip_suffix_def strip_prefix_def
      starts_with_def)

lemma trim_append:
  "p \<noteq> [] \<Longrightarrow> \<not> is_whitespace (last p) \<Longrightarrow> ext \<noteq> [] \<Longrightarrow> \<not> is_whitespace (last ext) \<Longrightarrow>
     trim (p @ ext) = trim p @ ext"
  unfolding trim_def trim_start_matches_def trim_end_matches_def
  by (cases p rule: rev_cases; cases ext rule: rev_cases) (auto simp: dropWhile_append)

lemma loose_key_extension:
  assumes "ext \<in> set run_extensions" "p \<noteq> []" "\<not> is_whitespace (last p)"
    and "drop_extension (to_lowercase (to_slashes (trim p))) = to_lowercase (to_slashes (trim p))"
  shows "cmd_key win (p @ ext) Loose = cmd_key win p Loose"
proof -
  have "trim (p @ ext) = trim p @ ext"
    using assms(1-3) by (intro trim_append) (auto simp: run_extensions_def is_whitespace_def code_def)
  moreover have "to_lowercase (to_slashes ext) = ext"
    using assms(1) by (auto simp: run_extensions_def to_lowercase_def to_slashes_def lower_char_def
        is_ascii_uppercase_def code_def)
  ultimately have "to_lowercase (to_slashes (trim (p @ ext))) = to_lowercase (to_slashes (trim p)) @ ext"
    by (simp add: to_slashes_def to_lowercase_def)
  with drop_extension_append [OF assms(1)] assms(4) show ?thesis
    by (simp add: cmd_key_def ignores_case_def)
qed

lemma word_match_lower_text:
  "map to_lowercase as = map to_lowercase bs \<Longrightarrow>
     list_all (\<lambda>(w, arg). word_match w arg True) (zip ws as) =
     list_all (\<lambda>(w, arg). word_match w arg True) (zip ws bs)"
proof (induction ws arbitrary: as bs)
  case (Cons w ws)
  show ?case
  proof (cases as)
    case Nil
    with Cons.prems show ?thesis by simp
  next
    case (Cons a as')
    with Cons.prems obtain b bs' where "bs = b # bs'" "to_lowercase a = to_lowercase b"
      "map to_lowercase as' = map to_lowercase bs'" by (cases bs) auto
    with Cons Cons.IH [of as' bs'] show ?thesis by (simp add: word_match_def fold_case_def)
  qed
qed simp

lemma catches_by_key:
  assumes "cmd_key win p Loose = cmd_key win' q Loose" "map to_lowercase as = map to_lowercase bs"
  shows "rule_catches win rule \<lparr> cl_program = p, cl_args = as \<rparr> =
    rule_catches win' rule \<lparr> cl_program = q, cl_args = bs \<rparr>"
proof -
  have "length as = length bs"
    using map_eq_imp_length_eq [OF assms(2)] .
  moreover have "cmd_key win r Loose = cmd_key win' r Loose" for r
    by (simp add: cmd_key_def ignores_case_def)
  ultimately show ?thesis
    using assms word_match_lower_text [OF assms(2)]
    by (simp add: rule_catches_def cmd_matches_def ignores_case_def Let_def case_prod_beta
        split: list.split)
qed

section \<open>Properties\<close>

text \<open>
  A pattern in a rule means what the owner was told: \<open>*\<close> stands for any characters, \<open>?\<close> for
  exactly one, and every other character for itself (or its other case, where case is ignored).
\<close>

theorem word_match_means:
  "word_match pat txt ignore \<longleftrightarrow> wildcard (fold_case ignore pat) (fold_case ignore txt)"
  by (simp add: word_match_def word_go_wildcard)

text \<open>
  A rule that blocks or asks catches a program however it is written, on every system: in any
  mix of upper and lower case, in its arguments too, and with or without one of Windows' run
  extensions.
\<close>

theorem caught_however_written:
  assumes "map to_lowercase bs = map to_lowercase as"
    and "to_lowercase q = to_lowercase p \<or>
      (\<exists>ext \<in> set run_extensions. to_lowercase q = to_lowercase (p @ ext) \<and> p \<noteq> [] \<and>
        \<not> is_whitespace (last p) \<and>
        drop_extension (to_lowercase (to_slashes (trim p))) = to_lowercase (to_slashes (trim p)))"
  shows "rule_catches win' rule \<lparr> cl_program = q, cl_args = bs \<rparr> =
    rule_catches win rule \<lparr> cl_program = p, cl_args = as \<rparr>"
proof (rule catches_by_key [OF _ assms(1)])
  show "cmd_key win' q Loose = cmd_key win p Loose"
    using assms(2) by (metis loose_key_extension loose_key_lower)
qed

theorem caught_however_written_witness:
  "rule_catches False ''rm *'' \<lparr> cl_program = ''RM.EXE'', cl_args = [''-RF'', ''x''] \<rparr> =
   rule_catches True ''rm *'' \<lparr> cl_program = ''rm'', cl_args = [''-rf'', ''X''] \<rparr>"
proof (rule caught_however_written)
  show "map to_lowercase [''-RF'', ''x''] = map to_lowercase [''-rf'', ''X'']" by code_simp
  show "to_lowercase ''RM.EXE'' = to_lowercase ''rm'' \<or>
      (\<exists>ext \<in> set run_extensions. to_lowercase ''RM.EXE'' = to_lowercase (''rm'' @ ext) \<and> ''rm'' \<noteq> [] \<and>
        \<not> is_whitespace (last ''rm'') \<and>
        drop_extension (to_lowercase (to_slashes (trim ''rm''))) =
          to_lowercase (to_slashes (trim ''rm'')))"
    by code_simp
qed

text \<open>
  A program inside the project folder, which a worker can write, is approved only by a rule
  that names that program's own path: a pattern never approves it.
\<close>

theorem project_program_named_by_path:
  assumes "rule_approves win rule cmd" "starts_with ''./'' (program_key win (cl_program cmd))"
  shows "\<exists>p ws. split_whitespace rule = p # ws \<and> no_wildcards p \<and>
    program_key win p = program_key win (cl_program cmd)"
proof -
  obtain p ws where p: "split_whitespace rule = p # ws" "no_wildcards p"
    using assms by (auto simp: rule_approves_def names_the_path_def no_wildcards_def Let_def
        split: list.splits)
  have "word_match (cmd_key win p Exact) (cmd_key win (cl_program cmd) Exact) (ignores_case win Exact)"
    using assms(1) p(1) by (simp add: rule_approves_def rule_matches_def cmd_matches_def Let_def)
  with literal_program [OF p(2)] p show ?thesis
    by (auto simp: program_key_def)
qed

theorem project_program_named_by_path_witness:
  "rule_approves False ''./run.sh *'' \<lparr> cl_program = ''run.sh'', cl_args = [] \<rparr> = False \<and>
   program_key False (hd (split_whitespace ''./run.sh *'')) = program_key False ''./run.sh''"
proof -
  have "rule_approves False ''./run.sh *'' \<lparr> cl_program = ''./run.sh'', cl_args = [''x''] \<rparr>"
    "starts_with ''./'' (program_key False ''./run.sh'')"
    "\<not> rule_approves False ''./run.sh *'' \<lparr> cl_program = ''run.sh'', cl_args = [] \<rparr>"
    by code_simp+
  with project_program_named_by_path [of False "''./run.sh *''"
      "\<lparr> cl_program = ''./run.sh'', cl_args = [''x''] \<rparr>"]
  show ?thesis by auto
qed

end
