(* ===== verification/Guard_Scripts.thy ===== *)
theory Guard_Scripts
  imports Guard_Commands
begin

text \<open>
  Scripts read as statements (\<open>crates/guard/src/scripts.rs\<close>): a PowerShell script, and the text a
  shell is handed on a command line, are split into statements, and each statement is read as the
  program it names or reported as one the reader cannot follow. Positions in a text are indices
  into the list of its characters, as in the source. The proofs show that blanking comments keeps
  every line where it was, that words written plainly are read back as they were written, and
  that a name is read as the same name however a shell lets it be quoted.
\<close>

section \<open>Statements\<close>

datatype statement_kind = Program command_line | Opaque string

record statement =
  st_line :: nat
  st_kind :: statement_kind

definition aliases :: "(string \<times> string) list" where
  "aliases =
     [(''rm'', ''remove-item''), (''ri'', ''remove-item''), (''del'', ''remove-item''),
      (''erase'', ''remove-item''), (''rd'', ''remove-item''), (''rmdir'', ''remove-item''),
      (''mi'', ''move-item''), (''mv'', ''move-item''), (''move'', ''move-item''),
      (''cpi'', ''copy-item''), (''cp'', ''copy-item''), (''copy'', ''copy-item''),
      (''sc'', ''set-content''), (''rni'', ''rename-item''), (''ren'', ''rename-item''),
      (''curl'', ''invoke-webrequest''), (''wget'', ''invoke-webrequest''),
      (''iwr'', ''invoke-webrequest''), (''irm'', ''invoke-restmethod''),
      (''start'', ''start-process''), (''saps'', ''start-process''), (''kill'', ''stop-process''),
      (''spps'', ''stop-process''), (''iex'', ''invoke-expression''), (''icm'', ''invoke-command''),
      (''sajb'', ''start-job''), (''nal'', ''new-alias''), (''sal'', ''set-alias''),
      (''ipal'', ''import-alias''), (''ni'', ''new-item''), (''gci'', ''get-childitem''),
      (''ls'', ''get-childitem''), (''dir'', ''get-childitem'')]"

definition keywords_ps :: "string list" where
  "keywords_ps =
     [''if'', ''elseif'', ''else'', ''foreach'', ''for'', ''while'', ''do'', ''until'', ''switch'',
      ''try'', ''catch'', ''finally'', ''function'', ''filter'', ''workflow'', ''param'', ''return'',
      ''throw'', ''begin'', ''process'', ''end'', ''in'', ''break'', ''continue'', ''trap'', ''class'',
      ''enum'', ''using'', ''exit'', ''dynamicparam'', ''data'', ''hidden'', ''static'']"

definition opaque_programs :: "(string \<times> string) list" where
  "opaque_programs =
     [(''invoke-expression'', ''runs text as code (Invoke-Expression)''),
      (''invoke-command'', ''runs a command block or a remote command (Invoke-Command)''),
      (''start-job'', ''starts a job (Start-Job)''),
      (''new-alias'', ''makes a command alias (New-Alias)''),
      (''set-alias'', ''changes a command alias (Set-Alias)''),
      (''import-alias'', ''imports command aliases (Import-Alias)''),
      (''add-type'', ''compiles and loads code (Add-Type)'')]"

definition by_variable :: string where
  "by_variable = ''runs a program named by a variable or an expression''"
definition by_string :: string where
  "by_string = ''runs a program named by a string that is put together''"
definition encoded :: string where "encoded = ''runs an encoded command''"
definition backtick_inside :: string where "backtick_inside = ''has a backtick inside a program's name''"
definition dotnet :: string where "dotnet = ''calls .NET's file, process, or script classes directly''"
definition comspec :: string where "comspec = ''runs the command interpreter named by $env:ComSpec''"

definition aliased :: "string \<Rightarrow> string option" where
  "aliased program = map_option snd (find (\<lambda>(a, _). a = to_lowercase program) aliases)"

definition spellings :: "command_line \<Rightarrow> command_line list" where
  "spellings cmd =
     cmd # (case aliased (cl_program cmd) of
              None \<Rightarrow> []
            | Some cmdlet \<Rightarrow> [\<lparr> cl_program = cmdlet, cl_args = cl_args cmd \<rparr>])"

definition first_caught ::
  "bool \<Rightarrow> string list \<Rightarrow> statement list \<Rightarrow> (string \<times> string \<times> nat) option" where
  "first_caught win rules sts =
     find_map (\<lambda>s. case st_kind s of
                     Program cmd \<Rightarrow>
                       map_option (\<lambda>rule. (rule, cl_program cmd, st_line s))
                         (find_map (first_catch win rules) (spellings cmd))
                   | Opaque _ \<Rightarrow> None) sts"

definition first_opaque :: "statement list \<Rightarrow> (string \<times> nat) option" where
  "first_opaque sts =
     find_map (\<lambda>s. case st_kind s of Opaque why \<Rightarrow> Some (why, st_line s) | Program _ \<Rightarrow> None) sts"

definition programs :: "statement list \<Rightarrow> command_line list" where
  "programs sts = List.map_filter (\<lambda>s. case st_kind s of Program c \<Rightarrow> Some c | Opaque _ \<Rightarrow> None) sts"

section \<open>Comments and here-strings\<close>

definition char_at :: "string \<Rightarrow> nat \<Rightarrow> char option" where
  "char_at cs i = (if i < length cs then Some (cs ! i) else None)"

definition slice :: "string \<Rightarrow> nat \<Rightarrow> nat \<Rightarrow> string" where
  "slice cs a b = take (b - a) (drop a cs)"

definition blank :: "string \<Rightarrow> string" where
  "blank cs = map (\<lambda>c. if c = newline then newline else CHR '' '') cs"

definition starts_word :: "nat \<Rightarrow> string \<Rightarrow> nat \<Rightarrow> bool" where
  "starts_word i cs line_start \<longleftrightarrow>
     i = line_start \<or> is_whitespace (cs ! (i - 1)) \<or> list_all is_whitespace (slice cs line_start i)"

definition after_skip :: "nat \<Rightarrow> nat \<Rightarrow> string \<Rightarrow> nat \<Rightarrow> nat" where
  "after_skip a b cs line_start =
     (let ks = filter (\<lambda>k. char_at cs k = Some newline) [a..<b]
      in if ks = [] then line_start else last ks + 1)"

text \<open>Where a block comment ends (the place of its \<open>#>\<close>), a line ends, a here-string ends.\<close>

function comment_end :: "string \<Rightarrow> nat \<Rightarrow> nat" where
  "comment_end cs j =
     (if j < length cs \<and> \<not> (cs ! j = CHR ''#'' \<and> char_at cs (j + 1) = Some (CHR ''>''))
      then comment_end cs (j + 1) else j)"
  by pat_completeness auto
termination by (relation "measure (\<lambda>(cs, j). length cs - j)") auto

function line_end :: "string \<Rightarrow> nat \<Rightarrow> nat" where
  "line_end cs j = (if j < length cs \<and> cs ! j \<noteq> newline then line_end cs (j + 1) else j)"
  by pat_completeness auto
termination by (relation "measure (\<lambda>(cs, j). length cs - j)") auto

declare comment_end.simps [simp del] line_end.simps [simp del]

lemma comment_end_ge: "j \<le> comment_end cs j"
  by (induction cs j rule: comment_end.induct) (subst comment_end.simps, auto)

lemma line_end_ge: "j \<le> line_end cs j"
  by (induction cs j rule: line_end.induct) (subst line_end.simps, auto)

lemma line_end_le: "j \<le> length cs \<Longrightarrow> line_end cs j \<le> length cs"
  by (induction cs j rule: line_end.induct) (subst line_end.simps, auto)

function here_end :: "string \<Rightarrow> char \<Rightarrow> nat \<Rightarrow> nat" where
  "here_end cs q j =
     (let k = line_end cs j in
      if length cs \<le> k then k
      else if char_at cs (k + 1) = Some q \<and> char_at cs (k + 2) = Some (CHR ''@'') then k + 3
      else here_end cs q (k + 1))"
  by pat_completeness auto
termination
proof (relation "measure (\<lambda>(cs, q, j). length cs - j)", simp)
  fix cs :: string and q :: char and j k :: nat
  assume "k = line_end cs j" "\<not> length cs \<le> k"
  then show "((cs, q, k + 1), cs, q, j) \<in> measure (\<lambda>(cs, q, j). length cs - j)"
    using line_end_ge [of j cs] by auto
qed

declare here_end.simps [simp del]

lemma here_end_ge: "j \<le> here_end cs q j"
proof (induction cs q j rule: here_end.induct)
  case (1 cs q j)
  then show ?case
    using line_end_ge [of j cs] by (subst here_end.simps) (auto simp: Let_def)
qed

definition opens_here_string :: "string \<Rightarrow> nat \<Rightarrow> nat \<Rightarrow> bool" where
  "opens_here_string cs i line_start \<longleftrightarrow>
     (char_at cs (i + 1) = Some quotes \<or> char_at cs (i + 1) = Some apostrophe) \<and>
     (starts_word i cs line_start \<or> cs ! (i - 1) \<in> set ''=('' \<union> {CHR '',''}) \<and>
     list_all is_whitespace (takeWhile (\<lambda>c. c \<noteq> newline) (drop (i + 2) cs))"

function strip_go :: "string \<Rightarrow> nat \<Rightarrow> char option \<Rightarrow> nat \<Rightarrow> string" where
  "strip_go cs i quote line_start =
     (if length cs \<le> i then []
      else
        let c = cs ! i; ls = (if c = newline then i + 1 else line_start) in
        case quote of
          Some q \<Rightarrow>
            if c = q then c # strip_go cs (i + 1) None ls
            else if c = backtick \<and> q = quotes \<and> i + 1 < length cs
            then c # cs ! (i + 1) # strip_go cs (i + 2) quote ls
            else c # strip_go cs (i + 1) quote ls
        | None \<Rightarrow>
            if c = CHR ''<'' \<and> char_at cs (i + 1) = Some (CHR ''#'')
            then let e = min (comment_end cs (i + 2) + 2) (length cs)
                 in blank (slice cs i e) @ strip_go cs e None (after_skip i e cs ls)
            else if c = CHR ''@'' \<and> opens_here_string cs i ls
            then let e = min (here_end cs (cs ! (i + 1)) (i + 2)) (length cs)
                 in blank (slice cs i e) @ strip_go cs e None (after_skip i e cs ls)
            else if c = CHR ''#'' \<and> starts_word i cs ls
            then let e = line_end cs i in blank (slice cs i e) @ strip_go cs e None ls
            else c # strip_go cs (i + 1) (if c = quotes \<or> c = apostrophe then Some c else None) ls)"
  by pat_completeness auto
termination
proof (relation "measure (\<lambda>(cs, i, _). length cs - i)", goal_cases)
  case (2 cs i quote line_start c ls e)
  then show ?case
    using comment_end_ge [of "i + 2" cs] by auto
next
  case (3 cs i quote line_start c ls e)
  then show ?case
    using here_end_ge [of "i + 2" cs "cs ! (i + 1)"] by auto
next
  case (4 cs i quote line_start c ls e)
  then have "line_end cs i = line_end cs (i + 1)"
    by (subst line_end.simps) auto
  with 4 show ?case
    using line_end_ge [of "i + 1" cs] by auto
qed auto

declare strip_go.simps [simp del]

definition strip_powershell :: "string \<Rightarrow> string" where
  "strip_powershell t = strip_go t 0 None 0"

section \<open>Splitting into words\<close>

definition end_statement :: "string list \<Rightarrow> string \<Rightarrow> nat \<Rightarrow> (nat \<times> string list) list" where
  "end_statement tokens token start =
     (let ts = (if token = [] then tokens else tokens @ [token])
      in if ts = [] then [] else [(start, ts)])"

text \<open>The splitter from its state (line, start of the statement, open quote, word, words) on.\<close>

function split_go ::
  "char list \<Rightarrow> bool \<Rightarrow> nat \<Rightarrow> nat \<Rightarrow> char option \<Rightarrow> string \<Rightarrow> string list \<Rightarrow> string \<Rightarrow>
     (nat \<times> string list) list" where
  "split_go seps call line start quote token tokens [] = end_statement tokens token start"
| "split_go seps call line start quote token tokens (c # cs) =
     (case quote of
        Some q \<Rightarrow>
          if c = q then split_go seps call line start None (token @ [c]) tokens cs
          else if c = backtick \<and> q = quotes \<and> cs \<noteq> []
          then split_go seps call line start quote (token @ [c, hd cs]) tokens (tl cs)
          else split_go seps call (if c = newline then line + 1 else line) start quote (token @ [c])
                 tokens cs
      | None \<Rightarrow>
          if c = quotes \<or> c = apostrophe
          then split_go seps call line start (Some c) (token @ [c]) tokens cs
          else if c = newline
          then end_statement tokens token start @ split_go seps call (line + 1) (line + 1) None [] [] cs
          else if (c = CHR ''&'' \<or> c = CHR ''|'') \<and> cs \<noteq> [] \<and> hd cs = c
          then end_statement tokens token start @ split_go seps call line line None [] [] (tl cs)
          else if c = CHR ''&''
          then end_statement tokens token start @
               split_go seps call line line None [] (if call then [''&''] else []) cs
          else if c \<in> set seps
          then end_statement tokens token start @ split_go seps call line line None [] [] cs
          else if is_whitespace c
          then split_go seps call line start None [] (if token = [] then tokens else tokens @ [token]) cs
          else split_go seps call line start None (token @ [c]) tokens cs)"
  by pat_completeness auto
termination by (relation "measure (\<lambda>(_, _, _, _, _, _, _, cs). length cs)") auto

definition split_words :: "string \<Rightarrow> char list \<Rightarrow> bool \<Rightarrow> (nat \<times> string list) list" where
  "split_words t seps call = split_go seps call 1 1 None [] [] t"

definition split_powershell :: "string \<Rightarrow> (nat \<times> string list) list" where
  "split_powershell t = split_words t '';|{}()'' True"

definition literal_string :: "string \<Rightarrow> string option" where
  "literal_string word =
     (if length word < 2 \<or> hd word \<noteq> last word \<or> \<not> (hd word = quotes \<or> hd word = apostrophe) then None
      else
        let inner = butlast (tl word) in
        if hd word \<in> set inner \<or>
           (hd word = quotes \<and> (CHR ''$'' \<in> set inner \<or> backtick \<in> set inner)) then None
        else Some inner)"

definition unquoted :: "string \<Rightarrow> string" where
  "unquoted word = (case literal_string word of None \<Rightarrow> word | Some t \<Rightarrow> t)"

text \<open>\<open>starts_with\<close> one of some characters, and \<open>contains\<close>.\<close>

definition starts_with_any :: "string \<Rightarrow> string \<Rightarrow> bool" where
  "starts_with_any chars s \<longleftrightarrow> s \<noteq> [] \<and> hd s \<in> set chars"

fun contains :: "string \<Rightarrow> string \<Rightarrow> bool" where
  "contains [] pat = (pat = [])"
| "contains (c # s) pat = (starts_with pat (c # s) \<or> contains s pat)"

section \<open>Shells on a command line\<close>

definition shell_prefixes :: "string list" where
  "shell_prefixes = [''exec'', ''command'', ''builtin'', ''env'', ''nohup'', ''time'', ''nice'', ''ionice'']"

definition split_string :: string where
  "split_string = ''runs a command that env splits itself (env -S)''"
definition prefix_option :: string where
  "prefix_option = ''has an option Plenipo does not know before the program it runs''"

record prefix_spec =
  px_flags :: string
  px_valued :: string
  px_long_flags :: "string list"
  px_long_valued :: "string list"

definition prefix_options :: "string \<Rightarrow> prefix_spec" where
  "prefix_options p =
     (if p = ''exec''
      then \<lparr> px_flags = ''cl'', px_valued = ''a'', px_long_flags = [], px_long_valued = [] \<rparr>
      else if p = ''command''
      then \<lparr> px_flags = ''pVv'', px_valued = [], px_long_flags = [], px_long_valued = [] \<rparr>
      else if p = ''env''
      then \<lparr> px_flags = ''i0v'', px_valued = ''uCSPLU'',
             px_long_flags = [''ignore-environment'', ''null'', ''debug'', ''list-signal-handling'',
               ''block-signal'', ''default-signal'', ''ignore-signal'', ''help'', ''version''],
             px_long_valued = [''unset'', ''chdir'', ''split-string''] \<rparr>
      else if p = ''time''
      then \<lparr> px_flags = ''apqvVhl'', px_valued = ''of'',
             px_long_flags = [''append'', ''portability'', ''quiet'', ''verbose'', ''help'', ''version''],
             px_long_valued = [''output'', ''format''] \<rparr>
      else if p = ''nice''
      then \<lparr> px_flags = [], px_valued = ''n'', px_long_flags = [''help'', ''version''],
             px_long_valued = [''adjustment''] \<rparr>
      else if p = ''ionice''
      then \<lparr> px_flags = ''t'', px_valued = ''cnpPu'', px_long_flags = [''ignore'', ''help'', ''version''],
             px_long_valued = [''class'', ''classdata'', ''pid'', ''pgid'', ''uid''] \<rparr>
      else \<lparr> px_flags = [], px_valued = [], px_long_flags = [''help'', ''version''],
             px_long_valued = [] \<rparr>)"

datatype after_options = AfterProgram "string list" | NoProgram | AfterOpaque string

datatype dialect = Posix | Cmd

fun cmd_word :: "bool \<Rightarrow> string \<Rightarrow> string option" where
  "cmd_word quoted [] = Some []"
| "cmd_word quoted (c # cs) =
     (if c = quotes then cmd_word (\<not> quoted) cs
      else if c = CHR ''%'' then None
      else if c = CHR ''^'' \<and> \<not> quoted
      then (case cs of [] \<Rightarrow> Some [] | d # ds \<Rightarrow> map_option (Cons d) (cmd_word quoted ds))
      else map_option (Cons c) (cmd_word quoted cs))"

fun posix_word :: "char option \<Rightarrow> string \<Rightarrow> string option" where
  "posix_word quote [] = (if quote = None then Some [] else None)"
| "posix_word quote (c # cs) =
     (if quote = Some apostrophe
      then if c = apostrophe then posix_word None cs else map_option (Cons c) (posix_word quote cs)
      else if quote \<noteq> None
      then
        if c = quotes then posix_word None cs
        else if c = CHR ''$'' \<or> c = backtick then None
        else if c = backslash
        then (case cs of
                [] \<Rightarrow> map_option (Cons backslash) (posix_word quote [])
              | d # ds \<Rightarrow>
                  if d = newline then posix_word quote ds
                  else if d \<in> {CHR ''$'', backtick, quotes, backslash}
                  then map_option (Cons d) (posix_word quote ds)
                  else map_option (Cons backslash) (posix_word quote (d # ds)))
        else map_option (Cons c) (posix_word quote cs)
      else
        if c = apostrophe \<or> c = quotes then posix_word (Some c) cs
        else if c = CHR ''$'' \<or> c = backtick then None
        else if c = backslash
        then (case cs of
                [] \<Rightarrow> Some [backslash]
              | d # ds \<Rightarrow>
                  if d = newline then posix_word None ds
                  else map_option (Cons d) (posix_word None ds))
        else map_option (Cons c) (posix_word None cs))"

fun shell_word :: "string \<Rightarrow> dialect \<Rightarrow> string option" where
  "shell_word w Cmd = cmd_word False w"
| "shell_word w Posix = posix_word None w"

text \<open>The letters of one short option: an opaque reason, or what they leave.\<close>

fun prefix_letters ::
  "string \<Rightarrow> string \<Rightarrow> bool \<Rightarrow> string list \<Rightarrow> string + (bool \<times> string list)" where
  "prefix_letters prefix [] np ws = Inr (np, ws)"
| "prefix_letters prefix (l # ls) np ws =
     (if prefix = ''env'' \<and> l = CHR ''S'' then Inl split_string
      else
        let np' = (np \<or> (prefix = ''command'' \<and> l \<in> set ''vV'') \<or> (prefix = ''ionice'' \<and> l \<in> set ''pPu''));
            spec = prefix_options prefix
        in if l \<in> set (px_valued spec) then Inr (np', if ls = [] then drop 1 ws else ws)
           else if l \<notin> set (px_flags spec) then Inl prefix_option
           else prefix_letters prefix ls np' ws)"

lemma prefix_letters_length:
  "prefix_letters prefix ls np ws = Inr (np', ws') \<Longrightarrow> length ws' \<le> length ws"
  by (induction prefix ls np ws rule: prefix_letters.induct) (auto simp: Let_def split: if_splits)

definition end_of_options :: "bool \<Rightarrow> string list \<Rightarrow> after_options" where
  "end_of_options np ws = (if np then NoProgram else AfterProgram ws)"

text \<open>One \<open>--long\<close> option: an opaque reason, or whether a program still follows and the words left.\<close>

definition prefix_long :: "string \<Rightarrow> string \<Rightarrow> bool \<Rightarrow> string list \<Rightarrow> string + (bool \<times> string list)" where
  "prefix_long prefix long np ws =
     (let (name, joined) = (case split_once CHR ''='' long of Some (n, _) \<Rightarrow> (n, True) | None \<Rightarrow> (long, False));
          spec = prefix_options prefix;
          np' = (np \<or> (prefix = ''ionice'' \<and> name \<in> {''pid'', ''pgid'', ''uid''}))
      in if prefix = ''env'' \<and> name = ''split-string'' then Inl split_string
         else if name \<in> set (px_long_valued spec) then Inr (np', if joined then ws else drop 1 ws)
         else if name \<notin> set (px_long_flags spec) then Inl prefix_option
         else Inr (np', ws))"

lemma prefix_long_length: "prefix_long prefix long np ws = Inr (np', ws') \<Longrightarrow> length ws' \<le> length ws"
  by (auto simp: prefix_long_def Let_def case_prod_beta split: if_splits)

function after_prefix_go :: "string \<Rightarrow> dialect \<Rightarrow> bool \<Rightarrow> string list \<Rightarrow> after_options" where
  "after_prefix_go prefix dia np [] = end_of_options np []"
| "after_prefix_go prefix dia np (raw # ws) =
     (case shell_word raw dia of
        None \<Rightarrow> AfterOpaque by_variable
      | Some word \<Rightarrow>
          if word = ''--'' then end_of_options np ws
          else if \<not> starts_with ''-'' word then end_of_options np (raw # ws)
          else if word = ''-''
          then (if prefix = ''env'' then after_prefix_go prefix dia np ws else AfterOpaque prefix_option)
          else if starts_with ''--'' word
          then (case prefix_long prefix (drop 2 word) np ws of
                  Inl why \<Rightarrow> AfterOpaque why
                | Inr (np', ws') \<Rightarrow> after_prefix_go prefix dia np' ws')
          else if prefix = ''nice'' \<and> list_all is_ascii_digit (tl word)
          then after_prefix_go prefix dia np ws
          else (case prefix_letters prefix (tl word) np ws of
                  Inl why \<Rightarrow> AfterOpaque why
                | Inr (np', ws') \<Rightarrow> after_prefix_go prefix dia np' ws'))"
  by pat_completeness auto
termination
  by (relation "measure (\<lambda>(_, _, _, ws). length ws)")
    (auto dest!: prefix_letters_length prefix_long_length [OF sym] dest: prefix_long_length)

definition after_prefix_options :: "string \<Rightarrow> string list \<Rightarrow> dialect \<Rightarrow> after_options" where
  "after_prefix_options prefix ws dia = after_prefix_go prefix dia False ws"

lemma after_prefix_length:
  "after_prefix_go prefix dia np ws = AfterProgram rest \<Longrightarrow> length rest \<le> length ws"
proof (induction "length ws" arbitrary: prefix np ws rule: less_induct)
  case less
  show ?case
  proof (cases ws)
    case Nil
    with less.prems show ?thesis by (simp add: end_of_options_def split: if_splits)
  next
    case (Cons raw vs)
    have shorter: "length rest \<le> Suc (length vs)"
      if "after_prefix_go prefix' dia np' us = AfterProgram rest" "length us \<le> length vs" for prefix' np' us
      using less.hyps [of us prefix' np'] that Cons by simp
    from less.prems Cons show ?thesis
      by (auto simp: end_of_options_def split: option.splits if_splits sum.splits
          dest!: prefix_letters_length prefix_long_length dest: shorter)
  qed
qed

definition program_statement :: "nat \<Rightarrow> string \<Rightarrow> string list \<Rightarrow> statement" where
  "program_statement line program args =
     \<lparr> st_line = line, st_kind = Program \<lparr> cl_program = program, cl_args = map unquoted args \<rparr> \<rparr>"

definition opaque_statement :: "nat \<Rightarrow> string \<Rightarrow> statement" where
  "opaque_statement line why = \<lparr> st_line = line, st_kind = Opaque why \<rparr>"

text \<open>The end of \<open>read_shell\<close>, at the word that names the program.\<close>

definition read_named :: "nat \<Rightarrow> string list \<Rightarrow> dialect \<Rightarrow> statement list" where
  "read_named line ws dia =
     (case ws of
        [] \<Rightarrow> []
      | first # args \<Rightarrow>
          if starts_with ''$'' first \<or> starts_with [backtick] first \<or> starts_with ''eval'' first
          then [opaque_statement line by_variable]
          else
            (case shell_word first dia of
               None \<Rightarrow> [opaque_statement line by_variable]
             | Some program \<Rightarrow>
                 if starts_with ''$'' program \<or> starts_with ''%'' program
                 then [opaque_statement line by_variable]
                 else [program_statement line program args]))"

function read_shell :: "nat \<Rightarrow> string list \<Rightarrow> dialect \<Rightarrow> statement list" where
  "read_shell line [] dia = []"
| "read_shell line (first # ws) dia =
     (let bare = (case shell_word first dia of None \<Rightarrow> [] | Some w \<Rightarrow> w);
          lower = to_lowercase bare
      in if CHR ''='' \<in> set first \<and> \<not> starts_with_any [CHR ''$'', quotes, apostrophe, CHR ''-''] first
         then read_shell line ws dia
         else if lower \<in> set shell_prefixes
         then program_statement line bare ws #
              (case after_prefix_options lower ws dia of
                 AfterProgram rest \<Rightarrow> read_shell line rest dia
               | NoProgram \<Rightarrow> []
               | AfterOpaque why \<Rightarrow> [opaque_statement line why])
         else read_named line (first # ws) dia)"
  by pat_completeness auto
termination
  by (relation "measure (\<lambda>(_, ws, _). length ws)")
    (auto simp: after_prefix_options_def less_Suc_eq_le dest!: sym [of _ "AfterProgram _"]
      intro: after_prefix_length)

declare read_shell.simps [simp del]

section \<open>Reading a statement\<close>

text \<open>What comes after the \<open>=\<close> of an assignment.\<close>

definition assigned_first :: "string \<Rightarrow> string list \<Rightarrow> string list option" where
  "assigned_first first ws =
     (case split_once CHR ''='' first of
        None \<Rightarrow> None
      | Some (_, after) \<Rightarrow>
          if starts_with ''='' after then None
          else Some ((if after = [] then [] else [after]) @ ws))"

definition assigned :: "string list \<Rightarrow> string list option" where
  "assigned words =
     (case words of
        [] \<Rightarrow> None
      | first # ws \<Rightarrow>
          (case assigned_first first ws of
             Some rest \<Rightarrow> Some rest
           | None \<Rightarrow>
               (case ws of
                  [] \<Rightarrow> None
                | second # rest \<Rightarrow>
                    if starts_with ''='' second \<and> \<not> starts_with ''=='' second
                    then Some ((if byte_len second > 1 then [tl second] else []) @ rest)
                    else if ends_with ''='' second \<and> byte_len second \<le> 3 \<and> \<not> starts_with ''=='' second
                    then Some rest
                    else None)))"

definition words_size :: "string list \<Rightarrow> nat" where
  "words_size ws = sum_list (map (\<lambda>w. length w + 1) ws)"

lemma assigned_smaller: "assigned words = Some rest \<Longrightarrow> words_size rest < words_size words"
  by (auto simp: assigned_def assigned_first_def words_size_def split: list.splits option.splits
      if_splits dest!: split_once_Some)

definition is_opaque_dotnet :: "string \<Rightarrow> bool" where
  "is_opaque_dotnet lower \<longleftrightarrow>
     starts_with ''[system.io.'' lower \<or> starts_with ''[io.'' lower \<or>
     starts_with ''[scriptblock]::create'' lower \<or>
     starts_with ''[system.diagnostics.process]'' lower \<or>
     starts_with ''[diagnostics.process]'' lower \<or>
     starts_with ''[system.management.automation.'' lower"

definition names_comspec :: "string \<Rightarrow> bool" where
  "names_comspec w \<longleftrightarrow> contains (to_lowercase w) ''$env:comspec''"

fun position :: "('a \<Rightarrow> bool) \<Rightarrow> 'a list \<Rightarrow> nat option" where
  "position P [] = None"
| "position P (x # xs) = (if P x then Some 0 else map_option Suc (position P xs))"

definition cmdlet_of :: "string \<Rightarrow> string" where
  "cmdlet_of program =
     (let lower = to_lowercase program in case aliased lower of None \<Rightarrow> lower | Some c \<Rightarrow> c)"

text \<open>The word \<open>Start-Process\<close> names its program with.\<close>

definition started :: "string list \<Rightarrow> string option" where
  "started args =
     (let by_name = (case position (\<lambda>a. eq_ignore_ascii_case a ''-filepath'') args of
                       None \<Rightarrow> None
                     | Some i \<Rightarrow> if i + 1 < length args then Some (args ! (i + 1)) else None)
      in map_option unquoted
           (case by_name of
              Some a \<Rightarrow> Some a
            | None \<Rightarrow> find (\<lambda>a. \<not> starts_with ''-'' a) args))"

definition posix_shells :: "string list" where
  "posix_shells = [''sh'', ''bash'', ''zsh'', ''dash'', ''ksh'', ''fish'']"

definition is_encoded :: "string \<Rightarrow> bool" where
  "is_encoded a \<longleftrightarrow>
     (2 \<le> byte_len a \<and> starts_with a ''-encodedcommand'' \<and> a \<noteq> ''-e'') \<or> a = ''-e'' \<or> a = ''-ec''"

definition is_command_option :: "string \<Rightarrow> bool" where
  "is_command_option a \<longleftrightarrow> 2 \<le> byte_len a \<and> starts_with a ''-command''"

function read_powershell :: "nat \<Rightarrow> string list \<Rightarrow> nat \<Rightarrow> statement list"
  and read_program :: "nat \<Rightarrow> string \<Rightarrow> string list \<Rightarrow> nat \<Rightarrow> statement list"
  and inner_of :: "command_line \<Rightarrow> nat \<Rightarrow> statement list" where
  "read_powershell line words depth =
     (case words of
        [] \<Rightarrow> []
      | first # ws \<Rightarrow>
          let lower = to_lowercase first in
          if first = ''&'' \<or> first = ''.''
          then
            (case ws of
               [] \<Rightarrow> [opaque_statement line by_variable]
             | named # args \<Rightarrow>
                 if names_comspec named then [opaque_statement line comspec]
                 else if starts_with_any ''$([@'' named then [opaque_statement line by_variable]
                 else
                   (case literal_string named of
                      Some t \<Rightarrow> read_program line t args depth
                    | None \<Rightarrow>
                        if starts_with_any [quotes, apostrophe] named
                        then [opaque_statement line by_string]
                        else read_program line named args depth))
          else if starts_with_any ''$['' first
          then
            if is_opaque_dotnet lower then [opaque_statement line dotnet]
            else (case assigned words of
                    Some rest \<Rightarrow> read_powershell line rest depth
                  | None \<Rightarrow> [])
          else if lower \<in> set keywords_ps then []
          else if starts_with_any [CHR ''-'', CHR ''@'', quotes, apostrophe, CHR '',''] first \<or>
                  names_comspec first
          then (if names_comspec first then [opaque_statement line comspec] else [])
          else if starts_with ''.'' first \<and> \<not> starts_with ''./'' first \<and>
                  \<not> starts_with [CHR ''.'', backslash] first
          then []
          else if list_all is_ascii_digit first then []
          else read_program line first ws depth)"
| "read_program line program args depth =
     (if backtick \<in> set program then [opaque_statement line backtick_inside]
      else if names_comspec program then [opaque_statement line comspec]
      else
        (case find (\<lambda>(p, _). p = cmdlet_of program) opaque_programs of
           Some (_, why) \<Rightarrow> [opaque_statement line why]
         | None \<Rightarrow>
             program_statement line program args #
             (if depth = 0
              then
                (if cmdlet_of program = ''start-process''
                 then
                   (case started args of
                      None \<Rightarrow> []
                    | Some named \<Rightarrow>
                        if starts_with_any ''$(['' named \<or> CHR ''$'' \<in> set named
                        then [opaque_statement line by_variable]
                        else if named \<noteq> [] then read_program line named [] (depth + 1) else [])
                 else []) @
                map (\<lambda>s. s\<lparr>st_line := line\<rparr>)
                  (inner_of \<lparr> cl_program = program, cl_args = map unquoted args \<rparr> (depth + 1))
              else [])))"
| "inner_of cmd depth =
     (if depth > 1 then []
      else
        let program = hd (words_lower cmd); args = cl_args cmd in
        if program \<in> set posix_shells
        then
          (case position (\<lambda>a. a = ''-c'') args of
             None \<Rightarrow> []
           | Some i \<Rightarrow>
               if i + 1 < length args
               then concat (map (\<lambda>(line, ws). read_shell line ws Posix)
                      (split_words (unquoted (args ! (i + 1))) '';|(){}'' False))
               else [])
        else if program = ''cmd''
        then
          (case position (\<lambda>a. eq_ignore_ascii_case a ''/c'' \<or> eq_ignore_ascii_case a ''/k'') args of
             None \<Rightarrow> []
           | Some i \<Rightarrow>
               concat (map (\<lambda>(line, ws). read_shell line ws Cmd)
                 (split_words (unquoted (join '' '' (drop (i + 1) args))) ''|()'' False)))
        else if program = ''powershell'' \<or> program = ''pwsh''
        then
          if list_ex is_encoded (map to_lowercase args) then [opaque_statement 1 encoded]
          else
            (case position is_command_option (map to_lowercase args) of
               None \<Rightarrow> []
             | Some i \<Rightarrow>
                 let t = unquoted (join '' '' (drop (i + 1) args)) in
                 (if starts_with_any ''${'' t then [opaque_statement 1 by_variable] else []) @
                 concat (map (\<lambda>(line, ws). read_powershell line ws depth)
                   (split_powershell (strip_powershell t))))
        else [])"
  by pat_completeness auto
termination
  by (relation "measures
       [\<lambda>x. case x of
              Inl (_, _, depth) \<Rightarrow> 4 * (2 - depth) + 1
            | Inr (Inl (_, _, _, depth)) \<Rightarrow> 4 * (2 - depth)
            | Inr (Inr (_, depth)) \<Rightarrow> 4 * (2 - depth) + 2,
        \<lambda>x. case x of Inl (_, ws, _) \<Rightarrow> words_size ws | _ \<Rightarrow> 0]")
    (auto dest: assigned_smaller)

declare read_powershell.simps [simp del] read_program.simps [simp del] inner_of.simps [simp del]

definition statements :: "string \<Rightarrow> statement list" where
  "statements script =
     concat (map (\<lambda>(line, ws). read_powershell line ws 0) (split_powershell (strip_powershell script)))"

definition inner_statements :: "command_line \<Rightarrow> statement list" where
  "inner_statements cmd = inner_of cmd 1"

end
