(* ===== verification/Guard_Paths.thy ===== *)
theory Guard_Paths
  imports Guard_Commands "HOL-Library.Sublist"
begin

text \<open>
  Folder confinement and blocked-file patterns (\<open>crates/guard/src/paths.rs\<close>), as the program
  runs on a Mac or a Linux PC (\<open>cfg!(windows)\<close> is false). An absolute path is the list of its
  names. The disk is the parameter \<open>disk\<close>: whether something is at a path
  (\<open>symlink_metadata\<close>), and where a path really leads when its links are followed
  (\<open>dunce::canonicalize\<close>).
\<close>

section \<open>Names and paths\<close>

type_synonym path = "string list"

record disk =
  disk_there :: "path \<Rightarrow> bool"
  disk_canonical :: "path \<Rightarrow> path option"

definition max_path_chars :: nat where "max_path_chars = 1000"

record resolved =
  rs_abs :: path
  rs_rel :: string
  rs_exists :: bool
  rs_root :: path

definition resolved_shown :: "resolved \<Rightarrow> string" where
  "resolved_shown r = (if rs_rel r = [] then ''.'' else rs_rel r)"

definition in_git_dir :: "resolved \<Rightarrow> bool" where
  "in_git_dir r = list_ex (\<lambda>c. eq_ignore_ascii_case c ''.git'') (split_on CHR ''/'' (rs_rel r))"

datatype path_refusal = Invalid string | Outside string

fun refusal_message :: "path_refusal \<Rightarrow> string" where
  "refusal_message (Invalid m) = m"
| "refusal_message (Outside m) = m"

definition device_names :: "string list" where
  "device_names =
     [''con'', ''prn'', ''aux'', ''nul'', ''com1'', ''com2'', ''com3'', ''com4'', ''com5'', ''com6'',
      ''com7'', ''com8'', ''com9'', ''lpt1'', ''lpt2'', ''lpt3'', ''lpt4'', ''lpt5'', ''lpt6'', ''lpt7'',
      ''lpt8'', ''lpt9'', ''conin$'', ''conout$'']"

definition looks_absolute :: "string \<Rightarrow> bool" where
  "looks_absolute input \<longleftrightarrow>
     starts_with ''/'' input \<or> starts_with [backslash] input \<or> has_drive input"

definition quoted :: "string \<Rightarrow> string" where
  "quoted s = quotes # s @ [quotes]"

definition check_name :: "string \<Rightarrow> path_refusal + unit" where
  "check_name name =
     (if name = ''.'' \<or> name = ''..'' then Inr ()
      else if CHR '':'' \<in> set name
      then Inl (Invalid (quoted name @
             '' is not allowed: a colon in a name selects a drive or a hidden stream''))
      else if ends_with ''.'' name \<or> ends_with '' '' name
      then Inl (Invalid (quoted name @
             '' is not allowed: Windows ignores dots and spaces at the end of a name''))
      else if trim_end_matches is_whitespace (to_ascii_lowercase (hd (split_on CHR ''.'' name)))
              \<in> set device_names
      then Inl (Invalid (quoted name @ '' is a reserved device name on Windows''))
      else if list_ex (\<lambda>c. c \<in> set ''<>|?*'' \<or> c = quotes) name
      then Inl (Invalid (quoted name @
             '' contains a character that cannot be used in file names''))
      else Inr ())"

text \<open>The first refusal in a list of names.\<close>

fun check_all :: "string list \<Rightarrow> path_refusal + unit" where
  "check_all [] = Inr ()"
| "check_all (n # ns) = (case check_name n of Inl e \<Rightarrow> Inl e | Inr _ \<Rightarrow> check_all ns)"

text \<open>
  \<open>Path::components\<close> of an absolute path on Unix: empty names and \<open>.\<close> are passed over.
\<close>

definition path_components :: "string \<Rightarrow> path" where
  "path_components s = filter (\<lambda>n. n \<noteq> [] \<and> n \<noteq> ''.'') (split_on CHR ''/'' s)"

text \<open>\<open>.\<close> and \<open>..\<close> resolved; \<open>None\<close> when \<open>..\<close> climbs above the root.\<close>

fun normalize_from :: "path \<Rightarrow> path \<Rightarrow> path option" where
  "normalize_from done [] = Some done"
| "normalize_from done (n # ns) =
     (if n = ''..'' then (if done = [] then None else normalize_from (butlast done) ns)
      else normalize_from (done @ [n]) ns)"

definition path_normalize :: "path \<Rightarrow> path option" where
  "path_normalize p = normalize_from [] p"

definition outside :: "string \<Rightarrow> path_refusal" where
  "outside input =
     Outside (input @ '' is outside the project folder; workers can use files only inside it'')"

text \<open>The deepest part that is there, and the names below it that are not, nearest last.\<close>

function deepest :: "disk \<Rightarrow> path \<Rightarrow> string list \<Rightarrow> (path \<times> string list) option" where
  "deepest D p missing =
     (if disk_there D p then Some (p, missing)
      else if p = [] then None
      else deepest D (butlast p) (missing @ [last p]))"
  by pat_completeness auto
termination by (relation "measure (\<lambda>(_, p, _). length p)") auto

declare deepest.simps [simp del]

text \<open>\<open>check_names_below\<close>: from the end up to the part that is the folder itself.\<close>

function check_names_below :: "disk \<Rightarrow> path \<Rightarrow> path \<Rightarrow> path_refusal + unit" where
  "check_names_below D at_path root =
     (if at_path = root then Inr ()
      else if disk_canonical D at_path = Some root then Inr ()
      else if at_path = [] then Inr ()
      else (case check_name (last at_path) of
              Inl e \<Rightarrow> Inl e
            | Inr _ \<Rightarrow> check_names_below D (butlast at_path) root))"
  by pat_completeness auto
termination by (relation "measure (\<lambda>(_, p, _). length p)") auto

declare check_names_below.simps [simp del]

section \<open>Resolving\<close>

definition is_device_path :: "string \<Rightarrow> bool" where
  "is_device_path input \<longleftrightarrow>
     starts_with [backslash, backslash, CHR ''?'', backslash] input \<or>
     starts_with [backslash, backslash, CHR ''.'', backslash] input \<or>
     starts_with ''//?/'' input \<or> starts_with ''//./'' input"

text \<open>The end of \<open>resolve\<close>: follow the links of the deepest part that is there.\<close>

definition follow_links :: "disk \<Rightarrow> path \<Rightarrow> string \<Rightarrow> path \<Rightarrow> path_refusal + resolved" where
  "follow_links D root input normalized =
     (case deepest D normalized [] of
        None \<Rightarrow> Inl (outside input)
      | Some (existing, missing) \<Rightarrow>
          (case disk_canonical D existing of
             None \<Rightarrow> Inl (Invalid (input @ '' goes through a link that leads nowhere''))
           | Some real \<Rightarrow>
               if \<not> prefix root real
               then Inl (if prefix root normalized
                         then Outside (input @ '' leads outside the project folder through a link'')
                         else outside input)
               else
                 (case check_all missing of
                    Inl e \<Rightarrow> Inl e
                  | Inr _ \<Rightarrow>
                      let abs = real @ rev missing
                      in Inr \<lparr> rs_abs = abs, rs_rel = join ''/'' (drop (length root) abs),
                               rs_exists = (missing = []), rs_root = root \<rparr>)))"

definition resolve :: "disk \<Rightarrow> path \<Rightarrow> string \<Rightarrow> path_refusal + resolved" where
  "resolve D root given =
     (let trimmed = trim given; i0 = (if trimmed = [] then ''.'' else trimmed) in
      if length i0 > max_path_chars
      then Inl (Invalid (''paths are limited to '' @ dec max_path_chars @ '' characters''))
      else if list_ex is_control i0 then Inl (Invalid ''paths cannot contain control characters'')
      else if is_device_path i0
      then Inl (Invalid (''device paths ('' @ [backslash, backslash] @ ''?'' @ [backslash] @ '' and '' @
             [backslash, backslash] @ ''.'' @ [backslash] @ '') are not allowed''))
      else
        let input = to_slashes i0 in
        if looks_absolute input
        then
          if \<not> starts_with ''/'' input
          then Inl (Outside (input @
                 '' is outside the project folder; use a path inside it, such as src/main.rs''))
          else
            (case path_normalize (path_components input) of
               None \<Rightarrow> Inl (outside input)
             | Some normalized \<Rightarrow>
                 (case check_names_below D normalized root of
                    Inl e \<Rightarrow> Inl e
                  | Inr _ \<Rightarrow> follow_links D root input normalized))
        else
          (case check_all (split_chars (\<lambda>c. c = CHR ''/'' \<or> c = backslash) input) of
             Inl e \<Rightarrow> Inl e
           | Inr _ \<Rightarrow>
               (case path_normalize (root @ path_components input) of
                  None \<Rightarrow> Inl (outside input)
                | Some normalized \<Rightarrow> follow_links D root input normalized)))"

text \<open>Right before use: does the path still lead inside its folder?\<close>

definition still_inside :: "disk \<Rightarrow> resolved \<Rightarrow> string + unit" where
  "still_inside D r =
     (let away = Inl (resolved_shown r @
            '' now leads outside the project folder (a folder on the way became a link), so '' @
            ''nothing was read or changed'')
      in case deepest D (rs_abs r) [] of
           None \<Rightarrow> away
         | Some (existing, _) \<Rightarrow>
             (case disk_canonical D existing of
                None \<Rightarrow> away
              | Some real \<Rightarrow> if prefix (rs_root r) real then Inr () else away))"

section \<open>Patterns\<close>

text \<open>\<open>*\<close>: try the rest at each place up to the next \<open>/\<close>.\<close>

fun star_loop :: "(string \<Rightarrow> bool) \<Rightarrow> string \<Rightarrow> bool" where
  "star_loop f [] = f []"
| "star_loop f (c # t) = (f (c # t) \<or> (c \<noteq> CHR ''/'' \<and> star_loop f t))"

lemma star_loop_cong [fundef_cong]:
  "t = u \<Longrightarrow> (\<And>s. f s = g s) \<Longrightarrow> star_loop f t = star_loop g u"
  by (rule arg_cong2 [of f g t u star_loop]) auto

definition any_suffix :: "(string \<Rightarrow> bool) \<Rightarrow> string \<Rightarrow> bool" where
  "any_suffix f t = list_ex (\<lambda>i. f (drop i t)) [0..<Suc (length t)]"

lemma any_suffix_cong [fundef_cong]:
  "t = u \<Longrightarrow> (\<And>s. f s = g s) \<Longrightarrow> any_suffix f t = any_suffix g u"
  by (rule arg_cong2 [of f g t u any_suffix]) auto

definition skip_slash :: "string \<Rightarrow> string" where
  "skip_slash p = (case p of c # q \<Rightarrow> if c = CHR ''/'' then q else p | [] \<Rightarrow> [])"

lemma skip_slash_length: "length (skip_slash p) \<le> length p"
  by (simp add: skip_slash_def split: list.split)

function glob_from :: "string \<Rightarrow> string \<Rightarrow> bool" where
  "glob_from [] t = (t = [])"
| "glob_from (c # p) t =
     (if c = CHR ''*'' then
        if p \<noteq> [] \<and> hd p = CHR ''*''
        then any_suffix (glob_from (skip_slash (tl p))) t \<or> any_suffix (glob_from (tl p)) t
        else star_loop (glob_from p) t
      else if c = CHR ''?'' then t \<noteq> [] \<and> hd t \<noteq> CHR ''/'' \<and> glob_from p (tl t)
      else t \<noteq> [] \<and> hd t = c \<and> glob_from p (tl t))"
  by pat_completeness auto
termination
  by (relation "measure (\<lambda>(p, _). length p)")
    (auto simp: less_Suc_eq_le intro: order_trans [OF skip_slash_length])

definition glob_match :: "string \<Rightarrow> string \<Rightarrow> bool" where
  "glob_match pat txt = glob_from (to_lowercase pat) (to_lowercase txt)"

definition is_slash :: "char \<Rightarrow> bool" where
  "is_slash c \<longleftrightarrow> c = CHR ''/''"

definition pattern_matches :: "string \<Rightarrow> string \<Rightarrow> bool" where
  "pattern_matches pat0 rel =
     (let pat = trim_end_matches is_slash (trim pat0) in
      if pat = [] \<or> rel = [] then False
      else
        let parts = split_on CHR ''/'' rel in
        if CHR ''/'' \<notin> set pat then list_ex (\<lambda>name. glob_match pat name) parts
        else list_ex (\<lambda>n. glob_match (trim_start_matches is_slash pat) (join ''/'' (take n parts)))
               [1..<Suc (length parts)])"

definition blocked_step :: "string \<Rightarrow> string option \<Rightarrow> string \<Rightarrow> string option" where
  "blocked_step rel hit p0 =
     (let p = trim p0 in
      case strip_prefix ''!'' p of
        Some exception \<Rightarrow> if pattern_matches exception rel then None else hit
      | None \<Rightarrow> if pattern_matches p rel then Some p else hit)"

definition blocked_by :: "string list \<Rightarrow> string \<Rightarrow> string option" where
  "blocked_by patterns rel = foldl (blocked_step rel) None patterns"

definition valid_pattern :: "string \<Rightarrow> string + string" where
  "valid_pattern p0 =
     (let p = trim p0;
          body = (case strip_prefix ''!'' p of None \<Rightarrow> p | Some b \<Rightarrow> b)
      in if trim body = [] \<or> length p > 200 \<or> list_ex is_control p then Inl p else Inr p)"

section \<open>What a pattern means\<close>

text \<open>
  \<open>**\<close> stands for any text (and may swallow the \<open>/\<close> after it), \<open>*\<close> for any text within one
  name, \<open>?\<close> for one character of a name.
\<close>

inductive globs :: "string \<Rightarrow> string \<Rightarrow> bool" where
  gl_end: "globs [] []"
| gl_deep: "globs p t \<Longrightarrow> globs (CHR ''*'' # CHR ''*'' # p) (s @ t)"
| gl_deep_slash: "globs p t \<Longrightarrow> globs (CHR ''*'' # CHR ''*'' # CHR ''/'' # p) (s @ t)"
| gl_star: "p = [] \<or> hd p \<noteq> CHR ''*'' \<Longrightarrow> CHR ''/'' \<notin> set s \<Longrightarrow> globs p t \<Longrightarrow> globs (CHR ''*'' # p) (s @ t)"
| gl_any: "c \<noteq> CHR ''/'' \<Longrightarrow> globs p t \<Longrightarrow> globs (CHR ''?'' # p) (c # t)"
| gl_char: "c \<noteq> CHR ''*'' \<Longrightarrow> c \<noteq> CHR ''?'' \<Longrightarrow> globs p t \<Longrightarrow> globs (c # p) (c # t)"

lemma any_suffix_iff: "any_suffix f t \<longleftrightarrow> (\<exists>s u. t = s @ u \<and> f u)"
  unfolding any_suffix_def list_ex_upto by (rule some_suffix)

lemma star_loop_iff: "star_loop f t \<longleftrightarrow> (\<exists>s u. t = s @ u \<and> CHR ''/'' \<notin> set s \<and> f u)"
proof (induction t)
  case (Cons c t)
  let ?inside = "\<lambda>t. \<exists>s u. t = s @ u \<and> CHR ''/'' \<notin> set s \<and> f u"
  have "f (c # t) \<or> (c \<noteq> CHR ''/'' \<and> ?inside t)" if "?inside (c # t)"
  proof -
    from that obtain s u where "c # t = s @ u" "CHR ''/'' \<notin> set s" "f u" by blast
    then show ?thesis by (cases s) auto
  qed
  moreover have "?inside (c # t)" if "f (c # t)"
    using that by (metis append_Nil empty_iff list.set(1))
  moreover have "?inside (c # t)" if "c \<noteq> CHR ''/''" "?inside t"
    using that by (metis append_Cons set_ConsD)
  ultimately show ?case unfolding star_loop.simps Cons.IH by blast
qed simp

inductive_simps globs_Nil [simp]: "globs [] t"
inductive_simps globs_Cons: "globs (c # p) t"
inductive_simps globs_deep: "globs (CHR ''*'' # CHR ''*'' # p) t"

lemma globs_deep_skip:
  "globs (CHR ''*'' # CHR ''*'' # p) t \<longleftrightarrow>
     (\<exists>s u. t = s @ u \<and> globs (skip_slash p) u) \<or> (\<exists>s u. t = s @ u \<and> globs p u)"
  unfolding globs_deep by (cases p) (auto simp: skip_slash_def)

lemma globs_star:
  "p = [] \<or> hd p \<noteq> CHR ''*'' \<Longrightarrow>
     globs (CHR ''*'' # p) t \<longleftrightarrow> (\<exists>s u. t = s @ u \<and> CHR ''/'' \<notin> set s \<and> globs p u)"
  unfolding globs_Cons by auto

inductive_simps globs_any: "globs (CHR ''?'' # p) t"

lemma globs_char:
  "c \<noteq> CHR ''*'' \<Longrightarrow> c \<noteq> CHR ''?'' \<Longrightarrow> globs (c # p) t \<longleftrightarrow> (\<exists>u. t = c # u \<and> globs p u)"
  unfolding globs_Cons by auto

lemma glob_from_globs: "glob_from p t \<longleftrightarrow> globs p t"
proof (induction p t rule: glob_from.induct)
  case (2 c p t)
  show ?case
  proof (cases "c = CHR ''*'' \<and> p \<noteq> [] \<and> hd p = CHR ''*''")
    case True
    then obtain q where q: "p = CHR ''*'' # q" by (cases p) auto
    with True "2.IH"(1,2)
    have "glob_from (c # p) t \<longleftrightarrow>
        (\<exists>s u. t = s @ u \<and> globs (skip_slash q) u) \<or> (\<exists>s u. t = s @ u \<and> globs q u)"
      by (simp add: any_suffix_iff)
    also have "\<dots> \<longleftrightarrow> globs (c # p) t"
      using True q by (simp add: globs_deep_skip)
    finally show ?thesis .
  next
    case False
    then show ?thesis
      using "2.IH"(3-)
      by (cases "c = CHR ''*''"; cases "c = CHR ''?''"; cases t)
        (simp_all add: globs_star globs_any globs_char star_loop_iff, blast+)
  qed
qed simp

text \<open>
  C39: A blocked-file pattern means what the owner was told: \<open>*\<close> matches within one name and never
  across \<open>/\<close>, \<open>**\<close> matches across folders, \<open>?\<close> matches one character of a name; the search the
  code makes finds a match exactly when there is one.
\<close>

theorem glob_match_means:
  "glob_match pat txt \<longleftrightarrow> globs (to_lowercase pat) (to_lowercase txt)"
  by (simp add: glob_match_def glob_from_globs)

section \<open>Which pattern decides\<close>

text \<open>The body of a pattern, and whether it makes an exception.\<close>

definition is_exception :: "string \<Rightarrow> bool" where
  "is_exception p \<longleftrightarrow> strip_prefix ''!'' (trim p) \<noteq> None"

definition concerns :: "string \<Rightarrow> string \<Rightarrow> bool" where
  "concerns rel p = pattern_matches (case strip_prefix ''!'' (trim p) of None \<Rightarrow> trim p | Some e \<Rightarrow> e) rel"

lemma blocked_step_cases:
  "blocked_step rel hit p =
     (if concerns rel p then (if is_exception p then None else Some (trim p)) else hit)"
  by (simp add: blocked_step_def concerns_def is_exception_def Let_def split: option.split)

text \<open>
  The last pattern that concerns a file decides about it: it is blocked when that pattern is not
  an exception, and free when it is one or no pattern concerns the file.
\<close>

theorem last_pattern_decides:
  "blocked_by patterns rel =
     (case find (concerns rel) (rev patterns) of
        None \<Rightarrow> None
      | Some p \<Rightarrow> if is_exception p then None else Some (trim p))"
  by (induction patterns rule: rev_induct) (simp_all add: blocked_by_def blocked_step_cases)

section \<open>Blocked folders\<close>

lemma split_on_append: "split_on d (a @ d # b) = split_on d a @ split_on d b"
proof (induction a)
  case (Cons c a)
  then show ?case
    by (cases "split_on d a") (auto simp: split_on_def)
qed (simp add: split_on_def)

lemma find_SomeD: "find P xs = Some x \<Longrightarrow> P x \<and> x \<in> set xs"
  by (auto simp: find_Some_iff)

lemma list_ex_in: "list_ex P xs \<longleftrightarrow> (\<exists>x \<in> set xs. P x)"
  by (rule list_ex_iff)

text \<open>A pattern that matches a folder matches everything in it.\<close>

lemma pattern_matches_below:
  assumes "pattern_matches pat a"
  shows "pattern_matches pat (a @ CHR ''/'' # b)"
proof -
  have "take n (split_on CHR ''/'' (a @ CHR ''/'' # b)) = take n (split_on CHR ''/'' a)"
    if "n \<le> length (split_on CHR ''/'' a)" for n
    using that by (simp add: split_on_append)
  with assms show ?thesis
    by (auto simp: pattern_matches_def Let_def list_ex_in split_on_append split: if_splits)
qed

text \<open>
  Blocking a folder blocks everything in it. When no pattern makes an exception, a blocked
  folder's files are all blocked, however deep.
\<close>

theorem blocked_folder_blocks_its_files:
  assumes "blocked_by patterns folder \<noteq> None" "list_all (\<lambda>p. \<not> is_exception p) patterns"
  shows "blocked_by patterns (folder @ CHR ''/'' # rest) \<noteq> None"
proof -
  obtain p where p: "p \<in> set patterns" "concerns folder p"
    using assms(1) unfolding last_pattern_decides
    by (auto split: option.splits if_splits dest!: find_SomeD)
  then have "concerns (folder @ CHR ''/'' # rest) p"
    by (auto simp: concerns_def intro: pattern_matches_below)
  with p(1) have "find (concerns (folder @ CHR ''/'' # rest)) (rev patterns) \<noteq> None"
    by (auto simp: find_None_iff)
  then obtain q where "find (concerns (folder @ CHR ''/'' # rest)) (rev patterns) = Some q"
    "q \<in> set patterns"
    by (metis find_SomeD not_None_eq set_rev)
  with assms(2) show ?thesis
    by (simp add: last_pattern_decides list_all_iff)
qed

theorem blocked_folder_blocks_its_files_witness:
  "blocked_by [''.git'', ''*.key''] (''.git'' @ CHR ''/'' # ''hooks/x'') \<noteq> None"
proof (rule blocked_folder_blocks_its_files)
  show "blocked_by [''.git'', ''*.key''] ''.git'' \<noteq> None" by code_simp
  show "list_all (\<lambda>p. \<not> is_exception p) [''.git'', ''*.key'']" by code_simp
qed

section \<open>Confinement\<close>

lemma deepest_Some:
  assumes "deepest D p missing = Some (q, missing')"
  shows "disk_there D q \<and> (\<exists>below. p = q @ below \<and> missing' = missing @ rev below)"
  using assms
proof (induction D p missing rule: deepest.induct)
  case (1 D p missing)
  show ?case
  proof (cases "disk_there D p")
    case True
    with "1.prems" show ?thesis by (auto simp: deepest.simps [of D p])
  next
    case False
    with "1.prems" have p: "p \<noteq> []" "deepest D (butlast p) (missing @ [last p]) = Some (q, missing')"
      by (auto simp: deepest.simps [of D p] split: if_splits)
    with "1.IH" [OF False p(1) p(2)] obtain below where
      "disk_there D q" "butlast p = q @ below" "missing' = missing @ last p # rev below"
      by auto
    then have "p = q @ (below @ [last p])" "missing' = missing @ rev (below @ [last p])"
      using append_butlast_last_id [OF p(1)] by auto
    with \<open>disk_there D q\<close> show ?thesis by blast
  qed
qed

lemma check_all_Inr: "check_all ns = Inr () \<longleftrightarrow> list_all (\<lambda>n. check_name n = Inr ()) ns"
  by (induction ns) (auto split: sum.splits)

text \<open>A name that leads one folder down and nowhere else.\<close>

definition plain_name :: "string \<Rightarrow> bool" where
  "plain_name n \<longleftrightarrow> n \<noteq> [] \<and> n \<noteq> ''.'' \<and> n \<noteq> ''..'' \<and> CHR ''/'' \<notin> set n"

text \<open>
  What the operating system promises of a path with its links followed: every name in it leads one
  folder down (\<open>std::fs::canonicalize\<close>: all intermediate components normalized).
\<close>

definition disk_plain :: "disk \<Rightarrow> bool" where
  "disk_plain D \<longleftrightarrow> (\<forall>p q. disk_canonical D p = Some q \<longrightarrow> list_all plain_name q)"

text \<open>The place a path is written to name: its names in turn, from the top or from the folder.\<close>

definition written_path :: "path \<Rightarrow> string \<Rightarrow> path" where
  "written_path root given =
     (let i0 = (if trim given = [] then ''.'' else trim given); s = to_slashes i0
      in if looks_absolute s then path_components s else root @ path_components s)"

text \<open>What following the names of a path does, one at a time: down, or back up for \<open>..\<close>.\<close>

inductive walks_to :: "path \<Rightarrow> path \<Rightarrow> bool" where
  walk_start: "walks_to [] []"
| walk_down: "walks_to ns p \<Longrightarrow> n \<noteq> ''..'' \<Longrightarrow> walks_to (ns @ [n]) (p @ [n])"
| walk_up: "walks_to ns (p @ [n]) \<Longrightarrow> walks_to (ns @ [''..'']) p"

lemma normalize_walks:
  "normalize_from q ns = Some p \<Longrightarrow> walks_to ms q \<Longrightarrow> walks_to (ms @ ns) p"
proof (induction ns arbitrary: q ms)
  case (Cons n ns)
  show ?case
  proof (cases "n = ''..''")
    case True
    with Cons.prems have q: "q \<noteq> []" "normalize_from (butlast q) ns = Some p"
      by (auto split: if_splits)
    have "walks_to (ms @ [''..'']) (butlast q)"
      using Cons.prems(2) q(1) by (intro walk_up [where n = "last q"]) simp
    from Cons.IH [OF q(2) this] True show ?thesis by simp
  next
    case False
    with Cons.prems(1) have "normalize_from (q @ [n]) ns = Some p" by simp
    from Cons.IH [OF this walk_down [OF Cons.prems(2) False]] show ?thesis by simp
  qed
qed simp

lemma walks_to_names: "walks_to ns p \<Longrightarrow> set p \<subseteq> set ns - {''..''}"
  by (induction rule: walks_to.induct) auto

lemma split_on_no_sep: "x \<in> set (split_on sep s) \<Longrightarrow> sep \<notin> set x"
  unfolding split_on_def by (induction s arbitrary: x) (auto split: list.splits if_splits)

lemma components_plain: "n \<in> set (path_components s) \<Longrightarrow> n \<noteq> ''..'' \<Longrightarrow> plain_name n"
  by (auto simp: path_components_def plain_name_def dest: split_on_no_sep)

text \<open>
  What a path that resolved promises: the place the names written walk to is split into a part that is there and
  names below it; the real place of that part, with its links followed, is inside the folder, and no name of
  the resolved path climbs.
\<close>

definition confined :: "disk \<Rightarrow> path \<Rightarrow> string \<Rightarrow> resolved \<Rightarrow> bool" where
  "confined D root given r \<longleftrightarrow>
     prefix root (rs_abs r) \<and> list_all plain_name (rs_abs r) \<and> rs_root r = root \<and>
     rs_rel r = join ''/'' (drop (length root) (rs_abs r)) \<and>
     (\<exists>existing real new.
        walks_to (written_path root given) (existing @ new) \<and>
        disk_there D existing \<and> disk_canonical D existing = Some real \<and> prefix root real \<and>
        rs_abs r = real @ new \<and> (rs_exists r \<longleftrightarrow> new = []) \<and>
        list_all (\<lambda>n. check_name n = Inr ()) new)"

lemma follow_links_confined:
  assumes "follow_links D root input p = Inr r" and walk: "walks_to (written_path root given) p"
    and plain: "disk_plain D" "list_all plain_name root"
  shows "confined D root given r"
proof -
  obtain existing missing real where *:
    "deepest D p [] = Some (existing, missing)" "disk_canonical D existing = Some real"
    "prefix root real" "check_all missing = Inr ()"
    "r = \<lparr> rs_abs = real @ rev missing, rs_rel = join ''/'' (drop (length root) (real @ rev missing)),
           rs_exists = (missing = []), rs_root = root \<rparr>"
    using assms(1) by (auto simp: follow_links_def Let_def split: option.splits if_splits sum.splits)
  moreover have there: "disk_there D existing" "p = existing @ rev missing"
    using deepest_Some [OF *(1)] by auto
  moreover have "list_all plain_name (real @ rev missing)"
  proof -
    have "plain_name n" if "n \<in> set missing" for n
    proof -
      have "n \<in> set (written_path root given)" "n \<noteq> ''..''"
        using walks_to_names [OF walk] that there(2) by auto
      then show ?thesis
        using plain(2) by (auto simp: written_path_def Let_def list_all_iff split: if_splits intro: components_plain)
    qed
    moreover have "list_all plain_name real" using plain(1) *(2) by (simp add: disk_plain_def)
    ultimately show ?thesis by (auto simp: list_all_iff)
  qed
  moreover have "prefix root (real @ rev missing)"
    using *(3) by (rule prefix_prefix)
  moreover have "list_all (\<lambda>n. check_name n = Inr ()) (rev missing)"
    using *(4) by (simp add: check_all_Inr)
  ultimately show ?thesis
    using walk unfolding confined_def
    by (intro conjI exI [of _ existing] exI [of _ real] exI [of _ "rev missing"]) simp_all
qed

text \<open>
  C34: A path a worker names is resolved inside its project folder, or refused. Whatever the worker
  writes, and whatever links are on the disk, a path that resolves lies in the folder: following the
  names it is written with, what is there of the place leads, with its links followed, inside the folder; what is not
  there yet has only names that are allowed; no name of the resolved path is \<open>..\<close>, so it does not climb out
  again; and the name Guard checks patterns against is that real place's. (The folder's own path and a path with its
  links followed have no \<open>.\<close> or \<open>..\<close> in them.)
\<close>

theorem resolved_path_is_inside:
  assumes "disk_plain D" and "list_all plain_name root" and "resolve D root input = Inr r"
  shows "confined D root input r"
proof -
  obtain p i where p: "path_normalize (written_path root input) = Some p" "follow_links D root i p = Inr r"
    using assms(3)
    by (auto simp: resolve_def written_path_def Let_def split: if_splits option.splits sum.splits)
  from p(1) have "walks_to (written_path root input) p"
    using normalize_walks [of "[]" "written_path root input" p "[]"] by (simp add: path_normalize_def walk_start)
  from follow_links_confined [OF p(2) this assms(1,2)] show ?thesis .
qed

definition demo_disk :: disk where
  "demo_disk =
     \<lparr> disk_there = (\<lambda>p. p \<in> {[], [''proj''], [''proj'', ''src''], [''proj'', ''out''], [''tmp'']}),
       disk_canonical =
         (\<lambda>p. if p = [''proj'', ''out''] then Some [''tmp'']
              else if p \<in> {[], [''proj''], [''proj'', ''src''], [''tmp'']} then Some p else None) \<rparr>"

theorem resolved_path_is_inside_witness:
  "confined demo_disk [''proj''] ''src/./x/../new.rs''
     \<lparr> rs_abs = [''proj'', ''src'', ''new.rs''], rs_rel = ''src/new.rs'', rs_exists = False,
       rs_root = [''proj''] \<rparr>"
proof (rule resolved_path_is_inside)
  show "disk_plain demo_disk"
    by (auto simp: disk_plain_def demo_disk_def plain_name_def split: if_splits)
  show "list_all plain_name [''proj'']"
    by code_simp
  show "resolve demo_disk [''proj''] ''src/./x/../new.rs'' =
    Inr \<lparr> rs_abs = [''proj'', ''src'', ''new.rs''], rs_rel = ''src/new.rs'', rs_exists = False,
       rs_root = [''proj''] \<rparr>"
    by code_simp
qed

text \<open>A link that leads out is refused, and so is a climb out of the folder.\<close>

lemma demo_link_refused:
  "resolve demo_disk [''proj''] ''out'' = Inl (Outside ''out leads outside the project folder through a link'')"
  by code_simp

lemma demo_climb_refused:
  "resolve demo_disk [''proj''] ''../tmp'' = Inl (outside ''../tmp'')"
  by code_simp

text \<open>A path that still leads inside right before use is, followed through its links, inside.\<close>

lemma still_inside_Inr:
  "still_inside D r = Inr () \<Longrightarrow>
     \<exists>existing real below. rs_abs r = existing @ below \<and> disk_canonical D existing = Some real \<and>
       prefix (rs_root r) real"
  by (auto simp: still_inside_def Let_def split: option.splits if_splits dest!: deepest_Some)

end
