(* ===== verification/Guard_Sensitive.thy ===== *)
theory Guard_Sensitive
  imports Guard_Scripts Guard_Paths
begin

text \<open>
  The sensitive-action check (\<open>crates/guard/src/sensitive.rs\<close>): the kinds of actions that need
  the owner's approval, recognized in the words of a command line or a script, and programs that
  delete, move or overwrite outside the project folder. As for \<open>Guard_Paths\<close>, the program runs on
  a Mac or a Linux PC; \<open>cwd\<close> is the folder the program itself runs in, where a relative path
  would be looked up.
\<close>

section \<open>Words\<close>

record swords =
  w_program :: "string option"
  w_list :: "string list"
  w_joined :: string

definition words_command :: "command_line \<Rightarrow> swords" where
  "words_command cmd =
     (let ws = words_lower cmd
      in \<lparr> w_program = Some (hd ws), w_list = ws, w_joined = join '' '' ws \<rparr>)"

text \<open>\<open>char::is_alphanumeric\<close> on Latin-1.\<close>

definition is_alphanumeric :: "char \<Rightarrow> bool" where
  "is_alphanumeric c \<longleftrightarrow>
     is_ascii_alphanumeric c \<or> code c \<in> {170, 178, 179, 181, 185, 186, 188, 189, 190} \<or>
     (192 \<le> code c \<and> code c \<noteq> 215 \<and> code c \<noteq> 247)"

definition words_script :: "string \<Rightarrow> swords" where
  "words_script t =
     (let ws = filter (\<lambda>w. w \<noteq> [])
                 (split_chars (\<lambda>c. \<not> (is_alphanumeric c \<or> c \<in> set ''-_.:'')) (to_lowercase t))
      in \<lparr> w_program = None, w_list = ws, w_joined = join '' '' ws \<rparr>)"

definition program_is :: "swords \<Rightarrow> string list \<Rightarrow> bool" where
  "program_is w names =
     (case w_program w of
        Some p \<Rightarrow> p \<in> set names
      | None \<Rightarrow> list_ex (\<lambda>x. x \<in> set names) (w_list w))"

definition w_has :: "swords \<Rightarrow> string \<Rightarrow> bool" where
  "w_has w word \<longleftrightarrow> word \<in> set (w_list w)"

definition has_any :: "swords \<Rightarrow> string list \<Rightarrow> bool" where
  "has_any w ws = list_ex (w_has w) ws"

definition phrase :: "swords \<Rightarrow> string \<Rightarrow> bool" where
  "phrase w p = contains ('' '' @ w_joined w @ '' '') ('' '' @ p @ '' '')"

definition w_contains :: "swords \<Rightarrow> string \<Rightarrow> bool" where
  "w_contains w t = contains (w_joined w) t"

definition program_with :: "swords \<Rightarrow> string list \<Rightarrow> string list \<Rightarrow> bool" where
  "program_with w ps subs \<longleftrightarrow> program_is w ps \<and> has_any w subs"

definition some_word :: "swords \<Rightarrow> (string \<Rightarrow> bool) \<Rightarrow> bool" where
  "some_word w P = list_ex P (w_list w)"

section \<open>Kinds\<close>

definition cloud_clis :: "string list" where
  "cloud_clis =
     [''aws'', ''az'', ''gcloud'', ''gsutil'', ''doctl'', ''heroku'', ''fly'', ''flyctl'', ''hcloud'',
      ''linode-cli'', ''oci'', ''ibmcloud'']"

definition is_privilege :: "swords \<Rightarrow> bool" where
  "is_privilege w \<longleftrightarrow>
     program_is w [''sudo'', ''doas'', ''su'', ''runas'', ''pkexec'', ''gsudo'', ''psexec''] \<or>
     phrase w ''-verb runas'' \<or> (w_program w = None \<and> w_has w ''runas'')"

definition is_credentials :: "swords \<Rightarrow> bool" where
  "is_credentials w \<longleftrightarrow>
     program_is w [''passwd'', ''chpasswd'', ''cmdkey'', ''ssh-keygen'', ''ssh-add''] \<or>
     phrase w ''net user'' \<or>
     program_with w [''gh''] [''auth''] \<or>
     program_with w [''docker'', ''podman''] [''login''] \<or>
     program_with w [''npm'', ''pnpm'', ''yarn''] [''token'', ''login'', ''adduser''] \<or>
     phrase w ''git credential'' \<or>
     (program_is w [''git''] \<and> w_has w ''config'' \<and> w_contains w ''credential'') \<or>
     (program_is w [''aws''] \<and>
      some_word w (\<lambda>x. ends_with ''access-key'' x \<or> ends_with ''login-profile'' x \<or> x = ''secretsmanager'')) \<or>
     (program_is w [''az''] \<and> (w_has w ''credential'' \<or> phrase w ''keyvault secret'')) \<or>
     (program_is w [''gcloud''] \<and> w_has w ''keys'' \<and> w_has w ''iam'') \<or>
     phrase w ''create secret'' \<or>
     program_with w [''security''] [''add-generic-password'', ''delete-generic-password''] \<or>
     has_any w [''set-secret'', ''remove-secret'', ''new-localuser'', ''set-localuser''] \<or>
     program_with w [''vault''] [''put'', ''delete'', ''write''] \<or>
     (program_is w [''op''] \<and> w_has w ''item'')"

definition is_dns :: "swords \<Rightarrow> bool" where
  "is_dns w \<longleftrightarrow>
     w_has w ''route53'' \<or> phrase w ''network dns'' \<or>
     (program_is w [''gcloud''] \<and> w_has w ''dns'') \<or>
     program_is w [''nsupdate''] \<or>
     some_word w (\<lambda>x. contains x ''dnsserverresourcerecord'' \<or> contains x ''dnsclientserveraddress'') \<or>
     phrase w ''set dns'' \<or> phrase w ''compute domain''"

definition is_database :: "swords \<Rightarrow> bool" where
  "is_database w \<longleftrightarrow>
     phrase w ''drop table'' \<or> phrase w ''drop database'' \<or> phrase w ''drop schema'' \<or>
     phrase w ''truncate table'' \<or> phrase w ''delete from'' \<or>
     has_any w [''flushall'', ''flushdb'', ''dropdb'', ''db:drop'', ''db:reset'', ''dropdatabase''] \<or>
     w_contains w ''dropdatabase'' \<or> phrase w ''migrate reset'' \<or> phrase w ''manage.py flush''"

definition is_cloud_delete :: "swords \<Rightarrow> bool" where
  "is_cloud_delete w \<longleftrightarrow>
     (program_is w cloud_clis \<and>
      some_word w (\<lambda>x. starts_with ''delete'' x \<or> starts_with ''terminate'' x \<or> x = ''destroy'' \<or>
                       x = ''apps:destroy'' \<or> x = ''rb'')) \<or>
     program_with w [''terraform'', ''pulumi'', ''cdk'', ''tofu''] [''destroy''] \<or>
     program_with w [''kubectl'', ''oc''] [''delete''] \<or>
     program_with w [''helm''] [''uninstall'', ''delete''] \<or>
     program_with w [''sls'', ''serverless''] [''remove''] \<or>
     (program_is w [''gsutil''] \<and> w_has w ''rm'')"

definition is_production :: "swords \<Rightarrow> bool" where
  "is_production w \<longleftrightarrow>
     program_with w [''terraform'', ''tofu''] [''apply'', ''import''] \<or>
     program_with w [''pulumi''] [''up'', ''update''] \<or>
     program_with w [''kubectl'', ''oc'']
       [''apply'', ''rollout'', ''scale'', ''set'', ''patch'', ''replace'', ''edit'', ''create''] \<or>
     program_with w [''helm''] [''install'', ''upgrade'', ''rollback''] \<or>
     program_is w [''ansible-playbook'', ''kamal'', ''cap''] \<or>
     has_any w [''deploy'', ''--prod'', ''--production''] \<or>
     some_word w (\<lambda>x. starts_with ''deploy:'' x) \<or>
     program_with w [''railway''] [''up''] \<or>
     program_with w [''az''] [''up'']"

definition is_payment :: "swords \<Rightarrow> bool" where
  "is_payment w \<longleftrightarrow>
     (program_is w [''stripe'', ''paypal'', ''braintree''] \<and>
      \<not> (1 < length (w_list w) \<and>
         w_list w ! 1 \<in> {''--version'', ''-v'', ''help'', ''--help'', ''logs'', ''listen'', ''get'', ''list''})) \<or>
     has_any w [''payouts'', ''refunds'', ''payment_intents'', ''charges'', ''transfers'']"

definition is_outbound :: "swords \<Rightarrow> bool" where
  "is_outbound w \<longleftrightarrow>
     program_with w [''git''] [''push''] \<or>
     program_with w [''npm'', ''pnpm'', ''yarn'', ''cargo'', ''gem'', ''nuget'', ''twine'', ''poetry'', ''flit'']
       [''publish'', ''push'', ''upload''] \<or>
     phrase w ''nuget push'' \<or>
     program_with w [''docker'', ''podman'', ''buildah''] [''push''] \<or>
     (program_is w [''gh''] \<and>
      (phrase w ''pr create'' \<or> phrase w ''pr merge'' \<or> phrase w ''pr comment'' \<or>
       phrase w ''pr review'' \<or> phrase w ''issue create'' \<or> phrase w ''issue comment'' \<or>
       phrase w ''release create'' \<or> phrase w ''repo create'' \<or>
       (w_has w ''api'' \<and> has_any w [''-x'', ''--method'', ''-f'', ''--field'']))) \<or>
     program_is w [''sendmail'', ''mail'', ''mailx'', ''mutt'', ''twilio''] \<or>
     w_has w ''send-mailmessage'' \<or>
     (program_is w [''curl'', ''wget'', ''invoke-webrequest'', ''invoke-restmethod''] \<and>
      has_any w [''-d'', ''--data'', ''--data-raw'', ''--data-binary'', ''-f'', ''--form'', ''-t'',
                 ''--upload-file'', ''--post-data'', ''-body'']) \<or>
     (program_is w [''aws''] \<and> phrase w ''sns publish'') \<or>
     (program_is w [''aws''] \<and> w_has w ''ses'' \<and> has_any w [''send-email'', ''send-raw-email''])"

definition sens_classify :: "swords \<Rightarrow> (sensitive_kind \<times> string) option" where
  "sens_classify w =
     (if is_privilege w then Some (Privilege, ''it runs a program as administrator'')
      else if is_credentials w
      then Some (Credentials, ''it changes a password, key, or other credential'')
      else if is_dns w then Some (Dns, ''it changes DNS records or settings'')
      else if is_database w then Some (Database, ''it deletes or wipes database data'')
      else if is_cloud_delete w then Some (CloudDelete, ''it deletes cloud resources'')
      else if is_production w then Some (Production, ''it deploys to or changes a live system'')
      else if is_payment w then Some (Payment, ''it can move money'')
      else if is_outbound w
      then Some (Outbound, ''it sends or publishes something outside this computer'')
      else None)"

section \<open>Places outside the folder\<close>

definition destructive :: "string list" where
  "destructive =
     [''rm'', ''rmdir'', ''del'', ''erase'', ''rd'', ''remove-item'', ''mv'', ''move'', ''move-item'',
      ''cp'', ''copy'', ''copy-item'', ''xcopy'', ''robocopy'', ''rsync'', ''dd'', ''truncate'', ''shred'',
      ''set-content'', ''out-file'', ''rename-item'', ''ren'', ''rni'', ''ri'', ''mi'', ''cpi'', ''sc'']"

text \<open>
  \<open>leaves_through_a_link\<close>. \<open>p\<close> is looked up from \<open>base\<close>; a relative path, looked up from the
  folder the program runs in, has no parent above its first name.
\<close>

definition leaves_through_a_link :: "disk \<Rightarrow> path \<Rightarrow> path \<Rightarrow> path \<Rightarrow> bool" where
  "leaves_through_a_link D base p root =
     (case disk_canonical D root of
        None \<Rightarrow> False
      | Some real_root \<Rightarrow>
          (case find (\<lambda>q. disk_there D (base @ q) \<and> (q \<noteq> [] \<or> base = []))
                  (rev (prefixes p)) of
             None \<Rightarrow> False
           | Some q \<Rightarrow>
               (case disk_canonical D (base @ q) of None \<Rightarrow> False | Some real \<Rightarrow> \<not> prefix real_root real)))"

definition path_shown :: "path \<Rightarrow> string" where
  "path_shown root = CHR ''/'' # join ''/'' root"

text \<open>Climbing with \<open>..\<close>: the depth after each part, from the start.\<close>

fun climbs_out :: "int \<Rightarrow> string list \<Rightarrow> bool" where
  "climbs_out depth [] = False"
| "climbs_out depth (part # parts) =
     (if part = [] \<or> part = ''.'' then climbs_out depth parts
      else if part = ''..'' then depth - 1 < 0 \<or> climbs_out (depth - 1) parts
      else climbs_out (depth + 1) parts)"

text \<open>The place an argument names: without the quotes around it, after an option's \<open>=\<close>.\<close>

definition is_quote :: "char \<Rightarrow> bool" where
  "is_quote c \<longleftrightarrow> c = quotes \<or> c = apostrophe"

definition option_value :: "string \<Rightarrow> string" where
  "option_value arg0 =
     (let arg = trim_end_matches is_quote (trim_start_matches is_quote arg0) in
      case split_once CHR ''='' arg of
        None \<Rightarrow> arg
      | Some (k, v) \<Rightarrow> if starts_with ''-'' k then v else arg)"

definition is_slash_or_back :: "char \<Rightarrow> bool" where
  "is_slash_or_back c \<longleftrightarrow> c = CHR ''/'' \<or> c = backslash"

definition escapes :: "disk \<Rightarrow> path \<Rightarrow> string \<Rightarrow> path \<Rightarrow> bool" where
  "escapes D cwd arg0 root =
     (let arg = option_value arg0 in
      if arg = [] \<or> (starts_with ''-'' arg \<and> \<not> list_ex is_slash_or_back arg) then False
      else if starts_with ''/'' arg \<or> starts_with [backslash] arg \<or> starts_with ''~'' arg \<or> has_drive arg
      then
        (let named = to_slashes arg; shown_root = to_slashes (path_shown root);
             inside = (named = shown_root \<or> starts_with (shown_root @ ''/'') named)
         in \<not> inside \<or>
            leaves_through_a_link D (if starts_with ''/'' arg then [] else cwd) (path_components arg) root)
      else
        (contains arg ''..'' \<and> climbs_out 0 (split_chars is_slash_or_back arg)) \<or>
        leaves_through_a_link D [] (root @ path_components arg) root)"

definition destroys_outside :: "disk \<Rightarrow> path \<Rightarrow> command_line \<Rightarrow> path \<Rightarrow> bool" where
  "destroys_outside D cwd cmd workspace \<longleftrightarrow>
     list_ex (\<lambda>c. program_is (words_command c) destructive) (spellings cmd) \<and>
     list_ex (\<lambda>a. escapes D cwd a workspace) (cl_args cmd)"

definition outside_words :: string where
  "outside_words = ''it deletes, moves, or overwrites files outside the project folder''"

definition sensitive_command ::
  "disk \<Rightarrow> path \<Rightarrow> command_line \<Rightarrow> path \<Rightarrow> (sensitive_kind \<times> string) option" where
  "sensitive_command D cwd cmd workspace =
     (case sens_classify (words_command cmd) of
        Some hit \<Rightarrow> Some hit
      | None \<Rightarrow>
          if destroys_outside D cwd cmd workspace then Some (OutsideWorkspace, outside_words) else None)"

definition sensitive_script ::
  "disk \<Rightarrow> path \<Rightarrow> string \<Rightarrow> path \<Rightarrow> (sensitive_kind \<times> string) option" where
  "sensitive_script D cwd t workspace =
     (case sens_classify (words_script t) of
        Some hit \<Rightarrow> Some hit
      | None \<Rightarrow>
          if list_ex (\<lambda>cmd. destroys_outside D cwd cmd workspace) (programs (statements t))
          then Some (OutsideWorkspace, outside_words) else None)"

section \<open>Climbing out\<close>

text \<open>
  The count of parts agrees with resolving \<open>..\<close> for real: an argument climbs out exactly when
  resolving it from the folder would leave the folder.
\<close>

definition real_parts :: "string list \<Rightarrow> string list" where
  "real_parts parts = filter (\<lambda>n. n \<noteq> [] \<and> n \<noteq> ''.'') parts"

lemma climbs_out_normalize:
  "climbs_out (int (length p)) parts \<longleftrightarrow> normalize_from p (real_parts parts) = None"
proof (induction parts arbitrary: p)
  case (Cons part parts)
  show ?case
  proof (cases "part = ''..''")
    case True
    show ?thesis
    proof (cases p rule: rev_cases)
      case (snoc q n)
      then have "int (length p) - 1 = int (length q)" by simp
      with True snoc Cons.IH [of q] show ?thesis by (simp add: real_parts_def)
    qed (simp add: True real_parts_def)
  next
    case False
    with Cons.IH [of p] Cons.IH [of "p @ [part]"] show ?thesis
      by (auto simp: real_parts_def add.commute)
  qed
qed (simp add: real_parts_def)

text \<open>
  A program that deletes, moves or overwrites, under its own name or a PowerShell alias, is
  noticed whenever one of its arguments names a full path outside the project folder, or climbs
  out of the folder with \<open>..\<close> (exactly when resolving it would leave the folder).
\<close>

theorem destroying_outside_is_noticed:
  assumes "program_is (words_command c) destructive" "c \<in> set (spellings cmd)" "a \<in> set (cl_args cmd)"
    and "option_value a = arg" "\<not> starts_with ''-'' arg"
    and "(starts_with ''/'' arg \<and> to_slashes arg \<noteq> to_slashes (path_shown root) \<and>
           \<not> starts_with (to_slashes (path_shown root) @ ''/'') (to_slashes arg)) \<or>
         (arg \<noteq> [] \<and> contains arg ''..'' \<and> \<not> looks_absolute arg \<and> \<not> starts_with ''~'' arg \<and>
           normalize_from [] (real_parts (split_chars is_slash_or_back arg)) = None)"
  shows "sensitive_command D cwd cmd root \<noteq> None"
proof -
  have "escapes D cwd a root"
    using assms(4-6) climbs_out_normalize [of "[]" "split_chars is_slash_or_back arg"]
    by (auto simp: escapes_def Let_def looks_absolute_def starts_with_def)
  with assms(1-3) have "destroys_outside D cwd cmd root"
    by (auto simp: destroys_outside_def list_ex_iff)
  then show ?thesis
    by (simp add: sensitive_command_def split: option.split)
qed

theorem destroying_outside_is_noticed_witness:
  "sensitive_command demo_disk [] \<lparr> cl_program = ''ri'', cl_args = [''../tmp''] \<rparr> [''proj''] \<noteq> None"
proof (rule destroying_outside_is_noticed)
  let ?cmd = "\<lparr> cl_program = ''ri'', cl_args = [''../tmp''] \<rparr>"
  show "program_is (words_command \<lparr> cl_program = ''remove-item'', cl_args = [''../tmp''] \<rparr>) destructive"
    by code_simp
  show "\<lparr> cl_program = ''remove-item'', cl_args = [''../tmp''] \<rparr> \<in> set (spellings ?cmd)" by code_simp
  show "''../tmp'' \<in> set (cl_args ?cmd)" by simp
  show "option_value ''../tmp'' = ''../tmp''" by code_simp
  show "\<not> starts_with ''-'' ''../tmp''" by code_simp
  show "(starts_with ''/'' ''../tmp'' \<and> to_slashes ''../tmp'' \<noteq> to_slashes (path_shown [''proj'']) \<and>
           \<not> starts_with (to_slashes (path_shown [''proj'']) @ ''/'') (to_slashes ''../tmp'')) \<or>
         (''../tmp'' \<noteq> [] \<and> contains ''../tmp'' ''..'' \<and> \<not> looks_absolute ''../tmp'' \<and>
          \<not> starts_with ''~'' ''../tmp'' \<and>
          normalize_from [] (real_parts (split_chars is_slash_or_back ''../tmp'')) = None)"
    by code_simp
qed

end
