(* ===== verification/Guard_Server_Kinds.thy ===== *)
theory Guard_Server_Kinds
  imports Guard_Sensitive
begin

text \<open>
  The kinds of commands a server can allow (\<open>crates/guard/src/servers.rs\<close>, \<open>classify\<close> and the
  tables and functions it uses): what a program with its arguments does, looking through \<open>sudo\<close>
  and wrappers such as \<open>nice\<close>. The one big \<open>match\<close> of the source's \<open>class_of\<close> is the definition
  \<open>class_of\<close>; an arm of more than a few lines has a definition of its own, named after its program.
\<close>

datatype command_class = KLook | KServices | KChange | KDestroy | KAdmin | KOther

definition class_all :: "command_class list" where
  "class_all = [KLook, KServices, KChange, KDestroy, KAdmin, KOther]"

fun class_label :: "command_class \<Rightarrow> string" where
  "class_label KLook = ''Look around''"
| "class_label KServices = ''Start, stop, and restart services''"
| "class_label KChange = ''Install, deploy, and change files''"
| "class_label KDestroy = ''Delete, wipe, or shut down''"
| "class_label KAdmin = ''Run as administrator''"
| "class_label KOther = ''Other commands''"

text \<open>The one reason a program is never allowed (the source's \<open>HOP\<close>).\<close>

datatype never = Hop

definition never_programs :: "string list" where
  "never_programs =
     [''ssh'', ''scp'', ''sftp'', ''slogin'', ''rsh'', ''rlogin'', ''rcp'', ''rexec'', ''telnet'',
      ''mosh'', ''sshpass'', ''ssh-copy-id'', ''ssh-keyscan'', ''ssh-add'', ''ssh-agent'',
      ''ssh-keygen'', ''nc'', ''ncat'', ''netcat'', ''socat'', ''ftp'', ''lftp'', ''tftp'',
      ''smbclient'', ''rdesktop'', ''xfreerdp'', ''vncviewer'', ''autossh'', ''sshuttle'',
      ''proxychains'', ''chisel'', ''ngrok'', ''nmap'', ''masscan'', ''zmap'', ''arp-scan'',
      ''netdiscover'', ''nbtscan'', ''fping'', ''hping3'', ''tcpdump'', ''tshark'', ''wireshark'',
      ''ettercap'', ''bettercap'', ''responder'', ''arpspoof'', ''hydra'', ''medusa'', ''ncrack'',
      ''john'', ''hashcat'', ''crackmapexec'', ''netexec'', ''mimikatz'', ''impacket'',
      ''secretsdump.py'', ''psexec.py'', ''linpeas.sh'', ''lazagne'']"

definition look_programs :: "string list" where
  "look_programs =
     [''ls'', ''ll'', ''dir'', ''cat'', ''head'', ''tail'', ''less'', ''more'', ''grep'', ''egrep'',
      ''fgrep'', ''zgrep'', ''rg'', ''ag'', ''stat'', ''file'', ''wc'', ''du'', ''df'', ''free'',
      ''uptime'', ''uname'', ''whoami'', ''id'', ''groups'', ''ps'', ''pstree'', ''pgrep'',
      ''pidof'', ''w'', ''who'', ''last'', ''lastlog'', ''printenv'', ''which'', ''whereis'',
      ''type'', ''echo'', ''printf'', ''pwd'', ''lsblk'', ''lscpu'', ''lsmem'', ''lsof'', ''lspci'',
      ''lsusb'', ''ss'', ''netstat'', ''ping'', ''ping6'', ''traceroute'', ''tracepath'', ''mtr'',
      ''dig'', ''nslookup'', ''host'', ''getent'', ''locale'', ''vmstat'', ''iostat'', ''mpstat'',
      ''sar'', ''nproc'', ''arch'', ''tree'', ''md5sum'', ''sha1sum'', ''sha256sum'', ''sha512sum'',
      ''cksum'', ''diff'', ''cmp'', ''basename'', ''dirname'', ''realpath'', ''readlink'', ''uniq'',
      ''cut'', ''tr'', ''column'', ''jq'', ''yq'', ''xxd'', ''hexdump'', ''od'', ''strings'',
      ''zcat'', ''bzcat'', ''xzcat'', ''tac'', ''nl'', ''fold'', ''locate'', ''test'', ''true'',
      ''false'', ''sleep'', ''ulimit'', ''getconf'', ''lsattr'', ''findmnt'', ''blkid'', ''numfmt'',
      ''expr'', ''seq'', ''cal'', ''tty'']"

definition is_version_only :: "string list \<Rightarrow> bool" where
  "is_version_only args \<longleftrightarrow>
     (case args of
        [a] \<Rightarrow> a \<in> set [''--version'', ''-v'', ''-V'', ''version'', ''--help'', ''-h'']
      | _ \<Rightarrow> False)"

definition is_option :: "string \<Rightarrow> bool" where
  "is_option a \<longleftrightarrow> starts_with ''-'' a"

definition sub :: "string list \<Rightarrow> string option" where
  "sub args = find (\<lambda>a. \<not> is_option a) args"

definition sub2 :: "string list \<Rightarrow> string option \<times> string option" where
  "sub2 args =
     (case filter (\<lambda>a. \<not> is_option a) args of
        [] \<Rightarrow> (None, None)
      | [a] \<Rightarrow> (Some a, None)
      | a # b # _ \<Rightarrow> (Some a, Some b))"

definition has :: "string list \<Rightarrow> string list \<Rightarrow> bool" where
  "has args ws \<longleftrightarrow> list_ex (\<lambda>a. a \<in> set ws) args"

definition short_flag :: "string list \<Rightarrow> char \<Rightarrow> bool" where
  "short_flag args c \<longleftrightarrow>
     list_ex (\<lambda>a. is_option a \<and> \<not> starts_with ''--'' a \<and> c \<in> set (tl a)) args"

text \<open>\<open>Some("a" | "b" | ...)\<close> as a pattern.\<close>

definition one_of :: "string option \<Rightarrow> string list \<Rightarrow> bool" where
  "one_of s ws \<longleftrightarrow> (case s of None \<Rightarrow> False | Some w \<Rightarrow> w \<in> set ws)"

section \<open>The arms of \<open>class_of\<close>\<close>

definition class_rsync :: "string list \<Rightarrow> never + command_class" where
  "class_rsync args =
     (let remote =
        list_ex (\<lambda>a. \<not> is_option a \<and>
                    (case split_once CHR '':'' a of
                       None \<Rightarrow> False
                     | Some (h, _) \<Rightarrow> h \<noteq> [] \<and> CHR ''/'' \<notin> set h)) args \<or>
        has args [''-e'', ''--rsh''] \<or>
        list_ex (\<lambda>a. starts_with ''--rsh='' a \<or> starts_with ''-e'' a) args
      in if remote then Inl Hop
         else Inr (if list_ex (starts_with ''--delete'') args then KDestroy else KChange))"

definition class_date :: "string list \<Rightarrow> command_class" where
  "class_date args =
     (if has args [''-s'', ''--set''] \<or> list_ex (\<lambda>a. \<not> starts_with_any ''-+'' a) args
      then KOther else KLook)"

definition class_hostname :: "string list \<Rightarrow> command_class" where
  "class_hostname args =
     (if list_all is_option args \<and> \<not> has args [''-F'', ''--file'', ''-b'', ''--boot'']
      then KLook else KOther)"

definition class_hostnamectl :: "string option \<Rightarrow> command_class" where
  "class_hostnamectl s =
     (if s = None \<or> one_of s [''status'', ''show'', ''list-timezones''] then KLook else KOther)"

definition class_find :: "string list \<Rightarrow> command_class" where
  "class_find args =
     (if has args [''-delete''] then KDestroy
      else if has args [''-exec'', ''-execdir'', ''-ok'', ''-okdir'', ''-fprint'', ''-fprint0'',
                        ''-fprintf'', ''-fls'']
      then KOther else KLook)"

definition class_sed :: "string list \<Rightarrow> command_class" where
  "class_sed args =
     (if list_ex (\<lambda>a. a = ''-i'' \<or> starts_with ''-i'' a \<or> a = ''--in-place'' \<or>
                     starts_with ''--in-place='' a) args
      then KChange else KLook)"

definition class_sort :: "string list \<Rightarrow> command_class" where
  "class_sort args =
     (if short_flag args CHR ''o'' \<or> list_ex (starts_with ''--output'') args then KChange else KLook)"

definition class_awk :: "string list \<Rightarrow> command_class" where
  "class_awk args =
     (if list_ex (\<lambda>a. contains a ''system'' \<or> CHR ''>'' \<in> set a \<or> CHR ''|'' \<in> set a \<or>
                     contains a ''getline'') args
      then KOther else KLook)"

definition class_journalctl :: "string list \<Rightarrow> command_class" where
  "class_journalctl args =
     (if list_ex (starts_with ''--vacuum'') args then KDestroy
      else if has args [''--rotate'', ''--flush'', ''--relinquish-var'', ''--sync''] then KChange
      else KLook)"

definition class_dmesg :: "string list \<Rightarrow> command_class" where
  "class_dmesg args =
     (if short_flag args CHR ''c'' \<or> short_flag args CHR ''C'' \<or> has args [''--clear'', ''--read-clear'']
      then KDestroy else KLook)"

definition class_ip :: "string option \<Rightarrow> string list \<Rightarrow> command_class" where
  "class_ip s args =
     (if s = None then KLook
      else if has args [''add'', ''del'', ''delete'', ''change'', ''replace'', ''set'', ''flush'',
                        ''append'']
      then KOther else KLook)"

definition class_systemctl :: "string option \<Rightarrow> command_class" where
  "class_systemctl s =
     (if s = None \<or>
         one_of s [''status'', ''is-active'', ''is-enabled'', ''is-failed'', ''list-units'',
                   ''list-unit-files'', ''list-timers'', ''list-sockets'', ''list-jobs'', ''show'',
                   ''cat'', ''list-dependencies'', ''get-default'']
      then KLook
      else if one_of s [''start'', ''stop'', ''restart'', ''reload'', ''try-restart'',
                        ''reload-or-restart'', ''try-reload-or-restart'', ''enable'', ''disable'',
                        ''daemon-reload'', ''reset-failed'', ''kill'', ''mask'', ''unmask'']
      then KServices
      else if one_of s [''reboot'', ''poweroff'', ''halt'', ''suspend'', ''hibernate'', ''kexec'',
                        ''emergency'', ''rescue'', ''isolate'', ''default'', ''soft-reboot'']
      then KDestroy
      else if one_of s [''edit'', ''set-property'', ''link'', ''preset'', ''preset-all'', ''revert'',
                        ''set-default'']
      then KChange
      else KOther)"

definition class_service :: "string list \<Rightarrow> string option \<Rightarrow> command_class" where
  "class_service args s2 =
     (if has args [''--status-all''] \<or> s2 = Some ''status'' then KLook
      else if one_of s2 [''start'', ''stop'', ''restart'', ''reload'', ''force-reload'', ''try-restart'']
      then KServices else KOther)"

definition class_kubectl :: "string option \<Rightarrow> string option \<Rightarrow> command_class" where
  "class_kubectl s s2 =
     (if one_of s [''get'', ''describe'', ''logs'', ''top'', ''version'', ''explain'',
                   ''api-resources'', ''api-versions'', ''cluster-info'', ''auth'', ''diff'']
      then KLook
      else if s = Some ''config''
      then (if one_of s2 [''view'', ''get-contexts'', ''current-context'', ''get-clusters'']
            then KLook else KOther)
      else if s = Some ''rollout''
      then (if one_of s2 [''status'', ''history''] then KLook
            else if one_of s2 [''restart'', ''pause'', ''resume''] then KServices
            else if s2 = Some ''undo'' then KChange
            else KOther)
      else if one_of s [''scale'', ''cordon'', ''uncordon''] then KServices
      else if one_of s [''apply'', ''create'', ''patch'', ''set'', ''replace'', ''edit'', ''label'',
                        ''annotate'', ''expose'', ''autoscale'']
      then KChange
      else if one_of s [''delete'', ''drain'', ''taint''] then KDestroy
      else KOther)"

definition class_packages :: "string option \<Rightarrow> command_class" where
  "class_packages s =
     (if one_of s [''list'', ''search'', ''show'', ''policy'', ''info'', ''madison'', ''depends'',
                   ''rdepends'', ''check-update'', ''history'', ''repolist'', ''list-installed'',
                   ''provides'', ''whatprovides'']
      then KLook
      else if one_of s [''update'', ''upgrade'', ''install'', ''reinstall'', ''dist-upgrade'',
                        ''full-upgrade'', ''refresh'', ''makecache'', ''add'', ''fix'', ''download'',
                        ''source'', ''build-dep'']
      then KChange
      else if one_of s [''remove'', ''purge'', ''autoremove'', ''erase'', ''del'', ''clean'',
                        ''autoclean'', ''uninstall'']
      then KDestroy
      else KOther)"

definition class_dpkg :: "string list \<Rightarrow> command_class" where
  "class_dpkg args =
     (if short_flag args CHR ''l'' \<or> short_flag args CHR ''L'' \<or> short_flag args CHR ''s'' \<or>
         short_flag args CHR ''q'' \<or> has args [''--list'', ''--status'', ''--listfiles'', ''--query'']
      then KLook
      else if short_flag args CHR ''r'' \<or> short_flag args CHR ''P'' \<or> short_flag args CHR ''e'' \<or>
              has args [''--remove'', ''--purge'', ''--erase'']
      then KDestroy
      else if short_flag args CHR ''i'' \<or> short_flag args CHR ''U'' \<or>
              has args [''--install'', ''--upgrade'', ''--configure'']
      then KChange
      else KOther)"

definition class_npm :: "string option \<Rightarrow> string list \<Rightarrow> command_class" where
  "class_npm s args =
     (if one_of s [''ls'', ''list'', ''view'', ''info'', ''outdated'', ''why'', ''explain'', ''config''] \<and>
         \<not> has args [''set'', ''delete'']
      then KLook
      else if s = Some ''audit'' \<and> \<not> has args [''fix''] then KLook
      else if one_of s [''install'', ''i'', ''ci'', ''add'', ''update'', ''up'', ''upgrade'', ''run'',
                        ''run-script'', ''start'', ''build'', ''test'', ''rebuild'', ''uninstall'',
                        ''remove'', ''rm'', ''un'', ''prune'', ''dedupe'', ''restart'', ''stop'',
                        ''audit'', ''publish'']
      then KChange
      else if s = None then KChange
      else KOther)"

definition class_pip :: "string option \<Rightarrow> command_class" where
  "class_pip s =
     (if one_of s [''list'', ''show'', ''freeze'', ''check'', ''index''] then KLook
      else if one_of s [''install'', ''download'', ''wheel'', ''uninstall''] then KChange
      else KOther)"

definition class_composer :: "string option \<Rightarrow> command_class" where
  "class_composer s =
     (if one_of s [''show'', ''info'', ''outdated'', ''validate'', ''diagnose'', ''licenses'',
                   ''depends'', ''why'', ''prohibits'', ''why-not'', ''status'']
      then KLook
      else if one_of s [''install'', ''update'', ''upgrade'', ''require'', ''remove'',
                        ''dump-autoload'', ''dumpautoload'', ''run-script'', ''run'', ''clear-cache'']
      then KChange
      else KOther)"

definition class_pm2 :: "string option \<Rightarrow> command_class" where
  "class_pm2 s =
     (if one_of s [''list'', ''ls'', ''l'', ''status'', ''show'', ''describe'', ''info'', ''logs'',
                   ''jlist'', ''prettylist'', ''env'', ''ping'', ''report'']
      then KLook
      else if one_of s [''start'', ''stop'', ''restart'', ''reload'', ''startOrRestart'',
                        ''startOrReload'', ''gracefulReload'', ''save'', ''resurrect'', ''scale'',
                        ''reset'', ''dump'']
      then KServices
      else if one_of s [''delete'', ''del'', ''kill'', ''flush'', ''uninstall'', ''unstartup'']
      then KDestroy
      else KOther)"

definition class_supervisorctl :: "string option \<Rightarrow> command_class" where
  "class_supervisorctl s =
     (if one_of s [''status'', ''avail'', ''pid'', ''tail'', ''version'', ''help''] then KLook
      else if one_of s [''start'', ''stop'', ''restart'', ''reread'', ''update'', ''reload'', ''signal'']
      then KServices
      else if one_of s [''remove'', ''clear'', ''shutdown''] then KDestroy
      else KOther)"

definition class_nginx :: "string list \<Rightarrow> command_class" where
  "class_nginx args =
     (if has args [''-t'', ''-T'', ''-v'', ''-V''] then KLook
      else if has args [''-s''] \<or> args = [] then KServices
      else KOther)"

definition class_apache :: "string option \<Rightarrow> string list \<Rightarrow> command_class" where
  "class_apache s args =
     (if has args [''-t'', ''-S'', ''-M'', ''-v'', ''-V'', ''-l'', ''-L''] then KLook
      else if one_of s [''configtest'', ''status'', ''fullstatus''] then KLook
      else if one_of s [''graceful'', ''restart'', ''start'', ''stop'', ''graceful-stop''] then KServices
      else KOther)"

definition class_crontab :: "string list \<Rightarrow> command_class" where
  "class_crontab args =
     (if short_flag args CHR ''l'' then KLook
      else if short_flag args CHR ''r'' then KDestroy
      else KChange)"

definition class_certbot :: "string option \<Rightarrow> command_class" where
  "class_certbot s =
     (if one_of s [''certificates'', ''plugins''] then KLook
      else if one_of s [''renew'', ''certonly'', ''install'', ''run'', ''reconfigure'', ''enhance'']
      then KChange
      else if one_of s [''revoke'', ''delete'', ''unregister''] then KDestroy
      else KOther)"

definition class_firewall :: "string \<Rightarrow> string option \<Rightarrow> string list \<Rightarrow> command_class" where
  "class_firewall program s args =
     (if (program = ''ufw'' \<and> s = Some ''status'') \<or>
         (starts_with ''ip'' program \<and> short_flag args CHR ''L'') \<or>
         (program = ''nft'' \<and> s = Some ''list'') \<or>
         has args [''--list-all'', ''--state'', ''--list-services'', ''--list-ports'']
      then KLook else KOther)"

definition class_compose :: "string list \<Rightarrow> command_class" where
  "class_compose args =
     (let s = sub args in
      if one_of s [''ps'', ''logs'', ''config'', ''ls'', ''top'', ''images'', ''version'', ''events'', ''port'']
      then KLook
      else if one_of s [''start'', ''stop'', ''restart'', ''pause'', ''unpause'', ''kill''] then KServices
      else if s = Some ''down''
      then (if has args [''-v'', ''--volumes'', ''--rmi''] then KDestroy else KServices)
      else if one_of s [''up'', ''pull'', ''build'', ''create'', ''cp''] then KChange
      else if s = Some ''rm'' then KDestroy
      else KOther)"

text \<open>The arguments after the first one equal to \<open>w\<close> (none when there is no such argument).\<close>

definition args_after :: "string \<Rightarrow> string list \<Rightarrow> string list" where
  "args_after w args = drop 1 (dropWhile (\<lambda>a. a \<noteq> w) args)"

definition class_docker :: "string list \<Rightarrow> command_class" where
  "class_docker args =
     (case sub2 args of
        (s1, s2) \<Rightarrow>
          if one_of s1 [''ps'', ''images'', ''logs'', ''inspect'', ''stats'', ''top'', ''version'',
                        ''info'', ''port'', ''diff'', ''history'', ''events'', ''search'']
          then KLook
          else if one_of s1 [''start'', ''stop'', ''restart'', ''pause'', ''unpause'', ''kill'']
          then KServices
          else if one_of s1 [''pull'', ''build'', ''run'', ''create'', ''tag'', ''cp'', ''commit'',
                             ''load'', ''update'', ''save'', ''import'']
          then KChange
          else if one_of s1 [''rm'', ''rmi'', ''prune''] then KDestroy
          else if s1 = Some ''compose'' then class_compose (args_after ''compose'' args)
          else if one_of s1 [''container'', ''image'', ''volume'', ''network'', ''system'',
                             ''context'', ''builder'', ''buildx'']
          then
            (if one_of s2 [''ls'', ''list'', ''inspect'', ''logs'', ''top'', ''stats'', ''port'',
                           ''df'', ''info'', ''history'', ''diff'']
             then KLook
             else if one_of s2 [''start'', ''stop'', ''restart'', ''kill'', ''pause'', ''unpause'']
             then KServices
             else if one_of s2 [''rm'', ''prune'', ''remove''] then KDestroy
             else if one_of s2 [''create'', ''connect'', ''disconnect'', ''pull'', ''build'', ''tag'',
                                ''use'', ''load'', ''save'', ''update'']
             then KChange
             else KOther)
          else KOther)"

definition class_git_branch :: "string list \<Rightarrow> command_class" where
  "class_git_branch r =
     (if short_flag r CHR ''D'' \<or> short_flag r CHR ''d'' \<or> has r [''--delete''] then KDestroy
      else if list_all is_option r then KLook
      else KChange)"

definition class_git_tag :: "string list \<Rightarrow> command_class" where
  "class_git_tag r =
     (if short_flag r CHR ''d'' \<or> has r [''--delete''] then KDestroy
      else if list_all (\<lambda>a. a \<in> set [''-l'', ''--list'', ''-n'']) r then KLook
      else KChange)"

definition class_git_push :: "string list \<Rightarrow> string list \<Rightarrow> command_class" where
  "class_git_push args r =
     (if short_flag r CHR ''f'' \<or>
         list_ex (\<lambda>a. starts_with ''--force'' a \<or> starts_with ''--delete'' a \<or>
                     starts_with ''--mirror'' a \<or> starts_with ''+'' a) args
      then KDestroy else KChange)"

definition class_git :: "string list \<Rightarrow> command_class" where
  "class_git args =
     (if list_ex (\<lambda>a. contains a ''sshCommand'' \<or> contains a ''core.pager'' \<or>
                     starts_with ''--upload-pack'' a \<or> starts_with ''--exec'' a) args
      then KOther
      else
        (case sub2 args of
           (None, _) \<Rightarrow> KLook
         | (Some g, s2) \<Rightarrow>
             let r = args_after g args in
             if g \<in> set [''status'', ''log'', ''diff'', ''show'', ''rev-parse'', ''describe'',
                         ''ls-files'', ''ls-tree'', ''blame'', ''shortlog'', ''whatchanged'', ''grep'',
                         ''cat-file'', ''count-objects'', ''rev-list'', ''name-rev'', ''for-each-ref'',
                         ''show-ref'', ''merge-base'', ''cherry'', ''ls-remote'', ''help'']
             then KLook
             else if g = ''branch'' then class_git_branch r
             else if g = ''tag'' then class_git_tag r
             else if g = ''remote''
             then (if s2 = None \<or> one_of s2 [''show'', ''get-url''] then KLook
                   else if one_of s2 [''remove'', ''rm''] then KDestroy
                   else KChange)
             else if g = ''config''
             then (if has args [''--get'', ''--get-all'', ''--list'', ''-l'', ''--get-regexp'', ''--show-origin'']
                   then KLook else KChange)
             else if g = ''stash''
             then (if one_of s2 [''list'', ''show''] then KLook
                   else if one_of s2 [''drop'', ''clear''] then KDestroy
                   else KChange)
             else if g = ''reflog''
             then (if one_of s2 [''expire'', ''delete''] then KDestroy else KLook)
             else if g = ''reset''
             then (if has args [''--hard'', ''--merge'', ''--keep''] then KDestroy else KChange)
             else if g = ''clean''
             then (if short_flag args CHR ''n'' \<or> has args [''--dry-run''] then KLook else KDestroy)
             else if g = ''push'' then class_git_push args r
             else if g \<in> set [''gc'', ''prune'', ''filter-branch'', ''filter-repo''] then KDestroy
             else if g \<in> set [''pull'', ''fetch'', ''checkout'', ''switch'', ''restore'', ''merge'',
                              ''rebase'', ''add'', ''commit'', ''clone'', ''init'', ''submodule'',
                              ''cherry-pick'', ''revert'', ''mv'', ''rm'', ''apply'', ''am'',
                              ''worktree'', ''sparse-checkout'', ''lfs'', ''notes'']
             then KChange
             else KOther))"

text \<open>The action of a WP-CLI command: of \<open>wp wc\<close>, the last word that names one.\<close>

definition wp_action :: "string list \<Rightarrow> string option" where
  "wp_action ws =
     (if ws \<noteq> [] \<and> hd ws = ''wc''
      then find (\<lambda>w. w \<in> set [''list'', ''get'', ''create'', ''update'', ''delete'', ''batch'', ''run''])
             (rev ws)
      else (case ws of _ # a # _ \<Rightarrow> Some a | _ \<Rightarrow> None))"

definition class_wp :: "string list \<Rightarrow> command_class" where
  "class_wp args =
     (let ws = filter (\<lambda>a. \<not> is_option a) args in
      if ''--info'' \<in> set args \<and> ws = [] then KLook
      else
        let group = (case ws of [] \<Rightarrow> None | w # _ \<Rightarrow> Some w);
            action = wp_action ws
        in
        if one_of group [''eval'', ''eval-file'', ''shell'', ''package''] \<or>
           (group = Some ''db'' \<and> one_of action [''query'', ''cli''])
        then KOther
        else if group = Some ''search-replace''
        then (if has args [''--dry-run''] then KLook else KChange)
        else if group = Some ''db'' \<and> one_of action [''reset'', ''drop'', ''clean'', ''import''] then KDestroy
        else if group = Some ''db'' \<and>
                one_of action [''check'', ''size'', ''tables'', ''prefix'', ''columns'']
        then KLook
        else if group = Some ''db'' \<and> one_of action [''export'', ''optimize'', ''repair''] then KChange
        else if group = Some ''site'' \<and>
                one_of action [''empty'', ''delete'', ''archive'', ''deactivate'', ''spam'']
        then KDestroy
        else if group = Some ''user'' \<and> one_of action [''list'', ''get'', ''meta'', ''list-caps''] then KLook
        else if group = Some ''user'' \<and> action = Some ''delete'' then KDestroy
        else if group = Some ''user'' \<and> action \<noteq> None then KOther
        else if one_of action [''delete'', ''uninstall'', ''destroy'', ''trash'', ''empty'', ''flush-group'']
        then KDestroy
        else if (group = Some ''cache'' \<and> action = Some ''flush'') \<or>
                (group = Some ''rewrite'' \<and> action = Some ''flush'')
        then KChange
        else if one_of action [''list'', ''get'', ''status'', ''is-active'', ''is-installed'', ''search'',
                               ''version'', ''check-update'', ''verify-checksums'', ''path'', ''type'',
                               ''info'', ''count'', ''exists'', ''pluck'', ''has'', ''is-enabled'']
        then KLook
        else if one_of action [''install'', ''activate'', ''deactivate'', ''update'', ''toggle'',
                               ''auto-updates'', ''add'', ''patch'', ''set'', ''create'', ''download'',
                               ''update-db'', ''run'', ''regenerate'', ''generate'', ''import'',
                               ''enable'', ''disable'', ''flush'', ''batch'', ''schedule'',
                               ''unschedule'', ''reset'']
        then KChange
        else if group = Some ''maintenance-mode'' then KChange
        else KOther)"

definition change_programs :: "string list" where
  "change_programs =
     [''mkdir'', ''touch'', ''cp'', ''mv'', ''ln'', ''chmod'', ''chown'', ''chgrp'', ''tee'',
      ''install'', ''patch'', ''unzip'', ''gunzip'', ''gzip'', ''bzip2'', ''bunzip2'', ''xz'',
      ''unxz'', ''zip'', ''tar'', ''make'', ''cmake'', ''wget'', ''rename'', ''setfacl'', ''sudoedit'']"

definition destroy_programs :: "string list" where
  "destroy_programs =
     [''rm'', ''rmdir'', ''unlink'', ''shred'', ''dd'', ''wipefs'', ''fdisk'', ''sfdisk'', ''parted'',
      ''gdisk'', ''sgdisk'', ''mkswap'', ''swapoff'', ''truncate'', ''fallocate'', ''reboot'',
      ''shutdown'', ''poweroff'', ''halt'', ''init'', ''telinit'', ''userdel'', ''groupdel'',
      ''deluser'', ''delgroup'', ''kexec'']"

section \<open>The class of a program\<close>

definition class_table :: "string \<Rightarrow> string list \<Rightarrow> command_class" where
  "class_table program args =
     (let s = sub args; s2 = snd (sub2 args) in
      if program = ''date'' then class_date args
      else if program = ''hostname'' then class_hostname args
      else if program \<in> set [''hostnamectl'', ''timedatectl''] then class_hostnamectl s
      else if program = ''find'' then class_find args
      else if program = ''sed'' then class_sed args
      else if program = ''sort'' then class_sort args
      else if program \<in> set [''awk'', ''gawk'', ''mawk''] then class_awk args
      else if program \<in> set [''top'', ''htop'']
      then (if short_flag args CHR ''b'' then KLook else KOther)
      else if program = ''journalctl'' then class_journalctl args
      else if program = ''dmesg'' then class_dmesg args
      else if program = ''ip'' then class_ip s args
      else if program \<in> set [''ifconfig'', ''sysctl'']
      then (if args = [] \<or> has args [''-a''] then KLook else KOther)
      else if program = ''systemctl'' then class_systemctl s
      else if program = ''service'' then class_service args s2
      else if program \<in> set [''docker'', ''podman''] then class_docker args
      else if program \<in> set [''docker-compose'', ''podman-compose''] then class_compose args
      else if program \<in> set [''kubectl'', ''oc''] then class_kubectl s s2
      else if program = ''git'' then class_git args
      else if program \<in> set [''apt'', ''apt-get'', ''aptitude'', ''yum'', ''dnf'', ''apk'', ''zypper'',
                             ''snap'', ''brew'']
      then class_packages s
      else if program \<in> set [''dpkg'', ''rpm''] then class_dpkg args
      else if program \<in> set [''npm'', ''pnpm'', ''yarn''] then class_npm s args
      else if program \<in> set [''pip'', ''pip3'', ''pipx''] then class_pip s
      else if program = ''composer'' then class_composer s
      else if program = ''pm2'' then class_pm2 s
      else if program = ''supervisorctl'' then class_supervisorctl s
      else if program = ''nginx'' then class_nginx args
      else if program \<in> set [''apachectl'', ''apache2ctl'', ''httpd''] then class_apache s args
      else if program = ''wp'' then class_wp args
      else if program = ''crontab'' then class_crontab args
      else if program = ''certbot'' then class_certbot s
      else if program \<in> set [''ufw'', ''iptables'', ''ip6tables'', ''nft'', ''firewall-cmd'']
      then class_firewall program s args
      else if program \<in> set [''kill'', ''pkill'', ''killall''] then KServices
      else if program \<in> set change_programs then (if program = ''wget'' then KOther else KChange)
      else if program \<in> set destroy_programs then KDestroy
      else if starts_with ''mkfs'' program then KDestroy
      else KOther)"

definition class_of :: "string \<Rightarrow> string list \<Rightarrow> never + command_class" where
  "class_of program args =
     (if program \<in> set never_programs then Inl Hop
      else if program = ''rsync'' then class_rsync args
      else if is_version_only args then Inr KLook
      else if program \<in> set look_programs then Inr KLook
      else Inr (class_table program args))"

section \<open>Looking through \<open>sudo\<close> and wrappers\<close>

record classified =
  kd_classes :: "command_class list"
  kd_never :: "never option"
  kd_inner :: command_line

definition kd_changes :: "classified \<Rightarrow> bool" where
  "kd_changes k = list_ex (\<lambda>c. c \<in> {KChange, KDestroy, KOther}) (kd_classes k)"

definition looks_only :: "classified \<Rightarrow> bool" where
  "looks_only k = list_all (\<lambda>c. c = KLook) (kd_classes k)"

definition kd_is :: "classified \<Rightarrow> command_class \<Rightarrow> bool" where
  "kd_is k c \<longleftrightarrow> c \<in> set (kd_classes k)"

definition bare :: "string \<Rightarrow> string" where
  "bare program = to_lowercase (last (split_on CHR ''/'' (trim program)))"

definition sudo_value_options :: "string list" where
  "sudo_value_options =
     [''-u'', ''-g'', ''-p'', ''-C'', ''-D'', ''-h'', ''-r'', ''-t'', ''-U'', ''-T'', ''-R'']"

text \<open>The words after the options of \<open>sudo\<close>, and whether an option asked for a shell.\<close>

function sudo_options :: "bool \<Rightarrow> string list \<Rightarrow> bool \<times> string list" where
  "sudo_options shell args =
     (if args \<noteq> [] \<and> is_option (hd args)
      then
        (let a = hd args;
             sh = (shell \<or> a \<in> set [''-s'', ''-i'', ''--shell'', ''--login'', ''-l''])
         in if a = ''--'' then (sh, tl args)
            else sudo_options sh (drop (if a \<in> set sudo_value_options then 2 else 1) args))
      else (shell, args))"
  by auto
termination by (relation "measure (\<lambda>(_, args). length args)") auto

definition takes_value :: "string \<Rightarrow> string \<Rightarrow> bool" where
  "takes_value program a \<longleftrightarrow>
     (program = ''nice'' \<and> a = ''-n'') \<or>
     (program = ''ionice'' \<and> a \<in> set [''-c'', ''-n'', ''-p'']) \<or>
     (program = ''timeout'' \<and> a \<in> set [''-s'', ''-k'']) \<or>
     (program = ''chrt'' \<and> a = ''-p'') \<or>
     (program = ''env'' \<and> a \<in> set [''-u'', ''-C'', ''-S''])"

function wrapper_options :: "string \<Rightarrow> string list \<Rightarrow> string list" where
  "wrapper_options program args =
     (if args = [] then []
      else
        (let a = hd args in
         if takes_value program a then wrapper_options program (drop 2 args)
         else if is_option a \<or> (program = ''env'' \<and> CHR ''='' \<in> set a)
         then wrapper_options program (tl args)
         else args))"
  by auto
termination by (relation "measure (\<lambda>(_, args). length args)") auto

declare sudo_options.simps [simp del] wrapper_options.simps [simp del]

definition after_wrapper :: "string \<Rightarrow> string list \<Rightarrow> string list" where
  "after_wrapper program args =
     (let rest = wrapper_options program args
      in if program \<in> set [''timeout'', ''taskset'', ''chrt''] then drop 1 rest else rest)"

definition add_class :: "command_class \<Rightarrow> command_class list \<Rightarrow> command_class list" where
  "add_class c cs = (if c \<in> set cs then cs else cs @ [c])"

text \<open>
  The source's loop of eight rounds: it returns early (\<open>Inl\<close>), or leaves what the command really
  runs: the word as written, its program, its arguments and the classes so far.
\<close>

type_synonym unwrap_state = "string \<times> string \<times> string list \<times> command_class list"

datatype (plugins only: code size) round = Return classified | Again unwrap_state | Leave

definition sudo_programs :: "string list" where
  "sudo_programs = [''sudo'', ''doas'', ''pkexec'', ''runuser'']"

definition wrapper_programs :: "string list" where
  "wrapper_programs =
     [''env'', ''nice'', ''ionice'', ''time'', ''stdbuf'', ''chrt'', ''taskset'', ''timeout'']"

definition sudo_round :: "string \<Rightarrow> string list \<Rightarrow> command_class list \<Rightarrow> round" where
  "sudo_round program args cs =
     (let cs' = add_class KAdmin cs in
      (case sudo_options False args of
         (shell, rest) \<Rightarrow>
           if shell \<or> rest = []
           then Return \<lparr> kd_classes = cs' @ [KOther], kd_never = None,
                         kd_inner = \<lparr> cl_program = program, cl_args = [] \<rparr> \<rparr>
           else Again (hd rest, bare (hd rest), tl rest, cs')))"

definition wrapper_round :: "string \<Rightarrow> string list \<Rightarrow> command_class list \<Rightarrow> round" where
  "wrapper_round program args cs =
     (let rest = after_wrapper program args in
      if rest = []
      then Return \<lparr> kd_classes = cs @ [if program = ''env'' then KLook else KOther], kd_never = None,
                    kd_inner = \<lparr> cl_program = program, cl_args = [] \<rparr> \<rparr>
      else Again (hd rest, bare (hd rest), tl rest, cs))"

definition unwrap_round :: "unwrap_state \<Rightarrow> round" where
  "unwrap_round st =
     (case st of
        (raw, program, args, cs) \<Rightarrow>
          if program \<in> set sudo_programs then sudo_round program args cs
          else if program \<in> set wrapper_programs then wrapper_round program args cs
          else if program = ''su''
          then Return \<lparr> kd_classes = add_class KAdmin cs @ [KOther], kd_never = None,
                        kd_inner = \<lparr> cl_program = program, cl_args = args \<rparr> \<rparr>
          else Leave)"

primrec unwrap_rounds :: "nat \<Rightarrow> unwrap_state \<Rightarrow> classified + unwrap_state" where
  "unwrap_rounds 0 st = Inr st"
| "unwrap_rounds (Suc n) st =
     (case unwrap_round st of
        Return k \<Rightarrow> Inl k
      | Again st' \<Rightarrow> unwrap_rounds n st'
      | Leave \<Rightarrow> Inr st)"

definition class_of_named :: "string \<Rightarrow> string \<Rightarrow> string list \<Rightarrow> never + command_class" where
  "class_of_named raw program args =
     (if CHR ''/'' \<in> set raw \<and> \<not> list_ex (\<lambda>d. starts_with d raw) [''/usr/'', ''/bin/'', ''/sbin/'']
      then (if program \<in> set never_programs then Inl Hop else Inr KOther)
      else class_of program args)"

definition wipes :: "disk \<Rightarrow> path \<Rightarrow> command_line \<Rightarrow> bool" where
  "wipes D cwd inner \<longleftrightarrow>
     (case sensitive_command D cwd inner [] of
        Some (k, _) \<Rightarrow> k \<in> {Database, CloudDelete}
      | None \<Rightarrow> False)"

definition srv_classify :: "disk \<Rightarrow> path \<Rightarrow> command_line \<Rightarrow> classified" where
  "srv_classify D cwd cmd =
     (let raw0 = trim (cl_program cmd) in
      (case unwrap_rounds 8 (raw0, bare raw0, cl_args cmd, []) of
         Inl k \<Rightarrow> k
       | Inr (raw, program, args, cs) \<Rightarrow>
           let inner = \<lparr> cl_program = program, cl_args = args \<rparr> in
           (case class_of_named raw program args of
              Inr c \<Rightarrow>
                \<lparr> kd_classes = add_class (if wipes D cwd inner then KDestroy else c) cs,
                  kd_never = None, kd_inner = inner \<rparr>
            | Inl never \<Rightarrow>
                \<lparr> kd_classes = cs @ [KOther], kd_never = Some never, kd_inner = inner \<rparr>)))"

section \<open>What the kinds say\<close>

lemma set_add_class [simp]: "set (add_class c cs) = insert c (set cs)"
  by (auto simp: add_class_def)

lemma add_class_not_Nil [simp]: "add_class c cs \<noteq> []" "[] \<noteq> add_class c cs"
  by (auto simp: add_class_def)

lemma add_class_distinct [simp]: "distinct cs \<Longrightarrow> distinct (add_class c cs)"
  by (auto simp: add_class_def)

text \<open>What a round keeps: the classes found so far, and what an early return names as the program.\<close>

lemma wrappers_not_never:
  "p \<in> set sudo_programs \<or> p \<in> set wrapper_programs \<or> p = ''su'' \<Longrightarrow> p \<notin> set never_programs"
proof -
  have "list_all (\<lambda>p. p \<notin> set never_programs) (''su'' # sudo_programs @ wrapper_programs)"
    by code_simp
  then show "p \<in> set sudo_programs \<or> p \<in> set wrapper_programs \<or> p = ''su'' \<Longrightarrow> p \<notin> set never_programs"
    by (auto simp: list_all_iff)
qed

lemma sudo_not_wrapper: "p \<in> set sudo_programs \<or> p = ''su'' \<Longrightarrow> p \<notin> set wrapper_programs"
proof -
  have "list_all (\<lambda>p. p \<notin> set wrapper_programs) (''su'' # sudo_programs)"
    by code_simp
  then show "p \<in> set sudo_programs \<or> p = ''su'' \<Longrightarrow> p \<notin> set wrapper_programs"
    by (auto simp: list_all_iff)
qed

lemma unwrap_round_returns:
  "unwrap_round (raw, program, args, cs) = Return k \<Longrightarrow>
     set cs \<subseteq> set (kd_classes k) \<and> kd_classes k \<noteq> [] \<and> kd_never k = None \<and>
     cl_program (kd_inner k) \<notin> set never_programs \<and>
     (program \<in> set sudo_programs \<or> program = ''su'' \<longrightarrow> KAdmin \<in> set (kd_classes k))"
  using wrappers_not_never [of program] sudo_not_wrapper [of program]
  by (auto simp: unwrap_round_def sudo_round_def wrapper_round_def Let_def split: if_splits prod.splits)

lemma unwrap_round_again:
  "unwrap_round (raw, program, args, cs) = Again (raw', program', args', cs') \<Longrightarrow>
     set cs \<subseteq> set cs' \<and> (program \<in> set sudo_programs \<or> program = ''su'' \<longrightarrow> KAdmin \<in> set cs')"
  using sudo_not_wrapper [of program]
  by (auto simp: unwrap_round_def sudo_round_def wrapper_round_def Let_def split: if_splits prod.splits)

text \<open>No class is ever taken back, and running as administrator is noticed in the first round.\<close>

lemma unwrap_rounds_keeps:
  "(case unwrap_rounds n (raw, program, args, cs) of
      Inl k \<Rightarrow> set cs \<subseteq> set (kd_classes k) \<and> kd_classes k \<noteq> [] \<and> kd_never k = None \<and>
               cl_program (kd_inner k) \<notin> set never_programs
    | Inr (_, _, _, cs') \<Rightarrow> set cs \<subseteq> set cs')"
proof (induction n arbitrary: raw program args cs)
  case (Suc n)
  show ?case
  proof (cases "unwrap_round (raw, program, args, cs)")
    case (Return k)
    then show ?thesis using unwrap_round_returns [OF Return] by simp
  next
    case (Again st)
    obtain raw' program' args' cs' where st: "st = (raw', program', args', cs')" by (metis prod_cases4)
    from unwrap_round_again [OF Again [unfolded st]] Suc.IH [where raw = raw' and program = program' and args = args' and cs = cs'] Again st
    show ?thesis by (auto split: sum.splits)
  next
    case Leave
    then show ?thesis by simp
  qed
qed simp

lemma unwrap_rounds_admin:
  assumes "program \<in> set sudo_programs \<or> program = ''su''"
  shows "case unwrap_rounds (Suc n) (raw, program, args, cs) of
      Inl k \<Rightarrow> KAdmin \<in> set (kd_classes k)
    | Inr (_, _, _, cs') \<Rightarrow> KAdmin \<in> set cs'"
proof (cases "unwrap_round (raw, program, args, cs)")
  case (Return k)
  with assms show ?thesis using unwrap_round_returns [OF Return] by simp
next
  case (Again st)
  obtain raw' program' args' cs' where st: "st = (raw', program', args', cs')" by (metis prod_cases4)
  from unwrap_round_again [OF Again [unfolded st]] assms have "KAdmin \<in> set cs'" by blast
  with Again st unwrap_rounds_keeps [where n = n and raw = raw' and program = program' and args = args' and cs = cs'] show ?thesis
    by (auto split: sum.splits)
next
  case Leave
  with assms show ?thesis
    by (auto simp: unwrap_round_def sudo_round_def wrapper_round_def Let_def split: if_splits prod.splits)
qed

lemma class_of_named_never:
  "program \<in> set never_programs \<Longrightarrow> class_of_named raw program args = Inl Hop"
  by (simp add: class_of_named_def class_of_def)

text \<open>
  What a server is told of a command. It has at least one kind; a command started through
  \<open>sudo\<close>, \<open>doas\<close>, \<open>pkexec\<close>, \<open>runuser\<close> or \<open>su\<close>, however its path and case are written, is one
  that runs as administrator, so it never only looks; and a command whose program reaches other
  computers, scans the network or cracks passwords is marked as never allowed.
\<close>

theorem server_kinds_are_told:
  assumes k: "srv_classify D cwd cmd = k"
  shows "kd_classes k \<noteq> [] \<and>
    (bare (trim (cl_program cmd)) \<in> set sudo_programs \<union> {''su''} \<longrightarrow>
       kd_is k KAdmin \<and> \<not> looks_only k) \<and>
    (cl_program (kd_inner k) \<in> set never_programs \<longrightarrow> kd_never k = Some Hop)"
proof -
  let ?p = "bare (trim (cl_program cmd))"
  let ?st = "(trim (cl_program cmd), ?p, cl_args cmd, [] :: command_class list)"
  have eight: "(8 :: nat) = Suc 7" by simp
  have admin: "KAdmin \<in> set (kd_classes k)" if "?p \<in> set sudo_programs \<union> {''su''}"
  proof -
    have "?p \<in> set sudo_programs \<or> ?p = ''su''" using that by auto
    from unwrap_rounds_admin [OF this, where n = 7 and raw = "trim (cl_program cmd)" and args = "cl_args cmd" and cs = "[]"] k
    show ?thesis
      unfolding srv_classify_def Let_def eight
      by (auto split: sum.splits prod.splits)
  qed
  moreover have "kd_classes k \<noteq> []"
    using unwrap_rounds_keeps [where n = 8 and raw = "trim (cl_program cmd)" and program = ?p and args = "cl_args cmd" and cs = "[]"] k
    unfolding srv_classify_def Let_def by (auto split: sum.splits prod.splits)
  moreover have "kd_never k = Some Hop" if "cl_program (kd_inner k) \<in> set never_programs"
    using unwrap_rounds_keeps [where n = 8 and raw = "trim (cl_program cmd)" and program = ?p and args = "cl_args cmd" and cs = "[]"] k that
    unfolding srv_classify_def Let_def
    by (auto split: sum.splits prod.splits simp: class_of_named_never)
  ultimately show ?thesis
    by (auto simp: kd_is_def looks_only_def list_all_iff)
qed

theorem server_kinds_are_told_witness:
  "kd_is (srv_classify demo_disk [] \<lparr> cl_program = ''/usr/bin/SUDO'', cl_args = [''-u'', ''web'', ''ls''] \<rparr>) KAdmin"
proof -
  have "bare (trim ''/usr/bin/SUDO'') \<in> set sudo_programs \<union> {''su''}" by code_simp
  with server_kinds_are_told [OF refl, of demo_disk "[]"
      "\<lparr> cl_program = ''/usr/bin/SUDO'', cl_args = [''-u'', ''web'', ''ls''] \<rparr>"]
  show ?thesis by (metis command_line.select_convs(1))
qed

lemma nice_round:
  "w \<in> {''nice'', ''ssh''} \<Longrightarrow> unwrap_round (''nice'', ''nice'', w # args, cs) = Again (w, w, args, cs)"
  "unwrap_round (''ssh'', ''ssh'', args, cs) = Leave"
proof -
  have "wrapper_options ''nice'' (''nice'' # args) = ''nice'' # args"
    "wrapper_options ''nice'' (''ssh'' # args) = ''ssh'' # args"
    by (subst wrapper_options.simps, simp add: takes_value_def is_option_def starts_with_def)+
  moreover have "bare ''nice'' = ''nice''" "bare ''ssh'' = ''ssh''" by code_simp+
  ultimately show "w \<in> {''nice'', ''ssh''} \<Longrightarrow> unwrap_round (''nice'', ''nice'', w # args, cs) = Again (w, w, args, cs)"
    by (auto simp: unwrap_round_def wrapper_round_def after_wrapper_def wrapper_programs_def sudo_programs_def)
  show "unwrap_round (''ssh'', ''ssh'', args, cs) = Leave"
    by (simp add: unwrap_round_def wrapper_programs_def sudo_programs_def)
qed

lemma nice_rounds:
  "unwrap_rounds k (''nice'', ''nice'', replicate n ''nice'' @ ''ssh'' # args, cs) =
     (if n < k then Inr (''ssh'', ''ssh'', args, cs)
      else Inr (''nice'', ''nice'', replicate (n - k) ''nice'' @ ''ssh'' # args, cs))"
proof (induction k arbitrary: n)
  case (Suc k)
  have stop: "unwrap_rounds k (''ssh'', ''ssh'', args, cs) = Inr (''ssh'', ''ssh'', args, cs)"
    by (cases k) (simp_all add: nice_round)
  show ?case
    by (cases n) (simp_all add: nice_round stop Suc)
qed simp

text \<open>
  C40: How deep a wrapper hides. A command that reaches another computer, behind \<open>nice\<close> written
  any number of times, is marked as never allowed when \<open>nice\<close> is written at most eight times, and
  is not marked when it is written more often: the loop looks through eight wrappers only.
\<close>

theorem nine_wrappers_hide_a_program:
  "kd_never (srv_classify D cwd
     \<lparr> cl_program = ''nice'', cl_args = replicate n ''nice'' @ ''ssh'' # args \<rparr>) =
   (if Suc n \<le> 8 then Some Hop else None)"
proof -
  have "\<exists>c. class_of_named ''nice'' ''nice'' as = Inr c" for as
    by (auto simp: class_of_named_def class_of_def never_programs_def)
  then obtain c where "class_of_named ''nice'' ''nice'' (replicate (n - 8) ''nice'' @ ''ssh'' # args) = Inr c"
    by blast
  moreover have "class_of_named ''ssh'' ''ssh'' args = Inl Hop"
    by (rule class_of_named_never) (simp add: never_programs_def)
  moreover have "trim ''nice'' = ''nice''" "bare ''nice'' = ''nice''" by code_simp+
  ultimately show ?thesis
    by (simp add: srv_classify_def Let_def nice_rounds del: unwrap_rounds.simps)
qed

end
