(* ===== verification/Guard_Websites.thy ===== *)
theory Guard_Websites
  imports Guard_Commands
begin

unbundle bit_operations_syntax

text \<open>
  The owner's website lists (\<open>crates/guard/src/websites.rs\<close>): a web address read into a site, the
  entries of the lists, which addresses are local, and the lists' verdict. The \<open>url\<close> crate is the
  parameter \<open>url_crate\<close> (what it reads an address as); reading an IP address from text is the
  standard library's and is modelled. How an address is shortened for the records
  (\<open>safe_address\<close>) is not modelled: it writes characters outside Latin-1.
\<close>

section \<open>IP addresses in text\<close>

datatype ip = V4 "nat list" | V6 "16 word list"

definition parse_octet :: "string \<Rightarrow> nat option" where
  "parse_octet s =
     (if s \<noteq> [] \<and> length s \<le> 3 \<and> list_all is_ascii_digit s \<and> (length s = 1 \<or> hd s \<noteq> CHR ''0'') \<and>
         undec s \<le> 255
      then Some (undec s) else None)"

fun all_some :: "'a option list \<Rightarrow> 'a list option" where
  "all_some [] = Some []"
| "all_some (x # xs) =
     (case x of None \<Rightarrow> None | Some y \<Rightarrow> map_option (Cons y) (all_some xs))"

definition parse_v4 :: "string \<Rightarrow> nat list option" where
  "parse_v4 s =
     (let parts = split_on CHR ''.'' s
      in if length parts = 4 then all_some (map parse_octet parts) else None)"

definition hex_value :: "char \<Rightarrow> nat option" where
  "hex_value c =
     (if is_ascii_digit c then Some (code c - 48)
      else if 97 \<le> code c \<and> code c \<le> 102 then Some (code c - 87)
      else if 65 \<le> code c \<and> code c \<le> 70 then Some (code c - 55)
      else None)"

definition parse_group :: "string \<Rightarrow> 16 word option" where
  "parse_group s =
     (if s = [] \<or> length s > 4 then None
      else map_option (\<lambda>ds. of_nat (foldl (\<lambda>a d. 16 * a + d) 0 ds)) (all_some (map hex_value s)))"

text \<open>The groups between colons; the last may be an IPv4 address, worth two groups.\<close>

fun parse_groups :: "string list \<Rightarrow> 16 word list option" where
  "parse_groups [] = Some []"
| "parse_groups [g] =
     (case parse_group g of
        Some w \<Rightarrow> Some [w]
      | None \<Rightarrow>
          (case parse_v4 g of
             Some [a, b, c, d] \<Rightarrow> Some [of_nat (256 * a + b), of_nat (256 * c + d)]
           | _ \<Rightarrow> None))"
| "parse_groups (g # h # gs) =
     (case parse_group g of None \<Rightarrow> None | Some w \<Rightarrow> map_option (Cons w) (parse_groups (h # gs)))"

text \<open>What is before and after the first \<open>::\<close>.\<close>

fun split_double :: "string \<Rightarrow> (string \<times> string) option" where
  "split_double (a # b # s) =
     (if a = CHR '':'' \<and> b = CHR '':'' then Some ([], s)
      else map_option (\<lambda>(x, y). (a # x, y)) (split_double (b # s)))"
| "split_double _ = None"

definition colon_groups :: "string \<Rightarrow> 16 word list option" where
  "colon_groups s = (if s = [] then Some [] else parse_groups (split_on CHR '':'' s))"

definition parse_v6 :: "string \<Rightarrow> 16 word list option" where
  "parse_v6 s =
     (case split_double s of
        None \<Rightarrow>
          (case colon_groups s of
             Some ws \<Rightarrow> if length ws = 8 then Some ws else None
           | None \<Rightarrow> None)
      | Some (a, b) \<Rightarrow>
          if CHR ''.'' \<in> set a then None
          else
            (case (colon_groups a, colon_groups b) of
               (Some xs, Some ys) \<Rightarrow>
                 if length xs + length ys \<le> 7
                 then Some (xs @ replicate (8 - length xs - length ys) 0 @ ys) else None
             | _ \<Rightarrow> None))"

definition parse_ip :: "string \<Rightarrow> ip option" where
  "parse_ip s =
     (case parse_v4 s of Some os \<Rightarrow> Some (V4 os) | None \<Rightarrow> map_option V6 (parse_v6 s))"

section \<open>Sites\<close>

definition max_sites :: nat where "max_sites = 300"
definition max_site_chars :: nat where "max_site_chars = 260"

datatype other_sites = OthersAsk | OthersBlock

record website_rules =
  wr_allowed :: "string list"
  wr_blocked :: "string list"
  wr_others :: other_sites

record site =
  si_url :: string
  si_host :: string
  si_port :: "nat option"
  si_scheme :: string

datatype url_host = HostDomain string | HostIpv4 string | HostIpv6 string

record url =
  u_scheme :: string
  u_username :: string
  u_password :: "string option"
  u_host :: "url_host option"
  u_port :: "nat option"
  u_path :: string
  u_query :: "string option"
  u_fragment :: "string option"
  u_text :: string

type_synonym url_crate = "string \<Rightarrow> string + url"

datatype site_error = NotAnAddress string string | NotAWebsite string | HasUserName | NamesNoWebsite string

definition has_scheme_mark :: "string \<Rightarrow> bool" where
  "has_scheme_mark s = list_ex (\<lambda>i. starts_with ''://'' (drop i s)) [0..<Suc (length s)]"

definition site_parse :: "url_crate \<Rightarrow> string \<Rightarrow> site_error + site" where
  "site_parse U address0 =
     (let address = trim address0 in
      if eq_ignore_ascii_case address ''about:blank''
      then Inr \<lparr> si_url = ''about:blank'', si_host = [], si_port = None, si_scheme = ''about'' \<rparr>
      else
        (case U (if has_scheme_mark address then address else ''https://'' @ address) of
           Inl e \<Rightarrow> Inl (NotAnAddress address e)
         | Inr u \<Rightarrow>
             let scheme = to_ascii_lowercase (u_scheme u) in
             if scheme \<noteq> ''http'' \<and> scheme \<noteq> ''https'' then Inl (NotAWebsite address)
             else if u_username u \<noteq> [] \<or> u_password u \<noteq> None then Inl HasUserName
             else
               (case u_host u of
                  None \<Rightarrow> Inl (NamesNoWebsite address)
                | Some h \<Rightarrow>
                    let host = (case h of
                                  HostDomain d \<Rightarrow> to_ascii_lowercase (trim_end_matches (\<lambda>c. c = CHR ''.'') d)
                                | HostIpv4 t \<Rightarrow> t
                                | HostIpv6 t \<Rightarrow> ''['' @ t @ '']'')
                    in if host = [] then Inl (NamesNoWebsite address)
                       else Inr \<lparr> si_url = u_text u, si_host = host, si_port = u_port u,
                                  si_scheme = scheme \<rparr>)))"

definition site_shown :: "site \<Rightarrow> string" where
  "site_shown s = (case si_port s of Some p \<Rightarrow> si_host s @ '':'' @ dec p | None \<Rightarrow> si_host s)"

fun v4_private :: "nat list \<Rightarrow> bool" where
  "v4_private os \<longleftrightarrow>
     os ! 0 = 10 \<or> (os ! 0 = 172 \<and> 16 \<le> os ! 1 \<and> os ! 1 \<le> 31) \<or> (os ! 0 = 192 \<and> os ! 1 = 168)"

definition v4_loopback :: "nat list \<Rightarrow> bool" where
  "v4_loopback os \<longleftrightarrow> os ! 0 = 127"

definition v4_link_local :: "nat list \<Rightarrow> bool" where
  "v4_link_local os \<longleftrightarrow> os ! 0 = 169 \<and> os ! 1 = 254"

definition v6_mapped :: "16 word list \<Rightarrow> nat list option" where
  "v6_mapped ws =
     (if take 6 ws = [0, 0, 0, 0, 0, 0xFFFF]
      then Some [unat (ws ! 6) div 256, unat (ws ! 6) mod 256, unat (ws ! 7) div 256, unat (ws ! 7) mod 256]
      else None)"

definition v6_local :: "16 word list \<Rightarrow> bool" where
  "v6_local ws \<longleftrightarrow>
     ws = [0, 0, 0, 0, 0, 0, 0, 1] \<or> ws = replicate 8 0 \<or>
     ws ! 0 AND 0xFE00 = 0xFC00 \<or> ws ! 0 AND 0xFFC0 = 0xFE80 \<or>
     (case v6_mapped ws of
        None \<Rightarrow> False
      | Some v4 \<Rightarrow> v4_loopback v4 \<or> v4_private v4 \<or> v4_link_local v4)"

definition v4_local :: "nat list \<Rightarrow> bool" where
  "v4_local os \<longleftrightarrow>
     v4_loopback os \<or> v4_private os \<or> v4_link_local os \<or> os = [0, 0, 0, 0] \<or>
     os = [255, 255, 255, 255] \<or> (os ! 0 = 100 \<and> 64 \<le> os ! 1 \<and> os ! 1 < 128)"

definition is_local :: "site \<Rightarrow> bool" where
  "is_local s =
     (let h = si_host s in
      if h = ''localhost'' \<or> ends_with ''.localhost'' h then True
      else if list_ex (\<lambda>suf. ends_with suf h)
                [''.local'', ''.lan'', ''.internal'', ''.home.arpa'', ''.intranet'']
      then True
      else
        let bare = trim_end_matches (\<lambda>c. c = CHR '']'') (trim_start_matches (\<lambda>c. c = CHR ''['') h)
        in (case parse_ip bare of
              Some (V4 os) \<Rightarrow> v4_local os
            | Some (V6 ws) \<Rightarrow> v6_local ws
            | None \<Rightarrow> False))"

section \<open>Lists\<close>

record site_entry =
  se_host :: string
  se_port :: "nat option"

text \<open>\<open>trim_start_matches("*.")\<close>.\<close>

fun drop_stars :: "string \<Rightarrow> string" where
  "drop_stars (a # b # s) = (if a = CHR ''*'' \<and> b = CHR ''.'' then drop_stars s else a # b # s)"
| "drop_stars s = s"

definition entry_parse :: "url_crate \<Rightarrow> string \<Rightarrow> site_entry option" where
  "entry_parse U e =
     (case site_parse U (drop_stars (trim e)) of
        Inl _ \<Rightarrow> None
      | Inr s \<Rightarrow>
          if si_scheme s \<noteq> ''about''
          then Some \<lparr> se_host = si_host s, se_port = si_port s \<rparr> else None)"

definition entry_matches :: "site_entry \<Rightarrow> site \<Rightarrow> bool" where
  "entry_matches e s \<longleftrightarrow>
     (si_host s = se_host e \<or>
      (\<not> starts_with ''['' (se_host e) \<and> parse_ip (se_host e) = None \<and>
       ends_with (CHR ''.'' # se_host e) (si_host s))) \<and>
     (case se_port e of None \<Rightarrow> True | Some p \<Rightarrow> si_port s = Some p)"

definition clean_entry :: "url_crate \<Rightarrow> string \<Rightarrow> string + string" where
  "clean_entry U e0 =
     (let raw = trim e0 in
      if raw = [] \<or> length raw > max_site_chars \<or> list_ex is_control raw then Inl raw
      else
        (case entry_parse U raw of
           None \<Rightarrow> Inl raw
         | Some e \<Rightarrow>
             Inr (case se_port e of Some p \<Rightarrow> se_host e @ '':'' @ dec p | None \<Rightarrow> se_host e)))"

datatype site_verdict =
    SiteAllowed string
  | SiteOnBlocked string
  | SiteAsk
  | SiteIsOther
  | SiteIsLocal
  | SiteBlank

definition list_find :: "url_crate \<Rightarrow> string list \<Rightarrow> site \<Rightarrow> string option" where
  "list_find U es s =
     find (\<lambda>e. case entry_parse U e of None \<Rightarrow> False | Some x \<Rightarrow> entry_matches x s) es"

definition site_check :: "url_crate \<Rightarrow> website_rules \<Rightarrow> site \<Rightarrow> site_verdict" where
  "site_check U rules s =
     (if si_scheme s = ''about'' then SiteBlank
      else
        (case list_find U (wr_blocked rules) s of
           Some e \<Rightarrow> SiteOnBlocked e
         | None \<Rightarrow>
             (case list_find U (wr_allowed rules) s of
                Some e \<Rightarrow> SiteAllowed e
              | None \<Rightarrow>
                  if is_local s then SiteIsLocal
                  else (case wr_others rules of OthersAsk \<Rightarrow> SiteAsk | OthersBlock \<Rightarrow> SiteIsOther))))"

datatype clean_error = BadEntry string | TooManySites string | OnBothLists string

fun clean_go :: "url_crate \<Rightarrow> string list \<Rightarrow> string list \<Rightarrow> clean_error + string list" where
  "clean_go U out [] = Inr out"
| "clean_go U out (i # is) =
     (if trim i = [] then clean_go U out is
      else
        (case clean_entry U i of
           Inl e \<Rightarrow> Inl (BadEntry e)
         | Inr e \<Rightarrow> clean_go U (if e \<in> set out then out else out @ [e]) is))"

definition clean_list :: "url_crate \<Rightarrow> string \<Rightarrow> string list \<Rightarrow> clean_error + string list" where
  "clean_list U what items =
     (case clean_go U [] items of
        Inl e \<Rightarrow> Inl e
      | Inr out \<Rightarrow> if length out > max_sites then Inl (TooManySites what) else Inr out)"

definition clean_rules :: "url_crate \<Rightarrow> website_rules \<Rightarrow> clean_error + website_rules" where
  "clean_rules U rules =
     (case clean_list U ''allowed websites'' (wr_allowed rules) of
        Inl e \<Rightarrow> Inl e
      | Inr allowed \<Rightarrow>
          (case clean_list U ''blocked websites'' (wr_blocked rules) of
             Inl e \<Rightarrow> Inl e
           | Inr blocked \<Rightarrow>
               (case find (\<lambda>a. a \<in> set blocked) allowed of
                  Some both \<Rightarrow> Inl (OnBothLists both)
                | None \<Rightarrow>
                    Inr \<lparr> wr_allowed = allowed, wr_blocked = blocked, wr_others = wr_others rules \<rparr>)))"

section \<open>Properties\<close>

lemma clean_go_distinct: "clean_go U out items = Inr out' \<Longrightarrow> distinct out \<Longrightarrow> distinct out'"
  by (induction U out items rule: clean_go.induct) (auto split: if_splits sum.splits)

lemma clean_list_ok: "clean_list U what items = Inr out \<Longrightarrow> distinct out \<and> length out \<le> max_sites"
  by (auto simp: clean_list_def split: sum.splits if_splits dest: clean_go_distinct)

text \<open>The lists as they are kept: no entry twice, none on both lists, at most 300 on each.\<close>

lemma clean_rules_ok:
  assumes "clean_rules U rules = Inr r"
  shows "distinct (wr_allowed r) \<and> distinct (wr_blocked r) \<and>
    set (wr_allowed r) \<inter> set (wr_blocked r) = {} \<and>
    length (wr_allowed r) \<le> max_sites \<and> length (wr_blocked r) \<le> max_sites"
  using assms
  by (auto simp: clean_rules_def find_None_iff split: sum.splits option.splits dest!: clean_list_ok)

text \<open>An entry covers its host and the host's subdomains, and no other host.\<close>

lemma entry_covers:
  "entry_matches e s \<Longrightarrow> si_host s = se_host e \<or> (\<exists>sub. si_host s = sub @ CHR ''.'' # se_host e)"
  by (auto simp: entry_matches_def ends_with_iff)

text \<open>
  What the website lists allow. A site that may be used without asking is an empty page or is
  named by an entry of the allowed list (its host, or a domain it is under) and by no entry of the
  blocked list; an address on this computer or the local network is never merely asked about.
\<close>

theorem website_lists_decide:
  assumes "site_check U rules s = v"
  shows "(v \<in> {SiteAsk, SiteIsOther} \<longrightarrow> \<not> is_local s) \<and>
    (\<forall>e. v = SiteAllowed e \<longrightarrow>
       e \<in> set (wr_allowed rules) \<and> list_find U (wr_blocked rules) s = None \<and>
       (\<exists>x. entry_parse U e = Some x \<and>
          (si_host s = se_host x \<or> (\<exists>sub. si_host s = sub @ CHR ''.'' # se_host x)))) \<and>
    (list_find U (wr_blocked rules) s \<noteq> None \<longrightarrow> v = SiteBlank \<or> (\<exists>e. v = SiteOnBlocked e))"
proof -
  have "e \<in> set es \<and> (\<exists>x. entry_parse U e = Some x \<and>
      (si_host s = se_host x \<or> (\<exists>sub. si_host s = sub @ CHR ''.'' # se_host x)))"
    if "list_find U es s = Some e" for es e
    using that entry_covers by (fastforce simp: list_find_def find_Some_iff split: option.splits)
  with assms show ?thesis
    by (auto simp: site_check_def split: if_splits option.splits other_sites.splits)
qed

definition demo_urls :: url_crate where
  "demo_urls a =
     Inr \<lparr> u_scheme = ''https'', u_username = [], u_password = None,
           u_host = Some (HostDomain (drop 8 a)), u_port = None, u_path = ''/'', u_query = None,
           u_fragment = None, u_text = a \<rparr>"

theorem website_lists_decide_witness:
  "\<not> is_local \<lparr> si_url = ''https://example.org'', si_host = ''example.org'', si_port = None,
                si_scheme = ''https'' \<rparr>"
proof -
  let ?s = "\<lparr> si_url = ''https://example.org'', si_host = ''example.org'', si_port = None,
    si_scheme = ''https'' \<rparr>"
  have "site_check demo_urls \<lparr> wr_allowed = [''example.com''], wr_blocked = [], wr_others = OthersAsk \<rparr> ?s = SiteAsk"
    by code_simp
  from website_lists_decide [OF this] show ?thesis by blast
qed

end
