(* ===== verification/Guard_Connections.thy ===== *)
theory Guard_Connections
  imports Guard_Websites Guard_Scripts
begin

text \<open>
  Connections and add-ons as Guard sees them (\<open>crates/guard/src/connections.rs\<close>, the first part
  of \<open>add_ons.rs\<close>): the services and their parts, a connection with the lists the owner keeps for
  it, the shapes of what the owner types (addresses, domains, channel and app IDs), which
  recipients a list covers, the check of a worker's use, and the owner's own actions. A part of a
  service that the account does not have, that is off, or that only reads is refused before
  anything else is asked.

  The \<open>url\<close> crate is the parameter of \<open>Guard_Websites\<close>. A JSON value (what an add-on's tool takes)
  is its compact text, which \<open>serde_json\<close> writes the same for equal values. A recipient or an
  entry with a character outside Latin-1 is outside the model; the source's test for such a
  character in \<open>send_entry\<close> only chooses between two error messages.
\<close>

section \<open>Services and their parts\<close>

datatype service = Microsoft365 | Slack | Google | Hubspot | Stripe | Wordpress | Github

datatype part =
    Mail | Calendar | Onedrive | Sharepoint | Teams | Channels | DirectMessages | Search | Gmail
  | Drive | Contacts | Companies | Deals | Payments | Customers | Invoices | Posts | Shop

datatype part_level = PartIsOff | PartReads | PartFull

datatype account_kind = Work | Personal

definition service_all :: "service list" where
  "service_all = [Microsoft365, Slack, Google, Hubspot, Stripe, Wordpress, Github]"

fun service_id :: "service \<Rightarrow> string" where
  "service_id Microsoft365 = ''microsoft365''"
| "service_id Slack = ''slack''"
| "service_id Google = ''google''"
| "service_id Hubspot = ''hubspot''"
| "service_id Stripe = ''stripe''"
| "service_id Wordpress = ''wordpress''"
| "service_id Github = ''github''"

definition service_parse :: "string \<Rightarrow> service option" where
  "service_parse i = find (\<lambda>s. service_id s = i) service_all"

fun service_label :: "service \<Rightarrow> string" where
  "service_label Microsoft365 = ''Microsoft 365''"
| "service_label Slack = ''Slack''"
| "service_label Google = ''Google''"
| "service_label Hubspot = ''HubSpot''"
| "service_label Stripe = ''Stripe''"
| "service_label Wordpress = ''WordPress and WooCommerce''"
| "service_label Github = ''GitHub''"

definition owner_only :: "service \<Rightarrow> bool" where
  "owner_only s \<longleftrightarrow> s = Github"

definition signs_in_with_a_code :: "service \<Rightarrow> bool" where
  "signs_in_with_a_code s \<longleftrightarrow> s = Github"

definition service_built :: "service \<Rightarrow> bool" where
  "service_built s \<longleftrightarrow> True"

definition uses_key :: "service \<Rightarrow> bool" where
  "uses_key s \<longleftrightarrow> s \<in> {Hubspot, Stripe, Wordpress}"

definition many :: "service \<Rightarrow> bool" where
  "many s \<longleftrightarrow> s = Slack"

fun parts :: "service \<Rightarrow> part list" where
  "parts Microsoft365 = [Mail, Calendar, Onedrive, Sharepoint, Teams]"
| "parts Slack = [Channels, DirectMessages, Search]"
| "parts Google = [Gmail, Calendar, Drive]"
| "parts Hubspot = [Contacts, Companies, Deals]"
| "parts Stripe = [Payments, Customers, Invoices]"
| "parts Wordpress = [Posts, Shop]"
| "parts Github = []"

definition has_part :: "service \<Rightarrow> part \<Rightarrow> account_kind option \<Rightarrow> bool" where
  "has_part s p k \<longleftrightarrow>
     p \<in> set (parts s) \<and>
     \<not> (s = Microsoft365 \<and> k = Some Personal \<and> p \<in> {Sharepoint, Teams})"

fun starting_level :: "service \<Rightarrow> part \<Rightarrow> part_level" where
  "starting_level Microsoft365 p = (if p \<in> {Mail, Calendar} then PartReads else PartIsOff)"
| "starting_level Slack p = (if p = Channels then PartReads else PartIsOff)"
| "starting_level Google p = (if p \<in> {Gmail, Calendar} then PartReads else PartIsOff)"
| "starting_level Hubspot p = PartReads"
| "starting_level Stripe p = PartReads"
| "starting_level Wordpress p = PartReads"
| "starting_level Github p = PartIsOff"

definition starting_parts :: "service \<Rightarrow> (part, part_level) store" where
  "starting_parts s = map (\<lambda>p. (p, starting_level s p)) (parts s)"

fun part_label :: "part \<Rightarrow> string" where
  "part_label Mail = ''Mail''"
| "part_label Calendar = ''Calendar''"
| "part_label Onedrive = ''OneDrive''"
| "part_label Sharepoint = ''SharePoint''"
| "part_label Teams = ''Teams''"
| "part_label Channels = ''Channels''"
| "part_label DirectMessages = ''Direct messages''"
| "part_label Search = ''Search''"
| "part_label Gmail = ''Gmail''"
| "part_label Drive = ''Drive''"
| "part_label Contacts = ''Contacts''"
| "part_label Companies = ''Companies''"
| "part_label Deals = ''Deals''"
| "part_label Payments = ''Payments''"
| "part_label Customers = ''Customers''"
| "part_label Invoices = ''Invoices''"
| "part_label Posts = ''Posts and pages''"
| "part_label Shop = ''Store''"

definition has_full_access :: "part \<Rightarrow> bool" where
  "has_full_access p \<longleftrightarrow> p \<notin> {Search, Customers}"

section \<open>A connection\<close>

datatype who = RoleLine string | AgentLine string

datatype access_level = AccessRead | AccessWrite

record access =
  ac_who :: who
  ac_level :: access_level

fun access_words :: "access_level \<Rightarrow> string" where
  "access_words AccessRead = ''Read only''"
| "access_words AccessWrite = ''Read and write''"

datatype connection_state = NotConnected | Connected | NeedsSignIn

record account =
  acc_name :: string
  acc_address :: string
  acc_organization :: "string option"
  acc_tenant :: "string option"

record own_app =
  oa_app_id :: string
  oa_tenant :: "string option"
  oa_secret_kept :: bool

record connection =
  cn_id :: string
  cn_service :: service
  cn_account_kind :: "account_kind option"
  cn_account :: "account option"
  cn_parts :: "(part, part_level) store"
  cn_granted :: "string list"
  cn_access :: "access list"
  cn_send_list :: "string list"
  cn_own_app :: "own_app option"
  cn_site :: "string option"
  cn_connected_at :: "nat option"
  cn_state :: connection_state

definition connection_new :: "string \<Rightarrow> service \<Rightarrow> connection" where
  "connection_new i s =
     \<lparr> cn_id = i, cn_service = s, cn_account_kind = None, cn_account = None,
       cn_parts = starting_parts s, cn_granted = [], cn_access = [], cn_send_list = [],
       cn_own_app = None, cn_site = None, cn_connected_at = None, cn_state = NotConnected \<rparr>"

definition connection_label :: "connection \<Rightarrow> string" where
  "connection_label c = service_label (cn_service c)"

definition connection_part :: "connection \<Rightarrow> part \<Rightarrow> part_level" where
  "connection_part c p =
     (if \<not> has_part (cn_service c) p (cn_account_kind c) then PartIsOff
      else (case get (cn_parts c) p of None \<Rightarrow> PartIsOff | Some l \<Rightarrow> l))"

text \<open>The line that applies to an agent in a role (the same code for a connection and an add-on).\<close>

definition line_for :: "access list \<Rightarrow> string option \<Rightarrow> string \<Rightarrow> access option" where
  "line_for ls position_id role_id =
     (case Option.bind position_id (\<lambda>p. find (\<lambda>a. ac_who a = AgentLine p) ls) of
        Some a \<Rightarrow> Some a
      | None \<Rightarrow> find (\<lambda>a. ac_who a = RoleLine role_id) ls)"

definition id_belongs_to :: "string \<Rightarrow> service \<Rightarrow> bool" where
  "id_belongs_to i s \<longleftrightarrow>
     i = service_id s \<or>
     (s = Slack \<and>
      (case strip_prefix ''slack-'' i of
         None \<Rightarrow> False
       | Some n \<Rightarrow>
           \<not> starts_with ''0'' n \<and> byte_len n \<le> 3 \<and> list_all is_ascii_digit n \<and> n \<noteq> [] \<and> undec n \<ge> 2))"

definition service_of :: "string \<Rightarrow> service option" where
  "service_of i = find (id_belongs_to i) service_all"

section \<open>What the owner types\<close>

definition is_ascii_hexdigit :: "char \<Rightarrow> bool" where
  "is_ascii_hexdigit c \<longleftrightarrow>
     is_ascii_digit c \<or> (65 \<le> code c \<and> code c \<le> 70) \<or> (97 \<le> code c \<and> code c \<le> 102)"

definition is_guid :: "string \<Rightarrow> bool" where
  "is_guid s =
     (let ps = split_on CHR ''-'' s
      in length ps = 5 \<and>
         list_all (\<lambda>(n, p). byte_len p = n \<and> list_all is_ascii_hexdigit p) (zip [8, 4, 4, 4, 12] ps))"

definition is_label :: "string \<Rightarrow> bool" where
  "is_label l \<longleftrightarrow>
     l \<noteq> [] \<and> byte_len l \<le> 63 \<and> \<not> starts_with ''-'' l \<and> \<not> ends_with ''-'' l \<and>
     list_all (\<lambda>c. is_ascii_alphanumeric c \<or> c = CHR ''-'') l"

definition is_domain :: "string \<Rightarrow> bool" where
  "is_domain s \<longleftrightarrow> byte_len s \<le> 253 \<and> CHR ''.'' \<in> set s \<and> list_all is_label (split_on CHR ''.'' s)"

definition is_slack_channel :: "string \<Rightarrow> bool" where
  "is_slack_channel s \<longleftrightarrow>
     (case s of
        [] \<Rightarrow> False
      | c # cs \<Rightarrow>
          c \<in> {CHR ''C'', CHR ''G''} \<and> 9 \<le> byte_len s \<and> byte_len s \<le> 13 \<and>
          list_all (\<lambda>d. is_ascii_uppercase d \<or> is_ascii_digit d) cs)"

definition is_slack_client_id :: "string \<Rightarrow> bool" where
  "is_slack_client_id s \<longleftrightarrow>
     byte_len s \<le> 60 \<and>
     (case split_once CHR ''.'' s of
        None \<Rightarrow> False
      | Some (a, b) \<Rightarrow> a \<noteq> [] \<and> b \<noteq> [] \<and> list_all is_ascii_digit (a @ b))"

definition is_google_client_id :: "string \<Rightarrow> bool" where
  "is_google_client_id s \<longleftrightarrow>
     byte_len s \<le> 200 \<and>
     (case Option.bind (strip_suffix ''.apps.googleusercontent.com'' s) (split_once CHR ''-'') of
        None \<Rightarrow> False
      | Some (n, rest) \<Rightarrow>
          n \<noteq> [] \<and> list_all is_ascii_digit n \<and> rest \<noteq> [] \<and> list_all is_ascii_alphanumeric rest)"

definition local_only :: "string list" where
  "local_only = [''.local'', ''.lan'', ''.internal'', ''.home.arpa'', ''.localhost'', ''.localdomain'']"

datatype address_error = AddressShape | PlainHttp | NotHttps | NotAWebAddress | HasCredentials | NamesAPort
  | HasQuery | IsAnIp | NotADomainName | LocalNetworkOnly | BadFolder | IsAPage

text \<open>What follows the third slash of the typed address (\<open>splitn(4, '/').nth(3)\<close>).\<close>

definition typed_path :: "string \<Rightarrow> string" where
  "typed_path t =
     trim_end_matches (\<lambda>c. c = CHR ''/'') (join ''/'' (drop 3 (split_on CHR ''/'' t)))"

definition is_dots :: "string \<Rightarrow> bool" where
  "is_dots seg \<longleftrightarrow> seg = ''.'' \<or> seg = ''..''"

definition folder_segment :: "string \<Rightarrow> bool" where
  "folder_segment seg \<longleftrightarrow>
     seg \<noteq> [] \<and> \<not> is_dots seg \<and>
     list_all (\<lambda>c. is_ascii_alphanumeric c \<or> c \<in> {CHR ''-'', CHR ''_'', CHR ''.'', CHR ''~''}) seg"

definition address_of_url :: "string \<Rightarrow> url \<Rightarrow> address_error + string" where
  "address_of_url t u =
     (if u_username u \<noteq> [] \<or> u_password u \<noteq> None then Inl HasCredentials
      else if u_port u \<noteq> None then Inl NamesAPort
      else if u_query u \<noteq> None \<or> u_fragment u \<noteq> None \<or> CHR ''?'' \<in> set t \<or> CHR ''#'' \<in> set t
      then Inl HasQuery
      else
        (case u_host u of
           Some (HostDomain d) \<Rightarrow>
             let host = to_ascii_lowercase d;
                 path = trim_end_matches (\<lambda>c. c = CHR ''/'') (u_path u);
                 dots = list_ex is_dots (split_chars (\<lambda>c. c = CHR ''/'' \<or> c = backslash) (typed_path t));
                 path_ok = (\<not> dots \<and> list_all folder_segment (drop 1 (split_on CHR ''/'' path)));
                 lower_path = to_ascii_lowercase path
             in if \<not> is_domain host \<or> list_all is_ascii_digit (last (split_on CHR ''.'' host))
                then Inl NotADomainName
                else if list_ex (\<lambda>e. ends_with e host) local_only then Inl LocalNetworkOnly
                else if \<not> path_ok \<or> byte_len path > 100 then Inl BadFolder
                else if ends_with ''/wp-json'' lower_path \<or> contains lower_path ''/wp-admin'' \<or>
                        contains lower_path ''/wp-json/''
                then Inl IsAPage
                else Inr (''https://'' @ host @ path)
         | _ \<Rightarrow> Inl IsAnIp))"

definition site_address :: "url_crate \<Rightarrow> string \<Rightarrow> address_error + string" where
  "site_address U typed =
     (let t = trim typed in
      if t = [] \<or> length t > 300 \<or> list_ex is_control t then Inl AddressShape
      else if starts_with ''http://'' (to_ascii_lowercase t) then Inl PlainHttp
      else if \<not> starts_with ''https://'' (to_ascii_lowercase t) then Inl NotHttps
      else (case U t of Inl _ \<Rightarrow> Inl NotAWebAddress | Inr u \<Rightarrow> address_of_url t u))"

text \<open>\<open>str::rsplit_once\<close>: what is before the last delimiter and what is after it.\<close>

definition rsplit_once :: "char \<Rightarrow> string \<Rightarrow> (string \<times> string) option" where
  "rsplit_once d s = map_option (\<lambda>(a, b). (rev b, rev a)) (split_once d (rev s))"

definition address_marks :: string where
  "address_marks = ''.!#$%&'' @ [CHR 0x27] @ ''*+-/=?^_'' @ [CHR 0x60] @ ''{|}~''"

fun has_two_dots :: "string \<Rightarrow> bool" where
  "has_two_dots (a # b # s) \<longleftrightarrow> (a = CHR ''.'' \<and> b = CHR ''.'') \<or> has_two_dots (b # s)"
| "has_two_dots _ \<longleftrightarrow> False"

definition is_address :: "string \<Rightarrow> bool" where
  "is_address s \<longleftrightarrow>
     (case rsplit_once CHR ''@'' s of
        None \<Rightarrow> False
      | Some (name, domain) \<Rightarrow>
          name \<noteq> [] \<and> byte_len name \<le> 64 \<and>
          list_all (\<lambda>c. is_ascii_alphanumeric c \<or> c \<in> set address_marks) name \<and>
          \<not> starts_with ''.'' name \<and> \<not> ends_with ''.'' name \<and> \<not> has_two_dots name \<and>
          is_domain domain)"

datatype send_entry_error = EntryShape | NotADomain string | NotAnEmail string | NotForSlack string
  | ChannelAsks string | NotAnEntry string

definition send_entry :: "string \<Rightarrow> service \<Rightarrow> send_entry_error + string" where
  "send_entry e0 s =
     (let e = trim e0 in
      if e = [] \<or> length e > 200 \<or> list_ex is_control e then Inl EntryShape
      else if s = Slack \<and> is_slack_channel e then Inr e
      else
        let lower = to_lowercase e in
        (case strip_prefix ''@'' lower of
           Some domain \<Rightarrow> if is_domain domain then Inr lower else Inl (NotADomain e)
         | None \<Rightarrow>
             if CHR ''@'' \<in> set lower
             then (if is_address lower then Inr lower else Inl (NotAnEmail e))
             else if s = Slack then Inl (NotForSlack e)
             else if starts_with ''#'' e then Inl (ChannelAsks e)
             else Inl (NotAnEntry e)))"

definition entry_covers_address :: "string \<Rightarrow> string \<Rightarrow> bool" where
  "entry_covers_address e0 r =
     (let e = to_lowercase (trim e0) in
      (case strip_prefix ''@'' e of
         Some d \<Rightarrow> map_option snd (rsplit_once CHR ''@'' r) = Some d
       | None \<Rightarrow> e = r))"

definition listed :: "string list \<Rightarrow> string \<Rightarrow> bool" where
  "listed ls recipient =
     (let r = to_lowercase (trim recipient) in
      is_address r \<and> list_ex (\<lambda>e. entry_covers_address e r) ls)"

definition listed_for :: "service \<Rightarrow> string list \<Rightarrow> string \<Rightarrow> bool" where
  "listed_for s ls recipient =
     (let r = trim recipient in
      if s = Slack \<and> is_slack_channel r then r \<in> set ls else listed ls r)"

section \<open>The check of a worker's use\<close>

datatype tool_kind = ToolReads | ToolWrites | ToolSends | ToolDeletes | ToolPays

definition tool_writes :: "tool_kind \<Rightarrow> bool" where
  "tool_writes k \<longleftrightarrow> k \<noteq> ToolReads"

fun tool_sensitive :: "tool_kind \<Rightarrow> (sensitive_kind \<times> string) option" where
  "tool_sensitive ToolReads = None"
| "tool_sensitive ToolWrites = None"
| "tool_sensitive ToolSends = Some (Outbound, ''it sends or posts to people through a Connection'')"
| "tool_sensitive ToolDeletes =
     Some (CloudDelete, ''it deletes or replaces something through a Connection'')"
| "tool_sensitive ToolPays = Some (Payment, ''it moves money through a Connection'')"

record connection_check =
  cc_connection :: connection
  cc_part :: part
  cc_kind :: tool_kind
  cc_recipients :: "string list"

datatype connection_verdict =
    ConnectionDeny layer connection_words
  | ConnectionGo "(sensitive_kind \<times> string) option" bool

definition connection_verdict_of :: "connection_check \<Rightarrow> connection_verdict" where
  "connection_verdict_of c =
     (let conn = cc_connection c; name = connection_label conn in
      (case cn_state conn of
         NotConnected \<Rightarrow> ConnectionDeny LayerTarget (NotConnectedYet name)
       | NeedsSignIn \<Rightarrow> ConnectionDeny LayerTarget (SignInAgain name)
       | Connected \<Rightarrow>
           if \<not> has_part (cn_service conn) (cc_part c) (cn_account_kind conn)
           then ConnectionDeny LayerTarget (NoPartForPersonal name (part_label (cc_part c)))
           else
             (case connection_part conn (cc_part c) of
                PartIsOff \<Rightarrow> ConnectionDeny LayerRule (PartOff name (part_label (cc_part c)))
              | l \<Rightarrow>
                  if l = PartReads \<and> tool_writes (cc_kind c)
                  then ConnectionDeny LayerRule (PartReadOnly name (part_label (cc_part c)))
                  else
                    ConnectionGo (tool_sensitive (cc_kind c))
                      (cc_kind c = ToolSends \<and> cc_recipients c \<noteq> [] \<and>
                       list_all (listed_for (cn_service conn) (cn_send_list conn)) (cc_recipients c)))))"

section \<open>The owner's actions\<close>

datatype connection_action = Connect | Cancel | Disconnect | Change

record connection_request =
  crq_id :: string
  crq_action :: connection_action
  crq_signing_in :: bool
  crq_has_app :: bool
  crq_parts_on :: bool

datatype action_refusal = NoSuchConnection string | ComesLater string | AlreadyWaiting string
  | NoAppId string | TurnOnAPart string | NothingWaiting string

definition action_decide :: "connection_request \<Rightarrow> action_refusal + unit" where
  "action_decide r =
     (case service_of (crq_id r) of
        None \<Rightarrow> Inl (NoSuchConnection (crq_id r))
      | Some s \<Rightarrow>
          let name = service_label s in
          if crq_action r = Disconnect then Inr ()
          else if \<not> service_built s then Inl (ComesLater name)
          else
            (case crq_action r of
               Connect \<Rightarrow>
                 if crq_signing_in r \<and> \<not> signs_in_with_a_code s then Inl (AlreadyWaiting name)
                 else if \<not> crq_has_app r then Inl (NoAppId name)
                 else if \<not> crq_parts_on r \<and> parts s \<noteq> [] then Inl (TurnOnAPart name)
                 else Inr ()
             | Cancel \<Rightarrow> if \<not> crq_signing_in r then Inl (NothingWaiting name) else Inr ()
             | _ \<Rightarrow> Inr ()))"

section \<open>Add-ons\<close>

definition max_add_ons :: nat where "max_add_ons = 20"
definition max_tools :: nat where "max_tools = 100"
definition max_args :: nat where "max_args = 30"
definition max_arg_chars :: nat where "max_arg_chars = 500"
definition max_add_on_secrets :: nat where "max_add_on_secrets = 8"
definition max_description :: nat where "max_description = 2000"
definition max_input_bytes :: nat where "max_input_bytes = 16 * 1024"
definition max_alias :: nat where "max_alias = 50"

datatype tool_mark = MarkOff | MarkReading | MarkChanging

record add_on_tool =
  at_name :: string
  at_alias :: string
  at_mark :: tool_mark
  at_description :: string
  at_input :: string
  at_read_only_hint :: "bool option"
  at_destructive_hint :: "bool option"
  at_changed :: bool

record listed_tool =
  lt_name :: string
  lt_description :: string
  lt_input :: string
  lt_read_only_hint :: "bool option"
  lt_destructive_hint :: "bool option"

record add_on =
  ad_id :: string
  ad_name :: string
  ad_program :: string
  ad_args :: "string list"
  ad_secrets :: "string list"
  ad_on :: bool
  ad_tools :: "add_on_tool list"
  ad_access :: "access list"
  ad_checked_at :: "nat option"
  ad_added_at :: nat

definition add_on_tool_of :: "add_on \<Rightarrow> string \<Rightarrow> add_on_tool option" where
  "add_on_tool_of a als = find (\<lambda>t. at_alias t = als) (ad_tools a)"

fun add_on_allows :: "access_level \<Rightarrow> tool_mark \<Rightarrow> bool" where
  "add_on_allows l MarkOff \<longleftrightarrow> False"
| "add_on_allows l MarkReading \<longleftrightarrow> True"
| "add_on_allows l MarkChanging \<longleftrightarrow> l = AccessWrite"

record add_on_check =
  aoc_add_on :: add_on
  aoc_tool :: add_on_tool

definition shells :: "string list" where
  "shells =
     [''osascript'', ''cmd'', ''command'', ''powershell'', ''powershell_ise'', ''pwsh'', ''bash'',
      ''sh'', ''zsh'', ''fish'', ''dash'', ''ksh'', ''csh'', ''tcsh'', ''wsl'', ''cscript'', ''wscript'']"

definition downloaders :: "string list" where
  "downloaders = [''npx'', ''pnpx'', ''bunx'', ''uvx'', ''mshta'', ''dnx'']"

definition add_on_wrappers :: "string list" where
  "add_on_wrappers =
     [''env'', ''busybox'', ''conhost'', ''git-bash'', ''ubuntu'', ''start'', ''xargs'', ''nohup'',
      ''sudo'', ''open'', ''xdg-open'', ''launchctl'']"

definition inline_code :: "(string \<times> string list) list" where
  "inline_code =
     [(''node'', [''-e'', ''--eval'', ''-p'', ''--print'']), (''python'', [''-c'']),
      (''python3'', [''-c'']), (''py'', [''-c'']), (''perl'', [''-e'', ''-E'']), (''ruby'', [''-e''])]"

definition downloading :: "(string \<times> string) list" where
  "downloading =
     [(''npm'', ''exec''), (''npm'', ''x''), (''pnpm'', ''dlx''), (''yarn'', ''dlx''), (''bun'', ''x''),
      (''pipx'', ''run''), (''uv'', ''tool'')]"

definition program_stem :: "string \<Rightarrow> string" where
  "program_stem program =
     (let f = to_ascii_lowercase (last (split_chars (\<lambda>c. c = CHR ''/'' \<or> c = backslash) program)) in
      (case find_map (\<lambda>ext. strip_suffix ext f) [''.exe'', ''.cmd'', ''.bat'', ''.com'', ''.ps1'', ''.sh''] of
         Some stem \<Rightarrow> stem
       | None \<Rightarrow> f))"

datatype program_refusal = IsShell string | StartsAnother string | RunsInlineCode string
  | Downloads string string | DenoDownloads

definition refused_program :: "string \<Rightarrow> string list \<Rightarrow> program_refusal option" where
  "refused_program program args =
     (let stem = program_stem program;
          lower = map (\<lambda>a. to_ascii_lowercase (trim a)) args;
          unversioned = trim_end_matches (\<lambda>c. is_ascii_digit c \<or> c = CHR ''.'') stem;
          first = (case find (\<lambda>a. \<not> starts_with ''-'' a) lower of None \<Rightarrow> [] | Some a \<Rightarrow> a);
          inline = (case find (\<lambda>(p, _). p = stem \<or> p = unversioned) inline_code of
                      None \<Rightarrow> False
                    | Some (_, switches) \<Rightarrow> list_ex (\<lambda>a. a \<in> set switches) lower)
      in if stem \<in> set shells then Some (IsShell stem)
         else if stem \<in> set add_on_wrappers then Some (StartsAnother stem)
         else if inline then Some (RunsInlineCode stem)
         else if stem \<in> set downloaders \<or> (stem, first) \<in> set downloading \<or>
                 (stem = ''uv'' \<and> first = ''run'' \<and> list_ex (\<lambda>a. contains a ''--with'') args) \<or>
                 (stem = ''go'' \<and> first = ''run'' \<and> list_ex (\<lambda>a. CHR ''@'' \<in> set a) args)
         then Some (Downloads stem (if stem \<in> set downloaders then [] else first))
         else if stem = ''deno'' \<and>
                 list_ex (\<lambda>a. list_ex (\<lambda>p. starts_with p (to_ascii_lowercase (trim a)))
                               [''http://'', ''https://'', ''npm:'', ''jsr:'']) args
         then Some DenoDownloads
         else None)"

definition id_for :: "string \<Rightarrow> string list \<Rightarrow> string" where
  "id_for name taken =
     (let base0 = take 10 (filter is_ascii_alphanumeric (to_ascii_lowercase name));
          base = (if base0 = [] then ''addon'' else base0)
      in if base \<notin> set taken then base
         else
           (case find (\<lambda>i. i \<notin> set taken) (map (\<lambda>n. base @ dec n) [2..<100]) of
              Some i \<Rightarrow> i
            | None \<Rightarrow> base @ ''x''))"

text \<open>FNV-1a on 32 bits, and its last sixteen bits as four hexadecimal digits.\<close>

definition fnv1a :: "byte list \<Rightarrow> 32 word" where
  "fnv1a bs = foldl (\<lambda>h b. xor h (ucast b) * 0x01000193) 0x811C9DC5 bs"

definition hex_digit :: "nat \<Rightarrow> char" where
  "hex_digit n = (if n < 10 then char_of (48 + n) else char_of (87 + n))"

definition hex4 :: "nat \<Rightarrow> string" where
  "hex4 n = map (\<lambda>d. hex_digit (n div d mod 16)) [4096, 256, 16, 1]"

definition check_code :: "string \<Rightarrow> string" where
  "check_code s = hex4 (unat (and (fnv1a (as_bytes s)) 0xFFFF))"

definition alias_for :: "string \<Rightarrow> string \<Rightarrow> string" where
  "alias_for add_on_id name =
     (let under = (\<lambda>c. c = CHR ''_'');
          clean0 = map (\<lambda>c. if is_ascii_alphanumeric c then c else CHR ''_'') (to_ascii_lowercase name);
          clean = trim_end_matches under (trim_start_matches under clean0);
          start = ''addon_'' @ add_on_id @ ''_'';
          room = max_alias - byte_len start
      in if clean \<noteq> [] \<and> clean = name \<and> byte_len clean \<le> room then start @ clean
         else
           let code4 = check_code name;
               keep = trim_end_matches under (take (room - 5) clean)
           in if keep = [] then start @ code4 else start @ keep @ ''_'' @ code4)"

definition kept_description :: "string \<Rightarrow> string" where
  "kept_description d = take max_description (filter (\<lambda>c. \<not> is_control c \<or> c = newline) d)"

definition kept_input :: "string \<Rightarrow> string" where
  "kept_input j =
     (if byte_len j \<le> max_input_bytes \<and> starts_with ''{'' j then j
      else ''{'' @ [quotes] @ ''type'' @ [quotes] @ '':'' @ [quotes] @ ''object'' @ [quotes] @ ''}'')"

definition merge_tool :: "string \<Rightarrow> add_on_tool list \<Rightarrow> add_on_tool list \<Rightarrow> listed_tool \<Rightarrow> add_on_tool list" where
  "merge_tool add_on_id before out l =
     (if lt_name l = [] \<or> list_ex (\<lambda>t. at_name t = lt_name l) out then out
      else
        let description = kept_description (lt_description l);
            input = kept_input (lt_input l);
            alias0 = alias_for add_on_id (lt_name l);
            als = (if list_ex (\<lambda>t. at_alias t = alias0) out
                   then alias_for add_on_id (lt_name l @ ''#'' @ dec (length out)) else alias0);
            (mark, changed) =
              (case find (\<lambda>b. at_name b = lt_name l) before of
                 Some b \<Rightarrow>
                   if at_description b = description \<and> at_input b = input
                   then (at_mark b, at_changed b) else (MarkOff, True)
               | None \<Rightarrow> (MarkOff, False))
        in out @ [\<lparr> at_name = lt_name l, at_alias = als, at_mark = mark, at_description = description,
                     at_input = input, at_read_only_hint = lt_read_only_hint l,
                     at_destructive_hint = lt_destructive_hint l, at_changed = changed \<rparr>])"

definition merge_tools :: "string \<Rightarrow> add_on_tool list \<Rightarrow> listed_tool list \<Rightarrow> add_on_tool list" where
  "merge_tools add_on_id before ls = foldl (merge_tool add_on_id before) [] (take max_tools ls)"

end
