(* ===== verification/Guard_Servers.thy ===== *)
theory Guard_Servers
  imports Guard_Server_Kinds Guard_Connections
begin

text \<open>
  Servers the owner set up (\<open>crates/guard/src/servers.rs\<close>): what the owner submits is checked and
  made into the stored form (\<open>server_clean\<close>), paths on a server are tidied and confined to its
  folders, and a worker's use of a server is checked (\<open>server_check\<close>, \<open>server_run\<close>). The kinds of
  commands are in \<open>Guard_Server_Kinds\<close>. Secret values an owner submits once (key, passphrase,
  password) never reach Guard's settings and are not modelled.
\<close>

section \<open>A server\<close>

definition max_folders :: nat where "max_folders = 20"
definition max_forwards :: nat where "max_forwards = 10"
definition max_roles :: nat where "max_roles = 100"
definition ssh_port :: nat where "ssh_port = 22"

datatype environment = Development | Staging | Live

datatype sign_in = SignKey | SignPassword | SignAgent

datatype server_approval = AskEvery | AskChanges | AskAllowed

record host_key =
  hk_algorithm :: string
  hk_fingerprint :: string
  hk_pinned_at :: nat

record server =
  sv_id :: string
  sv_name :: string
  sv_host :: string
  sv_port :: nat
  sv_user :: string
  sv_environment :: environment
  sv_sign_in :: sign_in
  sv_host_key :: "host_key option"
  sv_roles :: "string list"
  sv_classes :: "command_class list"
  sv_approval :: server_approval
  sv_folders :: "string list"
  sv_forwards :: "string list"
  sv_created_at :: nat
  sv_updated_at :: nat

record server_input =
  svi_name :: string
  svi_host :: string
  svi_port :: nat
  svi_user :: string
  svi_environment :: environment
  svi_sign_in :: sign_in
  svi_host_key :: "(string \<times> string) option"
  svi_roles :: "string list"
  svi_classes :: "command_class list"
  svi_approval :: server_approval
  svi_folders :: "string list"
  svi_forwards :: "string list"

fun environment_word :: "environment \<Rightarrow> string" where
  "environment_word Development = ''test''"
| "environment_word Staging = ''staging''"
| "environment_word Live = ''production''"

definition server_address :: "server \<Rightarrow> string" where
  "server_address s =
     (let host = (if CHR '':'' \<in> set (sv_host s) then ''['' @ sv_host s @ '']'' else sv_host s)
      in sv_user s @ ''@'' @ host @ '':'' @ dec (sv_port s))"

definition server_tag :: "server \<Rightarrow> string" where
  "server_tag s = sv_name s @ '' ('' @ environment_word (sv_environment s) @ '')''"

definition sv_allows :: "server \<Rightarrow> command_class \<Rightarrow> bool" where
  "sv_allows s c \<longleftrightarrow> c \<in> set (sv_classes s)"

fun default_classes :: "environment \<Rightarrow> command_class list" where
  "default_classes Live = [KLook, KServices]"
| "default_classes _ = [KLook, KServices, KChange]"

section \<open>Checking what the owner submits\<close>

datatype server_error =
    NotOneLine string nat
  | NotAServerAddress string
  | NotAUserName string
  | FolderNotFull string
  | FolderUsesDots string
  | NotAForward string
  | NotAFingerprint string
  | TooManyFolders
  | TooManyForwards
  | BadRole
  | TooManyRoles

definition one_line :: "string \<Rightarrow> string \<Rightarrow> nat \<Rightarrow> server_error + string" where
  "one_line what v0 mx =
     (let v = trim v0 in
      if v = [] \<or> length v > mx \<or> list_ex is_control v then Inl (NotOneLine what mx) else Inr v)"

definition valid_host :: "string \<Rightarrow> server_error + string" where
  "valid_host host =
     (let h = trim_end_matches (\<lambda>c. c = CHR '']'') (trim_start_matches (\<lambda>c. c = CHR ''['') (trim host));
          ok = (1 \<le> byte_len h \<and> byte_len h \<le> 253 \<and> \<not> starts_with_any ''-.'' h \<and>
                (list_all (\<lambda>c. is_ascii_alphanumeric c \<or> c \<in> {CHR ''.'', CHR ''-'', CHR ''_''}) h \<or>
                 (CHR '':'' \<in> set h \<and>
                  list_all (\<lambda>c. is_ascii_hexdigit c \<or> c = CHR '':'' \<or> c = CHR ''.'') h)))
      in if ok then Inr (to_ascii_lowercase h) else Inl (NotAServerAddress (trim host)))"

definition valid_user :: "string \<Rightarrow> server_error + string" where
  "valid_user user =
     (let u = trim user in
      if 1 \<le> length u \<and> length u \<le> 64 \<and> \<not> starts_with ''-'' u \<and>
         list_all (\<lambda>c. \<not> is_whitespace c \<and> \<not> is_control c \<and>
                      c \<notin> {CHR ''@'', CHR '':'', CHR ''/'', backslash}) u
      then Inr u else Inl (NotAUserName u))"

definition srv_normalize :: "string \<Rightarrow> string option" where
  "srv_normalize p =
     (let ps = split_on CHR ''/'' p in
      if ''..'' \<in> set ps then None
      else
        let joined = join ''/'' (filter (\<lambda>q. q \<noteq> [] \<and> q \<noteq> ''.'') ps)
        in Some (if starts_with ''/'' p then ''/'' @ joined else joined))"

definition valid_folder :: "string \<Rightarrow> server_error + string" where
  "valid_folder folder =
     (let f = trim folder in
      if \<not> starts_with ''/'' f \<or> length f > 300 \<or> list_ex is_control f then Inl (FolderNotFull f)
      else (case srv_normalize f of None \<Rightarrow> Inl (FolderUsesDots f) | Some n \<Rightarrow> Inr n))"

text \<open>\<open>str::parse::<u16>\<close>: an optional plus sign and decimal digits, at most 65535.\<close>

definition parse_u16 :: "string \<Rightarrow> nat option" where
  "parse_u16 s =
     (let ds = (case strip_prefix ''+'' s of None \<Rightarrow> s | Some t \<Rightarrow> t) in
      if ds \<noteq> [] \<and> list_all is_ascii_digit ds \<and> undec ds \<le> 65535 then Some (undec ds) else None)"

definition valid_forward :: "string \<Rightarrow> server_error + string" where
  "valid_forward t0 =
     (let t = trim t0 in
      (case rsplit_once CHR '':'' t of
         None \<Rightarrow> Inl (NotAForward t)
       | Some (host, port) \<Rightarrow>
           (case parse_u16 port of
              None \<Rightarrow> Inl (NotAForward t)
            | Some p \<Rightarrow>
                if p = 0 then Inl (NotAForward t)
                else
                  (case valid_host host of
                     Inl _ \<Rightarrow> Inl (NotAForward t)
                   | Inr h \<Rightarrow> Inr (h @ '':'' @ dec p)))))"

definition valid_fingerprint :: "string \<Rightarrow> server_error + string" where
  "valid_fingerprint fp =
     (let f = trim fp;
          body = (case strip_prefix ''SHA256:'' f of None \<Rightarrow> [] | Some b \<Rightarrow> b)
      in if 40 \<le> byte_len body \<and> byte_len body \<le> 64 \<and>
            list_all (\<lambda>c. is_ascii_alphanumeric c \<or> c \<in> {CHR ''+'', CHR ''/'', CHR ''=''}) body
         then Inr (''SHA256:'' @ trim_end_matches (\<lambda>c. c = CHR ''='') body)
         else Inl (NotAFingerprint f))"

text \<open>The source's loops over folders, forwards and roles: check each entry, keep the new ones.\<close>

fun collect_valid ::
  "(string \<Rightarrow> server_error + string) \<Rightarrow> string list \<Rightarrow> string list \<Rightarrow> server_error + string list" where
  "collect_valid v out [] = Inr out"
| "collect_valid v out (x # xs) =
     (case v x of
        Inl e \<Rightarrow> Inl e
      | Inr y \<Rightarrow> collect_valid v (if y \<in> set out then out else out @ [y]) xs)"

definition not_blank :: "string \<Rightarrow> bool" where
  "not_blank s \<longleftrightarrow> trim s \<noteq> []"

definition valid_role :: "string \<Rightarrow> server_error + string" where
  "valid_role r0 =
     (let r = trim r0 in
      if r = [] \<or> byte_len r > 64 \<or> list_ex is_control r then Inl BadRole else Inr r)"

definition at_most :: "nat \<Rightarrow> server_error \<Rightarrow> string list \<Rightarrow> server_error + string list" where
  "at_most n e xs = (if length xs > n then Inl e else Inr xs)"

definition bind_sum :: "'e + 'a \<Rightarrow> ('a \<Rightarrow> 'e + 'b) \<Rightarrow> 'e + 'b" where
  "bind_sum r k = (case r of Inl e \<Rightarrow> Inl e | Inr x \<Rightarrow> k x)"

lemma bind_sum_Inr [simp]: "bind_sum r k = Inr y \<longleftrightarrow> (\<exists>x. r = Inr x \<and> k x = Inr y)"
  by (cases r) (simp_all add: bind_sum_def)

text \<open>When the identity was pinned: again only when it changed.\<close>

definition pinned_at :: "server option \<Rightarrow> string \<Rightarrow> nat \<Rightarrow> nat" where
  "pinned_at earlier fingerprint now =
     (case Option.bind earlier sv_host_key of
        Some old \<Rightarrow> if hk_fingerprint old = fingerprint then hk_pinned_at old else now
      | None \<Rightarrow> now)"

definition clean_host_key ::
  "(string \<times> string) option \<Rightarrow> server option \<Rightarrow> nat \<Rightarrow> server_error + host_key option" where
  "clean_host_key k earlier now =
     (case k of
        None \<Rightarrow> Inr None
      | Some (algorithm0, fingerprint0) \<Rightarrow>
          bind_sum (valid_fingerprint fingerprint0) (\<lambda>fingerprint.
          bind_sum (one_line ''the host key's type'' algorithm0 60) (\<lambda>algorithm.
            Inr (Some \<lparr> hk_algorithm = algorithm, hk_fingerprint = fingerprint,
                        hk_pinned_at = pinned_at earlier fingerprint now \<rparr>))))"

definition server_clean ::
  "server_input \<Rightarrow> string \<Rightarrow> server option \<Rightarrow> nat \<Rightarrow> server_error + server" where
  "server_clean inp i earlier now =
     bind_sum (one_line ''the server's name'' (svi_name inp) 60) (\<lambda>name.
     bind_sum (valid_host (svi_host inp)) (\<lambda>host.
     bind_sum (valid_user (svi_user inp)) (\<lambda>user.
     bind_sum (collect_valid valid_folder [] (filter not_blank (svi_folders inp))) (\<lambda>folders0.
     bind_sum (at_most max_folders TooManyFolders folders0) (\<lambda>folders.
     bind_sum (collect_valid valid_forward [] (filter not_blank (svi_forwards inp))) (\<lambda>forwards0.
     bind_sum (at_most max_forwards TooManyForwards forwards0) (\<lambda>forwards.
     bind_sum (collect_valid valid_role [] (svi_roles inp)) (\<lambda>roles0.
     bind_sum (at_most max_roles TooManyRoles roles0) (\<lambda>roles.
     bind_sum (clean_host_key (svi_host_key inp) earlier now) (\<lambda>key.
       Inr \<lparr> sv_id = i, sv_name = name, sv_host = host,
             sv_port = (if svi_port inp = 0 then ssh_port else svi_port inp), sv_user = user,
             sv_environment = svi_environment inp, sv_sign_in = svi_sign_in inp, sv_host_key = key,
             sv_roles = roles,
             sv_classes = remdups_adj (filter (\<lambda>c. c \<in> set (svi_classes inp)) class_all),
             sv_approval = (if svi_environment inp = Live then AskEvery else svi_approval inp),
             sv_folders = folders, sv_forwards = forwards,
             sv_created_at = (case earlier of None \<Rightarrow> now | Some s \<Rightarrow> sv_created_at s),
             sv_updated_at = now \<rparr>))))))))))"

section \<open>Paths on a server\<close>

definition srv_inside :: "string \<Rightarrow> string \<Rightarrow> bool" where
  "srv_inside p folder \<longleftrightarrow> folder = ''/'' \<or> p = folder \<or> starts_with (folder @ ''/'') p"

datatype cwd_error = NoFolders string string | CwdUsesDots string | CwdNotAllowed string string "string list"

definition resolve_cwd :: "server \<Rightarrow> string option \<Rightarrow> cwd_error + string option" where
  "resolve_cwd s asked0 =
     (let asked = (case map_option trim asked0 of
                     None \<Rightarrow> None
                   | Some a \<Rightarrow> if a \<noteq> [] \<and> a \<noteq> ''.'' then Some a else None) in
      (case sv_folders s of
         [] \<Rightarrow>
           (case asked of
              None \<Rightarrow> Inr None
            | Some a \<Rightarrow>
                if starts_with ''/'' a \<or> starts_with ''~'' a then Inl (NoFolders (sv_name s) (sv_user s))
                else (case srv_normalize a of None \<Rightarrow> Inl (CwdUsesDots a) | Some n \<Rightarrow> Inr (Some n)))
       | first # _ \<Rightarrow>
           (case asked of
              None \<Rightarrow> Inr (Some first)
            | Some a \<Rightarrow>
                let full0 = (if starts_with ''/'' a then a else first @ ''/'' @ a) in
                (case srv_normalize full0 of
                   None \<Rightarrow> Inl (CwdUsesDots a)
                 | Some full \<Rightarrow>
                     if list_ex (srv_inside full) (sv_folders s) then Inr (Some full)
                     else Inl (CwdNotAllowed full (sv_name s) (sv_folders s))))))"

definition is_quote_mark :: "char \<Rightarrow> bool" where
  "is_quote_mark c \<longleftrightarrow> c = quotes \<or> c = apostrophe"

definition value_of :: "string \<Rightarrow> string" where
  "value_of arg0 =
     (let arg = trim_end_matches is_quote_mark (trim_start_matches is_quote_mark arg0) in
      (case split_once CHR ''='' arg of
         Some (k, v) \<Rightarrow> if starts_with ''-'' k then v else arg
       | None \<Rightarrow> arg))"

definition path_like :: "string \<Rightarrow> string option" where
  "path_like arg =
     (let v = value_of arg in
      if v = [] \<or> contains v ''://'' \<or> (starts_with ''-'' v \<and> CHR ''/'' \<notin> set v) then None
      else if starts_with ''/'' v \<or> starts_with ''~'' v \<or> CHR ''/'' \<in> set v \<or> starts_with ''.'' v
      then Some v else None)"

definition full_path :: "string \<Rightarrow> string option \<Rightarrow> string option" where
  "full_path arg cwd =
     (if starts_with ''~'' arg then None
      else if starts_with ''/'' arg then srv_normalize arg
      else
        (case cwd of
           Some c \<Rightarrow> srv_normalize (c @ ''/'' @ arg)
         | None \<Rightarrow> map_option (\<lambda>rel. ''~/'' @ rel) (srv_normalize arg)))"

definition outside_folders :: "server \<Rightarrow> string option \<Rightarrow> string \<Rightarrow> server_words option" where
  "outside_folders s cwd arg =
     (case path_like arg of
        None \<Rightarrow> None
      | Some p \<Rightarrow>
          let ok = (case full_path p cwd of
                      None \<Rightarrow> False
                    | Some f \<Rightarrow>
                        if sv_folders s = [] then starts_with ''~/'' f
                        else list_ex (srv_inside f) (sv_folders s))
          in if ok then None
             else Some (if sv_folders s = [] then OutsideHome p (sv_user s) (sv_name s)
                        else OutsideFolders p (sv_name s) (sv_folders s)))"

section \<open>The check of a worker's use\<close>

datatype (plugins only: code size) server_use =
    UseConnect
  | UseRun classified "string option"
  | UseForward string

record server_check =
  sc_server :: server
  sc_role_id :: string
  sc_role_name :: string
  sc_what :: server_use

datatype (plugins only: code size) server_verdict =
    ServerDeny layer server_words
  | ServerGo "server_words option" "(sensitive_kind \<times> string) list"

text \<open>\<open>trim_start_matches("~/")\<close>.\<close>

fun drop_homes :: "string \<Rightarrow> string" where
  "drop_homes (a # b # s) = (if a = CHR ''~'' \<and> b = CHR ''/'' then drop_homes s else a # b # s)"
| "drop_homes s = s"

definition server_file_blocked :: "string list \<Rightarrow> string \<Rightarrow> server_words option" where
  "server_file_blocked blocked_files arg =
     (let v = value_of arg in
      if v = [] \<or> starts_with ''-'' v \<or> contains v ''://'' then None
      else
        map_option (ServerFileBlocked v)
          (blocked_by blocked_files (trim_start_matches (\<lambda>c. c = CHR ''/'') (drop_homes v))))"

definition run_sensitive :: "disk \<Rightarrow> path \<Rightarrow> server \<Rightarrow> classified \<Rightarrow> (sensitive_kind \<times> string) list" where
  "run_sensitive D pwd s k =
     (let found =
        (if kd_is k KAdmin then [(Privilege, ''it runs a program as administrator'')]
         else
           (case sensitive_command D pwd (kd_inner k) [] of
              None \<Rightarrow> []
            | Some (kind, why) \<Rightarrow> if kind \<noteq> OutsideWorkspace then [(kind, why)] else []))
      in if sv_environment s = Live \<and> \<not> looks_only k \<and> \<not> list_ex (\<lambda>(kind, _). kind = Production) found
         then found @ [(Production, ''it changes a production server'')] else found)"

definition run_asks :: "server \<Rightarrow> classified \<Rightarrow> server_words option" where
  "run_asks s k =
     (if sv_environment s = Live then Some (ProductionAsks (sv_name s))
      else if kd_is k KDestroy then Some DestroyAsks
      else if kd_is k KAdmin then Some AdminAsks
      else
        (case sv_approval s of
           AskEvery \<Rightarrow> Some (EveryAsks (sv_name s))
         | AskChanges \<Rightarrow> if \<not> looks_only k then Some (ChangesAsk (sv_name s)) else None
         | AskAllowed \<Rightarrow> None))"

definition server_run ::
  "disk \<Rightarrow> path \<Rightarrow> string list \<Rightarrow> server \<Rightarrow> classified \<Rightarrow> string option \<Rightarrow> server_verdict" where
  "server_run D pwd blocked_files s k cwd =
     (if kd_never k \<noteq> None then ServerDeny LayerRule NeverOnServer
      else
        (case find_map (server_file_blocked blocked_files) (cl_args (kd_inner k)) of
           Some w \<Rightarrow> ServerDeny LayerRule w
         | None \<Rightarrow>
             (case (if kd_changes k then find_map (outside_folders s cwd) (cl_args (kd_inner k)) else None) of
                Some w \<Rightarrow> ServerDeny LayerTarget w
              | None \<Rightarrow>
                  (case find (\<lambda>c. \<not> sv_allows s c) (kd_classes k) of
                     Some c \<Rightarrow>
                       ServerDeny LayerRule
                         (ClassNotAllowed (sv_name s) (class_label c)
                            (c = KDestroy \<and> sv_environment s = Live))
                   | None \<Rightarrow> ServerGo (run_asks s k) (run_sensitive D pwd s k)))))"

definition server_check_of :: "disk \<Rightarrow> path \<Rightarrow> string list \<Rightarrow> server_check \<Rightarrow> server_verdict" where
  "server_check_of D pwd blocked_files c =
     (let s = sc_server c in
      if sc_role_id c \<notin> set (sv_roles s)
      then ServerDeny LayerRule (RoleMayNotUse (sc_role_name c) (sv_name s))
      else if sv_host_key s = None then ServerDeny LayerTarget (NotPinned (sv_name s))
      else
        (case sc_what c of
           UseConnect \<Rightarrow> ServerGo None []
         | UseForward t \<Rightarrow>
             if t \<in> set (sv_forwards s) then ServerGo (Some (ForwardAsks (sv_name s))) []
             else
               ServerDeny LayerRule
                 (if sv_forwards s = [] then ForwardOff (sv_name s)
                  else ForwardNotListed t (sv_name s) (sv_forwards s))
         | UseRun k cwd \<Rightarrow> server_run D pwd blocked_files s k cwd))"

section \<open>What the owner submits is kept well-formed\<close>

lemma split_on_join:
  assumes "ws \<noteq> []" "\<forall>w \<in> set ws. d \<notin> set w"
  shows "split_on d (join [d] ws) = ws"
  using assms
proof (induction "[d]" ws rule: join.induct)
  case (2 w)
  then show ?case by (auto simp: split_on_def intro: split_chars_none)
next
  case (3 w v ws)
  moreover have "split_on d w = [w]"
    using 3 by (auto simp: split_on_def intro: split_chars_none)
  ultimately show ?case by (simp add: split_on_append)
qed simp

lemma split_on_slash: "split_on d (d # s) = [] # split_on d s"
  by (simp add: split_on_def)

text \<open>A tidied path has no part that climbs.\<close>

lemma srv_normalize_parts:
  assumes "srv_normalize p = Some n"
  shows "''..'' \<notin> set (split_on CHR ''/'' n)"
proof -
  let ?ps = "split_on CHR ''/'' p"
  let ?ws = "filter (\<lambda>q. q \<noteq> [] \<and> q \<noteq> ''.'') ?ps"
  have no: "''..'' \<notin> set ?ps" and n: "n = (if starts_with ''/'' p then ''/'' @ join ''/'' ?ws else join ''/'' ?ws)"
    using assms by (auto simp: srv_normalize_def Let_def split: if_splits)
  have "\<forall>w \<in> set ?ws. CHR ''/'' \<notin> set w"
    by (auto simp: split_on_def dest: split_chars_parts)
  then have "''..'' \<notin> set (split_on CHR ''/'' (join ''/'' ?ws))"
    using no split_on_join [of ?ws "CHR ''/''"] by (cases "?ws = []") (auto simp: split_on_def)
  then show ?thesis using n by (auto simp: split_on_slash)
qed

lemma collect_valid_ok:
  "collect_valid v out xs = Inr ys \<Longrightarrow> distinct out \<Longrightarrow> list_all P out \<Longrightarrow>
   (\<And>x y. v x = Inr y \<Longrightarrow> P y) \<Longrightarrow> distinct ys \<and> list_all P ys"
proof (induction v out xs rule: collect_valid.induct)
  case (2 v out x xs)
  then show ?case by (force split: sum.splits if_splits)
qed simp

definition folder_ok :: "string \<Rightarrow> bool" where
  "folder_ok f \<longleftrightarrow> starts_with ''/'' f \<and> ''..'' \<notin> set (split_on CHR ''/'' f)"

lemma valid_folder_ok: "valid_folder f = Inr n \<Longrightarrow> folder_ok n"
  unfolding folder_ok_def
proof
  assume "valid_folder f = Inr n"
  then have "srv_normalize (trim f) = Some n" and abs: "starts_with ''/'' (trim f)"
    by (auto simp: valid_folder_def Let_def split: if_splits option.splits)
  then show "''..'' \<notin> set (split_on CHR ''/'' n)" by (rule_tac srv_normalize_parts)
  show "starts_with ''/'' n"
    using \<open>srv_normalize (trim f) = Some n\<close> abs
    by (auto simp: srv_normalize_def Let_def starts_with_iff split: if_splits)
qed

definition server_ok :: "server \<Rightarrow> bool" where
  "server_ok s \<longleftrightarrow>
     distinct (sv_folders s) \<and> length (sv_folders s) \<le> max_folders \<and> list_all folder_ok (sv_folders s) \<and>
     distinct (sv_forwards s) \<and> length (sv_forwards s) \<le> max_forwards \<and>
     distinct (sv_roles s) \<and> length (sv_roles s) \<le> max_roles \<and>
     distinct (sv_classes s) \<and> sv_port s \<noteq> 0 \<and>
     (sv_environment s = Live \<longrightarrow> sv_approval s = AskEvery)"

lemma classes_distinct: "distinct (remdups_adj (filter P class_all))"
proof -
  have "distinct (filter P class_all)" by (simp add: class_all_def)
  then show ?thesis by (simp add: remdups_adj_distinct)
qed

lemma server_clean_ok:
  assumes "server_clean inp i earlier now = Inr s"
  shows "server_ok s"
proof -
  have folders: "distinct ys \<and> list_all folder_ok ys" if "collect_valid valid_folder [] xs = Inr ys" for xs ys
    using collect_valid_ok [OF that, of folder_ok] valid_folder_ok by simp
  have any: "distinct ys" if "collect_valid v [] xs = Inr ys" for v xs ys
    using collect_valid_ok [OF that, of "\<lambda>_. True"] by simp
  from assms show ?thesis
    unfolding server_clean_def bind_sum_Inr
    by (auto simp: server_ok_def at_most_def classes_distinct ssh_port_def split: if_splits
        dest!: folders dest: any)
qed

text \<open>
  A server is stored well-formed whatever the owner submitted: its folders are full paths with
  no part that climbs, no folder, forwarded port, role or kind of command is listed twice or
  beyond its limit, the port is never zero, and a production server is stored as one that asks
  about every command.
\<close>

theorem stored_server_is_well_formed:
  assumes "server_clean inp i earlier now = Inr s"
  shows "server_ok s"
  using assms by (rule server_clean_ok)

theorem stored_server_is_well_formed_witness:
  "\<exists>s. server_clean
      \<lparr> svi_name = ''Shop'', svi_host = ''Web01.Example.com'', svi_port = 0, svi_user = ''deploy'',
        svi_environment = Live, svi_sign_in = SignKey, svi_host_key = None, svi_roles = [''dev'', ''dev''],
        svi_classes = [KOther, KLook], svi_approval = AskAllowed,
        svi_folders = [''/srv//app/'', ''/srv/./app''], svi_forwards = [''LOCALHOST:05432''] \<rparr>
      ''s1'' None 7 = Inr s \<and> server_ok s \<and> sv_folders s = [''/srv/app''] \<and>
      sv_forwards s = [''localhost:5432'']"
proof -
  let ?i = "\<lparr> svi_name = ''Shop'', svi_host = ''Web01.Example.com'', svi_port = 0, svi_user = ''deploy'',
        svi_environment = Live, svi_sign_in = SignKey, svi_host_key = None, svi_roles = [''dev'', ''dev''],
        svi_classes = [KOther, KLook], svi_approval = AskAllowed,
        svi_folders = [''/srv//app/'', ''/srv/./app''], svi_forwards = [''LOCALHOST:05432''] \<rparr>"
  let ?s = "\<lparr> sv_id = ''s1'', sv_name = ''Shop'', sv_host = ''web01.example.com'', sv_port = 22,
     sv_user = ''deploy'', sv_environment = Live, sv_sign_in = SignKey, sv_host_key = None,
     sv_roles = [''dev''], sv_classes = [KLook, KOther], sv_approval = AskEvery,
     sv_folders = [''/srv/app''], sv_forwards = [''localhost:5432''], sv_created_at = 7, sv_updated_at = 7 \<rparr>"
  have "server_clean ?i ''s1'' None 7 = Inr ?s" by code_simp
  moreover from this have "server_ok ?s" by (rule stored_server_is_well_formed)
  ultimately show ?thesis by (intro exI [of _ ?s]) simp
qed

section \<open>What a check that lets a command go has made sure of\<close>

text \<open>A path lies in a folder when the folder's parts start the path's.\<close>

definition lies_in :: "string \<Rightarrow> string \<Rightarrow> bool" where
  "lies_in p folder \<longleftrightarrow> folder = ''/'' \<or> prefix (split_on CHR ''/'' folder) (split_on CHR ''/'' p)"

lemma srv_inside_lies_in: "srv_inside p folder \<Longrightarrow> lies_in p folder"
  by (auto simp: srv_inside_def lies_in_def starts_with_iff split_on_append)

lemma full_path_parts:
  "full_path p cwd = Some f \<Longrightarrow> ''..'' \<notin> set (split_on CHR ''/'' f)"
  by (auto simp: full_path_def split_on_append [of "CHR ''/''" "''~''", simplified] split: if_splits option.splits
      dest!: srv_normalize_parts) (simp add: split_on_def)

lemma outside_folders_None:
  assumes "outside_folders s cwd arg = None" "path_like arg = Some p" "sv_folders s \<noteq> []"
  shows "\<exists>f folder. full_path p cwd = Some f \<and> ''..'' \<notin> set (split_on CHR ''/'' f) \<and>
    folder \<in> set (sv_folders s) \<and> lies_in f folder"
  using assms
  by (auto simp: outside_folders_def Let_def list_ex_iff split: option.splits if_splits
      dest: full_path_parts srv_inside_lies_in)

lemma find_map_None: "find_map f xs = None \<longleftrightarrow> (\<forall>x \<in> set xs. f x = None)"
  by (induction xs) (auto split: option.splits)

lemma server_run_Go:
  assumes "server_run D pwd bf s k cwd = ServerGo ask sens"
  shows "kd_never k = None" "\<forall>c \<in> set (kd_classes k). sv_allows s c"
    "\<forall>arg \<in> set (cl_args (kd_inner k)). server_file_blocked bf arg = None"
    "kd_changes k \<Longrightarrow> arg \<in> set (cl_args (kd_inner k)) \<Longrightarrow> outside_folders s cwd arg = None"
    "ask = run_asks s k" "sens = run_sensitive D pwd s k"
  using assms
  by (auto simp: server_run_def find_map_None find_None_iff split: if_splits option.splits)

text \<open>
  C38: What a check that lets a command go on a server has made sure of: the role may use the
  server and its identity is pinned; the command reaches no other computer, is only of kinds the
  server allows and names no blocked file; when it changes anything and the server has folders,
  every path it names lies, part by part, in one of them, with no part that climbs; on a production
  server, or when it deletes or runs as administrator, it waits for the owner; and a change on a
  production server is told as one.
\<close>

theorem server_command_is_confined:
  assumes go: "server_check_of D pwd bf c = ServerGo ask sens"
    and run: "sc_what c = UseRun k cwd"
  shows "sc_role_id c \<in> set (sv_roles (sc_server c)) \<and> sv_host_key (sc_server c) \<noteq> None \<and>
    kd_never k = None \<and> set (kd_classes k) \<subseteq> set (sv_classes (sc_server c)) \<and>
    (\<forall>arg \<in> set (cl_args (kd_inner k)). server_file_blocked bf arg = None) \<and>
    (kd_changes k \<and> sv_folders (sc_server c) \<noteq> [] \<longrightarrow>
       (\<forall>arg \<in> set (cl_args (kd_inner k)). \<forall>p. path_like arg = Some p \<longrightarrow>
          (\<exists>f folder. full_path p cwd = Some f \<and> ''..'' \<notin> set (split_on CHR ''/'' f) \<and>
             folder \<in> set (sv_folders (sc_server c)) \<and> lies_in f folder))) \<and>
    (sv_environment (sc_server c) = Live \<or> kd_is k KDestroy \<or> kd_is k KAdmin \<longrightarrow> ask \<noteq> None) \<and>
    (sv_environment (sc_server c) = Live \<and> \<not> looks_only k \<longrightarrow> Production \<in> fst ` set sens)"
proof -
  let ?s = "sc_server c"
  from go run have r: "server_run D pwd bf ?s k cwd = ServerGo ask sens"
    and who: "sc_role_id c \<in> set (sv_roles ?s)" "sv_host_key ?s \<noteq> None"
    by (auto simp: server_check_of_def Let_def split: if_splits)
  note facts = server_run_Go [OF r]
  have "set (kd_classes k) \<subseteq> set (sv_classes ?s)"
    using facts(2) by (auto simp: sv_allows_def)
  moreover have "sv_environment ?s = Live \<or> kd_is k KDestroy \<or> kd_is k KAdmin \<longrightarrow> ask \<noteq> None"
    using facts(5) by (auto simp: run_asks_def)
  moreover have "sv_environment ?s = Live \<and> \<not> looks_only k \<longrightarrow> Production \<in> fst ` set sens"
    using facts(6) by (auto simp: run_sensitive_def Let_def list_ex_iff image_iff)
  ultimately show ?thesis
    using who facts(1,3) facts(4) outside_folders_None by blast
qed

definition demo_server :: server where
  "demo_server =
     \<lparr> sv_id = ''s1'', sv_name = ''Shop'', sv_host = ''web01'', sv_port = 22, sv_user = ''deploy'',
       sv_environment = Live, sv_sign_in = SignKey,
       sv_host_key = Some \<lparr> hk_algorithm = ''ssh-ed25519'', hk_fingerprint = ''SHA256:x'', hk_pinned_at = 1 \<rparr>,
       sv_roles = [''dev''], sv_classes = [KLook, KChange], sv_approval = AskEvery,
       sv_folders = [''/srv/app''], sv_forwards = [], sv_created_at = 1, sv_updated_at = 1 \<rparr>"

definition demo_touch :: classified where
  "demo_touch =
     \<lparr> kd_classes = [KChange], kd_never = None,
       kd_inner = \<lparr> cl_program = ''touch'', cl_args = [''logs/./today''] \<rparr> \<rparr>"

definition demo_server_check :: server_check where
  "demo_server_check =
     \<lparr> sc_server = demo_server, sc_role_id = ''dev'', sc_role_name = ''Developer'',
       sc_what = UseRun demo_touch (Some ''/srv/app'') \<rparr>"

theorem server_command_is_confined_witness:
  "\<exists>ask sens. server_check_of demo_disk [] [''.env''] demo_server_check = ServerGo ask sens \<and>
     ask \<noteq> None \<and> Production \<in> fst ` set sens"
proof -
  have "\<exists>ask sens. server_check_of demo_disk [] [''.env''] demo_server_check = ServerGo ask sens"
  proof -
    have "kd_never demo_touch = None"
      "find_map (server_file_blocked [''.env'']) (cl_args (kd_inner demo_touch)) = None"
      "find_map (outside_folders demo_server (Some ''/srv/app'')) (cl_args (kd_inner demo_touch)) = None"
      "find (\<lambda>c. \<not> sv_allows demo_server c) (kd_classes demo_touch) = None"
      by code_simp+
    then show ?thesis
      by (simp add: server_check_of_def demo_server_check_def server_run_def demo_server_def Let_def)
  qed
  then obtain ask sens where go: "server_check_of demo_disk [] [''.env''] demo_server_check = ServerGo ask sens"
    by blast
  have run: "sc_what demo_server_check = UseRun demo_touch (Some ''/srv/app'')"
    and live: "sv_environment (sc_server demo_server_check) = Live" "\<not> looks_only demo_touch"
    by (simp_all add: demo_server_check_def demo_server_def demo_touch_def looks_only_def)
  from server_command_is_confined [OF go run] live
  have "ask \<noteq> None \<and> Production \<in> fst ` set sens" by simp
  with go show ?thesis by auto
qed

end
