(* ===== verification/Guard_Config.thy ===== *)
theory Guard_Config
  imports Guard_Servers
begin

text \<open>
  Guard's settings and every change the owner can make to them (\<open>crates/guard/src/config.rs\<close>):
  permission sets and who has them, command rules, blocked files, website lists, sensitive kinds,
  secrets by reference, servers, connections, add-ons and paid keys. A change that is refused is an
  \<open>Inl\<close>, and \<open>Guard::update\<close> then keeps the settings as they were.

  A new identifier (\<open>uuid::Uuid::new_v4\<close>) is an argument. The default permission sets and lists
  (\<open>defaults.rs\<close>, data), the browser choice, and the reading and writing of the stored document
  (\<open>serde_json\<close>) are not modelled.
\<close>

section \<open>The settings\<close>

definition max_sets :: nat where "max_sets = 64"
definition max_rules :: nat where "max_rules = 300"
definition max_secrets :: nat where "max_secrets = 64"
definition max_servers :: nat where "max_servers = 50"
definition max_connections :: nat where "max_connections = 50"
definition max_access :: nat where "max_access = 200"
definition max_send_list :: nat where "max_send_list = 200"
definition max_approval_minutes :: nat where "max_approval_minutes = 60"
definition max_paid_keys :: nat where "max_paid_keys = 32"

record secret_info =
  si_id :: string
  si_name :: string
  si_env_var :: "string option"
  si_programs :: "string list"
  si_created_at :: nat
  si_updated_at :: nat

record paid_key =
  pk_id :: string
  pk_runtime_id :: string
  pk_name :: string
  pk_created_at :: nat
  pk_updated_at :: nat
  pk_replaces :: "string option"

record guard_config =
  gc_sets :: "permission_set list"
  gc_roles :: "(string, string option) store"
  gc_departments :: "(string, string) store"
  gc_commands :: command_rules
  gc_blocked_files :: "string list"
  gc_sensitive :: "(sensitive_kind, sensitive_rule) store"
  gc_approval_minutes :: nat
  gc_secrets :: "secret_info list"
  gc_websites :: website_rules
  gc_servers :: "server list"
  gc_switches :: switches
  gc_safety :: safety
  gc_connections :: "connection list"
  gc_add_ons :: "add_on list"
  gc_paid_keys :: "paid_key list"

datatype (plugins only: code size) config_error =
    BadLine string nat
  | DescriptionTooLong
  | SetGone
  | SetNameTaken string
  | TooMany string nat
  | BuiltInStays
  | SetInUse string nat nat "string list"
  | RuleWrong rule_error
  | NamesNoSecret string
  | PatternWrong string
  | WebsitesWrong clean_error
  | BadMinutes
  | BadEnvName string
  | BadProgramName string
  | NameBoth
  | SecretGone
  | SecretNameTaken string
  | ServerGone
  | RoleGone string
  | ServerWrong server_error
  | ServerNameTaken string
  | NoConnection string
  | NoSuchPart string string
  | PartOnlyReads string string
  | OwnersAlone string
  | AccessRoleGone
  | AccessAgentGone
  | AccessTwice
  | SendWrong send_entry_error
  | NoOwnApp string
  | DisconnectFirst string
  | DisconnectWorkspace string
  | DisconnectWebsite
  | SendsNothing string
  | BadAppId
  | BadOrganization
  | AppNeedsNoSecret
  | BadSlackId
  | SlackNeedsNoSecret
  | BadGoogleId
  | GoogleNeedsSecret
  | NoClientId string
  | OneAccount string
  | OneCard string
  | NoSiteAddress string
  | SiteWrong address_error
  | BadProgram
  | BadArgument
  | ProgramRefused program_refusal
  | NoStoredSecret string
  | SecretHasNoVariable string
  | AddOnNameTaken string
  | AddOnGone
  | LookFirst
  | NoTool string string
  | TakesNoPaidKey
  | BadVaultName
  | NoPaidKey

definition map_error :: "('e \<Rightarrow> 'f) \<Rightarrow> 'e + 'a \<Rightarrow> 'f + 'a" where
  "map_error f r = (case r of Inl e \<Rightarrow> Inl (f e) | Inr x \<Rightarrow> Inr x)"

lemma map_error_Inr [simp]: "map_error f r = Inr x \<longleftrightarrow> r = Inr x"
  by (cases r) (simp_all add: map_error_def)

definition cfg_line :: "string \<Rightarrow> string \<Rightarrow> nat \<Rightarrow> config_error + string" where
  "cfg_line what v0 mx =
     (let v = trim v0 in
      if v = [] \<or> length v > mx \<or> list_ex is_control v then Inl (BadLine what mx) else Inr v)"

definition slug_step :: "string \<Rightarrow> char \<Rightarrow> string" where
  "slug_step out c =
     (if is_ascii_alphanumeric c then out @ [c]
      else if \<not> ends_with ''-'' out \<and> out \<noteq> [] then out @ ''-''
      else out)"

definition slug :: "string \<Rightarrow> string" where
  "slug name =
     (let out = trim_end_matches (\<lambda>c. c = CHR ''-'') (foldl slug_step [] (to_lowercase name))
      in if out = [] then ''set'' else take 40 out)"

definition upper_char :: "char \<Rightarrow> char" where
  "upper_char c = (if is_ascii_lowercase c then char_of (code c - 32) else c)"

definition reserved_names :: "string list" where
  "reserved_names =
     [''PATH'', ''PATHEXT'', ''HOME'', ''USERPROFILE'', ''SYSTEMROOT'', ''COMSPEC'', ''TEMP'', ''TMP'']"

definition env_name :: "string \<Rightarrow> config_error + string" where
  "env_name name =
     (let n = trim name;
          ok = (1 \<le> byte_len n \<and> byte_len n \<le> 64 \<and>
                (case n of [] \<Rightarrow> False | c # _ \<Rightarrow> is_ascii_alphabetic c \<or> c = CHR ''_'') \<and>
                list_all (\<lambda>c. is_ascii_alphanumeric c \<or> c = CHR ''_'') n)
      in if \<not> ok \<or> map upper_char n \<in> set reserved_names then Inl (BadEnvName n) else Inr n)"

definition cfg_program_name :: "bool \<Rightarrow> string \<Rightarrow> config_error + string" where
  "cfg_program_name win name =
     (let n = (if win then to_lowercase (trim name) else trim name) in
      if 1 \<le> byte_len n \<and> byte_len n \<le> 64 \<and>
         list_all (\<lambda>c. is_ascii_alphanumeric c \<or> c \<in> {CHR ''-'', CHR ''_'', CHR ''.''}) n \<and>
         \<not> starts_with ''.'' n
      then Inr n else Inl (BadProgramName name))"

section \<open>Permission sets\<close>

definition cfg_set :: "guard_config \<Rightarrow> string \<Rightarrow> permission_set option" where
  "cfg_set c i = find (\<lambda>s. set_id s = i) (gc_sets c)"

definition role_set :: "guard_config \<Rightarrow> string \<Rightarrow> string option" where
  "role_set c role_id = Option.bind (get (gc_roles c) role_id) id"

definition sensitive_rule_of :: "guard_config \<Rightarrow> sensitive_kind \<Rightarrow> sensitive_rule" where
  "sensitive_rule_of c k = (case get (gc_sensitive c) k of None \<Rightarrow> RuleAsk | Some r \<Rightarrow> r)"

record set_input =
  sti_id :: "string option"
  sti_name :: string
  sti_description :: string
  sti_levels :: "(capability, level) store"

text \<open>The loop that looks for a free identifier: \<open>base\<close>, \<open>base-2\<close>, \<open>base-3\<close>, ...\<close>

function free_id :: "string list \<Rightarrow> string \<Rightarrow> nat \<Rightarrow> string" where
  "free_id taken base n =
     (if base @ ''-'' @ dec n \<in> set taken then free_id taken base (Suc n) else base @ ''-'' @ dec n)"
  by auto
termination
proof (relation "measure (\<lambda>(taken, base, n). card {m. n \<le> m \<and> base @ ''-'' @ dec m \<in> set taken})")
  fix taken :: "string list" and base n
  assume taken: "base @ ''-'' @ dec n \<in> set taken"
  let ?S = "\<lambda>n. {m. n \<le> m \<and> base @ ''-'' @ dec m \<in> set taken}"
  have "inj_on (\<lambda>m. base @ ''-'' @ dec m) (?S n)" by (auto intro: inj_onI)
  moreover have "(\<lambda>m. base @ ''-'' @ dec m) ` ?S n \<subseteq> set taken" by auto
  ultimately have "finite (?S n)" by (meson List.finite_set finite_subset finite_imageD)
  moreover have "?S (Suc n) \<subset> ?S n"
  proof
    show "?S (Suc n) \<subseteq> ?S n" by auto
    have "n \<in> ?S n" "n \<notin> ?S (Suc n)" using taken by auto
    then show "?S (Suc n) \<noteq> ?S n" by blast
  qed
  ultimately show "((taken, base, Suc n), taken, base, n)
      \<in> measure (\<lambda>(taken, base, n). card {m. n \<le> m \<and> base @ ''-'' @ dec m \<in> set taken})"
    by (simp add: psubset_card_mono)
qed simp

declare free_id.simps [simp del]

definition new_set_id :: "permission_set list \<Rightarrow> string \<Rightarrow> string" where
  "new_set_id sets name =
     (let base = slug name; taken = map set_id sets
      in if base \<in> set taken then free_id taken base 2 else base)"

definition named_elsewhere :: "('a \<Rightarrow> string) \<Rightarrow> 'a list \<Rightarrow> nat option \<Rightarrow> string \<Rightarrow> bool" where
  "named_elsewhere f xs existing name \<longleftrightarrow>
     list_ex (\<lambda>(i, x). Some i \<noteq> existing \<and> eq_ignore_ascii_case (f x) name) (enumerate 0 xs)"

text \<open>An element the owner names by its identifier: its place, or the refusal.\<close>

definition place_of :: "('a \<Rightarrow> string) \<Rightarrow> 'a list \<Rightarrow> string option \<Rightarrow> config_error \<Rightarrow> config_error + nat option" where
  "place_of f xs i e =
     (case i of
        None \<Rightarrow> Inr None
      | Some k \<Rightarrow> (case position (\<lambda>x. f x = k) xs of None \<Rightarrow> Inl e | Some n \<Rightarrow> Inr (Some n)))"

definition save_set :: "guard_config \<Rightarrow> set_input \<Rightarrow> config_error + guard_config \<times> permission_set" where
  "save_set c inp =
     bind_sum (cfg_line ''the permission set's name'' (sti_name inp) 60) (\<lambda>name.
       let description = trim (sti_description inp) in
       if length description > 500 then Inl DescriptionTooLong
       else
       bind_sum (place_of set_id (gc_sets c) (sti_id inp) SetGone) (\<lambda>existing.
         if named_elsewhere set_name (gc_sets c) existing name then Inl (SetNameTaken name)
         else
           let levels = filter (\<lambda>(_, l). l \<noteq> LBlocked) (sti_levels inp) in
           (case existing of
              Some i \<Rightarrow>
                let s = (gc_sets c ! i)\<lparr> set_name := name, set_description := description, set_levels := levels \<rparr>
                in Inr (c\<lparr> gc_sets := (gc_sets c)[i := s] \<rparr>, s)
            | None \<Rightarrow>
                if length (gc_sets c) \<ge> max_sets then Inl (TooMany ''permission sets'' max_sets)
                else
                  let s = \<lparr> set_id = new_set_id (gc_sets c) name, set_name = name,
                            set_description = description, set_levels = levels, set_built_in = False \<rparr>
                  in Inr (c\<lparr> gc_sets := gc_sets c @ [s] \<rparr>, s))))"

text \<open>\<open>Vec::remove(i)\<close>.\<close>

definition remove_at :: "nat \<Rightarrow> 'a list \<Rightarrow> 'a list" where
  "remove_at i xs = take i xs @ drop (Suc i) xs"

definition remove_set :: "guard_config \<Rightarrow> string \<Rightarrow> string list \<Rightarrow> config_error + guard_config \<times> permission_set" where
  "remove_set c i projects =
     (case position (\<lambda>s. set_id s = i) (gc_sets c) of
        None \<Rightarrow> Inl SetGone
      | Some n \<Rightarrow>
          let s = gc_sets c ! n;
              roles = length (filter (\<lambda>p. snd p = Some i) (gc_roles c));
              departments = length (filter (\<lambda>p. snd p = i) (gc_departments c))
          in if set_built_in s then Inl BuiltInStays
             else if roles + departments + length projects > 0
             then Inl (SetInUse (set_name s) roles departments projects)
             else Inr (c\<lparr> gc_sets := remove_at n (gc_sets c) \<rparr>, s))"

definition assign_role :: "guard_config \<Rightarrow> string \<Rightarrow> string option \<Rightarrow> config_error + guard_config" where
  "assign_role c role_id i =
     (case i of
        Some k \<Rightarrow>
          if cfg_set c k = None then Inl SetGone
          else Inr (c\<lparr> gc_roles := put role_id (Some k) (gc_roles c) \<rparr>)
      | None \<Rightarrow> Inr (c\<lparr> gc_roles := put role_id None (gc_roles c) \<rparr>))"

definition assign_department :: "guard_config \<Rightarrow> string \<Rightarrow> string option \<Rightarrow> config_error + guard_config" where
  "assign_department c department_id i =
     (case i of
        Some k \<Rightarrow>
          if cfg_set c k = None then Inl SetGone
          else Inr (c\<lparr> gc_departments := put department_id k (gc_departments c) \<rparr>)
      | None \<Rightarrow> Inr (c\<lparr> gc_departments := del department_id (gc_departments c) \<rparr>))"

section \<open>Rules\<close>

text \<open>Check each entry in turn and keep those not kept yet (the source's \<open>clean\<close> loops).\<close>

fun keep_valid ::
  "(string \<Rightarrow> string \<Rightarrow> bool) \<Rightarrow> (string \<Rightarrow> config_error + string) \<Rightarrow> string list \<Rightarrow> string list \<Rightarrow>
   config_error + string list" where
  "keep_valid same v out [] = Inr out"
| "keep_valid same v out (x # xs) =
     (case v x of
        Inl e \<Rightarrow> Inl e
      | Inr y \<Rightarrow> keep_valid same v (if list_ex (\<lambda>o'. same o' y) out then out else out @ [y]) xs)"

definition clean_commands :: "string \<Rightarrow> string list \<Rightarrow> config_error + string list" where
  "clean_commands what rules =
     (if length rules > max_rules then Inl (TooMany what max_rules)
      else keep_valid (=) (\<lambda>r. map_error RuleWrong (valid_rule r)) [] (filter not_blank rules))"

fun clean_secret_rules :: "secret_rule list \<Rightarrow> secret_rule list \<Rightarrow> config_error + secret_rule list" where
  "clean_secret_rules out [] = Inr out"
| "clean_secret_rules out (r # rs) =
     bind_sum (map_error RuleWrong (valid_rule (sr_rule r))) (\<lambda>rule.
     bind_sum (keep_valid eq_ignore_ascii_case (\<lambda>n. cfg_line ''a secret's name'' n 60) []
                 (filter not_blank (sr_secrets r))) (\<lambda>secrets.
       if secrets = [] then Inl (NamesNoSecret rule)
       else
         let e = \<lparr> sr_rule = rule, sr_secrets = secrets \<rparr>
         in clean_secret_rules (if e \<in> set out then out else out @ [e]) rs))"

definition set_commands :: "guard_config \<Rightarrow> command_rules \<Rightarrow> config_error + guard_config" where
  "set_commands c rules =
     (if length (cr_with_secrets rules) > max_rules
      then Inl (TooMany ''commands given stored secrets'' max_rules)
      else
        bind_sum (clean_secret_rules [] (cr_with_secrets rules)) (\<lambda>with_secrets.
        bind_sum (clean_commands ''approved commands'' (cr_approved rules)) (\<lambda>approved.
        bind_sum (clean_commands ''always-ask commands'' (cr_ask rules)) (\<lambda>asking.
        bind_sum (clean_commands ''blocked commands'' (cr_blocked rules)) (\<lambda>blocked.
          Inr (c\<lparr> gc_commands := \<lparr> cr_approved = approved, cr_ask = asking, cr_blocked = blocked,
                                   cr_with_secrets = with_secrets \<rparr> \<rparr>))))))"

definition set_blocked_files :: "guard_config \<Rightarrow> string list \<Rightarrow> config_error + guard_config" where
  "set_blocked_files c patterns =
     (if length patterns > max_rules then Inl (TooMany ''file patterns'' max_rules)
      else
        bind_sum (keep_valid (=) (\<lambda>p. map_error PatternWrong (valid_pattern p)) []
                    (filter not_blank patterns)) (\<lambda>out.
          Inr (c\<lparr> gc_blocked_files := out \<rparr>)))"

definition set_websites :: "url_crate \<Rightarrow> guard_config \<Rightarrow> website_rules \<Rightarrow> config_error + guard_config" where
  "set_websites U c rules =
     bind_sum (map_error WebsitesWrong (clean_rules U rules)) (\<lambda>r. Inr (c\<lparr> gc_websites := r \<rparr>))"

definition set_switches :: "guard_config \<Rightarrow> switches \<Rightarrow> guard_config" where
  "set_switches c s = c\<lparr> gc_switches := s \<rparr>"

definition set_sensitive :: "guard_config \<Rightarrow> sensitive_kind \<Rightarrow> sensitive_rule \<Rightarrow> guard_config" where
  "set_sensitive c k r =
     (case r of
        RuleAsk \<Rightarrow> c\<lparr> gc_sensitive := del k (gc_sensitive c) \<rparr>
      | RuleBlock \<Rightarrow> c\<lparr> gc_sensitive := put k r (gc_sensitive c) \<rparr>)"

definition set_options :: "guard_config \<Rightarrow> nat \<Rightarrow> config_error + guard_config" where
  "set_options c minutes =
     (if 1 \<le> minutes \<and> minutes \<le> max_approval_minutes
      then Inr (c\<lparr> gc_approval_minutes := minutes \<rparr>) else Inl BadMinutes)"

section \<open>Secrets and servers\<close>

record secret_input =
  sei_id :: "string option"
  sei_name :: string
  sei_env_var :: "string option"
  sei_programs :: "string list"

definition secret_env :: "string option \<Rightarrow> config_error + string option" where
  "secret_env v =
     (case map_option trim v of
        None \<Rightarrow> Inr None
      | Some n \<Rightarrow> if n = [] then Inr None else bind_sum (env_name n) (\<lambda>e. Inr (Some e)))"

definition save_secret ::
  "bool \<Rightarrow> guard_config \<Rightarrow> secret_input \<Rightarrow> string \<Rightarrow> nat \<Rightarrow> config_error + guard_config \<times> secret_info" where
  "save_secret win c inp fresh now =
     bind_sum (cfg_line ''the secret's name'' (sei_name inp) 60) (\<lambda>name.
     bind_sum (secret_env (sei_env_var inp)) (\<lambda>env_var.
     bind_sum (keep_valid (=) (cfg_program_name win) [] (filter not_blank (sei_programs inp))) (\<lambda>programs.
       if length programs > 16 then Inl (TooMany ''programs'' 16)
       else if (env_var \<noteq> None) \<noteq> (programs \<noteq> []) then Inl NameBoth
       else
       bind_sum (place_of si_id (gc_secrets c) (sei_id inp) SecretGone) (\<lambda>existing.
         if named_elsewhere si_name (gc_secrets c) existing name then Inl (SecretNameTaken name)
         else
           (case existing of
              Some i \<Rightarrow>
                let s = (gc_secrets c ! i)\<lparr> si_name := name, si_env_var := env_var,
                                            si_programs := programs, si_updated_at := now \<rparr>
                in Inr (c\<lparr> gc_secrets := (gc_secrets c)[i := s] \<rparr>, s)
            | None \<Rightarrow>
                if length (gc_secrets c) \<ge> max_secrets then Inl (TooMany ''secrets'' max_secrets)
                else
                  let s = \<lparr> si_id = fresh, si_name = name, si_env_var = env_var,
                            si_programs = programs, si_created_at = now, si_updated_at = now \<rparr>
                  in Inr (c\<lparr> gc_secrets := gc_secrets c @ [s] \<rparr>, s))))))"

definition remove_secret :: "guard_config \<Rightarrow> string \<Rightarrow> config_error + guard_config \<times> secret_info" where
  "remove_secret c i =
     (case position (\<lambda>s. si_id s = i) (gc_secrets c) of
        None \<Rightarrow> Inl SecretGone
      | Some n \<Rightarrow> Inr (c\<lparr> gc_secrets := remove_at n (gc_secrets c) \<rparr>, gc_secrets c ! n))"

definition cfg_server :: "guard_config \<Rightarrow> string \<Rightarrow> server option" where
  "cfg_server c i = find (\<lambda>s. sv_id s = i) (gc_servers c)"

definition server_named :: "guard_config \<Rightarrow> string \<Rightarrow> server option" where
  "server_named c name = find (\<lambda>s. eq_ignore_ascii_case (sv_name s) (trim name)) (gc_servers c)"

definition save_server ::
  "guard_config \<Rightarrow> string option \<Rightarrow> server_input \<Rightarrow> string list \<Rightarrow> string \<Rightarrow> nat \<Rightarrow>
   config_error + guard_config \<times> server \<times> server option" where
  "save_server c i inp roles fresh now =
     bind_sum (place_of sv_id (gc_servers c) i ServerGone) (\<lambda>existing.
       (case find (\<lambda>r. r \<notin> set roles) (svi_roles inp) of
          Some r \<Rightarrow> Inl (RoleGone r)
        | None \<Rightarrow>
            let earlier = map_option (\<lambda>n. gc_servers c ! n) existing;
                new_id = (case earlier of None \<Rightarrow> fresh | Some s \<Rightarrow> sv_id s)
            in
            bind_sum (map_error ServerWrong (server_clean inp new_id earlier now)) (\<lambda>s.
              if named_elsewhere sv_name (gc_servers c) existing (sv_name s)
              then Inl (ServerNameTaken (sv_name s))
              else
                (case existing of
                   Some n \<Rightarrow> Inr (c\<lparr> gc_servers := (gc_servers c)[n := s] \<rparr>, s, earlier)
                 | None \<Rightarrow>
                     if length (gc_servers c) \<ge> max_servers then Inl (TooMany ''servers'' max_servers)
                     else Inr (c\<lparr> gc_servers := gc_servers c @ [s] \<rparr>, s, earlier)))))"

definition remove_server :: "guard_config \<Rightarrow> string \<Rightarrow> config_error + guard_config \<times> server" where
  "remove_server c i =
     (case position (\<lambda>s. sv_id s = i) (gc_servers c) of
        None \<Rightarrow> Inl ServerGone
      | Some n \<Rightarrow> Inr (c\<lparr> gc_servers := remove_at n (gc_servers c) \<rparr>, gc_servers c ! n))"

section \<open>Connections\<close>

definition cfg_connection :: "guard_config \<Rightarrow> string \<Rightarrow> connection option" where
  "cfg_connection c i = find (\<lambda>x. cn_id x = i) (gc_connections c)"

definition connection_or_new :: "guard_config \<Rightarrow> string \<Rightarrow> config_error + connection" where
  "connection_or_new c i =
     (case cfg_connection c i of
        Some x \<Rightarrow> Inr x
      | None \<Rightarrow> (case service_of i of None \<Rightarrow> Inl (NoConnection i) | Some s \<Rightarrow> Inr (connection_new i s)))"

definition put_connection :: "guard_config \<Rightarrow> connection \<Rightarrow> config_error + guard_config \<times> connection" where
  "put_connection c x =
     (case position (\<lambda>y. cn_id y = cn_id x) (gc_connections c) of
        Some n \<Rightarrow> Inr (c\<lparr> gc_connections := (gc_connections c)[n := x] \<rparr>, x)
      | None \<Rightarrow>
          if length (gc_connections c) \<ge> max_connections
          then Inl (TooMany ''connections'' max_connections)
          else Inr (c\<lparr> gc_connections := gc_connections c @ [x] \<rparr>, x))"

fun put_parts :: "connection \<Rightarrow> (part, part_level) store \<Rightarrow> config_error + connection" where
  "put_parts x [] = Inr x"
| "put_parts x ((p, l) # ps) =
     (if p \<notin> set (parts (cn_service x)) then Inl (NoSuchPart (connection_label x) (part_label p))
      else if l = PartFull \<and> \<not> has_full_access p
      then Inl (PartOnlyReads (connection_label x) (part_label p))
      else put_parts (x\<lparr> cn_parts := put p l (cn_parts x) \<rparr>) ps)"

definition set_connection_parts ::
  "guard_config \<Rightarrow> string \<Rightarrow> (part, part_level) store \<Rightarrow> config_error + guard_config \<times> connection" where
  "set_connection_parts c i ps =
     bind_sum (connection_or_new c i) (\<lambda>x. bind_sum (put_parts x ps) (put_connection c))"

text \<open>The loop over the lines of a \<open>Who may use it\<close> list (the same code for an add-on).\<close>

definition line_error :: "access list \<Rightarrow> string list \<Rightarrow> string list \<Rightarrow> access \<Rightarrow> config_error option" where
  "line_error old roles agents a =
     (let kept = list_ex (\<lambda>x. ac_who x = ac_who a) old in
      (case ac_who a of
         RoleLine i \<Rightarrow> if \<not> kept \<and> i \<notin> set roles then Some AccessRoleGone else None
       | AgentLine i \<Rightarrow> if \<not> kept \<and> i \<notin> set agents then Some AccessAgentGone else None))"

fun access_error ::
  "access list \<Rightarrow> string list \<Rightarrow> string list \<Rightarrow> who list \<Rightarrow> access list \<Rightarrow> config_error option" where
  "access_error old roles agents seen [] = None"
| "access_error old roles agents seen (a # as) =
     (case line_error old roles agents a of
        Some e \<Rightarrow> Some e
      | None \<Rightarrow>
          if ac_who a \<in> set seen then Some AccessTwice
          else access_error old roles agents (ac_who a # seen) as)"

definition set_connection_access ::
  "guard_config \<Rightarrow> string \<Rightarrow> access list \<Rightarrow> string list \<Rightarrow> string list \<Rightarrow>
   config_error + guard_config \<times> connection" where
  "set_connection_access c i as roles agents =
     bind_sum (connection_or_new c i) (\<lambda>x.
       if owner_only (cn_service x) \<and> as \<noteq> [] then Inl (OwnersAlone (connection_label x))
       else if length as > max_access then Inl (TooMany ''lines on Who may use it'' max_access)
       else
         (case access_error (cn_access x) roles agents [] as of
            Some e \<Rightarrow> Inl e
          | None \<Rightarrow> put_connection c (x\<lparr> cn_access := as \<rparr>)))"

definition set_connection_send_list ::
  "guard_config \<Rightarrow> string \<Rightarrow> string list \<Rightarrow> config_error + guard_config \<times> connection" where
  "set_connection_send_list c i ls =
     bind_sum (connection_or_new c i) (\<lambda>x.
       if owner_only (cn_service x) \<and> ls \<noteq> [] then Inl (SendsNothing (connection_label x))
       else if length ls > max_send_list then Inl (TooMany ''entries on Send without asking to'' max_send_list)
       else
         bind_sum (keep_valid eq_ignore_ascii_case (\<lambda>e. map_error SendWrong (send_entry e (cn_service x))) [] ls)
           (\<lambda>es. put_connection c (x\<lparr> cn_send_list := es \<rparr>)))"

definition microsoft_app :: "own_app option \<Rightarrow> config_error + own_app option" where
  "microsoft_app app =
     (case app of
        None \<Rightarrow> Inr None
      | Some a \<Rightarrow>
          let app_id = to_lowercase (trim (oa_app_id a));
              tenant = to_lowercase (trim (case oa_tenant a of None \<Rightarrow> [] | Some t \<Rightarrow> t))
          in if \<not> is_guid app_id then Inl BadAppId
             else if \<not> (is_guid tenant \<or> is_domain tenant) then Inl BadOrganization
             else if oa_secret_kept a then Inl AppNeedsNoSecret
             else Inr (Some \<lparr> oa_app_id = app_id, oa_tenant = Some tenant, oa_secret_kept = False \<rparr>))"

definition set_connection_own_app ::
  "guard_config \<Rightarrow> string \<Rightarrow> own_app option \<Rightarrow> config_error + guard_config \<times> connection" where
  "set_connection_own_app c i app =
     bind_sum (connection_or_new c i) (\<lambda>x.
       if cn_service x \<noteq> Microsoft365 then Inl (NoOwnApp (connection_label x))
       else if cn_state x \<noteq> NotConnected then Inl (DisconnectFirst (connection_label x))
       else bind_sum (microsoft_app app) (\<lambda>a. put_connection c (x\<lparr> cn_own_app := a \<rparr>)))"

definition client_app :: "connection \<Rightarrow> string option \<Rightarrow> bool \<Rightarrow> config_error + own_app option" where
  "client_app x client_id secret_kept =
     (case (cn_service x, client_id) of
        (Slack, None) \<Rightarrow> Inr None
      | (Google, None) \<Rightarrow> Inr None
      | (Slack, Some i) \<Rightarrow>
          if \<not> is_slack_client_id (trim i) then Inl BadSlackId
          else if secret_kept then Inl SlackNeedsNoSecret
          else Inr (Some \<lparr> oa_app_id = trim i, oa_tenant = None, oa_secret_kept = False \<rparr>)
      | (Google, Some i) \<Rightarrow>
          if \<not> is_google_client_id (to_lowercase (trim i)) then Inl BadGoogleId
          else if \<not> secret_kept then Inl GoogleNeedsSecret
          else Inr (Some \<lparr> oa_app_id = to_lowercase (trim i), oa_tenant = None, oa_secret_kept = True \<rparr>)
      | _ \<Rightarrow> Inl (NoClientId (connection_label x)))"

definition set_connection_client_app ::
  "guard_config \<Rightarrow> string \<Rightarrow> string option \<Rightarrow> bool \<Rightarrow> config_error + guard_config \<times> connection" where
  "set_connection_client_app c i client_id secret_kept =
     bind_sum (connection_or_new c i) (\<lambda>x.
       if cn_state x \<noteq> NotConnected then Inl (DisconnectFirst (connection_label x))
       else bind_sum (client_app x client_id secret_kept) (\<lambda>a. put_connection c (x\<lparr> cn_own_app := a \<rparr>)))"

definition account_ids :: "service \<Rightarrow> string list" where
  "account_ids s = service_id s # map (\<lambda>n. service_id s @ ''-'' @ dec n) [2..<1000]"

definition add_connection :: "guard_config \<Rightarrow> service \<Rightarrow> config_error + guard_config \<times> connection" where
  "add_connection c s =
     (if \<not> many s then Inl (OneAccount (service_label s))
      else
        bind_sum (if list_ex (\<lambda>x. cn_service x = s) (gc_connections c) then Inr c
                  else map_sum id fst (put_connection c (connection_new (service_id s) s))) (\<lambda>c'.
          (case find (\<lambda>i. cfg_connection c' i = None) (account_ids s) of
             None \<Rightarrow> Inl (TooMany ''accounts'' 999)
           | Some i \<Rightarrow> put_connection c' (connection_new i s))))"

definition remove_connection :: "guard_config \<Rightarrow> string \<Rightarrow> config_error + guard_config \<times> connection" where
  "remove_connection c i =
     bind_sum (connection_or_new c i) (\<lambda>x.
       if \<not> many (cn_service x) then Inl (OneCard (connection_label x))
       else if cn_state x \<noteq> NotConnected then Inl (DisconnectWorkspace (connection_label x))
       else Inr (c\<lparr> gc_connections := filter (\<lambda>y. cn_id y \<noteq> i) (gc_connections c) \<rparr>, x))"

definition connection_connected ::
  "guard_config \<Rightarrow> string \<Rightarrow> account_kind option \<Rightarrow> account \<Rightarrow> string list \<Rightarrow> nat \<Rightarrow>
   config_error + guard_config \<times> connection" where
  "connection_connected c i kind acc granted now =
     bind_sum (connection_or_new c i) (\<lambda>x.
       put_connection c (x\<lparr> cn_state := Connected, cn_account_kind := kind, cn_account := Some acc,
                             cn_granted := granted, cn_connected_at := Some now \<rparr>))"

definition connection_needs_sign_in ::
  "guard_config \<Rightarrow> string \<Rightarrow> config_error + guard_config \<times> connection option" where
  "connection_needs_sign_in c i =
     (case cfg_connection c i of
        None \<Rightarrow> Inr (c, None)
      | Some x \<Rightarrow>
          if cn_state x \<noteq> Connected then Inr (c, None)
          else map_sum id (\<lambda>(c', y). (c', Some y)) (put_connection c (x\<lparr> cn_state := NeedsSignIn \<rparr>)))"

definition connection_disconnected :: "guard_config \<Rightarrow> string \<Rightarrow> config_error + guard_config \<times> connection" where
  "connection_disconnected c i =
     bind_sum (connection_or_new c i) (\<lambda>x.
       put_connection c (x\<lparr> cn_state := NotConnected, cn_account_kind := None, cn_account := None,
                             cn_granted := [], cn_connected_at := None \<rparr>))"

definition set_connection_site ::
  "url_crate \<Rightarrow> guard_config \<Rightarrow> string \<Rightarrow> string \<Rightarrow> config_error + guard_config \<times> connection" where
  "set_connection_site U c i typed =
     bind_sum (connection_or_new c i) (\<lambda>x.
       if cn_service x \<noteq> Wordpress then Inl (NoSiteAddress (connection_label x))
       else
         bind_sum (map_error SiteWrong (site_address U typed)) (\<lambda>s.
           if cn_site x = Some s then Inr (c, x)
           else if cn_state x \<noteq> NotConnected then Inl DisconnectWebsite
           else put_connection c (x\<lparr> cn_site := Some s \<rparr>)))"

section \<open>Add-ons\<close>

definition full_program_path :: "string \<Rightarrow> bool" where
  "full_program_path p \<longleftrightarrow>
     starts_with ''/'' p \<or> starts_with [backslash, backslash] p \<or>
     (byte_len p > 3 \<and> is_ascii_alphabetic (hd p) \<and> take 2 (tl p) = [CHR '':'', backslash])"

text \<open>The stored secrets an add-on names, each once, by the stored spelling of its name.\<close>

fun add_on_secrets :: "secret_info list \<Rightarrow> string list \<Rightarrow> string list \<Rightarrow> config_error + string list" where
  "add_on_secrets stored out [] = Inr out"
| "add_on_secrets stored out (n # ns) =
     (case find (\<lambda>s. eq_ignore_ascii_case (si_name s) (trim n)) stored of
        None \<Rightarrow> Inl (NoStoredSecret (trim n))
      | Some f \<Rightarrow>
          if si_env_var f = None then Inl (SecretHasNoVariable (si_name f))
          else add_on_secrets stored (if si_name f \<in> set out then out else out @ [si_name f]) ns)"

definition add_on_program ::
  "guard_config \<Rightarrow> string \<Rightarrow> string list \<Rightarrow> string list \<Rightarrow>
   config_error + string \<times> string list \<times> string list" where
  "add_on_program c program0 args secrets =
     (let program = trim program0 in
      if program = [] \<or> length program > 400 \<or> list_ex is_control program \<or> \<not> full_program_path program
      then Inl BadProgram
      else if length args > max_args then Inl (TooMany ''arguments'' max_args)
      else if list_ex (\<lambda>a. length a > max_arg_chars \<or> list_ex is_control a) args then Inl BadArgument
      else
        (case refused_program program args of
           Some why \<Rightarrow> Inl (ProgramRefused why)
         | None \<Rightarrow>
             if length secrets > max_add_on_secrets
             then Inl (TooMany ''stored secrets for one program'' max_add_on_secrets)
             else
               bind_sum (add_on_secrets (gc_secrets c) [] secrets) (\<lambda>names.
                 Inr (program, args, names))))"

record add_on_input =
  adi_name :: string
  adi_program :: string
  adi_args :: "string list"
  adi_secrets :: "string list"

record add_on_change =
  adc_name :: "string option"
  adc_program :: "string option"
  adc_args :: "string list option"
  adc_secrets :: "string list option"
  adc_on :: "bool option"
  adc_access :: "access list option"

definition add_add_on :: "guard_config \<Rightarrow> add_on_input \<Rightarrow> nat \<Rightarrow> config_error + guard_config \<times> add_on" where
  "add_add_on c inp now =
     bind_sum (cfg_line ''the program's name'' (adi_name inp) 60) (\<lambda>name.
       if length (gc_add_ons c) \<ge> max_add_ons then Inl (TooMany ''add-on programs'' max_add_ons)
       else if list_ex (\<lambda>a. eq_ignore_ascii_case (ad_name a) name) (gc_add_ons c)
       then Inl (AddOnNameTaken name)
       else
         bind_sum (add_on_program c (adi_program inp) (adi_args inp) (adi_secrets inp))
           (\<lambda>(program, args, secrets).
             let a = \<lparr> ad_id = id_for name (map ad_id (gc_add_ons c)), ad_name = name,
                       ad_program = program, ad_args = args, ad_secrets = secrets, ad_on = False,
                       ad_tools = [], ad_access = [], ad_checked_at = None, ad_added_at = now \<rparr>
             in Inr (c\<lparr> gc_add_ons := gc_add_ons c @ [a] \<rparr>, a)))"

definition add_on_index :: "guard_config \<Rightarrow> string \<Rightarrow> config_error + nat" where
  "add_on_index c i =
     (case position (\<lambda>a. ad_id a = i) (gc_add_ons c) of None \<Rightarrow> Inl AddOnGone | Some n \<Rightarrow> Inr n)"

definition or_else :: "'a option \<Rightarrow> 'a \<Rightarrow> 'a" where
  "or_else x d = (case x of None \<Rightarrow> d | Some y \<Rightarrow> y)"

definition change_name :: "guard_config \<Rightarrow> string \<Rightarrow> add_on_change \<Rightarrow> add_on \<Rightarrow> config_error + add_on" where
  "change_name c i ch a =
     (case adc_name ch of
        None \<Rightarrow> Inr a
      | Some n \<Rightarrow>
          bind_sum (cfg_line ''the program's name'' n 60) (\<lambda>name.
            if list_ex (\<lambda>x. ad_id x \<noteq> i \<and> eq_ignore_ascii_case (ad_name x) name) (gc_add_ons c)
            then Inl (AddOnNameTaken name) else Inr (a\<lparr> ad_name := name \<rparr>)))"

definition change_program :: "guard_config \<Rightarrow> add_on_change \<Rightarrow> add_on \<Rightarrow> config_error + add_on" where
  "change_program c ch a =
     (if adc_program ch = None \<and> adc_args ch = None \<and> adc_secrets ch = None then Inr a
      else
        bind_sum (add_on_program c (or_else (adc_program ch) (ad_program a)) (or_else (adc_args ch) (ad_args a))
                    (or_else (adc_secrets ch) (ad_secrets a))) (\<lambda>(program, args, secrets).
          let b = (if program \<noteq> ad_program a \<or> args \<noteq> ad_args a
                   then a\<lparr> ad_on := False, ad_tools := [], ad_checked_at := None \<rparr> else a)
          in Inr (b\<lparr> ad_program := program, ad_args := args, ad_secrets := secrets \<rparr>)))"

definition change_access ::
  "add_on_change \<Rightarrow> string list \<Rightarrow> string list \<Rightarrow> add_on \<Rightarrow> config_error + add_on" where
  "change_access ch roles agents a =
     (case adc_access ch of
        None \<Rightarrow> Inr a
      | Some as \<Rightarrow>
          if length as > max_access then Inl (TooMany ''lines on Who may use it'' max_access)
          else
            (case access_error (ad_access a) roles agents [] as of
               Some e \<Rightarrow> Inl e
             | None \<Rightarrow> Inr (a\<lparr> ad_access := as \<rparr>)))"

definition change_on :: "add_on_change \<Rightarrow> add_on \<Rightarrow> config_error + add_on" where
  "change_on ch a =
     (case adc_on ch of
        None \<Rightarrow> Inr a
      | Some on \<Rightarrow> if on \<and> ad_checked_at a = None then Inl LookFirst else Inr (a\<lparr> ad_on := on \<rparr>))"

definition change_add_on ::
  "guard_config \<Rightarrow> string \<Rightarrow> add_on_change \<Rightarrow> string list \<Rightarrow> string list \<Rightarrow>
   config_error + guard_config \<times> add_on" where
  "change_add_on c i ch roles agents =
     bind_sum (add_on_index c i) (\<lambda>n.
     bind_sum (change_name c i ch (gc_add_ons c ! n)) (\<lambda>a1.
     bind_sum (change_program c ch a1) (\<lambda>a2.
     bind_sum (change_access ch roles agents a2) (\<lambda>a3.
     bind_sum (change_on ch a3) (\<lambda>a.
       Inr (c\<lparr> gc_add_ons := (gc_add_ons c)[n := a] \<rparr>, a))))))"

definition add_on_tools_listed ::
  "guard_config \<Rightarrow> string \<Rightarrow> listed_tool list \<Rightarrow> nat option \<Rightarrow> config_error + guard_config \<times> add_on" where
  "add_on_tools_listed c i ls now =
     bind_sum (add_on_index c i) (\<lambda>n.
       let a0 = gc_add_ons c ! n;
           a1 = a0\<lparr> ad_tools := merge_tools (ad_id a0) (ad_tools a0) ls \<rparr>;
           a = (if now \<noteq> None then a1\<lparr> ad_checked_at := now \<rparr> else a1)
       in Inr (c\<lparr> gc_add_ons := (gc_add_ons c)[n := a] \<rparr>, a))"

fun mark_tools :: "string \<Rightarrow> add_on_tool list \<Rightarrow> (string, tool_mark) store \<Rightarrow> config_error + add_on_tool list" where
  "mark_tools who ts [] = Inr ts"
| "mark_tools who ts ((name, mark) # ms) =
     (case position (\<lambda>t. at_name t = name) ts of
        None \<Rightarrow> Inl (NoTool who name)
      | Some n \<Rightarrow> mark_tools who (ts[n := (ts ! n)\<lparr> at_mark := mark, at_changed := False \<rparr>]) ms)"

definition set_add_on_tools ::
  "guard_config \<Rightarrow> string \<Rightarrow> (string, tool_mark) store \<Rightarrow> config_error + guard_config \<times> add_on" where
  "set_add_on_tools c i marks =
     bind_sum (add_on_index c i) (\<lambda>n.
       let a = gc_add_ons c ! n in
       bind_sum (mark_tools (ad_name a) (ad_tools a) marks) (\<lambda>ts.
         Inr (c\<lparr> gc_add_ons := (gc_add_ons c)[n := a\<lparr> ad_tools := ts \<rparr>] \<rparr>, a\<lparr> ad_tools := ts \<rparr>)))"

definition remove_add_on :: "guard_config \<Rightarrow> string \<Rightarrow> config_error + guard_config \<times> add_on" where
  "remove_add_on c i =
     bind_sum (add_on_index c i) (\<lambda>n.
       Inr (c\<lparr> gc_add_ons := remove_at n (gc_add_ons c) \<rparr>, gc_add_ons c ! n))"

section \<open>Paid keys\<close>

definition paid_services :: "string list" where
  "paid_services =
     [''openrouter'', ''anthropic-key'', ''openai-key'', ''xai-key'', ''moonshot-key'', ''google-key'',
      ''deepseek-key'', ''zai-key'', ''minimax-key'', ''mistral-key'', ''alibaba-key'']"

definition save_paid_key ::
  "guard_config \<Rightarrow> string \<Rightarrow> string \<Rightarrow> string \<Rightarrow> nat \<Rightarrow>
   config_error + guard_config \<times> paid_key \<times> paid_key option" where
  "save_paid_key c runtime_id name0 i now =
     bind_sum (cfg_line ''the key's name'' name0 60) (\<lambda>name.
       if runtime_id \<notin> set paid_services then Inl TakesNoPaidKey
       else if \<not> starts_with ''paid-key-'' i \<or> byte_len i > 64 \<or> list_ex is_control i then Inl BadVaultName
       else
         let previous_at = position (\<lambda>k. pk_runtime_id k = runtime_id) (gc_paid_keys c);
             previous = map_option (\<lambda>n. gc_paid_keys c ! n) previous_at;
             rest = (case previous_at of None \<Rightarrow> gc_paid_keys c | Some n \<Rightarrow> remove_at n (gc_paid_keys c))
         in if length rest \<ge> max_paid_keys then Inl (TooMany ''paid keys'' max_paid_keys)
            else
              let k = \<lparr> pk_id = i, pk_runtime_id = runtime_id, pk_name = name,
                        pk_created_at = (case previous of None \<Rightarrow> now | Some p \<Rightarrow> pk_created_at p),
                        pk_updated_at = now, pk_replaces = map_option pk_id previous \<rparr>
              in Inr (c\<lparr> gc_paid_keys := rest @ [k] \<rparr>, k, previous))"

definition confirm_paid_key :: "guard_config \<Rightarrow> string \<Rightarrow> string \<Rightarrow> guard_config \<times> string option" where
  "confirm_paid_key c runtime_id i =
     (case position (\<lambda>k. pk_runtime_id k = runtime_id \<and> pk_id k = i) (gc_paid_keys c) of
        None \<Rightarrow> (c, None)
      | Some n \<Rightarrow>
          let k = gc_paid_keys c ! n
          in (c\<lparr> gc_paid_keys := (gc_paid_keys c)[n := k\<lparr> pk_replaces := None \<rparr>] \<rparr>, pk_replaces k))"

definition restore_paid_key ::
  "guard_config \<Rightarrow> string \<Rightarrow> string \<Rightarrow> paid_key option \<Rightarrow> guard_config \<times> bool" where
  "restore_paid_key c runtime_id i previous =
     (case position (\<lambda>k. pk_runtime_id k = runtime_id \<and> pk_id k = i) (gc_paid_keys c) of
        None \<Rightarrow> (c, False)
      | Some n \<Rightarrow>
          (c\<lparr> gc_paid_keys := remove_at n (gc_paid_keys c) @
                              (case previous of None \<Rightarrow> [] | Some p \<Rightarrow> [p]) \<rparr>, True))"

definition remove_paid_key :: "guard_config \<Rightarrow> string \<Rightarrow> config_error + guard_config \<times> paid_key" where
  "remove_paid_key c runtime_id =
     (case position (\<lambda>k. pk_runtime_id k = runtime_id) (gc_paid_keys c) of
        None \<Rightarrow> Inl NoPaidKey
      | Some n \<Rightarrow> Inr (c\<lparr> gc_paid_keys := remove_at n (gc_paid_keys c) \<rparr>, gc_paid_keys c ! n))"

end
