(* ===== verification/Guard_Scripts_Props.thy ===== *)
theory Guard_Scripts_Props
  imports Guard_Scripts
begin

text \<open>
  What the reader of scripts promises (\<open>Guard_Scripts\<close>): lines stay where they were, plain
  commands are read back as they were written and get the owner's lists, and quoting does not
  hide a name from the reader.
\<close>

section \<open>Comments are blanked in place\<close>

text \<open>A character of the stripped text is the script's own, or a space for one that is not a line end.\<close>

definition blanked :: "char \<Rightarrow> char \<Rightarrow> bool" where
  "blanked a b \<longleftrightarrow> a = b \<or> (a = CHR '' '' \<and> b \<noteq> newline)"

lemma blank_blanked: "list_all2 blanked (blank cs) cs"
  by (simp add: blank_def list_all2_map1 list.rel_refl blanked_def)

lemma drop_slice: "i \<le> e \<Longrightarrow> drop i cs = slice cs i e @ drop e cs"
  by (metis append_take_drop_id drop_drop le_add_diff_inverse2 slice_def)

lemma strip_skip:
  assumes "i \<le> e" "list_all2 blanked (strip_go cs e None ls) (drop e cs)"
  shows "list_all2 blanked (blank (slice cs i e) @ strip_go cs e None ls) (drop i cs)"
  unfolding drop_slice [OF assms(1)] by (intro list_all2_appendI blank_blanked assms(2))

lemma strip_keep:
  assumes "cs ! i = c" "i < length cs" "list_all2 blanked s (drop (Suc i) cs)"
  shows "list_all2 blanked (c # s) (drop i cs)"
  using assms by (simp add: Cons_nth_drop_Suc [symmetric] blanked_def)

lemma strip_go_blanked: "list_all2 blanked (strip_go cs i quote ls) (drop i cs)"
proof (induction cs i quote ls rule: strip_go.induct)
  case (1 cs i quote ls)
  show ?case
  proof (cases "length cs \<le> i")
    case True
    then show ?thesis by (simp add: strip_go.simps [of cs i])
  next
    case False
    note IH = "1.IH" [OF False refl refl]
    show ?thesis
    proof (cases quote)
      case None
      have "i \<le> comment_end cs (Suc (Suc i))" "i \<le> here_end cs q (Suc (Suc i))" "i \<le> line_end cs i" for q
        using comment_end_ge [of "Suc (Suc i)" cs] here_end_ge [of "Suc (Suc i)" cs q]
          line_end_ge [of i cs] by auto
      with False None IH(1-4) show ?thesis
        by (subst strip_go.simps) (auto simp: Let_def le_SucI intro!: strip_skip strip_keep)
    next
      case (Some q)
      show ?thesis
      proof (cases "cs ! i \<noteq> q \<and> cs ! i = backtick \<and> q = quotes \<and> i + 1 < length cs")
        case True
        have "list_all2 blanked (cs ! i # cs ! (i + 1) # strip_go cs (i + 2) quote
            (if cs ! i = newline then i + 1 else ls)) (drop i cs)"
          using True Some IH(6) [of q] by (intro strip_keep) simp_all
        with True Some False show ?thesis
          by (subst strip_go.simps) (simp add: Let_def)
      next
        case no_escape: False
        with Some False IH(5,7) [of q] show ?thesis
          by (subst strip_go.simps) (auto simp: Let_def intro!: strip_keep)
      qed
    qed
  qed
qed

text \<open>
  Blanking a script's comments and here-strings keeps every line where it was: the text read
  has the script's length, each character is the script's or a space, and its line ends are the
  script's, so the line a reason names is the owner's line.
\<close>

theorem strip_keeps_lines:
  "list_all2 blanked (strip_powershell t) t \<and>
   map (\<lambda>c. c = newline) (strip_powershell t) = map (\<lambda>c. c = newline) t"
proof -
  have a: "list_all2 blanked (strip_powershell t) t"
    using strip_go_blanked [of t 0 None 0] by (simp add: strip_powershell_def)
  then have "map (\<lambda>c. c = newline) (strip_powershell t) = map (\<lambda>c. c = newline) t"
    by (induction rule: list_all2_induct) (auto simp: blanked_def)
  with a show ?thesis by simp
qed

section \<open>Plain words are read back\<close>

definition plain_char :: "char list \<Rightarrow> char \<Rightarrow> bool" where
  "plain_char seps c \<longleftrightarrow>
     \<not> is_whitespace c \<and> c \<noteq> quotes \<and> c \<noteq> apostrophe \<and> c \<noteq> CHR ''&'' \<and> c \<noteq> CHR ''|'' \<and>
     c \<noteq> CHR ''#'' \<and> c \<notin> set seps"

definition plain_word :: "char list \<Rightarrow> string \<Rightarrow> bool" where
  "plain_word seps w \<longleftrightarrow> w \<noteq> [] \<and> list_all (plain_char seps) w"

text \<open>Statements written out: words apart by a space, statements on lines of their own.\<close>

definition written :: "string list list \<Rightarrow> string" where
  "written sts = join [newline] (map (join '' '') sts)"

lemma newline_whitespace [simp]: "is_whitespace newline" "is_whitespace (CHR '' '')"
  by (simp_all add: is_whitespace_def code_def)

lemma split_go_word:
  assumes "list_all (plain_char seps) w"
  shows "split_go seps call l st None tok toks (w @ rest) = split_go seps call l st None (tok @ w) toks rest"
  using assms
proof (induction w arbitrary: tok)
  case (Cons c w)
  then have "c \<noteq> newline" by (auto simp: plain_char_def)
  with Cons show ?case by (auto simp: plain_char_def)
qed simp

lemma split_go_line:
  assumes "ws \<noteq> []" "list_all (plain_word seps) ws" "CHR '' '' \<notin> set seps"
  shows "split_go seps call l st None [] toks (join '' '' ws @ rest) =
    split_go seps call l st None (last ws) (toks @ butlast ws) rest"
  using assms
proof (induction ws arbitrary: toks)
  case (Cons w ws)
  show ?case
  proof (cases ws)
    case Nil
    with Cons.prems show ?thesis
      using split_go_word [of seps w call l st "[]" toks rest] by (simp add: plain_word_def)
  next
    case (Cons v vs)
    have "split_go seps call l st None [] toks (join '' '' (w # ws) @ rest) =
        split_go seps call l st None w toks (CHR '' '' # join '' '' ws @ rest)"
      using Cons.prems Cons split_go_word [of seps w call l st "[]" toks "CHR '' '' # join '' '' ws @ rest"]
      by (simp add: plain_word_def)
    also have "\<dots> = split_go seps call l st None [] (toks @ [w]) (join '' '' ws @ rest)"
      using Cons.prems by (simp add: plain_word_def)
    finally show ?thesis
      using Cons.IH [of "toks @ [w]"] Cons Cons.prems by simp
  qed
qed simp

lemma end_statement_line:
  assumes "ws \<noteq> []" "list_all (plain_word seps) ws"
  shows "end_statement (butlast ws) (last ws) st = [(st, ws)]"
proof -
  have "last ws \<noteq> []"
    using assms by (metis last_in_set list_all_iff plain_word_def)
  with assms(1) show ?thesis by (simp add: end_statement_def)
qed

lemma split_go_written:
  assumes "list_all (\<lambda>ws. ws \<noteq> [] \<and> list_all (plain_word seps) ws) sts" "CHR '' '' \<notin> set seps"
  shows "split_go seps call l l None [] [] (written sts) = enumerate l sts"
  using assms(1)
proof (induction sts arbitrary: l)
  case Nil
  show ?case by (simp add: written_def end_statement_def)
next
  case (Cons ws sts)
  then have ws: "ws \<noteq> []" "list_all (plain_word seps) ws" by simp_all
  show ?case
  proof (cases sts)
    case Nil
    with split_go_line [OF ws assms(2), of call l l "[]" "[]"] end_statement_line [OF ws] show ?thesis
      by (simp add: written_def)
  next
    case (Cons vs sts')
    then have "written (ws # sts) = join '' '' ws @ newline # written sts"
      by (simp add: written_def)
    then have "split_go seps call l l None [] [] (written (ws # sts)) =
        (l, ws) # split_go seps call (l + 1) (l + 1) None [] [] (written sts)"
      using split_go_line [OF ws assms(2), of call l l "[]"] end_statement_line [OF ws]
      by simp
    with Cons.IH [of "l + 1"] Cons.prems show ?thesis by simp
  qed
qed

text \<open>
  Statements written plainly are split into exactly the words they were written with, each with
  its own line.
\<close>

theorem written_words_split_back:
  assumes "list_all (\<lambda>ws. ws \<noteq> [] \<and> list_all (plain_word seps) ws) sts" "CHR '' '' \<notin> set seps"
  shows "split_words (written sts) seps call = enumerate 1 sts"
  unfolding split_words_def by (rule split_go_written [OF assms])

theorem written_words_split_back_witness:
  "split_words (written [[''git'', ''status''], [''rm'', ''-rf'', ''x'']]) '';|{}()'' True =
   [(1, [''git'', ''status'']), (2, [''rm'', ''-rf'', ''x''])]"
  using written_words_split_back [of "'';|{}()''" "[[''git'', ''status''], [''rm'', ''-rf'', ''x'']]" True]
  by code_simp

section \<open>Quoting does not hide a name\<close>

text \<open>The ways a POSIX shell lets a piece of a word be written.\<close>

datatype piece = Bare string | Single string | Double string | Escaped char

fun piece_written :: "piece \<Rightarrow> string" where
  "piece_written (Bare s) = s"
| "piece_written (Single s) = apostrophe # s @ [apostrophe]"
| "piece_written (Double s) = quotes # s @ [quotes]"
| "piece_written (Escaped c) = [backslash, c]"

fun piece_text :: "piece \<Rightarrow> string" where
  "piece_text (Bare s) = s"
| "piece_text (Single s) = s"
| "piece_text (Double s) = s"
| "piece_text (Escaped c) = [c]"

definition special :: "char set" where
  "special = {apostrophe, quotes, CHR ''$'', backtick, backslash}"

fun piece_ok :: "piece \<Rightarrow> bool" where
  "piece_ok (Bare s) \<longleftrightarrow> set s \<inter> special = {}"
| "piece_ok (Single s) \<longleftrightarrow> apostrophe \<notin> set s"
| "piece_ok (Double s) \<longleftrightarrow> set s \<inter> (special - {apostrophe}) = {}"
| "piece_ok (Escaped c) \<longleftrightarrow> c \<noteq> newline"

definition in_front :: "string \<Rightarrow> string option \<Rightarrow> string option" where
  "in_front s x = map_option (append s) x"

lemma in_front_simps:
  "in_front [] x = x" "in_front s (in_front t x) = in_front (s @ t) x"
  "map_option (Cons c) x = in_front [c] x" "in_front s (Some u) = Some (s @ u)"
  by (cases x; simp add: in_front_def)+

lemma posix_bare:
  "set s \<inter> special = {} \<Longrightarrow> posix_word None (s @ r) = in_front s (posix_word None r)"
  by (induction s) (auto simp: special_def in_front_simps)

lemma posix_single:
  "apostrophe \<notin> set s \<Longrightarrow>
     posix_word (Some apostrophe) (s @ apostrophe # r) = in_front s (posix_word None r)"
  by (induction s) (auto simp: in_front_simps)

lemma posix_double:
  "set s \<inter> (special - {apostrophe}) = {} \<Longrightarrow>
     posix_word (Some quotes) (s @ quotes # r) = in_front s (posix_word None r)"
  by (induction s) (auto simp: special_def in_front_simps)

lemma posix_piece:
  "piece_ok p \<Longrightarrow>
     posix_word None (piece_written p @ r) = in_front (piece_text p) (posix_word None r)"
proof (cases p)
  case (Bare s)
  then show "piece_ok p \<Longrightarrow> ?thesis" by (simp add: posix_bare)
next
  case (Single s)
  then show "piece_ok p \<Longrightarrow> ?thesis" by (simp add: posix_single)
next
  case (Double s)
  then show "piece_ok p \<Longrightarrow> ?thesis" by (simp add: posix_double)
next
  case (Escaped c)
  then show "piece_ok p \<Longrightarrow> ?thesis" by (simp add: in_front_simps)
qed

text \<open>
  Quoting does not hide a program's name. However a word is put together from bare, single
  quoted, double quoted and escaped pieces, the reader sees the word the shell would run.
\<close>

theorem quoting_hides_nothing:
  assumes "list_all piece_ok ps"
  shows "shell_word (concat (map piece_written ps)) Posix = Some (concat (map piece_text ps))"
proof -
  have "posix_word None (concat (map piece_written ps)) = Some (concat (map piece_text ps))"
    using assms by (induction ps) (simp_all add: posix_piece in_front_simps)
  then show ?thesis by simp
qed

theorem quoting_hides_nothing_witness:
  "shell_word (CHR ''r'' # [quotes, CHR ''m'', quotes]) Posix = Some ''rm''"
  using quoting_hides_nothing [of "[Bare ''r'', Double ''m'']"] by code_simp

section \<open>Plain scripts get the owner's lists\<close>

text \<open>A command a script can name plainly: an ordinary program name and plain arguments.\<close>

definition plain_program :: "string \<Rightarrow> bool" where
  "plain_program p \<longleftrightarrow>
     plain_word '';|{}()'' p \<and> \<not> starts_with_any ''$[-@,.'' p \<and> \<not> list_all is_ascii_digit p \<and>
     to_lowercase p \<notin> set keywords_ps \<and> backtick \<notin> set p \<and> \<not> names_comspec p \<and>
     find (\<lambda>(q, _). q = cmdlet_of p) opaque_programs = None"

definition plain_command :: "command_line \<Rightarrow> bool" where
  "plain_command c \<longleftrightarrow>
     plain_program (cl_program c) \<and> list_all (\<lambda>a. plain_word '';|{}()'' a \<and> a \<noteq> []) (cl_args c)"

definition script_of :: "command_line list \<Rightarrow> string" where
  "script_of cmds = written (map (\<lambda>c. cl_program c # cl_args c) cmds)"

text \<open>A text without quotes and without \<open>#\<close> has nothing to blank.\<close>

definition nothing_to_strip :: "string \<Rightarrow> bool" where
  "nothing_to_strip t \<longleftrightarrow> CHR ''#'' \<notin> set t \<and> quotes \<notin> set t \<and> apostrophe \<notin> set t"

lemma char_at_in: "char_at cs i = Some c \<Longrightarrow> c \<in> set cs"
  by (auto simp: char_at_def split: if_splits)

lemma strip_go_plain:
  assumes "nothing_to_strip cs"
  shows "strip_go cs i None ls = drop i cs"
proof (induction "length cs - i" arbitrary: i ls)
  case 0
  then show ?case by (simp add: strip_go.simps)
next
  case (Suc n)
  then have i: "i < length cs" "n = length cs - Suc i" by auto
  have "cs ! i \<in> set cs" using i by simp
  then have "cs ! i \<noteq> CHR ''#''" "cs ! i \<noteq> quotes" "cs ! i \<noteq> apostrophe"
    "char_at cs (i + 1) \<noteq> Some (CHR ''#'')" "\<not> opens_here_string cs i ls'" for ls'
    using assms by (auto simp: nothing_to_strip_def opens_here_string_def dest: char_at_in)
  then have "strip_go cs i None ls = cs ! i # strip_go cs (i + 1) None (if cs ! i = newline then i + 1 else ls)"
    using i by (subst strip_go.simps) (simp add: Let_def)
  with Suc.hyps(1) [OF i(2)] i(1) show ?case
    by (simp add: Cons_nth_drop_Suc)
qed

lemma set_join: "set (join sep ws) \<subseteq> set sep \<union> \<Union> (set ` set ws)"
  by (induction sep ws rule: join.induct) auto

lemma set_written: "set (written sts) \<subseteq> {newline, CHR '' ''} \<union> (\<Union>ws \<in> set sts. \<Union> (set ` set ws))"
  unfolding written_def using set_join [of "[newline]" "map (join '' '') sts"] set_join [of "'' ''"]
  by (fastforce simp: image_iff)

lemma written_nothing_to_strip:
  assumes "list_all (\<lambda>ws. ws \<noteq> [] \<and> list_all (plain_word seps) ws) sts"
  shows "nothing_to_strip (written sts)"
proof -
  have "plain_char seps c" if "ws \<in> set sts" "w \<in> set ws" "c \<in> set w" for ws w c
    using assms that by (auto simp: list_all_iff plain_word_def)
  then have "c \<noteq> CHR ''#'' \<and> c \<noteq> quotes \<and> c \<noteq> apostrophe" if "c \<in> set (written sts)" for c
    using set_written [of sts] that by (fastforce simp: plain_char_def)
  then show ?thesis by (auto simp: nothing_to_strip_def)
qed

lemma unquoted_plain: "plain_word seps w \<Longrightarrow> unquoted w = w"
  by (cases w) (auto simp: unquoted_def literal_string_def plain_word_def plain_char_def)

lemma read_program_names:
  assumes "backtick \<notin> set p" "\<not> names_comspec p"
    and "find (\<lambda>(q, _). q = cmdlet_of p) opaque_programs = None"
  shows "\<exists>more. read_program line p args depth = program_statement line p args # more"
  unfolding read_program.simps [of line p args depth] if_not_P [OF assms(1)] if_not_P [OF assms(2)]
    assms(3) option.case
  by blast

lemma read_plain_program:
  assumes "plain_command c"
  shows "program_statement line (cl_program c) (cl_args c) \<in>
    set (read_powershell line (cl_program c # cl_args c) 0)"
proof -
  let ?p = "cl_program c"
  have p: "plain_program ?p" using assms by (simp add: plain_command_def)
  then have ne: "?p \<noteq> []" and "list_all (plain_char '';|{}()'') ?p"
    and dot: "hd ?p \<notin> set ''$[-@,.''"
    unfolding plain_program_def plain_word_def starts_with_any_def by blast+
  then have "plain_char '';|{}()'' (hd ?p)" by (metis hd_in_set list_all_iff)
  with ne dot have q: "hd ?p \<noteq> quotes" "hd ?p \<noteq> apostrophe" "?p \<noteq> []" "?p \<noteq> ''&''" "?p \<noteq> ''.''"
    by (cases ?p; simp add: plain_char_def)+
  have no_dot: "\<not> starts_with ''.'' ?p"
    using dot ne by (cases ?p) (simp_all add: starts_with_def)
  have "read_powershell line (?p # cl_args c) 0 = read_program line ?p (cl_args c) 0"
    using p q
    by (subst read_powershell.simps) (simp add: plain_program_def starts_with_any_def no_dot Let_def)
  moreover have "program_statement line ?p (cl_args c) \<in> set (read_program line ?p (cl_args c) 0)"
    using read_program_names [of ?p line "cl_args c" 0] p unfolding plain_program_def by auto
  ultimately show ?thesis by simp
qed

lemma plain_script_read:
  assumes "list_all plain_command cmds" "i < length cmds"
  shows "\<lparr> st_line = i + 1, st_kind = Program (cmds ! i) \<rparr> \<in> set (statements (script_of cmds))"
proof -
  let ?sts = "map (\<lambda>c. cl_program c # cl_args c) cmds" and ?c = "cmds ! i"
  have plain: "list_all (\<lambda>ws. ws \<noteq> [] \<and> list_all (plain_word '';|{}()'') ws) ?sts"
    using assms(1) by (auto simp: list_all_iff plain_command_def plain_program_def)
  have "split_powershell (strip_powershell (script_of cmds)) = enumerate 1 ?sts"
    using strip_go_plain [OF written_nothing_to_strip [OF plain]] split_go_written [OF plain]
    by (simp add: script_of_def strip_powershell_def split_powershell_def split_words_def)
  moreover have "(i + 1, cl_program ?c # cl_args ?c) \<in> set (enumerate 1 ?sts)"
    using assms(2) by (auto simp: in_set_enumerate_eq)
  ultimately have "set (read_powershell (i + 1) (cl_program ?c # cl_args ?c) 0)
      \<subseteq> set (statements (script_of cmds))"
    by (auto simp: statements_def)
  moreover have c: "plain_command ?c" using assms by (simp add: list_all_length)
  moreover have "map unquoted (cl_args ?c) = cl_args ?c"
    using c by (auto simp: plain_command_def list_all_iff unquoted_plain intro!: map_idI)
  ultimately show ?thesis
    using read_plain_program [OF c, of "i + 1"] by (cases ?c) (auto simp: program_statement_def)
qed

lemma find_map_found: "x \<in> set xs \<Longrightarrow> f x \<noteq> None \<Longrightarrow> find_map f xs \<noteq> None"
  by (induction xs) (auto split: option.splits)

lemma first_caught_found:
  assumes "s \<in> set sts" "st_kind s = Program cmd" "first_catch win rules cmd \<noteq> None"
  shows "first_caught win rules sts \<noteq> None"
proof -
  have "find_map (first_catch win rules) (spellings cmd) \<noteq> None"
    using find_map_found [of cmd "spellings cmd" "first_catch win rules"] assms(3)
    by (simp add: spellings_def)
  with assms(1,2) show ?thesis
    unfolding first_caught_def by (intro find_map_found [of s]) simp_all
qed

text \<open>
  C37: A program on the owner's list does not slip through by standing in a script: when any command
  of a script of plain commands is caught by one of the rules, the script is.
\<close>

theorem plain_script_is_caught:
  assumes "list_all plain_command cmds" "cmd \<in> set cmds" "first_catch win rules cmd \<noteq> None"
  shows "first_caught win rules (statements (script_of cmds)) \<noteq> None"
proof -
  obtain i where "i < length cmds" "cmds ! i = cmd"
    using assms(2) by (auto simp: in_set_conv_nth)
  with plain_script_read [OF assms(1), of i] first_caught_found [OF _ _ assms(3)] show ?thesis
    by auto
qed

theorem plain_script_is_caught_witness:
  "first_caught False [''format *''] (statements (''cd src'' @ newline # ''Format.com D:/x'')) \<noteq> None"
proof -
  let ?cmds = "[\<lparr> cl_program = ''cd'', cl_args = [''src''] \<rparr>,
    \<lparr> cl_program = ''Format.com'', cl_args = [''D:/x''] \<rparr>]"
  have "first_caught False [''format *''] (statements (script_of ?cmds)) \<noteq> None"
  proof (rule plain_script_is_caught [of _ "?cmds ! 1"])
    show "list_all plain_command ?cmds" by code_simp
    show "?cmds ! 1 \<in> set ?cmds" by simp
    show "first_catch False [''format *''] (?cmds ! 1) \<noteq> None" by code_simp
  qed
  moreover have "script_of ?cmds = ''cd src'' @ newline # ''Format.com D:/x''" by code_simp
  ultimately show ?thesis by simp
qed

end
