(* ===== verification/Guard_Engine.thy ===== *)
theory Guard_Engine
  imports Guard_Config Guard_Scripts_Props
begin

text \<open>
  The evaluation engine (\<open>crates/guard/src/engine.rs\<close>): a worker's level for a capability from its
  layers, and Guard's decision about one action.

  The source's \<open>evaluate\<close> is one long function of early returns. Here each test that can return is
  a definition of its own giving \<open>None\<close> (go on) or an answer (\<open>ruling\<close>), in the source's order:
  \<open>firm_answers\<close> are the tests before the action's risk, \<open>risk_answer\<close> is that test, and
  \<open>soft_answers\<close> are the owner's explicit rules after it; \<open>evaluate\<close> takes the first answer, or
  allows. What the parts of Guard need of their surroundings is the record \<open>world\<close>: whether
  program names ignore case, the disk, the current folder, and the \<open>url\<close> crate. The paths are those of a
  Mac or a Linux PC (\<open>Guard_Paths\<close>), where it is \<open>False\<close>; with \<open>True\<close> only the reading of program names is
  that of Windows, and what is proved about names of programs holds there as well.

  A reason names the action by its summary as given; the source writes its first letter in capitals.
\<close>

section \<open>Who is acting\<close>

record world =
  wd_win :: bool
  wd_disk :: disk
  wd_pwd :: path
  wd_urls :: url_crate

record scope_project =
  sp_id :: string
  sp_name :: string
  sp_limit :: "string option"
  sp_folder :: "string option"

record scope_unit =
  su_id :: string
  su_name :: string

record scope =
  sco_role_id :: string
  sco_role_name :: string
  sco_position_id :: "string option"
  sco_project :: "scope_project option"
  sco_department :: "scope_unit option"

record level_of =
  lf_level :: level
  lf_layer :: layer
  lf_reason :: clause
  lf_checks :: "check list"

fun verdict_of :: "level \<Rightarrow> verdict" where
  "verdict_of LAllowed = Allow"
| "verdict_of LAsk = Ask"
| "verdict_of LBlocked = Deny"

fun says :: "level \<Rightarrow> string \<Rightarrow> string" where
  "says LAllowed what = ''allows '' @ what"
| "says LAsk what = ''asks you before '' @ what"
| "says LBlocked what = ''does not allow '' @ what"

fun doing :: "capability \<Rightarrow> string" where
  "doing FilesystemRead = ''reading files''"
| "doing FilesystemWrite = ''changing files''"
| "doing ShellExec = ''running programs''"
| "doing PowershellExec = ''running PowerShell scripts''"
| "doing GitRead = ''reading git history''"
| "doing GitWrite = ''saving to git''"
| "doing GithubRead = ''reading GitHub''"
| "doing GithubWrite = ''changing GitHub''"
| "doing SshConnect = ''connecting to servers''"
| "doing BrowserNavigate = ''visiting websites''"
| "doing BrowserAutomate = ''using websites''"
| "doing ComputerObserve = ''seeing the screen''"
| "doing ComputerControl = ''using the mouse and keyboard''"
| "doing ConnectionsRead = ''reading through this connection''"
| "doing ConnectionsWrite = ''writing through this connection''"
| "doing McpInvoke = ''using add-on tools''"
| "doing NetworkLocal = ''reaching local services''"
| "doing ProcessManage = ''managing running programs''"

section \<open>Levels\<close>

definition switched_off :: "guard_config \<Rightarrow> capability \<Rightarrow> clause option" where
  "switched_off c cap =
     (if cap \<in> {BrowserNavigate, BrowserAutomate} \<and> \<not> sw_browser (gc_switches c) then Some BrowserOff
      else if cap \<in> {ComputerObserve, ComputerControl} \<and> \<not> sw_desktop (gc_switches c) then Some DesktopOff
      else if cap = SshConnect \<and> \<not> sw_servers (gc_switches c) then Some ServersOff
      else None)"

definition safety_cap :: "guard_config \<Rightarrow> capability \<Rightarrow> (level \<times> clause) option" where
  "safety_cap c cap =
     (if gc_safety c = Strict \<and> cap \<in> {FilesystemWrite, ShellExec, PowershellExec, GitWrite, GithubWrite}
      then Some (LBlocked, SafetyStrict)
      else if gc_safety c = Careful \<and> cap = PowershellExec then Some (LAsk, SafetyCareful)
      else None)"

definition limit_of :: "guard_config \<Rightarrow> capability \<Rightarrow> string \<Rightarrow> string option \<Rightarrow> level \<times> clause" where
  "limit_of c cap owner i =
     (case i of
        None \<Rightarrow> (LAllowed, NoLimit owner)
      | Some k \<Rightarrow>
          (case cfg_set c k of
             None \<Rightarrow> (LBlocked, LimitUnknown owner k)
           | Some s \<Rightarrow>
               (set_level s cap, LimitSays owner (set_name s) (says (set_level s cap) (doing cap)))))"

text \<open>One limit: it is noted, and it decides only where it is stricter than what stands so far.\<close>

definition narrow :: "level_of \<Rightarrow> layer \<times> level \<times> clause \<Rightarrow> level_of" where
  "narrow f x =
     (case x of
        (ly, l, note') \<Rightarrow>
          let f' = f\<lparr> lf_checks := lf_checks f @ [\<lparr> ck_layer = ly, ck_verdict = verdict_of l, ck_note = Clause note' \<rparr>] \<rparr>
          in if l < lf_level f then f'\<lparr> lf_level := l, lf_layer := ly, lf_reason := note' \<rparr> else f')"

definition limits :: "guard_config \<Rightarrow> scope \<Rightarrow> capability \<Rightarrow> (layer \<times> level \<times> clause) list" where
  "limits c sc cap =
     (case sco_project sc of
        None \<Rightarrow> []
      | Some p \<Rightarrow> [(LayerProject, limit_of c cap (''the '' @ sp_name p @ '' project'') (sp_limit p))]) @
     (case sco_department sc of
        None \<Rightarrow> []
      | Some d \<Rightarrow>
          [(LayerDepartment,
            limit_of c cap (''the '' @ su_name d @ '' department'') (get (gc_departments c) (su_id d)))]) @
     (case switched_off c cap of None \<Rightarrow> [] | Some off \<Rightarrow> [(LayerRule, LBlocked, off)]) @
     (case safety_cap c cap of None \<Rightarrow> [] | Some (cap', why) \<Rightarrow> [(LayerRule, cap', why)])"

definition narrowed :: "guard_config \<Rightarrow> scope \<Rightarrow> capability \<Rightarrow> level \<Rightarrow> clause \<Rightarrow> level_of" where
  "narrowed c sc cap granted because =
     foldl narrow
       \<lparr> lf_level = granted, lf_layer = LayerRole, lf_reason = because,
         lf_checks = [\<lparr> ck_layer = LayerRole, ck_verdict = verdict_of granted, ck_note = Clause because \<rparr>] \<rparr>
       (limits c sc cap)"

definition role_grant :: "guard_config \<Rightarrow> scope \<Rightarrow> capability \<Rightarrow> level \<times> clause" where
  "role_grant c sc cap =
     (case role_set c (sco_role_id sc) of
        None \<Rightarrow> (LBlocked, RoleHasNoSet (sco_role_name sc))
      | Some i \<Rightarrow>
          (case cfg_set c i of
             None \<Rightarrow> (LBlocked, RoleSetGone (sco_role_name sc))
           | Some s \<Rightarrow>
               (set_level s cap,
                SetSays (set_name s) (sco_role_name sc) (says (set_level s cap) (doing cap)))))"

definition level_for :: "guard_config \<Rightarrow> scope \<Rightarrow> capability \<Rightarrow> level_of" where
  "level_for c sc cap = (case role_grant c sc cap of (l, why) \<Rightarrow> narrowed c sc cap l why)"

definition whose :: "scope \<Rightarrow> access \<Rightarrow> string" where
  "whose sc line =
     (case ac_who line of
        AgentLine _ \<Rightarrow> ''this agent''
      | RoleLine _ \<Rightarrow> ''the '' @ sco_role_name sc @ '' role'')"

definition connection_grant :: "scope \<Rightarrow> connection \<Rightarrow> capability \<Rightarrow> level \<times> clause" where
  "connection_grant sc conn cap =
     (let name = connection_label conn in
      (case line_for (cn_access conn) (sco_position_id sc) (sco_role_id sc) of
         None \<Rightarrow> (LBlocked, ListLeavesOut name (sco_role_name sc))
       | Some line \<Rightarrow>
           let l = (if cap = ConnectionsRead then LAllowed
                    else if ac_level line = AccessWrite \<and> cap = ConnectionsWrite then LAllowed
                    else LBlocked)
           in (l, ListGives name (whose sc line) (access_words (ac_level line)) (says l (doing cap)))))"

definition level_for_connection ::
  "guard_config \<Rightarrow> scope \<Rightarrow> connection \<Rightarrow> capability \<Rightarrow> level_of" where
  "level_for_connection c sc conn cap =
     (case connection_grant sc conn cap of (l, why) \<Rightarrow> narrowed c sc cap l why)"

definition add_on_grant :: "scope \<Rightarrow> add_on \<Rightarrow> bool \<Rightarrow> level \<times> clause" where
  "add_on_grant sc a changing =
     (let name = ''The add-on '' @ ad_name a;
          what = (if changing then ''using its Changing tools'' else ''using its Reading tools'') in
      (case line_for (ad_access a) (sco_position_id sc) (sco_role_id sc) of
         None \<Rightarrow> (LBlocked, ListLeavesOut name (sco_role_name sc))
       | Some line \<Rightarrow>
           let l = (if \<not> changing \<or> ac_level line = AccessWrite then LAllowed else LBlocked)
           in (l, ListGives name (whose sc line) (access_words (ac_level line)) (says l what))))"

definition level_for_add_on :: "guard_config \<Rightarrow> scope \<Rightarrow> add_on \<Rightarrow> bool \<Rightarrow> level_of" where
  "level_for_add_on c sc a changing =
     (case add_on_grant sc a changing of (l, why) \<Rightarrow> narrowed c sc McpInvoke l why)"

definition levels_for :: "guard_config \<Rightarrow> scope \<Rightarrow> (capability, level) store" where
  "levels_for c sc = map (\<lambda>cap. (cap, lf_level (level_for c sc cap))) capability_all"

section \<open>One action\<close>

record site_check_rec =
  sck_site :: site
  sck_approved :: bool

record request =
  rq_capability :: capability
  rq_risk :: risk
  rq_summary :: string
  rq_files :: "string list"
  rq_writes_git_dir :: bool
  rq_command :: "command_line option"
  rq_script :: "string option"
  rq_inherent :: "(sensitive_kind \<times> string) option"
  rq_secrets :: "string list"
  rq_workspace :: path
  rq_site :: "site_check_rec option"
  rq_server :: "server_check option"
  rq_connection :: "connection_check option"
  rq_add_on :: "add_on_check option"

record grant_state =
  gs_level :: level
  gs_revoked :: bool

text \<open>What is asked: the settings, the request, the levels now, and the worker's grant.\<close>

record question =
  qu_config :: guard_config
  qu_request :: request
  qu_current :: level_of
  qu_grant :: grant_state

record ruling =
  ru_verdict :: verdict
  ru_layer :: layer
  ru_reason :: words
  ru_sensitive :: "sensitive_kind option"

definition answer :: "verdict \<Rightarrow> layer \<Rightarrow> words \<Rightarrow> ruling" where
  "answer v l w = \<lparr> ru_verdict = v, ru_layer = l, ru_reason = w, ru_sensitive = None \<rparr>"

definition decision :: "ruling \<Rightarrow> risk \<Rightarrow> check list \<Rightarrow> guard_decision" where
  "decision r rk checks =
     \<lparr> gd_verdict = ru_verdict r, gd_reason = ru_reason r, gd_layer = ru_layer r, gd_risk = rk,
       gd_sensitive = ru_sensitive r,
       gd_checks = checks @ [\<lparr> ck_layer = ru_layer r, ck_verdict = ru_verdict r, ck_note = ru_reason r \<rparr>] \<rparr>"

section \<open>The tests before the risk\<close>

definition revoked_answer :: "question \<Rightarrow> ruling option" where
  "revoked_answer q = (if gs_revoked (qu_grant q) then Some (answer Deny LayerGrant Revoked) else None)"

text \<open>The grant never widens: the level, the layer it comes from, and why.\<close>

definition standing :: "question \<Rightarrow> level \<times> layer \<times> clause" where
  "standing q =
     (let g = gs_level (qu_grant q); cur = qu_current q in
      if g < lf_level cur
      then (g, LayerGrant, StartingPermission (says g (doing (rq_capability (qu_request q)))))
      else (lf_level cur, lf_layer cur, lf_reason cur))"

definition blocked_answer :: "question \<Rightarrow> ruling option" where
  "blocked_answer q =
     (case standing q of (l, ly, why) \<Rightarrow> if l = LBlocked then Some (answer Deny ly (BlockedBy why)) else None)"

definition server_view :: "world \<Rightarrow> question \<Rightarrow> server_verdict option" where
  "server_view W q =
     map_option (server_check_of (wd_disk W) (wd_pwd W) (gc_blocked_files (qu_config q)))
       (rq_server (qu_request q))"

definition server_answer :: "world \<Rightarrow> question \<Rightarrow> ruling option" where
  "server_answer W q =
     (case server_view W q of
        Some (ServerDeny ly why) \<Rightarrow> Some (answer Deny ly (ServerBlocks why))
      | _ \<Rightarrow> None)"

definition connection_answer :: "question \<Rightarrow> ruling option" where
  "connection_answer q =
     (case rq_connection (qu_request q) of
        None \<Rightarrow> None
      | Some ck \<Rightarrow>
          if tool_writes (cc_kind ck) \<and> rq_capability (qu_request q) \<noteq> ConnectionsWrite
          then Some (answer Deny LayerTarget NeedsWrite)
          else
            (case connection_verdict_of ck of
               ConnectionDeny ly why \<Rightarrow> Some (answer Deny ly (ConnectionBlocks why))
             | ConnectionGo _ _ \<Rightarrow> None))"

definition add_on_answer :: "question \<Rightarrow> ruling option" where
  "add_on_answer q =
     (case rq_add_on (qu_request q) of
        None \<Rightarrow> None
      | Some ck \<Rightarrow>
          let a = aoc_add_on ck; t = aoc_tool ck in
          if \<not> ad_on a then Some (answer Deny LayerTarget (AddOnOff (ad_name a)))
          else if at_mark t = MarkOff
          then Some (answer Deny LayerRule (AddOnToolOff (ad_name a) (at_name t) (at_changed t)))
          else None)"

definition git_answer :: "question \<Rightarrow> ruling option" where
  "git_answer q =
     (if rq_writes_git_dir (qu_request q) then Some (answer Deny LayerTarget GitFiles) else None)"

definition file_answer :: "question \<Rightarrow> ruling option" where
  "file_answer q =
     find_map (\<lambda>f. map_option (\<lambda>rule. answer Deny LayerRule (BlockedFile f rule))
                     (blocked_by (gc_blocked_files (qu_config q)) f))
       (rq_files (qu_request q))"

definition site_view :: "world \<Rightarrow> question \<Rightarrow> site_verdict option" where
  "site_view W q =
     map_option (\<lambda>ck. site_check (wd_urls W) (gc_websites (qu_config q)) (sck_site ck))
       (rq_site (qu_request q))"

definition shown_site :: "question \<Rightarrow> string" where
  "shown_site q = (case rq_site (qu_request q) of None \<Rightarrow> [] | Some ck \<Rightarrow> site_shown (sck_site ck))"

definition site_answer :: "world \<Rightarrow> question \<Rightarrow> ruling option" where
  "site_answer W q =
     (case site_view W q of
        Some (SiteOnBlocked rule) \<Rightarrow> Some (answer Deny LayerRule (SiteBlocked (shown_site q) rule))
      | Some SiteIsLocal \<Rightarrow> Some (answer Deny LayerTarget (SiteLocal (shown_site q)))
      | Some SiteIsOther \<Rightarrow> Some (answer Deny LayerRule (SiteOther (shown_site q)))
      | _ \<Rightarrow> None)"

definition command_answer :: "world \<Rightarrow> question \<Rightarrow> ruling option" where
  "command_answer W q =
     (case rq_command (qu_request q) of
        None \<Rightarrow> None
      | Some cmd \<Rightarrow>
          let blocked = cr_blocked (gc_commands (qu_config q)); name = program_name (wd_win W) cmd in
          (case first_catch (wd_win W) blocked cmd of
             Some rule \<Rightarrow> Some (answer Deny LayerRule (CommandBlocked name rule))
           | None \<Rightarrow>
               (case first_caught (wd_win W) blocked (inner_statements cmd) of
                  Some (rule, program, _) \<Rightarrow>
                    Some (answer Deny LayerRule (ShellTextBlocked name program rule))
                | None \<Rightarrow> None)))"

definition script_statements :: "question \<Rightarrow> statement list" where
  "script_statements q = (case rq_script (qu_request q) of None \<Rightarrow> [] | Some s \<Rightarrow> statements s)"

definition script_answer :: "world \<Rightarrow> question \<Rightarrow> ruling option" where
  "script_answer W q =
     (case first_caught (wd_win W) (cr_blocked (gc_commands (qu_config q))) (script_statements q) of
        Some (rule, program, line) \<Rightarrow> Some (answer Deny LayerRule (ScriptBlocked program line rule))
      | None \<Rightarrow> None)"

definition firm_answers :: "world \<Rightarrow> question \<Rightarrow> ruling option list" where
  "firm_answers W q =
     [revoked_answer q, blocked_answer q, server_answer W q, connection_answer q, add_on_answer q,
      git_answer q, file_answer q, site_answer W q, command_answer W q, script_answer W q]"

section \<open>The action's risk\<close>

definition first_some :: "'a option list \<Rightarrow> 'a option" where
  "first_some xs = find_map id xs"

definition server_sensitive :: "world \<Rightarrow> question \<Rightarrow> (sensitive_kind \<times> string) option" where
  "server_sensitive W q =
     (let kinds = (case server_view W q of Some (ServerGo _ ks) \<Rightarrow> ks | _ \<Rightarrow> []) in
      (case find (\<lambda>(k, _). sensitive_rule_of (qu_config q) k = RuleBlock) kinds of
         Some x \<Rightarrow> Some x
       | None \<Rightarrow> (case kinds of [] \<Rightarrow> None | x # _ \<Rightarrow> Some x)))"

definition connection_go :: "question \<Rightarrow> (sensitive_kind \<times> string) option \<times> bool" where
  "connection_go q =
     (case rq_connection (qu_request q) of
        None \<Rightarrow> (None, False)
      | Some ck \<Rightarrow>
          (case connection_verdict_of ck of
             ConnectionGo s listed_all \<Rightarrow> (s, listed_all)
           | ConnectionDeny _ _ \<Rightarrow> (None, False)))"

definition found_sensitive :: "world \<Rightarrow> question \<Rightarrow> (sensitive_kind \<times> string) option" where
  "found_sensitive W q =
     (let rq = qu_request q in
      first_some
        [rq_inherent rq, fst (connection_go q), server_sensitive W q,
         Option.bind (rq_command rq) (\<lambda>cmd. sensitive_command (wd_disk W) (wd_pwd W) cmd (rq_workspace rq)),
         Option.bind (rq_script rq) (\<lambda>t. sensitive_script (wd_disk W) (wd_pwd W) t (rq_workspace rq))])"

definition on_allowed_site :: "world \<Rightarrow> question \<Rightarrow> bool" where
  "on_allowed_site W q \<longleftrightarrow>
     rq_capability (qu_request q) = BrowserAutomate \<and>
     (case site_view W q of Some (SiteAllowed _) \<Rightarrow> True | _ \<Rightarrow> False)"

definition to_listed :: "question \<Rightarrow> sensitive_kind \<Rightarrow> bool" where
  "to_listed q k \<longleftrightarrow>
     rq_capability (qu_request q) = ConnectionsWrite \<and> k = Outbound \<and> snd (connection_go q)"

definition goes_unasked :: "world \<Rightarrow> question \<Rightarrow> sensitive_kind \<Rightarrow> bool" where
  "goes_unasked W q k \<longleftrightarrow>
     (on_allowed_site W q \<or> to_listed q k) \<and>
     sensitive_rule_of (qu_config q) k = RuleAsk \<and>
     without_asking (gc_switches (qu_config q)) k = Some True"

definition risk_answer :: "world \<Rightarrow> question \<Rightarrow> ruling option" where
  "risk_answer W q =
     (case found_sensitive W q of
        None \<Rightarrow> None
      | Some (k, because) \<Rightarrow>
          if goes_unasked W q k then None
          else
            Some (case sensitive_rule_of (qu_config q) k of
                    RuleAsk \<Rightarrow>
                      \<lparr> ru_verdict = Ask, ru_layer = LayerRisk,
                        ru_reason = Sensitive (rq_summary (qu_request q)) because (kind_label k),
                        ru_sensitive = Some k \<rparr>
                  | RuleBlock \<Rightarrow>
                      \<lparr> ru_verdict = Deny, ru_layer = LayerRisk,
                        ru_reason = KindBlocked because (kind_label k), ru_sensitive = Some k \<rparr>))"

definition risk_note :: "world \<Rightarrow> question \<Rightarrow> check list" where
  "risk_note W q =
     (case found_sensitive W q of
        None \<Rightarrow> []
      | Some (k, because) \<Rightarrow>
          if goes_unasked W q k
          then [\<lparr> ck_layer = LayerRisk, ck_verdict = Allow,
                  ck_note = (if to_listed q k then SendsToListed because (kind_label k)
                             else OnAllowedSite because (kind_label k)) \<rparr>]
          else [])"

section \<open>The owner's explicit rules\<close>

definition add_on_asks :: "question \<Rightarrow> ruling option" where
  "add_on_asks q =
     (case rq_add_on (qu_request q) of
        None \<Rightarrow> None
      | Some ck \<Rightarrow>
          if at_mark (aoc_tool ck) = MarkChanging
          then Some (answer Ask LayerRule
                 (ToolIsChanging (rq_summary (qu_request q))
                    (at_name (aoc_tool ck) @ '' from '' @ ad_name (aoc_add_on ck))))
          else None)"

definition server_asks :: "world \<Rightarrow> question \<Rightarrow> ruling option" where
  "server_asks W q =
     (case server_view W q of
        Some (ServerGo (Some why) _) \<Rightarrow>
          Some (answer Ask LayerRule (ServerAsks (rq_summary (qu_request q)) why))
      | _ \<Rightarrow> None)"

definition site_asks :: "world \<Rightarrow> question \<Rightarrow> ruling option" where
  "site_asks W q =
     (case (rq_site (qu_request q), site_view W q) of
        (Some ck, Some SiteAsk) \<Rightarrow>
          if \<not> sck_approved ck
          then Some (answer Ask LayerRule (SiteNotListed (rq_summary (qu_request q)) (shown_site q)))
          else None
      | _ \<Rightarrow> None)"

definition command_asks :: "world \<Rightarrow> question \<Rightarrow> ruling option" where
  "command_asks W q =
     (case rq_command (qu_request q) of
        None \<Rightarrow> None
      | Some cmd \<Rightarrow>
          let asking = cr_ask (gc_commands (qu_config q)); name = program_name (wd_win W) cmd;
              summary = rq_summary (qu_request q); inner = inner_statements cmd in
          (case first_catch (wd_win W) asking cmd of
             Some rule \<Rightarrow> Some (answer Ask LayerRule (OnAskList summary rule))
           | None \<Rightarrow>
               (case first_caught (wd_win W) asking inner of
                  Some (rule, program, _) \<Rightarrow>
                    Some (answer Ask LayerRule (ShellTextAsks summary name program rule))
                | None \<Rightarrow>
                    (case first_opaque inner of
                       Some (why, _) \<Rightarrow> Some (answer Ask LayerRule (ShellTextOpaque summary name why))
                     | None \<Rightarrow> None))))"

definition script_asks :: "world \<Rightarrow> question \<Rightarrow> ruling option" where
  "script_asks W q =
     (case first_caught (wd_win W) (cr_ask (gc_commands (qu_config q))) (script_statements q) of
        Some (rule, program, line) \<Rightarrow>
          Some (answer Ask LayerRule (ScriptAsks (rq_summary (qu_request q)) program line rule))
      | None \<Rightarrow>
          (case first_opaque (script_statements q) of
             Some (why, line) \<Rightarrow>
               Some (answer Ask LayerRule (ScriptOpaque (rq_summary (qu_request q)) line why))
           | None \<Rightarrow> None))"

definition level_asks :: "question \<Rightarrow> ruling option" where
  "level_asks q =
     (case standing q of
        (l, ly, why) \<Rightarrow>
          if l = LAsk then Some (answer Ask ly (LevelAsks (rq_summary (qu_request q)) why)) else None)"

definition names_program :: "world \<Rightarrow> question \<Rightarrow> secret_rule \<Rightarrow> bool" where
  "names_program W q r \<longleftrightarrow>
     (case rq_command (qu_request q) of None \<Rightarrow> False | Some cmd \<Rightarrow> rule_approves (wd_win W) (sr_rule r) cmd)"

definition unapproved_asks :: "world \<Rightarrow> question \<Rightarrow> ruling option" where
  "unapproved_asks W q =
     (case rq_command (qu_request q) of
        None \<Rightarrow> None
      | Some cmd \<Rightarrow>
          if gc_safety (qu_config q) \<noteq> Light \<and>
             first_approval (wd_win W) (cr_approved (gc_commands (qu_config q))) cmd = None \<and>
             \<not> list_ex (names_program W q) (cr_with_secrets (gc_commands (qu_config q)))
          then Some (answer Ask LayerRule (NotApproved (rq_summary (qu_request q)))) else None)"

definition secret_named :: "world \<Rightarrow> question \<Rightarrow> string \<Rightarrow> bool" where
  "secret_named W q secret \<longleftrightarrow>
     list_ex (\<lambda>r. names_program W q r \<and> list_ex (\<lambda>n. eq_ignore_ascii_case n secret) (sr_secrets r))
       (cr_with_secrets (gc_commands (qu_config q)))"

definition secrets_ask :: "world \<Rightarrow> question \<Rightarrow> ruling option" where
  "secrets_ask W q =
     (let secrets = rq_secrets (qu_request q) in
      if secrets \<noteq> [] \<and> \<not> list_all (secret_named W q) secrets
      then Some (answer Ask LayerRule (GivenSecrets (rq_summary (qu_request q)) secrets)) else None)"

definition soft_answers :: "world \<Rightarrow> question \<Rightarrow> ruling option list" where
  "soft_answers W q =
     [add_on_asks q, server_asks W q, site_asks W q, command_asks W q, script_asks W q, level_asks q,
      unapproved_asks W q, secrets_ask W q]"

section \<open>The decision\<close>

definition through :: "question \<Rightarrow> words" where
  "through q =
     (case (rq_connection (qu_request q), rq_add_on (qu_request q)) of
        (Some ck, _) \<Rightarrow> ThroughConnection (connection_label (cc_connection ck))
      | (None, Some ck) \<Rightarrow> ThroughAddOn (ad_name (aoc_add_on ck))
      | (None, None) \<Rightarrow> InsideFolder)"

definition allow_notes :: "question \<Rightarrow> check list" where
  "allow_notes q =
     (if rq_secrets (qu_request q) \<noteq> []
      then [\<lparr> ck_layer = LayerRule, ck_verdict = Allow, ck_note = RuleGivesSecrets (rq_secrets (qu_request q)) \<rparr>]
      else []) @
     [\<lparr> ck_layer = LayerTarget, ck_verdict = Allow, ck_note = through q \<rparr>]"

definition allowed :: "question \<Rightarrow> ruling" where
  "allowed q = (case standing q of (_, ly, why) \<Rightarrow> answer Allow ly (AllowedBecause why))"

definition evaluate :: "world \<Rightarrow> question \<Rightarrow> guard_decision" where
  "evaluate W q =
     (let rk = rq_risk (qu_request q); checks = lf_checks (qu_current q) in
      (case first_some (firm_answers W q) of
         Some r \<Rightarrow> decision r rk checks
       | None \<Rightarrow>
           (case risk_answer W q of
              Some r \<Rightarrow> decision r rk checks
            | None \<Rightarrow>
                let checks' = checks @ risk_note W q in
                (case first_some (soft_answers W q) of
                   Some r \<Rightarrow> decision r rk checks'
                 | None \<Rightarrow> decision (allowed q) rk (checks' @ allow_notes q)))))"

end
