(* ===== verification/Guard_Engine_Props.thy ===== *)
theory Guard_Engine_Props
  imports Guard_Engine
begin

text \<open>
  What Guard's decision promises. The locale \<open>strictest_first\<close> is the contract of a list of tests
  that are asked in turn: no test is followed by a stricter one, so that the first answer is the
  strictest; Guard's own tests provide it (\<open>guard_order\<close>). On it rest the refinement of the plan's
  rule "the strictest answer wins", what an allowed action has passed, and that a longer list of
  blocked commands never loosens a decision.
\<close>

section \<open>Tests asked in turn\<close>

lemma first_some_Nil [simp]: "first_some [] = None"
  by (simp add: first_some_def)

lemma first_some_Cons [simp]:
  "first_some (x # xs) = (case x of None \<Rightarrow> first_some xs | Some y \<Rightarrow> Some y)"
  by (simp add: first_some_def split: option.splits)

lemma first_some_append:
  "first_some (xs @ ys) = (case first_some xs of None \<Rightarrow> first_some ys | Some y \<Rightarrow> Some y)"
  by (induction xs) (auto split: option.splits)

lemma first_some_None: "first_some xs = None \<longleftrightarrow> (\<forall>x \<in> set xs. x = None)"
  by (induction xs) (auto split: option.splits)

lemma first_some_split:
  "first_some xs = Some r \<Longrightarrow> \<exists>before after. xs = before @ Some r # after \<and> (\<forall>x \<in> set before. x = None)"
proof (induction xs)
  case (Cons x xs)
  show ?case
  proof (cases x)
    case None
    with Cons obtain before after where "xs = before @ Some r # after" "\<forall>y \<in> set before. y = None"
      by auto
    with None show ?thesis by (intro exI [of _ "x # before"] exI [of _ after]) simp
  next
    case (Some y)
    with Cons.prems show ?thesis by (intro exI [of _ "[]"] exI [of _ xs]) simp
  qed
qed simp

text \<open>The plan's rule: the strictest answer wins, and an action no test objects to is allowed.\<close>

definition strictest :: "ruling option list \<Rightarrow> verdict" where
  "strictest xs =
     (if \<exists>r. Some r \<in> set xs \<and> ru_verdict r = Deny then Deny
      else if \<exists>r. Some r \<in> set xs \<and> ru_verdict r = Ask then Ask
      else Allow)"

locale strictest_first =
  fixes answers :: "'q \<Rightarrow> ruling option list"
  assumes stricter_earlier:
    "answers q = xs @ Some r # ys \<Longrightarrow> Some r' \<in> set ys \<Longrightarrow> ru_verdict r \<le> ru_verdict r'"
begin

lemma first_is_strictest:
  assumes "first_some (answers q) = Some r" "Some r' \<in> set (answers q)"
  shows "ru_verdict r \<le> ru_verdict r'"
proof -
  obtain before after where split: "answers q = before @ Some r # after" "\<forall>x \<in> set before. x = None"
    using first_some_split [OF assms(1)] by blast
  with assms(2) consider "r' = r" | "Some r' \<in> set after" by auto
  then show ?thesis using stricter_earlier [OF split(1)] by cases auto
qed

lemma first_answer_wins:
  "(case first_some (answers q) of None \<Rightarrow> Allow | Some r \<Rightarrow> ru_verdict r) = strictest (answers q)"
proof (cases "first_some (answers q)")
  case None
  then have "Some r \<notin> set (answers q)" for r by (auto simp: first_some_None)
  with None show ?thesis by (simp add: strictest_def)
next
  case (Some r)
  have inside: "Some r \<in> set (answers q)"
    using first_some_split [OF Some] by auto
  have le: "ru_verdict r \<le> ru_verdict r'" if "Some r' \<in> set (answers q)" for r'
    using first_is_strictest [OF Some that] .
  show ?thesis
  proof (cases "ru_verdict r")
    case Allow
    with le have "ru_verdict r' = Allow" if "Some r' \<in> set (answers q)" for r'
      using that by fastforce
    with Some Allow show ?thesis by (auto simp: strictest_def)
  next
    case Ask
    with le have "ru_verdict r' \<noteq> Deny" if "Some r' \<in> set (answers q)" for r'
      using that by fastforce
    with Some Ask inside show ?thesis by (auto simp: strictest_def)
  next
    case Deny
    with Some inside show ?thesis by (auto simp: strictest_def)
  qed
qed

lemma passes_all: "first_some (answers q) = None \<Longrightarrow> x \<in> set (answers q) \<Longrightarrow> x = None"
  by (simp add: first_some_None)

end

section \<open>Guard's tests\<close>

definition guard_answers :: "world \<Rightarrow> question \<Rightarrow> ruling option list" where
  "guard_answers W q = firm_answers W q @ risk_answer W q # soft_answers W q"

lemma answer_simps [simp]:
  "ru_verdict (answer v l w) = v" "ru_layer (answer v l w) = l" "ru_reason (answer v l w) = w"
  by (simp_all add: answer_def)

lemmas firm_defs =
  revoked_answer_def blocked_answer_def server_answer_def connection_answer_def add_on_answer_def
  git_answer_def file_answer_def site_answer_def command_answer_def script_answer_def

lemmas soft_defs =
  add_on_asks_def server_asks_def site_asks_def command_asks_def script_asks_def level_asks_def
  unapproved_asks_def secrets_ask_def

lemma find_map_verdict:
  "find_map (\<lambda>f. map_option (\<lambda>rule. answer v l (w f rule)) (g f)) xs = Some r \<Longrightarrow> ru_verdict r = v"
  by (induction xs) (auto split: option.splits)

lemma firm_deny: "Some r \<in> set (firm_answers W q) \<Longrightarrow> ru_verdict r = Deny"
  unfolding firm_answers_def set_simps insert_iff
  by (elim disjE)
     (auto simp: firm_defs Let_def dest!: sym [of "Some r"] find_map_verdict
       split: if_splits option.splits prod.splits server_verdict.splits connection_verdict.splits
         site_verdict.splits)

lemma soft_ask: "Some r \<in> set (soft_answers W q) \<Longrightarrow> ru_verdict r = Ask"
  unfolding soft_answers_def set_simps insert_iff
  by (elim disjE)
     (auto simp: soft_defs Let_def dest!: sym [of "Some r"]
       split: if_splits option.splits prod.splits server_verdict.splits site_verdict.splits)

lemma risk_not_allow: "risk_answer W q = Some r \<Longrightarrow> ru_verdict r \<noteq> Allow"
  by (auto simp: risk_answer_def split: option.splits prod.splits if_splits sensitive_rule.splits)

text \<open>
  No test of Guard is followed by a stricter one: the tests before the risk only deny, and those
  after it only ask.
\<close>

interpretation guard_order: strictest_first "guard_answers W" for W
proof
  fix q xs r ys r'
  assume eq: "guard_answers W q = xs @ Some r # ys" and later: "Some r' \<in> set ys"
  have r: "Some r \<in> set (guard_answers W q)" and r': "Some r' \<in> set (guard_answers W q)"
    using eq later by auto
  show "ru_verdict r \<le> ru_verdict r'"
  proof (cases "ru_verdict r")
    case Deny
    then show ?thesis by simp
  next
    case Allow
    then show ?thesis using r risk_not_allow firm_deny soft_ask
      by (fastforce simp: guard_answers_def)
  next
    case Ask
    have "Some r \<notin> set (firm_answers W q)" using Ask firm_deny by force
    have "length (firm_answers W q) \<le> length xs"
    proof (rule ccontr)
      assume "\<not> ?thesis"
      then have "(firm_answers W q @ risk_answer W q # soft_answers W q) ! length xs \<in> set (firm_answers W q)"
        by (simp add: nth_append)
      with eq \<open>Some r \<notin> set (firm_answers W q)\<close> show False
        by (simp add: guard_answers_def)
    qed
    then have "ys = drop (Suc (length xs)) (firm_answers W q @ risk_answer W q # soft_answers W q)"
      using eq by (simp add: guard_answers_def)
    with \<open>length (firm_answers W q) \<le> length xs\<close>
    have "set ys \<subseteq> set (soft_answers W q)"
      by (auto simp: Suc_diff_le dest: in_set_dropD)
    with later have "ru_verdict r' = Ask" using soft_ask by blast
    then show ?thesis using Ask by simp
  qed
qed

lemma evaluate_first:
  "gd_verdict (evaluate W q) =
     (case first_some (guard_answers W q) of None \<Rightarrow> Allow | Some r \<Rightarrow> ru_verdict r)"
  by (auto simp: evaluate_def guard_answers_def first_some_append decision_def Let_def allowed_def
      split: option.splits prod.splits)

lemma allow_iff: "gd_verdict (evaluate W q) = Allow \<longleftrightarrow> first_some (guard_answers W q) = None"
proof -
  have "ru_verdict r \<noteq> Allow" if "first_some (guard_answers W q) = Some r" for r
  proof -
    have "Some r \<in> set (guard_answers W q)" using first_some_split [OF that] by auto
    then consider "Some r \<in> set (firm_answers W q)" | "risk_answer W q = Some r" | "Some r \<in> set (soft_answers W q)"
      by (auto simp: guard_answers_def)
    then show ?thesis
      by cases (use firm_deny risk_not_allow soft_ask in \<open>force+\<close>)
  qed
  then show ?thesis by (auto simp: evaluate_first split: option.splits)
qed

section \<open>Levels: limits only narrow\<close>

lemma verdict_of_mono [simp]: "verdict_of a \<le> verdict_of b \<longleftrightarrow> a \<le> b"
  by (cases a; cases b; simp)

definition limit_levels :: "(layer \<times> level \<times> clause) list \<Rightarrow> level set" where
  "limit_levels ls = (\<lambda>(_, l, _). l) ` set ls"

text \<open>
  A level as the engine reports it: it is one of the noted checks, named as the one that decided,
  and no noted check is stricter.
\<close>

definition level_explained :: "level_of \<Rightarrow> bool" where
  "level_explained f \<longleftrightarrow>
     \<lparr> ck_layer = lf_layer f, ck_verdict = verdict_of (lf_level f), ck_note = Clause (lf_reason f) \<rparr>
       \<in> set (lf_checks f) \<and>
     (\<forall>ck \<in> set (lf_checks f). verdict_of (lf_level f) \<le> ck_verdict ck)"

lemma narrow_level: "lf_level (narrow f (ly, l, why)) = min l (lf_level f)"
  by (auto simp: narrow_def Let_def min_def)

lemma narrow_explained:
  assumes "level_explained f"
  shows "level_explained (narrow f x)"
proof -
  obtain ly l why where x: "x = (ly, l, why)" by (cases x)
  have "verdict_of l \<le> ck_verdict ck" if "l < lf_level f" "ck \<in> set (lf_checks f)" for ck
  proof -
    have "verdict_of l \<le> verdict_of (lf_level f)" using that(1) by simp
    also have "\<dots> \<le> ck_verdict ck" using assms that(2) by (simp add: level_explained_def)
    finally show ?thesis .
  qed
  with assms x show ?thesis
    by (auto simp: narrow_def level_explained_def Let_def)
qed

lemma Min_min: "finite S \<Longrightarrow> Min (insert (min a b) S) = Min (insert a (insert b S))"
  by (cases "S = {}") (simp_all add: min.assoc)

lemma foldl_narrow:
  "lf_level (foldl narrow f ls) = Min (insert (lf_level f) (limit_levels ls))"
proof (induction ls arbitrary: f)
  case (Cons x ls)
  obtain ly l why where x: "x = (ly, l, why)" by (cases x)
  have "limit_levels (x # ls) = insert l (limit_levels ls)" "finite (limit_levels ls)"
    using x by (simp_all add: limit_levels_def)
  with Cons x show ?case by (simp only: foldl_Cons narrow_level Min_min insert_commute)
qed (simp add: limit_levels_def)

lemma foldl_narrow_explained: "level_explained f \<Longrightarrow> level_explained (foldl narrow f ls)"
  by (induction ls arbitrary: f) (auto intro: narrow_explained)

lemma narrowed_level:
  "lf_level (narrowed c sc cap g why) = Min (insert g (limit_levels (limits c sc cap)))"
  by (simp add: narrowed_def foldl_narrow)

lemma narrowed_explained: "level_explained (narrowed c sc cap g why)"
  unfolding narrowed_def by (rule foldl_narrow_explained) (simp add: level_explained_def)

text \<open>
  The limits that stand for a capability, as the owner set them: the permission set that limits the
  project, the one that limits the department (a set that is gone allows nothing), the switch of the
  feature, and the Safety setting.
\<close>

definition set_limit :: "guard_config \<Rightarrow> string \<Rightarrow> capability \<Rightarrow> level" where
  "set_limit c k cap = (case cfg_set c k of None \<Rightarrow> LBlocked | Some s \<Rightarrow> set_level s cap)"

inductive limit_stands :: "guard_config \<Rightarrow> scope \<Rightarrow> capability \<Rightarrow> level \<Rightarrow> bool" for c sc cap where
  by_project: "sco_project sc = Some p \<Longrightarrow> sp_limit p = Some k \<Longrightarrow> limit_stands c sc cap (set_limit c k cap)"
| by_department:
    "sco_department sc = Some d \<Longrightarrow> get (gc_departments c) (su_id d) = Some k \<Longrightarrow>
     limit_stands c sc cap (set_limit c k cap)"
| browser_off:
    "\<not> sw_browser (gc_switches c) \<Longrightarrow> cap = BrowserNavigate \<or> cap = BrowserAutomate \<Longrightarrow> limit_stands c sc cap LBlocked"
| desktop_off:
    "\<not> sw_desktop (gc_switches c) \<Longrightarrow> cap = ComputerObserve \<or> cap = ComputerControl \<Longrightarrow> limit_stands c sc cap LBlocked"
| servers_off: "\<not> sw_servers (gc_switches c) \<Longrightarrow> cap = SshConnect \<Longrightarrow> limit_stands c sc cap LBlocked"
| strict_safety:
    "gc_safety c = Strict \<Longrightarrow>
     cap = FilesystemWrite \<or> cap = ShellExec \<or> cap = PowershellExec \<or> cap = GitWrite \<or> cap = GithubWrite \<Longrightarrow>
     limit_stands c sc cap LBlocked"
| careful_safety: "gc_safety c = Careful \<Longrightarrow> cap = PowershellExec \<Longrightarrow> limit_stands c sc cap LAsk"

inductive_simps limit_stands_iff: "limit_stands c sc cap l"

lemma level_top [simp]: "l \<le> LAllowed"
  by (cases l) (simp_all add: less_eq_level_def)

lemma limit_of_level: "fst (limit_of c cap owner i) = (case i of None \<Rightarrow> LAllowed | Some k \<Rightarrow> set_limit c k cap)"
  by (simp add: limit_of_def set_limit_def split: option.split)

lemma limits_are_those_set:
  "insert LAllowed (limit_levels (limits c sc cap)) = insert LAllowed {l. limit_stands c sc cap l}"
proof -
  have one: "limit_levels [(ly, limit_of c cap w i)] = {case i of None \<Rightarrow> LAllowed | Some k \<Rightarrow> set_limit c k cap}"
    for ly w i
    using limit_of_level [of c cap w i] by (cases "limit_of c cap w i") (simp add: limit_levels_def)
  have none: "limit_levels [] = {}"
    by (simp add: limit_levels_def)
  have project: "insert LAllowed (limit_levels (case sco_project sc of None \<Rightarrow> []
        | Some p \<Rightarrow> [(LayerProject, limit_of c cap (w p) (sp_limit p))])) =
      insert LAllowed {l. \<exists>p k. sco_project sc = Some p \<and> sp_limit p = Some k \<and> l = set_limit c k cap}" for w
    by (cases "sco_project sc") (auto simp: one none split: option.splits)
  have department: "insert LAllowed (limit_levels (case sco_department sc of None \<Rightarrow> []
        | Some d \<Rightarrow> [(LayerDepartment, limit_of c cap (w d) (get (gc_departments c) (su_id d)))])) =
      insert LAllowed {l. \<exists>d k. sco_department sc = Some d \<and> get (gc_departments c) (su_id d) = Some k \<and>
        l = set_limit c k cap}" for w
    by (cases "sco_department sc") (auto simp: one none split: option.splits)
  have off: "limit_levels (case switched_off c cap of None \<Rightarrow> [] | Some why \<Rightarrow> [(LayerRule, LBlocked, why)]) =
      {l. l = LBlocked \<and> switched_off c cap \<noteq> None}"
    by (cases "switched_off c cap") (auto simp: limit_levels_def)
  have safety: "limit_levels (case safety_cap c cap of None \<Rightarrow> [] | Some (l, why) \<Rightarrow> [(LayerRule, l, why)]) =
      {l. \<exists>why. safety_cap c cap = Some (l, why)}"
    by (cases "safety_cap c cap") (auto simp: limit_levels_def)
  have off_iff: "switched_off c cap \<noteq> None \<longleftrightarrow>
      \<not> sw_browser (gc_switches c) \<and> (cap = BrowserNavigate \<or> cap = BrowserAutomate) \<or>
      \<not> sw_desktop (gc_switches c) \<and> (cap = ComputerObserve \<or> cap = ComputerControl) \<or>
      \<not> sw_servers (gc_switches c) \<and> cap = SshConnect"
    by (auto simp: switched_off_def)
  have safety_iff: "(\<exists>why. safety_cap c cap = Some (l, why)) \<longleftrightarrow>
      l = LBlocked \<and> gc_safety c = Strict \<and>
        (cap = FilesystemWrite \<or> cap = ShellExec \<or> cap = PowershellExec \<or> cap = GitWrite \<or> cap = GithubWrite) \<or>
      l = LAsk \<and> gc_safety c = Careful \<and> cap = PowershellExec" for l
    by (auto simp: safety_cap_def)
  have split: "limit_levels (xs @ ys) = limit_levels xs \<union> limit_levels ys" for xs ys
    by (simp add: limit_levels_def image_Un)
  have "insert LAllowed (limit_levels (limits c sc cap)) =
      insert LAllowed {l. \<exists>p k. sco_project sc = Some p \<and> sp_limit p = Some k \<and> l = set_limit c k cap} \<union>
      insert LAllowed {l. \<exists>d k. sco_department sc = Some d \<and> get (gc_departments c) (su_id d) = Some k \<and>
        l = set_limit c k cap} \<union>
      {l. l = LBlocked \<and> switched_off c cap \<noteq> None} \<union> {l. \<exists>why. safety_cap c cap = Some (l, why)}"
    unfolding limits_def split off safety
      project [of "\<lambda>p. ''the '' @ sp_name p @ '' project''", symmetric]
      department [of "\<lambda>d. ''the '' @ su_name d @ '' department''", symmetric]
    by blast
  also have "\<dots> = insert LAllowed {l. limit_stands c sc cap l}"
    unfolding limit_stands_iff off_iff safety_iff
    by (rule set_eqI) (simp only: mem_Collect_eq insert_iff Un_iff, blast)
  finally show ?thesis .
qed

lemma narrowed_to_limits:
  "lf_level (narrowed c sc cap g why) = Min (insert g {l. limit_stands c sc cap l})"
proof -
  have top: "Min (insert g S) = Min (insert g (insert LAllowed S))" if "finite S" for S
    using that by (simp add: insert_commute [of g] Min_insert min_absorb2)
  have fin: "finite S" for S :: "level set"
    by (rule finite_subset [of _ "{LAllowed, LAsk, LBlocked}"]) (auto intro: level.exhaust)
  show ?thesis
    unfolding narrowed_level top [OF fin, of "limit_levels (limits c sc cap)"] limits_are_those_set
    by (rule top [OF fin, symmetric])
qed

text \<open>
  C25: A worker's level for a capability is the strictest of what its role's permission set (or a
  connection's or add-on's own list) gives it and every limit that stands: the project's, the
  department's, the owner's switches and the Safety setting, as they are set. A limit never widens, and
  the reason given is that of the layer that decided.
\<close>

theorem limits_only_narrow:
  "lf_level (level_for c sc cap) =
     Min (insert (fst (role_grant c sc cap)) {l. limit_stands c sc cap l}) \<and>
   lf_level (level_for_connection c sc conn cap) =
     Min (insert (fst (connection_grant sc conn cap)) {l. limit_stands c sc cap l}) \<and>
   lf_level (level_for_add_on c sc a changing) =
     Min (insert (fst (add_on_grant sc a changing)) {l. limit_stands c sc McpInvoke l}) \<and>
   level_explained (level_for c sc cap) \<and> level_explained (level_for_connection c sc conn cap) \<and>
   level_explained (level_for_add_on c sc a changing)"
  by (simp add: level_for_def level_for_connection_def level_for_add_on_def narrowed_to_limits
      narrowed_explained split: prod.split)

section \<open>The decision\<close>

text \<open>
  C22: The strictest answer wins. Although \<open>evaluate\<close> stops at the first of its nineteen tests that
  objects, its verdict is the strictest of what all of them would say: it denies exactly when some
  test denies, asks exactly when none denies and some test asks, and allows when none objects.
\<close>

theorem strictest_answer_wins:
  "gd_verdict (evaluate W q) = strictest (firm_answers W q @ risk_answer W q # soft_answers W q)"
  using guard_order.first_answer_wins [of W q] evaluate_first [of W q]
  by (simp add: guard_answers_def)

lemma allow_passes:
  assumes "gd_verdict (evaluate W q) = Allow"
  shows "x \<in> set (firm_answers W q) \<union> {risk_answer W q} \<union> set (soft_answers W q) \<Longrightarrow> x = None"
  using guard_order.passes_all [of W q x] assms allow_iff [of W q] by (auto simp: guard_answers_def)

lemma allow_firm:
  assumes "gd_verdict (evaluate W q) = Allow"
  shows "revoked_answer q = None" "blocked_answer q = None" "server_answer W q = None"
    "connection_answer q = None" "add_on_answer q = None" "git_answer q = None" "file_answer q = None"
    "site_answer W q = None" "command_answer W q = None" "script_answer W q = None"
    "risk_answer W q = None"
  using allow_passes [OF assms] by (auto simp: firm_answers_def)

lemma allow_soft:
  assumes "gd_verdict (evaluate W q) = Allow"
  shows "add_on_asks q = None" "server_asks W q = None" "site_asks W q = None" "command_asks W q = None"
    "script_asks W q = None" "level_asks q = None" "unapproved_asks W q = None" "secrets_ask W q = None"
  using allow_passes [OF assms] by (auto simp: soft_answers_def)

lemma standing_level: "fst (standing q) = min (gs_level (qu_grant q)) (lf_level (qu_current q))"
  by (auto simp: standing_def Let_def min_def)

lemma standing_allowed:
  assumes "blocked_answer q = None" "level_asks q = None"
  shows "gs_level (qu_grant q) = LAllowed \<and> lf_level (qu_current q) = LAllowed"
proof -
  have "fst (standing q) = LAllowed"
    using assms by (cases "fst (standing q)") (auto simp: blocked_answer_def level_asks_def split: prod.splits)
  then show ?thesis by (metis level_order(4) min.cobounded1 min.cobounded2 standing_level)
qed

text \<open>
  C23: What an action that goes ahead without the owner has passed. The worker's grant stands and
  both it and the level now allow the capability; the action writes into no \<open>.git\<close> folder and
  touches no blocked file; its program, and every program in the text it hands to a shell or in its
  script, is on neither the blocked nor the always-ask list, with nothing in that text or script the
  reader could not follow; and every stored secret it is given is named with that program by a rule.
\<close>

theorem allowed_action_is_clean:
  assumes allow: "gd_verdict (evaluate W q) = Allow"
  shows "\<not> gs_revoked (qu_grant q) \<and>
    gs_level (qu_grant q) = LAllowed \<and> lf_level (qu_current q) = LAllowed \<and>
    \<not> rq_writes_git_dir (qu_request q) \<and>
    (\<forall>f \<in> set (rq_files (qu_request q)). blocked_by (gc_blocked_files (qu_config q)) f = None) \<and>
    (\<forall>cmd. rq_command (qu_request q) = Some cmd \<longrightarrow>
       (\<forall>rules \<in> {cr_blocked (gc_commands (qu_config q)), cr_ask (gc_commands (qu_config q))}.
          first_catch (wd_win W) rules cmd = None \<and>
          first_caught (wd_win W) rules (inner_statements cmd) = None) \<and>
       first_opaque (inner_statements cmd) = None) \<and>
    (\<forall>t. rq_script (qu_request q) = Some t \<longrightarrow>
       (\<forall>rules \<in> {cr_blocked (gc_commands (qu_config q)), cr_ask (gc_commands (qu_config q))}.
          first_caught (wd_win W) rules (statements t) = None) \<and>
       first_opaque (statements t) = None) \<and>
    (\<forall>secret \<in> set (rq_secrets (qu_request q)). secret_named W q secret)"
proof (intro conjI)
  note firm = allow_firm [OF allow] and soft = allow_soft [OF allow]
  show "\<not> gs_revoked (qu_grant q)" using firm(1) by (auto simp: revoked_answer_def)
  show "gs_level (qu_grant q) = LAllowed" "lf_level (qu_current q) = LAllowed"
    using standing_allowed firm(2) soft(6) by blast+
  show "\<not> rq_writes_git_dir (qu_request q)" using firm(6) by (auto simp: git_answer_def)
  show "\<forall>f \<in> set (rq_files (qu_request q)). blocked_by (gc_blocked_files (qu_config q)) f = None"
    using firm(7) by (auto simp: file_answer_def find_map_None)
  show "\<forall>cmd. rq_command (qu_request q) = Some cmd \<longrightarrow>
       (\<forall>rules \<in> {cr_blocked (gc_commands (qu_config q)), cr_ask (gc_commands (qu_config q))}.
          first_catch (wd_win W) rules cmd = None \<and>
          first_caught (wd_win W) rules (inner_statements cmd) = None) \<and>
       first_opaque (inner_statements cmd) = None"
    using firm(9) soft(4)
    by (auto simp: command_answer_def command_asks_def Let_def split: option.splits)
  show "\<forall>t. rq_script (qu_request q) = Some t \<longrightarrow>
       (\<forall>rules \<in> {cr_blocked (gc_commands (qu_config q)), cr_ask (gc_commands (qu_config q))}.
          first_caught (wd_win W) rules (statements t) = None) \<and>
       first_opaque (statements t) = None"
    using firm(10) soft(5)
    by (auto simp: script_answer_def script_asks_def script_statements_def split: option.splits)
  show "\<forall>secret \<in> set (rq_secrets (qu_request q)). secret_named W q secret"
    using soft(8) by (auto simp: secrets_ask_def Let_def list_all_iff split: if_splits)
qed

section \<open>Connections, servers and add-ons\<close>

lemma connection_passed:
  assumes "connection_answer q = None" "rq_connection (qu_request q) = Some ck"
  shows "cn_state (cc_connection ck) = Connected \<and>
    has_part (cn_service (cc_connection ck)) (cc_part ck) (cn_account_kind (cc_connection ck)) \<and>
    connection_part (cc_connection ck) (cc_part ck) \<noteq> PartIsOff \<and>
    (tool_writes (cc_kind ck) \<longrightarrow>
       connection_part (cc_connection ck) (cc_part ck) = PartFull \<and>
       rq_capability (qu_request q) = ConnectionsWrite) \<and>
    connection_go q =
      (tool_sensitive (cc_kind ck),
       cc_kind ck = ToolSends \<and> cc_recipients ck \<noteq> [] \<and>
       list_all (listed_for (cn_service (cc_connection ck)) (cn_send_list (cc_connection ck))) (cc_recipients ck))"
  using assms
  by (auto simp: connection_answer_def connection_go_def connection_verdict_of_def Let_def
      split: if_splits connection_state.splits part_level.splits)

text \<open>A sensitive tool of a connection is found sensitive, as itself or as what is inherent in it.\<close>

lemma connection_found:
  assumes "fst (connection_go q) = Some (k, why)"
  shows "\<exists>k' why'. found_sensitive W q = Some (k', why')"
  using assms by (auto simp: found_sensitive_def Let_def split: option.splits)

lemma connection_unasked:
  assumes "risk_answer W q = None" "fst (connection_go q) = Some (k, why)"
    and "rq_capability (qu_request q) = ConnectionsWrite"
  shows "snd (connection_go q) \<and> sw_send_without_asking (gc_switches (qu_config q)) \<and>
    sensitive_rule_of (qu_config q) Outbound = RuleAsk"
proof -
  obtain k' why' where found: "found_sensitive W q = Some (k', why')"
    using connection_found [OF assms(2)] by blast
  with assms(1) have "goes_unasked W q k'" by (auto simp: risk_answer_def split: if_splits)
  with assms(3) show ?thesis
    by (auto simp: goes_unasked_def on_allowed_site_def to_listed_def)
qed

text \<open>
  What may happen through a connection without the owner. The connection is connected and the
  part exists for its account and is on; anything but reading needs the part at Full access and the
  writing capability; nothing is deleted or replaced and no money moves; and a message is sent only
  when the owner's switch allows it, the kind is not blocked, and every one of its recipients, of
  which there is at least one, is on the connection's own list.
\<close>

theorem unasked_use_of_connection:
  assumes allow: "gd_verdict (evaluate W q) = Allow" and ck: "rq_connection (qu_request q) = Some ck"
  shows "cn_state (cc_connection ck) = Connected \<and>
    has_part (cn_service (cc_connection ck)) (cc_part ck) (cn_account_kind (cc_connection ck)) \<and>
    connection_part (cc_connection ck) (cc_part ck) \<noteq> PartIsOff \<and>
    (cc_kind ck \<noteq> ToolReads \<longrightarrow>
       connection_part (cc_connection ck) (cc_part ck) = PartFull \<and>
       rq_capability (qu_request q) = ConnectionsWrite) \<and>
    cc_kind ck \<noteq> ToolDeletes \<and> cc_kind ck \<noteq> ToolPays \<and>
    (cc_kind ck = ToolSends \<longrightarrow>
       sw_send_without_asking (gc_switches (qu_config q)) \<and>
       sensitive_rule_of (qu_config q) Outbound = RuleAsk \<and> cc_recipients ck \<noteq> [] \<and>
       list_all (listed_for (cn_service (cc_connection ck)) (cn_send_list (cc_connection ck))) (cc_recipients ck))"
proof -
  note passed = connection_passed [OF allow_firm(4) [OF allow] ck]
  have unasked: "snd (connection_go q) \<and> sw_send_without_asking (gc_switches (qu_config q)) \<and>
    sensitive_rule_of (qu_config q) Outbound = RuleAsk"
    if sens: "tool_sensitive (cc_kind ck) \<noteq> None"
  proof -
    obtain x where "tool_sensitive (cc_kind ck) = Some x" using sens by blast
    with passed obtain k why where "fst (connection_go q) = Some (k, why)" by (cases x) simp
    moreover have "tool_writes (cc_kind ck)" using sens by (cases "cc_kind ck") (auto simp: tool_writes_def)
    ultimately show ?thesis
      using connection_unasked [OF allow_firm(11) [OF allow]] passed by blast
  qed
  show ?thesis
    using passed unasked by (cases "cc_kind ck") (auto simp: tool_writes_def)
qed

text \<open>
  C35: What may happen on a server, or through an add-on, without the owner. The role may use the
  server and its identity is pinned; no port is forwarded; a command is of kinds the server allows,
  neither deletes nor runs as administrator, and never runs on a production server; and only a
  tool marked Reading of an add-on that is on is used.
\<close>

theorem unasked_use_of_server_or_add_on:
  assumes allow: "gd_verdict (evaluate W q) = Allow"
  shows "(\<forall>sc. rq_server (qu_request q) = Some sc \<longrightarrow>
      sc_role_id sc \<in> set (sv_roles (sc_server sc)) \<and> sv_host_key (sc_server sc) \<noteq> None \<and>
      (\<forall>t. sc_what sc \<noteq> UseForward t) \<and>
      (\<forall>k cwd. sc_what sc = UseRun k cwd \<longrightarrow>
         sv_environment (sc_server sc) \<noteq> Live \<and> sv_approval (sc_server sc) \<noteq> AskEvery \<and>
         set (kd_classes k) \<subseteq> set (sv_classes (sc_server sc)) - {KDestroy, KAdmin})) \<and>
    (\<forall>ck. rq_add_on (qu_request q) = Some ck \<longrightarrow>
      ad_on (aoc_add_on ck) \<and> at_mark (aoc_tool ck) = MarkReading)"
proof -
  have go: "\<exists>sens. server_check_of (wd_disk W) (wd_pwd W) (gc_blocked_files (qu_config q)) sc = ServerGo None sens"
    if "rq_server (qu_request q) = Some sc" for sc
    using that allow_firm(3) [OF allow] allow_soft(2) [OF allow]
    by (auto simp: server_answer_def server_asks_def server_view_def split: server_verdict.splits option.splits)
  have server: "sc_role_id sc \<in> set (sv_roles (sc_server sc)) \<and> sv_host_key (sc_server sc) \<noteq> None \<and>
      (\<forall>t. sc_what sc \<noteq> UseForward t)" if "rq_server (qu_request q) = Some sc" for sc
    using go [OF that] by (auto simp: server_check_of_def Let_def split: if_splits)
  have run: "sv_environment (sc_server sc) \<noteq> Live \<and> sv_approval (sc_server sc) \<noteq> AskEvery \<and>
      set (kd_classes k) \<subseteq> set (sv_classes (sc_server sc)) - {KDestroy, KAdmin}"
    if sc: "rq_server (qu_request q) = Some sc" and k: "sc_what sc = UseRun k cwd" for sc k cwd
  proof -
    obtain sens where "server_run (wd_disk W) (wd_pwd W) (gc_blocked_files (qu_config q)) (sc_server sc) k cwd
        = ServerGo None sens"
      using go [OF sc] k by (auto simp: server_check_of_def Let_def split: if_splits)
    note facts = server_run_Go [OF this]
    from facts(2,5) show ?thesis
      by (auto simp: run_asks_def sv_allows_def kd_is_def split: if_splits server_approval.splits)
  qed
  have "ad_on (aoc_add_on ck) \<and> at_mark (aoc_tool ck) = MarkReading"
    if "rq_add_on (qu_request q) = Some ck" for ck
    using that allow_firm(5) [OF allow] allow_soft(1) [OF allow]
    by (cases "at_mark (aoc_tool ck)") (auto simp: add_on_answer_def add_on_asks_def Let_def split: if_splits)
  with server run show ?thesis by blast
qed

section \<open>More blocked commands never loosen a decision\<close>

definition block_more :: "string list \<Rightarrow> question \<Rightarrow> question" where
  "block_more rs q =
     q\<lparr> qu_config := (qu_config q)\<lparr> gc_commands :=
          (gc_commands (qu_config q))\<lparr> cr_blocked := cr_blocked (gc_commands (qu_config q)) @ rs \<rparr> \<rparr> \<rparr>"

lemma block_more_simps [simp]:
  "qu_request (block_more rs q) = qu_request q" "qu_current (block_more rs q) = qu_current q"
  "qu_grant (block_more rs q) = qu_grant q"
  "gc_blocked_files (qu_config (block_more rs q)) = gc_blocked_files (qu_config q)"
  "gc_websites (qu_config (block_more rs q)) = gc_websites (qu_config q)"
  "gc_switches (qu_config (block_more rs q)) = gc_switches (qu_config q)"
  "gc_safety (qu_config (block_more rs q)) = gc_safety (qu_config q)"
  "sensitive_rule_of (qu_config (block_more rs q)) = sensitive_rule_of (qu_config q)"
  "cr_ask (gc_commands (qu_config (block_more rs q))) = cr_ask (gc_commands (qu_config q))"
  "cr_approved (gc_commands (qu_config (block_more rs q))) = cr_approved (gc_commands (qu_config q))"
  "cr_with_secrets (gc_commands (qu_config (block_more rs q))) = cr_with_secrets (gc_commands (qu_config q))"
  "cr_blocked (gc_commands (qu_config (block_more rs q))) = cr_blocked (gc_commands (qu_config q)) @ rs"
  by (simp_all add: block_more_def sensitive_rule_of_def fun_eq_iff)

lemma find_append_keeps: "find P xs \<noteq> None \<Longrightarrow> find P (xs @ ys) \<noteq> None"
  by (induction xs) auto

lemma first_catch_more: "first_catch win rules cmd \<noteq> None \<Longrightarrow> first_catch win (rules @ rs) cmd \<noteq> None"
  unfolding first_catch_def by (rule find_append_keeps)

lemma first_caught_more:
  assumes "first_caught win rules sts \<noteq> None"
  shows "first_caught win (rules @ rs) sts \<noteq> None"
proof
  assume none: "first_caught win (rules @ rs) sts = None"
  have "find_map (first_catch win rules) (spellings cmd) = None"
    if s: "s \<in> set sts" "st_kind s = Program cmd" for s cmd
  proof -
    have "find_map (first_catch win (rules @ rs)) (spellings cmd) = None"
      using none s by (auto simp: first_caught_def find_map_None)
    then show ?thesis using first_catch_more unfolding find_map_None by blast
  qed
  then have "first_caught win rules sts = None"
    by (auto simp: first_caught_def find_map_None split: statement_kind.splits)
  with assms show False by simp
qed

lemma rules_same [simp]:
  "names_program W (block_more rs q) = names_program W q"
  "secret_named W (block_more rs q) = secret_named W q"
  "goes_unasked W (block_more rs q) = goes_unasked W q"
  unfolding fun_eq_iff names_program_def secret_named_def goes_unasked_def on_allowed_site_def
    to_listed_def connection_go_def site_view_def block_more_simps
  by simp_all

lemma answers_same [simp]:
  "revoked_answer (block_more rs q) = revoked_answer q" "standing (block_more rs q) = standing q"
  "blocked_answer (block_more rs q) = blocked_answer q" "server_view W (block_more rs q) = server_view W q"
  "server_answer W (block_more rs q) = server_answer W q"
  "connection_answer (block_more rs q) = connection_answer q"
  "add_on_answer (block_more rs q) = add_on_answer q" "git_answer (block_more rs q) = git_answer q"
  "file_answer (block_more rs q) = file_answer q" "site_view W (block_more rs q) = site_view W q"
  "site_answer W (block_more rs q) = site_answer W q" "script_statements (block_more rs q) = script_statements q"
  "found_sensitive W (block_more rs q) = found_sensitive W q"
  "risk_answer W (block_more rs q) = risk_answer W q"
  unfolding firm_defs standing_def server_view_def site_view_def shown_site_def
      script_statements_def connection_go_def server_sensitive_def found_sensitive_def
      risk_answer_def block_more_simps rules_same
  by (rule refl)+

lemma soft_same: "soft_answers W (block_more rs q) = soft_answers W q"
  unfolding soft_answers_def soft_defs shown_site_def block_more_simps answers_same rules_same by (rule refl)

lemma catches_less:
  "first_catch win (rules @ rs) cmd = None \<Longrightarrow> first_catch win rules cmd = None"
  "first_caught win (rules @ rs) sts = None \<Longrightarrow> first_caught win rules sts = None"
  using first_catch_more first_caught_more by blast+

lemma firm_more:
  assumes "Some r \<in> set (firm_answers W q)"
  shows "\<exists>r'. Some r' \<in> set (firm_answers W (block_more rs q))"
proof -
  have command: "command_answer W (block_more rs q) \<noteq> None" if "command_answer W q \<noteq> None"
    using that by (auto simp: command_answer_def Let_def split: option.splits dest: catches_less)
  have script: "script_answer W (block_more rs q) \<noteq> None" if "script_answer W q \<noteq> None"
    using that catches_less(2) by (fastforce simp: script_answer_def split: option.splits)
  consider "command_answer W q \<noteq> None" | "script_answer W q \<noteq> None"
    | "command_answer W q = None" "script_answer W q = None" by blast
  then show ?thesis
  proof cases
    case 1
    then obtain r' where "command_answer W (block_more rs q) = Some r'" using command by blast
    then show ?thesis by (intro exI [of _ r']) (simp add: firm_answers_def)
  next
    case 2
    then obtain r' where "script_answer W (block_more rs q) = Some r'" using script by blast
    then show ?thesis by (intro exI [of _ r']) (simp add: firm_answers_def)
  next
    case 3
    with assms show ?thesis by (intro exI [of _ r]) (auto simp: firm_answers_def)
  qed
qed

text \<open>
  C36: Adding entries to the blocked commands list never loosens a decision: whatever is asked, the
  verdict with the longer list is the same or stricter.
\<close>

theorem more_blocked_commands_never_loosen:
  "gd_verdict (evaluate W (block_more rs q)) \<le> gd_verdict (evaluate W q)"
proof -
  have "strictest (guard_answers W (block_more rs q)) \<le> strictest (guard_answers W q)"
  proof (cases "\<exists>r. Some r \<in> set (firm_answers W q)")
    case True
    then obtain r where r: "Some r \<in> set (firm_answers W (block_more rs q))" using firm_more by blast
    then have "strictest (guard_answers W (block_more rs q)) = Deny"
      using firm_deny [OF r] by (auto simp: strictest_def guard_answers_def)
    then show ?thesis by simp
  next
    case False
    then show ?thesis by (auto simp: strictest_def guard_answers_def soft_same)
  qed
  then show ?thesis
    using guard_order.first_answer_wins evaluate_first by metis
qed

section \<open>A setting to try them on\<close>

definition demo_world :: world where
  "demo_world = \<lparr> wd_win = False, wd_disk = demo_disk, wd_pwd = [], wd_urls = demo_urls \<rparr>"

definition demo_set :: permission_set where
  "demo_set =
     \<lparr> set_id = ''developer'', set_name = ''Developer'', set_description = [],
       set_levels = [(FilesystemRead, LAllowed), (ShellExec, LAllowed), (SshConnect, LAllowed)],
       set_built_in = True \<rparr>"

definition demo_config :: guard_config where
  "demo_config =
     \<lparr> gc_sets = [demo_set], gc_roles = [(''dev'', Some ''developer'')], gc_departments = [],
       gc_commands = \<lparr> cr_approved = [''cargo test''], cr_ask = [''git push''], cr_blocked = [''rm''],
                       cr_with_secrets = [] \<rparr>,
       gc_blocked_files = [''.env''], gc_sensitive = [], gc_approval_minutes = 10, gc_secrets = [],
       gc_websites = \<lparr> wr_allowed = [], wr_blocked = [], wr_others = OthersAsk \<rparr>, gc_servers = [],
       gc_switches = switches_default\<lparr> sw_send_without_asking := True, sw_servers := True \<rparr>,
       gc_safety = Light, gc_connections = [], gc_add_ons = [], gc_paid_keys = [] \<rparr>"

definition demo_scope :: scope where
  "demo_scope =
     \<lparr> sco_role_id = ''dev'', sco_role_name = ''Developer'', sco_position_id = None, sco_project = None,
       sco_department = None \<rparr>"

definition demo_request :: "capability \<Rightarrow> request" where
  "demo_request cap =
     \<lparr> rq_capability = cap, rq_risk = RiskRead, rq_summary = ''read README.md'', rq_files = [''README.md''],
       rq_writes_git_dir = False, rq_command = None, rq_script = None, rq_inherent = None,
       rq_secrets = [], rq_workspace = [''proj''], rq_site = None, rq_server = None,
       rq_connection = None, rq_add_on = None \<rparr>"

definition demo_question :: "request \<Rightarrow> level_of \<Rightarrow> question" where
  "demo_question rq cur =
     \<lparr> qu_config = demo_config, qu_request = rq, qu_current = cur,
       qu_grant = \<lparr> gs_level = LAllowed, gs_revoked = False \<rparr> \<rparr>"

definition demo_reading :: question where
  "demo_reading = demo_question (demo_request FilesystemRead) (level_for demo_config demo_scope FilesystemRead)"

definition demo_connection :: connection where
  "demo_connection =
     (connection_new ''microsoft365'' Microsoft365)
       \<lparr> cn_state := Connected, cn_parts := [(Mail, PartFull)],
         cn_access := [\<lparr> ac_who = RoleLine ''dev'', ac_level = AccessWrite \<rparr>],
         cn_send_list := [''@clientco.com''] \<rparr>"

definition demo_send :: connection_check where
  "demo_send =
     \<lparr> cc_connection = demo_connection, cc_part = Mail, cc_kind = ToolSends,
       cc_recipients = [''Dana@ClientCo.com''] \<rparr>"

definition demo_sending :: question where
  "demo_sending =
     demo_question ((demo_request ConnectionsWrite)\<lparr> rq_files := [], rq_connection := Some demo_send \<rparr>)
       (level_for_connection demo_config demo_scope demo_connection ConnectionsWrite)"

definition demo_looking :: question where
  "demo_looking =
     demo_question
       ((demo_request SshConnect)\<lparr> rq_files := [],
          rq_server := Some (demo_server_check\<lparr> sc_what := UseConnect \<rparr>) \<rparr>)
       (level_for demo_config demo_scope SshConnect)"

theorem allowed_action_is_clean_witness:
  "gd_verdict (evaluate demo_world demo_reading) = Allow \<and>
   blocked_by (gc_blocked_files (qu_config demo_reading)) ''README.md'' = None"
proof -
  have allow: "gd_verdict (evaluate demo_world demo_reading) = Allow" by code_simp
  moreover have "''README.md'' \<in> set (rq_files (qu_request demo_reading))"
    by (simp add: demo_reading_def demo_question_def demo_request_def)
  ultimately show ?thesis using allowed_action_is_clean [OF allow] by simp
qed

theorem unasked_use_of_connection_witness:
  "gd_verdict (evaluate demo_world demo_sending) = Allow \<and>
   listed_for Microsoft365 [''@clientco.com''] ''Dana@ClientCo.com''"
proof -
  have allow: "gd_verdict (evaluate demo_world demo_sending) = Allow" by code_simp
  have ck: "rq_connection (qu_request demo_sending) = Some demo_send"
    by (simp add: demo_sending_def demo_question_def)
  from unasked_use_of_connection [OF allow ck] allow show ?thesis
    by (simp add: demo_send_def demo_connection_def connection_new_def)
qed

theorem unasked_use_of_server_or_add_on_witness:
  "gd_verdict (evaluate demo_world demo_looking) = Allow \<and> ''dev'' \<in> set (sv_roles demo_server)"
proof -
  have allow: "gd_verdict (evaluate demo_world demo_looking) = Allow" by code_simp
  from unasked_use_of_server_or_add_on [OF allow] allow show ?thesis
    by (simp add: demo_looking_def demo_question_def demo_server_check_def)
qed

end
