(* ===== verification/Guard_Config_Inv.thy ===== *)
theory Guard_Config_Inv
  imports Guard_Config
begin

text \<open>
  The owner's changes as steps on Guard's settings, and what stays true of the settings after any
  sequence of them (\<open>crates/guard/src/config.rs\<close>, and \<open>Guard::update\<close> of \<open>service.rs\<close>, which keeps
  the settings as they were when a change is refused). A new identifier is one no entry has yet.
\<close>

section \<open>Lists with identifiers\<close>

lemma position_Some: "position P xs = Some n \<Longrightarrow> n < length xs \<and> P (xs ! n)"
  by (induction xs arbitrary: n) (auto split: if_splits)

lemma position_None: "position P xs = None \<longleftrightarrow> (\<forall>x \<in> set xs. \<not> P x)"
  by (induction xs) auto

lemma map_update_same:
  assumes "n < length xs" "f y = f (xs ! n)"
  shows "map f (xs[n := y]) = map f xs"
proof -
  have "map f (xs[n := y]) = (map f xs)[n := map f xs ! n]"
    using assms by (simp add: map_update)
  then show ?thesis by (simp only: list_update_id)
qed

lemma in_update: "x \<in> set (xs[n := y]) \<Longrightarrow> x \<in> set xs \<or> x = y"
  by (meson insertE set_update_subset_insert subsetD)

lemma remove_at_subset: "set (remove_at n xs) \<subseteq> set xs"
  by (auto simp: remove_at_def dest: in_set_takeD in_set_dropD)

lemma map_remove_at: "map f (remove_at n xs) = remove_at n (map f xs)"
  by (simp add: remove_at_def take_map drop_map)

lemma distinct_remove_at: "distinct xs \<Longrightarrow> distinct (remove_at n xs)"
proof -
  assume "distinct xs"
  moreover have "set (take n xs) \<inter> set (drop (Suc n) xs) = {}" if "distinct xs"
    using that set_take_disj_set_drop_if_distinct [of xs n "Suc n"] by simp
  ultimately show ?thesis by (simp add: remove_at_def)
qed

lemma length_remove_at: "length (remove_at n xs) \<le> length xs"
  by (simp add: remove_at_def)

lemma remove_at_drops:
  assumes "distinct (map f xs)" "n < length xs"
  shows "f (xs ! n) \<notin> f ` set (remove_at n xs)"
proof -
  have "map f xs = take n (map f xs) @ map f xs ! n # drop (Suc n) (map f xs)"
    using assms(2) by (intro id_take_nth_drop) simp
  with assms(1) have "distinct (take n (map f xs) @ map f xs ! n # drop (Suc n) (map f xs))" by simp
  then have "map f xs ! n \<notin> set (remove_at n (map f xs))" by (auto simp: remove_at_def)
  then show ?thesis using assms(2) by (simp flip: map_remove_at)
qed

section \<open>What stays true\<close>

definition known_sets :: "guard_config \<Rightarrow> string set" where
  "known_sets c = set_id ` set (gc_sets c)"

definition used_sets :: "guard_config \<Rightarrow> string set" where
  "used_sets c = {i. Some i \<in> snd ` set (gc_roles c)} \<union> snd ` set (gc_departments c)"

definition sets_ok :: "guard_config \<Rightarrow> bool" where
  "sets_ok c \<longleftrightarrow>
     distinct (map set_id (gc_sets c)) \<and> length (gc_sets c) \<le> max_sets \<and> used_sets c \<subseteq> known_sets c"

definition connection_ok :: "connection \<Rightarrow> bool" where
  "connection_ok x \<longleftrightarrow>
     id_belongs_to (cn_id x) (cn_service x) \<and>
     (\<forall>(p, l) \<in> set (cn_parts x). p \<in> set (parts (cn_service x)) \<and> (l = PartFull \<longrightarrow> has_full_access p)) \<and>
     (owner_only (cn_service x) \<longrightarrow> cn_access x = [] \<and> cn_send_list x = []) \<and>
     distinct (map ac_who (cn_access x)) \<and> length (cn_access x) \<le> max_access \<and>
     length (cn_send_list x) \<le> max_send_list \<and>
     (cn_state x = NotConnected \<longrightarrow>
        cn_account x = None \<and> cn_account_kind x = None \<and> cn_granted x = [] \<and> cn_connected_at x = None)"

definition connections_ok :: "guard_config \<Rightarrow> bool" where
  "connections_ok c \<longleftrightarrow>
     distinct (map cn_id (gc_connections c)) \<and> length (gc_connections c) \<le> max_connections \<and>
     (\<forall>x \<in> set (gc_connections c). connection_ok x)"

definition add_on_ok :: "add_on \<Rightarrow> bool" where
  "add_on_ok a \<longleftrightarrow>
     (ad_on a \<longrightarrow> ad_checked_at a \<noteq> None) \<and> distinct (map ac_who (ad_access a)) \<and>
     refused_program (ad_program a) (ad_args a) = None"

definition add_ons_ok :: "guard_config \<Rightarrow> bool" where
  "add_ons_ok c \<longleftrightarrow>
     distinct (map ad_id (gc_add_ons c)) \<and> length (gc_add_ons c) \<le> max_add_ons \<and>
     (\<forall>a \<in> set (gc_add_ons c). add_on_ok a)"

definition servers_ok :: "guard_config \<Rightarrow> bool" where
  "servers_ok c \<longleftrightarrow>
     distinct (map sv_id (gc_servers c)) \<and> length (gc_servers c) \<le> max_servers \<and>
     (\<forall>s \<in> set (gc_servers c). server_ok s)"

definition secrets_ok :: "guard_config \<Rightarrow> bool" where
  "secrets_ok c \<longleftrightarrow>
     distinct (map si_id (gc_secrets c)) \<and> length (gc_secrets c) \<le> max_secrets \<and>
     (\<forall>s \<in> set (gc_secrets c). (si_env_var s \<noteq> None) = (si_programs s \<noteq> []))"

definition paid_ok :: "guard_config \<Rightarrow> bool" where
  "paid_ok c \<longleftrightarrow>
     distinct (map pk_runtime_id (gc_paid_keys c)) \<and> length (gc_paid_keys c) \<le> max_paid_keys"

definition config_ok :: "guard_config \<Rightarrow> bool" where
  "config_ok c \<longleftrightarrow>
     sets_ok c \<and> connections_ok c \<and> add_ons_ok c \<and> servers_ok c \<and> secrets_ok c \<and> paid_ok c"

lemmas ok_defs =
  sets_ok_def connections_ok_def add_ons_ok_def servers_ok_def secrets_ok_def paid_ok_def

text \<open>
  Each part of the invariant looks at its own fields, so a change to other fields keeps it.
\<close>

lemma sets_ok_cong:
  "gc_sets c' = gc_sets c \<Longrightarrow> gc_roles c' = gc_roles c \<Longrightarrow> gc_departments c' = gc_departments c \<Longrightarrow>
   sets_ok c' = sets_ok c"
  by (simp add: sets_ok_def known_sets_def used_sets_def)

lemma connections_ok_cong: "gc_connections c' = gc_connections c \<Longrightarrow> connections_ok c' = connections_ok c"
  by (simp add: connections_ok_def)

lemma add_ons_ok_cong: "gc_add_ons c' = gc_add_ons c \<Longrightarrow> add_ons_ok c' = add_ons_ok c"
  by (simp add: add_ons_ok_def)

lemma servers_ok_cong: "gc_servers c' = gc_servers c \<Longrightarrow> servers_ok c' = servers_ok c"
  by (simp add: servers_ok_def)

lemma secrets_ok_cong: "gc_secrets c' = gc_secrets c \<Longrightarrow> secrets_ok c' = secrets_ok c"
  by (simp add: secrets_ok_def)

lemma paid_ok_cong: "gc_paid_keys c' = gc_paid_keys c \<Longrightarrow> paid_ok c' = paid_ok c"
  by (simp add: paid_ok_def)

section \<open>Permission sets\<close>

lemma free_id_free: "free_id taken base n \<notin> set taken"
  by (induction taken base n rule: free_id.induct) (subst free_id.simps, simp)

lemma new_set_id_free: "new_set_id sets name \<notin> set_id ` set sets"
  using free_id_free [of "map set_id sets"] by (auto simp: new_set_id_def Let_def)

lemma cfg_set_known: "cfg_set c i = Some s \<Longrightarrow> i \<in> known_sets c"
  by (auto simp: cfg_set_def find_Some_iff known_sets_def)

lemma place_of_Some:
  "place_of f xs i e = Inr (Some n) \<Longrightarrow> n < length xs"
  by (auto simp: place_of_def split: option.splits dest: position_Some)

lemma values_put: "snd ` set (put k v m) \<subseteq> insert v (snd ` set m)"
  unfolding put_def by (induction m) (auto split: if_splits)

lemma values_del: "snd ` set (del k m) \<subseteq> snd ` set m"
  by (auto simp: del_def)

lemma used_sets_role: "used_sets (c\<lparr> gc_roles := put r i (gc_roles c) \<rparr>) \<subseteq> used_sets c \<union> set_option i"
  using values_put [of r i "gc_roles c"] unfolding used_sets_def by (cases i) auto

lemma used_sets_department:
  "used_sets (c\<lparr> gc_departments := put d i (gc_departments c) \<rparr>) \<subseteq> insert i (used_sets c)"
  "used_sets (c\<lparr> gc_departments := del d (gc_departments c) \<rparr>) \<subseteq> used_sets c"
  using values_put [of d i "gc_departments c"] values_del [of d "gc_departments c"]
  unfolding used_sets_def by auto

lemma known_sets_other [simp]:
  "known_sets (c\<lparr> gc_roles := rs \<rparr>) = known_sets c" "known_sets (c\<lparr> gc_departments := ds \<rparr>) = known_sets c"
  by (simp_all add: known_sets_def)

lemma save_set_ok:
  assumes ok: "sets_ok c" and r: "save_set c inp = Inr (c', s)"
  shows "sets_ok c'"
proof -
  from r obtain name existing where
    place: "place_of set_id (gc_sets c) (sti_id inp) SetGone = Inr existing" and
    c': "case existing of
        Some i \<Rightarrow> gc_sets c' = (gc_sets c)[i := (gc_sets c ! i)\<lparr> set_name := name,
            set_description := trim (sti_description inp),
            set_levels := filter (\<lambda>(_, l). l \<noteq> LBlocked) (sti_levels inp) \<rparr>]
      | None \<Rightarrow> length (gc_sets c) < max_sets \<and>
          (\<exists>s. gc_sets c' = gc_sets c @ [s] \<and> set_id s = new_set_id (gc_sets c) name)"
    and used: "used_sets c' = used_sets c"
    unfolding save_set_def bind_sum_Inr Let_def used_sets_def
    by (fastforce split: if_splits option.splits)
  show ?thesis
  proof (cases existing)
    case None
    with c' obtain s where new: "gc_sets c' = gc_sets c @ [s]" "set_id s = new_set_id (gc_sets c) name"
      "length (gc_sets c) < max_sets" by auto
    then have "known_sets c \<subseteq> known_sets c'" by (auto simp: known_sets_def)
    moreover have "distinct (map set_id (gc_sets c'))"
      using new new_set_id_free [of "gc_sets c" name] ok by (simp add: sets_ok_def)
    moreover have "length (gc_sets c') \<le> max_sets" using new by simp
    ultimately show ?thesis using ok used unfolding sets_ok_def by blast
  next
    case (Some i)
    with place have "i < length (gc_sets c)" using place_of_Some by blast
    with c' Some have ids: "map set_id (gc_sets c') = map set_id (gc_sets c)"
      by (simp add: map_update_same)
    then have "known_sets c' = known_sets c" unfolding known_sets_def by (metis set_map)
    moreover have "length (gc_sets c') = length (gc_sets c)" using ids by (metis length_map)
    ultimately show ?thesis using ok used ids by (simp add: sets_ok_def)
  qed
qed

lemma filter_empty: "length (filter (\<lambda>p. snd p = v) xs) = 0 \<Longrightarrow> v \<notin> snd ` set xs"
  by (auto simp: filter_empty_conv)

lemma remove_set_ok:
  assumes ok: "sets_ok c" and r: "remove_set c i projects = Inr (c', s)"
  shows "sets_ok c'"
proof -
  from r obtain n where n: "position (\<lambda>s. set_id s = i) (gc_sets c) = Some n"
    and c': "c' = c\<lparr> gc_sets := remove_at n (gc_sets c) \<rparr>"
    and unused: "length (filter (\<lambda>p. snd p = Some i) (gc_roles c)) = 0"
      "length (filter (\<lambda>p. snd p = i) (gc_departments c)) = 0"
    by (auto simp: remove_set_def Let_def split: option.splits if_splits)
  have inn: "n < length (gc_sets c)" "set_id (gc_sets c ! n) = i" using position_Some [OF n] by auto
  have "i \<notin> used_sets c" using filter_empty [OF unused(1)] filter_empty [OF unused(2)] by (simp add: used_sets_def)
  moreover have "known_sets c \<subseteq> insert i (known_sets c')"
  proof -
    have "set (gc_sets c) = insert (gc_sets c ! n) (set (remove_at n (gc_sets c)))"
      using inn by (subst id_take_nth_drop [of n "gc_sets c"]) (auto simp: remove_at_def)
    then show ?thesis using inn c' by (simp add: known_sets_def)
  qed
  moreover have "used_sets c' = used_sets c" using c' by (simp add: used_sets_def)
  ultimately have "used_sets c' \<subseteq> known_sets c'" using ok unfolding sets_ok_def by blast
  moreover have "length (gc_sets c') \<le> length (gc_sets c)" using c' by (simp add: remove_at_def)
  ultimately show ?thesis using ok c' by (simp add: sets_ok_def map_remove_at distinct_remove_at)
qed

lemma assign_role_ok:
  assumes "sets_ok c" "assign_role c r i = Inr c'"
  shows "sets_ok c'"
proof -
  have c': "c' = c\<lparr> gc_roles := put r i (gc_roles c) \<rparr>" and i: "set_option i \<subseteq> known_sets c"
    using assms(2) cfg_set_known by (auto simp: assign_role_def split: option.splits if_splits)
  have "used_sets c' \<subseteq> known_sets c'"
    using used_sets_role [where c = c and r = r and i = i] i assms(1) unfolding c' sets_ok_def by auto
  with assms(1) show ?thesis by (simp add: sets_ok_def c')
qed

lemma assign_department_ok:
  assumes "sets_ok c" "assign_department c d i = Inr c'"
  shows "sets_ok c'"
proof -
  have "used_sets c' \<subseteq> known_sets c' \<and> gc_sets c' = gc_sets c"
  proof (cases i)
    case None
    with assms used_sets_department(2) [where c = c and d = d] show ?thesis
      by (auto simp: assign_department_def sets_ok_def)
  next
    case (Some k)
    with assms(2) have c': "c' = c\<lparr> gc_departments := put d k (gc_departments c) \<rparr>" and "k \<in> known_sets c"
      using cfg_set_known by (auto simp: assign_department_def split: if_splits)
    with assms(1) used_sets_department(1) [where c = c and d = d and i = k] show ?thesis
      by (simp add: sets_ok_def) blast
  qed
  with assms(1) show ?thesis by (simp add: sets_ok_def)
qed

section \<open>Connections\<close>

lemma starting_parts_ok:
  "(p, l) \<in> set (starting_parts s) \<Longrightarrow> p \<in> set (parts s) \<and> l \<noteq> PartFull"
  by (cases s) (auto simp: starting_parts_def)

lemma connection_new_ok: "id_belongs_to i s \<Longrightarrow> connection_ok (connection_new i s)"
  by (auto simp: connection_ok_def connection_new_def dest: starting_parts_ok)

lemma service_of_belongs: "service_of i = Some s \<Longrightarrow> id_belongs_to i s"
  by (auto simp: service_of_def find_Some_iff)

lemma connection_or_new_ok:
  "connections_ok c \<Longrightarrow> connection_or_new c i = Inr x \<Longrightarrow> connection_ok x \<and> cn_id x = i"
  by (auto simp: connection_or_new_def cfg_connection_def connections_ok_def connection_new_def
      split: option.splits dest!: find_SomeD dest: service_of_belongs
      intro!: connection_new_ok [unfolded connection_new_def])

lemma put_connection_ok:
  assumes ok: "connections_ok c" "connection_ok x" and r: "put_connection c x = Inr (c', y)"
  shows "connections_ok c'"
proof (cases "position (\<lambda>y. cn_id y = cn_id x) (gc_connections c)")
  case None
  with r have "gc_connections c' = gc_connections c @ [x]" "length (gc_connections c) < max_connections"
    by (auto simp: put_connection_def split: if_splits)
  with ok None show ?thesis by (auto simp: connections_ok_def position_None)
next
  case (Some n)
  note n = position_Some [OF Some]
  from Some r have "gc_connections c' = (gc_connections c)[n := x]" by (auto simp: put_connection_def)
  with ok n show ?thesis
    by (auto simp: connections_ok_def map_update_same dest: in_update)
qed

lemma set_put: "set (put k v m) \<subseteq> insert (k, v) (set m)"
  unfolding put_def by (induction m) (auto split: if_splits)

lemma put_parts_ok: "connection_ok x \<Longrightarrow> put_parts x ps = Inr y \<Longrightarrow> connection_ok y"
proof (induction x ps rule: put_parts.induct)
  case (2 x p l ps)
  then have p: "p \<in> set (parts (cn_service x))" "l = PartFull \<longrightarrow> has_full_access p"
    by (auto split: if_splits)
  have "set (put p l (cn_parts x)) \<subseteq> insert (p, l) (set (cn_parts x))" by (rule set_put)
  then have "connection_ok (x\<lparr> cn_parts := put p l (cn_parts x) \<rparr>)"
    using "2.prems"(1) p by (auto simp: connection_ok_def)
  with "2.IH" "2.prems"(2) p show ?case by (auto split: if_splits)
qed simp

lemma access_error_distinct:
  "access_error old roles agents seen as = None \<Longrightarrow>
     distinct (map ac_who as) \<and> set (map ac_who as) \<inter> set seen = {}"
  by (induction old roles agents seen as rule: access_error.induct)
     (auto split: option.splits if_splits)

lemma keep_valid_length: "keep_valid same v out xs = Inr ys \<Longrightarrow> length ys \<le> length out + length xs"
  by (induction same v out xs rule: keep_valid.induct) (fastforce split: sum.splits if_splits)+

lemma keep_valid_Nil: "keep_valid same v [] [] = Inr []"
  by simp

lemma digit_zero: "k < 10 \<Longrightarrow> digit k = CHR ''0'' \<Longrightarrow> k = 0"
proof -
  assume k: "k < 10" "digit k = CHR ''0''"
  then have "code (digit k) = 48" by (simp add: code_def)
  with k(1) show "k = 0" by (simp add: digit_def code_char_of)
qed

lemma dec_head: "0 < n \<Longrightarrow> hd (dec n) \<noteq> CHR ''0''"
proof (induction n rule: dec.induct)
  case (1 n)
  then show ?case by (subst dec.simps) (auto dest: digit_zero)
qed

lemma dec_short: "n < 1000 \<Longrightarrow> length (dec n) \<le> 3"
  by (subst dec.simps, auto, subst dec.simps, auto, subst dec.simps, auto)

lemma byte_len_digits: "list_all is_ascii_digit s \<Longrightarrow> byte_len s = length s"
  by (induction s) (auto simp: byte_len_def is_ascii_digit_def)

lemma account_ids_belong:
  assumes "many s" "i \<in> set (account_ids s)"
  shows "id_belongs_to i s"
proof -
  have "id_belongs_to (''slack'' @ ''-'' @ dec n) Slack" if n: "2 \<le> n" "n < 1000" for n
  proof -
    have "strip_prefix ''slack-'' (''slack'' @ ''-'' @ dec n) = Some (dec n)"
      by (simp add: strip_prefix_Some)
    moreover have "\<not> starts_with ''0'' (dec n)"
      using dec_head [of n] n by (cases "dec n") (auto simp: starts_with_def)
    ultimately show ?thesis
      using n dec_digits [of n] dec_short [of n] byte_len_digits [OF dec_digits [of n]]
      by (simp add: id_belongs_to_def)
  qed
  moreover have "i = service_id s \<or> (\<exists>n \<in> {2..<1000}. i = service_id s @ ''-'' @ dec n)"
    using assms(2) unfolding account_ids_def set_simps set_map set_upt by blast
  ultimately show ?thesis
    using assms(1) by (auto simp: many_def id_belongs_to_def)
qed

text \<open>Each operation on a connection: the connection it puts back is well-formed.\<close>

lemma set_connection_parts_ok:
  "connections_ok c \<Longrightarrow> set_connection_parts c i ps = Inr (c', y) \<Longrightarrow> connections_ok c'"
  by (auto simp: set_connection_parts_def dest!: connection_or_new_ok [rotated] intro: put_connection_ok put_parts_ok)

lemma set_connection_access_ok:
  assumes ok: "connections_ok c" and r: "set_connection_access c i as roles agents = Inr (c', y)"
  shows "connections_ok c'"
proof -
  from r obtain x where x: "connection_or_new c i = Inr x" "owner_only (cn_service x) \<longrightarrow> as = []"
    "length as \<le> max_access" "access_error (cn_access x) roles agents [] as = None"
    and p: "put_connection c (x\<lparr> cn_access := as \<rparr>) = Inr (c', y)"
    by (auto simp: set_connection_access_def split: if_splits option.splits)
  have "connection_ok (x\<lparr> cn_access := as \<rparr>)"
    using connection_or_new_ok [OF ok x(1)] x(2,3) access_error_distinct [OF x(4)]
    by (auto simp: connection_ok_def)
  then show ?thesis using put_connection_ok [OF ok _ p] by blast
qed

lemma set_connection_send_list_ok:
  assumes ok: "connections_ok c" and r: "set_connection_send_list c i ls = Inr (c', y)"
  shows "connections_ok c'"
proof -
  from r obtain x es where x: "connection_or_new c i = Inr x" "owner_only (cn_service x) \<longrightarrow> ls = []"
    "length ls \<le> max_send_list"
    "keep_valid eq_ignore_ascii_case (\<lambda>e. map_error SendWrong (send_entry e (cn_service x))) [] ls = Inr es"
    and p: "put_connection c (x\<lparr> cn_send_list := es \<rparr>) = Inr (c', y)"
    by (auto simp: set_connection_send_list_def split: if_splits)
  have "connection_ok (x\<lparr> cn_send_list := es \<rparr>)"
    using connection_or_new_ok [OF ok x(1)] x(2,3) keep_valid_length [OF x(4)]
    by (auto simp: connection_ok_def)
  then show ?thesis using put_connection_ok [OF ok _ p] by blast
qed

lemma connection_app_ok: "connection_ok x \<Longrightarrow> connection_ok (x\<lparr> cn_own_app := a \<rparr>)"
  "connection_ok x \<Longrightarrow> connection_ok (x\<lparr> cn_site := t \<rparr>)"
  by (auto simp: connection_ok_def)

lemma set_connection_own_app_ok:
  "connections_ok c \<Longrightarrow> set_connection_own_app c i app = Inr (c', y) \<Longrightarrow> connections_ok c'"
  by (auto simp: set_connection_own_app_def split: if_splits dest!: connection_or_new_ok [rotated]
      intro: put_connection_ok connection_app_ok)

lemma set_connection_client_app_ok:
  "connections_ok c \<Longrightarrow> set_connection_client_app c i k b = Inr (c', y) \<Longrightarrow> connections_ok c'"
  by (auto simp: set_connection_client_app_def split: if_splits dest!: connection_or_new_ok [rotated]
      intro: put_connection_ok connection_app_ok)

lemma set_connection_site_ok:
  "connections_ok c \<Longrightarrow> set_connection_site U c i t = Inr (c', y) \<Longrightarrow> connections_ok c'"
  by (auto simp: set_connection_site_def split: if_splits dest!: connection_or_new_ok [rotated]
      intro: put_connection_ok connection_app_ok)

lemma connection_connected_ok:
  assumes ok: "connections_ok c" and r: "connection_connected c i k acc g now = Inr (c', y)"
  shows "connections_ok c'"
proof -
  from r obtain x where x: "connection_or_new c i = Inr x"
    and p: "put_connection c (x\<lparr> cn_state := Connected, cn_account_kind := k, cn_account := Some acc,
                             cn_granted := g, cn_connected_at := Some now \<rparr>) = Inr (c', y)"
    by (auto simp: connection_connected_def)
  show ?thesis
    by (rule put_connection_ok [OF ok _ p])
       (use connection_or_new_ok [OF ok x] in \<open>auto simp: connection_ok_def\<close>)
qed

lemma connection_disconnected_ok:
  assumes ok: "connections_ok c" and r: "connection_disconnected c i = Inr (c', y)"
  shows "connections_ok c'"
proof -
  from r obtain x where x: "connection_or_new c i = Inr x"
    and p: "put_connection c (x\<lparr> cn_state := NotConnected, cn_account_kind := None, cn_account := None,
                             cn_granted := [], cn_connected_at := None \<rparr>) = Inr (c', y)"
    by (auto simp: connection_disconnected_def)
  show ?thesis
    by (rule put_connection_ok [OF ok _ p])
       (use connection_or_new_ok [OF ok x] in \<open>auto simp: connection_ok_def\<close>)
qed

lemma connection_needs_sign_in_ok:
  assumes ok: "connections_ok c" and r: "connection_needs_sign_in c i = Inr (c', y)"
  shows "connections_ok c'"
proof (cases "c' = c")
  case False
  with r obtain x z where x: "cfg_connection c i = Some x"
    and p: "put_connection c (x\<lparr> cn_state := NeedsSignIn \<rparr>) = Inr (c', z)"
    by (cases "cfg_connection c i") (auto simp: connection_needs_sign_in_def map_sum_def split: if_splits sum.splits)
  have "connection_ok (x\<lparr> cn_state := NeedsSignIn \<rparr>)"
    using ok x by (auto simp: cfg_connection_def connections_ok_def connection_ok_def dest!: find_SomeD)
  then show ?thesis using put_connection_ok [OF ok _ p] by blast
qed (use ok in simp)

lemma add_connection_ok:
  assumes ok: "connections_ok c" and r: "add_connection c s = Inr (c', y)"
  shows "connections_ok c'"
proof -
  from r have many: "many s" by (auto simp: add_connection_def split: if_splits)
  with r obtain c1 i where c1: "(if list_ex (\<lambda>x. cn_service x = s) (gc_connections c) then Inr c
        else map_sum id fst (put_connection c (connection_new (service_id s) s))) = Inr c1"
    and i: "find (\<lambda>i. cfg_connection c1 i = None) (account_ids s) = Some i"
    and p: "put_connection c1 (connection_new i s) = Inr (c', y)"
    unfolding add_connection_def by (auto split: if_splits option.splits)
  have "id_belongs_to (service_id s) s" by (simp add: id_belongs_to_def)
  with c1 ok have ok1: "connections_ok c1"
    by (auto simp: map_sum_def split: if_splits sum.splits intro: put_connection_ok connection_new_ok)
  have "id_belongs_to i s" using find_SomeD [OF i] account_ids_belong [OF many] by blast
  then show ?thesis using put_connection_ok [OF ok1 connection_new_ok p] by blast
qed

lemma remove_connection_ok:
  "connections_ok c \<Longrightarrow> remove_connection c i = Inr (c', y) \<Longrightarrow> connections_ok c'"
  by (auto simp: remove_connection_def connections_ok_def distinct_map_filter split: if_splits
      intro: order_trans [OF length_filter_le])

section \<open>Add-ons, servers, secrets and paid keys\<close>

lemma id_for_free:
  assumes "length taken < 98"
  shows "id_for name taken \<notin> set taken"
proof -
  have "find (\<lambda>i. i \<notin> set taken) (map (\<lambda>n. base @ dec n) [2..<100]) \<noteq> None" for base
  proof
    assume "find (\<lambda>i. i \<notin> set taken) (map (\<lambda>n. base @ dec n) [2..<100]) = None"
    then have "(\<lambda>n. base @ dec n) ` {2..<100} \<subseteq> set taken"
      unfolding find_None_iff set_map set_upt by blast
    then have "card ((\<lambda>n. base @ dec n) ` {2..<100}) \<le> length taken"
      by (meson List.finite_set card_length card_mono order_trans)
    moreover have "inj_on (\<lambda>n. base @ dec n) {2..<100}" by (auto intro: inj_onI)
    then have "card ((\<lambda>n. base @ dec n) ` {2..<100}) = 98"
      by (simp only: card_image card_atLeastLessThan)
    ultimately show False using assms by simp
  qed
  moreover define base where "base = (let b = take 10 (filter is_ascii_alphanumeric (to_ascii_lowercase name))
    in if b = [] then ''addon'' else b)"
  ultimately obtain i where i: "find (\<lambda>i. i \<notin> set taken) (map (\<lambda>n. base @ dec n) [2..<100]) = Some i"
    by blast
  have "id_for name taken = (if base \<notin> set taken then base
      else case find (\<lambda>i. i \<notin> set taken) (map (\<lambda>n. base @ dec n) [2..<100]) of
        Some i \<Rightarrow> i | None \<Rightarrow> base @ ''x'')"
    unfolding id_for_def base_def Let_def by (rule refl)
  then show ?thesis unfolding i option.case using find_SomeD [OF i] by simp
qed

lemma add_on_program_ok:
  "add_on_program c p as ss = Inr (p', as', ss') \<Longrightarrow> refused_program p' as' = None"
  by (auto simp: add_on_program_def Let_def split: if_splits option.splits)

lemma add_add_on_ok:
  assumes ok: "add_ons_ok c" and r: "add_add_on c inp now = Inr (c', a)"
  shows "add_ons_ok c'"
proof -
  from r obtain name p as ss where small: "length (gc_add_ons c) < max_add_ons"
    and prog: "add_on_program c (adi_program inp) (adi_args inp) (adi_secrets inp) = Inr (p, as, ss)"
    and c': "gc_add_ons c' = gc_add_ons c @ [a]"
    and a: "ad_id a = id_for name (map ad_id (gc_add_ons c))" "\<not> ad_on a" "ad_access a = []"
      "ad_program a = p" "ad_args a = as"
    by (auto simp: add_add_on_def Let_def split: if_splits)
  have "ad_id a \<notin> set (map ad_id (gc_add_ons c))"
    using id_for_free [of "map ad_id (gc_add_ons c)" name] small a(1) by (simp add: max_add_ons_def)
  with ok c' small a add_on_program_ok [OF prog] show ?thesis
    by (auto simp: add_ons_ok_def add_on_ok_def)
qed

text \<open>What each step of a change to an add-on keeps.\<close>

lemma change_name_ok: "add_on_ok a \<Longrightarrow> change_name c i ch a = Inr b \<Longrightarrow> add_on_ok b \<and> ad_id b = ad_id a"
  by (auto simp: change_name_def add_on_ok_def split: option.splits if_splits)

lemma change_program_ok:
  "add_on_ok a \<Longrightarrow> change_program c ch a = Inr b \<Longrightarrow> add_on_ok b \<and> ad_id b = ad_id a"
  by (auto simp: change_program_def add_on_ok_def Let_def split: if_splits dest!: add_on_program_ok)

lemma change_access_ok:
  "add_on_ok a \<Longrightarrow> change_access ch rs gs a = Inr b \<Longrightarrow> add_on_ok b \<and> ad_id b = ad_id a"
  by (auto simp: change_access_def add_on_ok_def split: option.splits if_splits dest: access_error_distinct)

lemma change_on_ok: "add_on_ok a \<Longrightarrow> change_on ch a = Inr b \<Longrightarrow> add_on_ok b \<and> ad_id b = ad_id a"
  by (auto simp: change_on_def add_on_ok_def split: option.splits if_splits)

lemma update_add_on_ok:
  assumes "add_ons_ok c" "n < length (gc_add_ons c)" "add_on_ok a" "ad_id a = ad_id (gc_add_ons c ! n)"
  shows "add_ons_ok (c\<lparr> gc_add_ons := (gc_add_ons c)[n := a] \<rparr>)"
  using assms by (auto simp: add_ons_ok_def map_update_same dest: in_update)

lemma add_on_index_ok:
  "add_ons_ok c \<Longrightarrow> add_on_index c i = Inr n \<Longrightarrow> n < length (gc_add_ons c) \<and> add_on_ok (gc_add_ons c ! n)"
  by (auto simp: add_on_index_def add_ons_ok_def split: option.splits dest!: position_Some)

lemma change_add_on_ok:
  assumes ok: "add_ons_ok c" and r: "change_add_on c i ch rs gs = Inr (c', a)"
  shows "add_ons_ok c'"
proof -
  from r obtain n a1 a2 a3 where n: "add_on_index c i = Inr n"
    and steps: "change_name c i ch (gc_add_ons c ! n) = Inr a1" "change_program c ch a1 = Inr a2"
      "change_access ch rs gs a2 = Inr a3" "change_on ch a3 = Inr a"
    and c': "c' = c\<lparr> gc_add_ons := (gc_add_ons c)[n := a] \<rparr>"
    unfolding change_add_on_def bind_sum_Inr by blast
  note n' = add_on_index_ok [OF ok n]
  have "add_on_ok a1 \<and> ad_id a1 = ad_id (gc_add_ons c ! n)" using change_name_ok n' steps(1) by blast
  then have "add_on_ok a2 \<and> ad_id a2 = ad_id (gc_add_ons c ! n)" using change_program_ok steps(2) by metis
  then have "add_on_ok a3 \<and> ad_id a3 = ad_id (gc_add_ons c ! n)" using change_access_ok steps(3) by metis
  then have "add_on_ok a \<and> ad_id a = ad_id (gc_add_ons c ! n)" using change_on_ok steps(4) by metis
  with n' ok c' show ?thesis by (simp add: update_add_on_ok)
qed

lemma add_on_tools_listed_ok:
  assumes ok: "add_ons_ok c" and r: "add_on_tools_listed c i ls now = Inr (c', a)"
  shows "add_ons_ok c'"
proof -
  from r obtain n where n: "add_on_index c i = Inr n" and c': "c' = c\<lparr> gc_add_ons := (gc_add_ons c)[n := a] \<rparr>"
    and a: "a = (let b = (gc_add_ons c ! n)\<lparr> ad_tools := merge_tools (ad_id (gc_add_ons c ! n))
        (ad_tools (gc_add_ons c ! n)) ls \<rparr> in if now \<noteq> None then b\<lparr> ad_checked_at := now \<rparr> else b)"
    unfolding add_on_tools_listed_def bind_sum_Inr Let_def by blast
  note n' = add_on_index_ok [OF ok n]
  have "add_on_ok a" "ad_id a = ad_id (gc_add_ons c ! n)"
    using n' by (auto simp: a Let_def add_on_ok_def)
  with n' ok c' show ?thesis by (simp add: update_add_on_ok)
qed

lemma set_add_on_tools_ok:
  assumes ok: "add_ons_ok c" and r: "set_add_on_tools c i ms = Inr (c', a)"
  shows "add_ons_ok c'"
proof -
  from r obtain n ts where n: "add_on_index c i = Inr n" and a: "a = (gc_add_ons c ! n)\<lparr> ad_tools := ts \<rparr>"
    and c': "c' = c\<lparr> gc_add_ons := (gc_add_ons c)[n := a] \<rparr>"
    unfolding set_add_on_tools_def bind_sum_Inr Let_def by blast
  note n' = add_on_index_ok [OF ok n]
  have "add_on_ok a" "ad_id a = ad_id (gc_add_ons c ! n)" using n' by (auto simp: a add_on_ok_def)
  with n' ok c' show ?thesis by (simp add: update_add_on_ok)
qed

lemma remove_at_ok:
  "distinct (map f xs) \<Longrightarrow> distinct (map f (remove_at n xs))"
  "length xs \<le> k \<Longrightarrow> length (remove_at n xs) \<le> k"
  using length_remove_at [of n xs] by (auto simp: map_remove_at distinct_remove_at)

lemma remove_add_on_ok:
  assumes "add_ons_ok c" "remove_add_on c i = Inr (c', a)"
  shows "add_ons_ok c'"
proof -
  from assms(2) obtain n where "gc_add_ons c' = remove_at n (gc_add_ons c)"
    by (auto simp: remove_add_on_def)
  with assms(1) remove_at_subset [of n "gc_add_ons c"] show ?thesis
    unfolding add_ons_ok_def by (simp add: remove_at_ok) blast
qed

lemma remove_server_ok:
  assumes "servers_ok c" "remove_server c i = Inr (c', a)"
  shows "servers_ok c'"
proof -
  from assms(2) obtain n where "gc_servers c' = remove_at n (gc_servers c)"
    by (auto simp: remove_server_def split: option.splits)
  with assms(1) remove_at_subset [of n "gc_servers c"] show ?thesis
    unfolding servers_ok_def by (simp add: remove_at_ok) blast
qed

lemma remove_secret_ok:
  assumes "secrets_ok c" "remove_secret c i = Inr (c', a)"
  shows "secrets_ok c'"
proof -
  from assms(2) obtain n where "gc_secrets c' = remove_at n (gc_secrets c)"
    by (auto simp: remove_secret_def split: option.splits)
  with assms(1) remove_at_subset [of n "gc_secrets c"] show ?thesis
    unfolding secrets_ok_def by (simp add: remove_at_ok) blast
qed

lemma remove_paid_key_ok:
  assumes "paid_ok c" "remove_paid_key c i = Inr (c', a)"
  shows "paid_ok c'"
proof -
  from assms(2) obtain n where "gc_paid_keys c' = remove_at n (gc_paid_keys c)"
    by (auto simp: remove_paid_key_def split: option.splits)
  with assms(1) show ?thesis by (simp add: paid_ok_def remove_at_ok)
qed

lemma place_of_None: "place_of f xs i e = Inr None \<Longrightarrow> i = None"
  by (auto simp: place_of_def split: option.splits)

lemma save_secret_ok:
  assumes ok: "secrets_ok c" and fresh: "fresh \<notin> si_id ` set (gc_secrets c)"
    and r: "save_secret win c inp fresh now = Inr (c', s)"
  shows "secrets_ok c'"
proof -
  from r obtain existing where place: "place_of si_id (gc_secrets c) (sei_id inp) SecretGone = Inr existing"
    and both: "(si_env_var s \<noteq> None) = (si_programs s \<noteq> [])"
    and c': "case existing of
        Some i \<Rightarrow> gc_secrets c' = (gc_secrets c)[i := s] \<and> si_id s = si_id (gc_secrets c ! i)
      | None \<Rightarrow> gc_secrets c' = gc_secrets c @ [s] \<and> si_id s = fresh \<and> length (gc_secrets c) < max_secrets"
    unfolding save_secret_def bind_sum_Inr Let_def
    by (fastforce split: if_splits option.splits)
  show ?thesis
  proof (cases existing)
    case None
    with c' ok fresh both show ?thesis by (auto simp: secrets_ok_def)
  next
    case (Some i)
    with place place_of_Some have "i < length (gc_secrets c)" by blast
    with c' ok both Some show ?thesis
      by (auto simp: secrets_ok_def map_update_same dest!: in_update)
  qed
qed

lemma server_clean_id: "server_clean inp i earlier now = Inr s \<Longrightarrow> sv_id s = i"
  unfolding server_clean_def bind_sum_Inr by auto

lemma save_server_ok:
  assumes ok: "servers_ok c" and fresh: "fresh \<notin> sv_id ` set (gc_servers c)"
    and r: "save_server c i inp roles fresh now = Inr (c', s, earlier)"
  shows "servers_ok c'"
proof -
  from r obtain existing where place: "place_of sv_id (gc_servers c) i ServerGone = Inr existing"
    and clean: "server_clean inp (case map_option (\<lambda>n. gc_servers c ! n) existing of None \<Rightarrow> fresh | Some s \<Rightarrow> sv_id s)
        (map_option (\<lambda>n. gc_servers c ! n) existing) now = Inr s"
    and c': "case existing of
        Some n \<Rightarrow> gc_servers c' = (gc_servers c)[n := s]
      | None \<Rightarrow> gc_servers c' = gc_servers c @ [s] \<and> length (gc_servers c) < max_servers"
    unfolding save_server_def bind_sum_Inr Let_def map_error_Inr
    by (fastforce split: if_splits option.splits)
  note s = server_clean_ok [OF clean] server_clean_id [OF clean]
  show ?thesis
  proof (cases existing)
    case None
    with c' s ok fresh show ?thesis by (auto simp: servers_ok_def)
  next
    case (Some n)
    with place place_of_Some have "n < length (gc_servers c)" by blast
    with c' s ok Some show ?thesis
      by (auto simp: servers_ok_def map_update_same dest!: in_update)
  qed
qed

lemma save_paid_key_ok:
  assumes ok: "paid_ok c" and r: "save_paid_key c rt name i now = Inr (c', k, previous)"
  shows "paid_ok c'"
proof -
  define at where "at = position (\<lambda>k. pk_runtime_id k = rt) (gc_paid_keys c)"
  define rest where "rest = (case at of None \<Rightarrow> gc_paid_keys c | Some n \<Rightarrow> remove_at n (gc_paid_keys c))"
  from r have c': "gc_paid_keys c' = rest @ [k]" and k: "pk_runtime_id k = rt" and small: "length rest < max_paid_keys"
    unfolding save_paid_key_def bind_sum_Inr Let_def rest_def at_def
    by (auto split: if_splits)
  have "distinct (map pk_runtime_id rest) \<and> rt \<notin> pk_runtime_id ` set rest"
  proof (cases at)
    case None
    then have "\<forall>k \<in> set (gc_paid_keys c). pk_runtime_id k \<noteq> rt" unfolding at_def position_None .
    with None ok show ?thesis by (auto simp: rest_def paid_ok_def)
  next
    case (Some n)
    then have n: "n < length (gc_paid_keys c)" "pk_runtime_id (gc_paid_keys c ! n) = rt"
      using position_Some unfolding at_def by fast+
    with Some ok remove_at_drops [of pk_runtime_id "gc_paid_keys c" n] show ?thesis
      by (simp add: rest_def paid_ok_def remove_at_ok)
  qed
  with c' k small show ?thesis by (simp add: paid_ok_def)
qed

lemma confirm_paid_key_ok:
  assumes ok: "paid_ok c"
  shows "paid_ok (fst (confirm_paid_key c rt i))"
proof (cases "position (\<lambda>k. pk_runtime_id k = rt \<and> pk_id k = i) (gc_paid_keys c)")
  case (Some n)
  with position_Some [OF Some] ok show ?thesis
    by (simp add: confirm_paid_key_def paid_ok_def Let_def map_update_same)
qed (use ok in \<open>simp add: confirm_paid_key_def\<close>)

lemma restore_paid_key_ok:
  assumes ok: "paid_ok c" and own: "\<And>p. previous = Some p \<Longrightarrow> pk_runtime_id p = rt"
  shows "paid_ok (fst (restore_paid_key c rt i previous))"
proof (cases "position (\<lambda>k. pk_runtime_id k = rt \<and> pk_id k = i) (gc_paid_keys c)")
  case (Some n)
  note n = position_Some [OF Some]
  have "length (remove_at n (gc_paid_keys c)) < max_paid_keys"
    using ok n by (simp add: paid_ok_def remove_at_def max_paid_keys_def) linarith
  with Some ok n own remove_at_drops [of pk_runtime_id "gc_paid_keys c" n] show ?thesis
    by (cases previous) (simp_all add: restore_paid_key_def paid_ok_def remove_at_ok)
qed (use ok in \<open>simp add: restore_paid_key_def\<close>)

section \<open>The owner's changes as steps\<close>

datatype (plugins only: code size) change =
    SaveSet set_input
  | RemoveSet string "string list"
  | AssignRole string "string option"
  | AssignDepartment string "string option"
  | SetCommands command_rules
  | SetBlockedFiles "string list"
  | SetWebsites website_rules
  | SetSwitches switches
  | SetSensitive sensitive_kind sensitive_rule
  | SetOptions nat
  | SaveSecret secret_input string nat
  | RemoveSecret string
  | SaveServer "string option" server_input "string list" string nat
  | RemoveServer string
  | SetParts string "(part, part_level) store"
  | SetAccess string "access list" "string list" "string list"
  | SetSendList string "string list"
  | SetOwnApp string "own_app option"
  | SetClientApp string "string option" bool
  | AddConnection service
  | RemoveConnection string
  | SignedIn string "account_kind option" account "string list" nat
  | SignInRefused string
  | SignedOut string
  | SetSite string string
  | AddAddOn add_on_input nat
  | ChangeAddOn string add_on_change "string list" "string list"
  | ToolsListed string "listed_tool list" "nat option"
  | MarkTools string "(string, tool_mark) store"
  | RemoveAddOn string
  | SavePaidKey string string string nat
  | ConfirmPaidKey string string
  | RestorePaidKey string string "paid_key option"
  | RemovePaidKey string

definition settled :: "config_error + guard_config \<times> 'a \<Rightarrow> config_error + guard_config" where
  "settled r = map_sum id fst r"

lemma settled_Inr [simp]: "settled r = Inr c \<longleftrightarrow> (\<exists>x. r = Inr (c, x))"
  by (cases r) (auto simp: settled_def)

fun make_change :: "bool \<Rightarrow> url_crate \<Rightarrow> guard_config \<Rightarrow> change \<Rightarrow> config_error + guard_config" where
  "make_change win U c (SaveSet i) = settled (save_set c i)"
| "make_change win U c (RemoveSet i ps) = settled (remove_set c i ps)"
| "make_change win U c (AssignRole r i) = assign_role c r i"
| "make_change win U c (AssignDepartment d i) = assign_department c d i"
| "make_change win U c (SetCommands r) = set_commands c r"
| "make_change win U c (SetBlockedFiles ps) = set_blocked_files c ps"
| "make_change win U c (SetWebsites r) = set_websites U c r"
| "make_change win U c (SetSwitches s) = Inr (set_switches c s)"
| "make_change win U c (SetSensitive k r) = Inr (set_sensitive c k r)"
| "make_change win U c (SetOptions n) = set_options c n"
| "make_change win U c (SaveSecret i fresh now) = settled (save_secret win c i fresh now)"
| "make_change win U c (RemoveSecret i) = settled (remove_secret c i)"
| "make_change win U c (SaveServer i inp roles fresh now) = settled (save_server c i inp roles fresh now)"
| "make_change win U c (RemoveServer i) = settled (remove_server c i)"
| "make_change win U c (SetParts i ps) = settled (set_connection_parts c i ps)"
| "make_change win U c (SetAccess i as rs gs) = settled (set_connection_access c i as rs gs)"
| "make_change win U c (SetSendList i ls) = settled (set_connection_send_list c i ls)"
| "make_change win U c (SetOwnApp i a) = settled (set_connection_own_app c i a)"
| "make_change win U c (SetClientApp i k b) = settled (set_connection_client_app c i k b)"
| "make_change win U c (AddConnection s) = settled (add_connection c s)"
| "make_change win U c (RemoveConnection i) = settled (remove_connection c i)"
| "make_change win U c (SignedIn i k a g now) = settled (connection_connected c i k a g now)"
| "make_change win U c (SignInRefused i) = settled (connection_needs_sign_in c i)"
| "make_change win U c (SignedOut i) = settled (connection_disconnected c i)"
| "make_change win U c (SetSite i t) = settled (set_connection_site U c i t)"
| "make_change win U c (AddAddOn i now) = settled (add_add_on c i now)"
| "make_change win U c (ChangeAddOn i ch rs gs) = settled (change_add_on c i ch rs gs)"
| "make_change win U c (ToolsListed i ls now) = settled (add_on_tools_listed c i ls now)"
| "make_change win U c (MarkTools i ms) = settled (set_add_on_tools c i ms)"
| "make_change win U c (RemoveAddOn i) = settled (remove_add_on c i)"
| "make_change win U c (SavePaidKey rt name i now) = settled (save_paid_key c rt name i now)"
| "make_change win U c (ConfirmPaidKey rt i) = Inr (fst (confirm_paid_key c rt i))"
| "make_change win U c (RestorePaidKey rt i p) = Inr (fst (restore_paid_key c rt i p))"
| "make_change win U c (RemovePaidKey rt) = settled (remove_paid_key c rt)"

text \<open>New identifiers are new, and a paid key put back is the one of its own AI tool.\<close>

fun change_meant :: "guard_config \<Rightarrow> change \<Rightarrow> bool" where
  "change_meant c (SaveSecret _ fresh _) \<longleftrightarrow> fresh \<notin> si_id ` set (gc_secrets c)"
| "change_meant c (SaveServer _ _ _ fresh _) \<longleftrightarrow> fresh \<notin> sv_id ` set (gc_servers c)"
| "change_meant c (RestorePaidKey rt _ p) \<longleftrightarrow> (case p of None \<Rightarrow> True | Some k \<Rightarrow> pk_runtime_id k = rt)"
| "change_meant c _ \<longleftrightarrow> True"

text \<open>\<open>Guard::update\<close>: a refused change leaves the settings as they were.\<close>

definition update_settings :: "bool \<Rightarrow> url_crate \<Rightarrow> guard_config \<Rightarrow> change \<Rightarrow> guard_config" where
  "update_settings win U c ch = (case make_change win U c ch of Inl _ \<Rightarrow> c | Inr c' \<Rightarrow> c')"

inductive settings_reach :: "bool \<Rightarrow> url_crate \<Rightarrow> guard_config \<Rightarrow> guard_config \<Rightarrow> bool"
  for win U c where
  reach_start: "settings_reach win U c c"
| reach_change: "settings_reach win U c c1 \<Longrightarrow> change_meant c1 ch \<Longrightarrow>
    settings_reach win U c (update_settings win U c1 ch)"

section \<open>Every change keeps the settings well-formed\<close>

text \<open>What an operation leaves alone: it replaces the value of one field (or two, for permission sets).\<close>

definition only_connections :: "guard_config \<Rightarrow> guard_config \<Rightarrow> bool" where
  "only_connections c c' \<longleftrightarrow> (\<exists>xs. c' = c\<lparr> gc_connections := xs \<rparr>)"

lemma only_connections_refl: "only_connections c c"
  unfolding only_connections_def by (intro exI [of _ "gc_connections c"]) simp

lemma only_connections_trans:
  "only_connections c c1 \<Longrightarrow> only_connections c1 c2 \<Longrightarrow> only_connections c c2"
  unfolding only_connections_def by auto

lemma put_connection_only: "put_connection c x = Inr (c', y) \<Longrightarrow> only_connections c c'"
  unfolding only_connections_def by (auto simp: put_connection_def split: option.splits if_splits)

lemma connection_changes_only:
  "set_connection_parts c i ps = Inr (c', y) \<Longrightarrow> only_connections c c'"
  "set_connection_access c i as rs gs = Inr (c', y) \<Longrightarrow> only_connections c c'"
  "set_connection_send_list c i ls = Inr (c', y) \<Longrightarrow> only_connections c c'"
  "set_connection_own_app c i app = Inr (c', y) \<Longrightarrow> only_connections c c'"
  "set_connection_client_app c i k b = Inr (c', y) \<Longrightarrow> only_connections c c'"
  "connection_connected c i k' acc g now = Inr (c', y) \<Longrightarrow> only_connections c c'"
  "connection_disconnected c i = Inr (c', y) \<Longrightarrow> only_connections c c'"
  "set_connection_site U c i t = Inr (c', y) \<Longrightarrow> only_connections c c'"
  by (auto simp: set_connection_parts_def set_connection_access_def set_connection_send_list_def
      set_connection_own_app_def set_connection_client_app_def connection_connected_def
      connection_disconnected_def set_connection_site_def
      split: if_splits option.splits intro: put_connection_only only_connections_refl)

lemma connection_needs_sign_in_only: "connection_needs_sign_in c i = Inr (c', y) \<Longrightarrow> only_connections c c'"
  by (auto simp: connection_needs_sign_in_def map_sum_def split: if_splits option.splits sum.splits
      intro: put_connection_only only_connections_refl)

lemma add_connection_only:
  assumes "add_connection c s = Inr (c', y)"
  shows "only_connections c c'"
proof -
  from assms obtain c1 x where "(if list_ex (\<lambda>x. cn_service x = s) (gc_connections c) then Inr c
        else map_sum id fst (put_connection c (connection_new (service_id s) s))) = Inr c1"
    and two: "put_connection c1 x = Inr (c', y)"
    unfolding add_connection_def by (auto split: if_splits option.splits)
  then have "only_connections c c1"
    by (auto simp: map_sum_def split: if_splits sum.splits intro: put_connection_only only_connections_refl)
  then show ?thesis using put_connection_only [OF two] only_connections_trans by blast
qed

lemma remove_connection_only: "remove_connection c i = Inr (c', y) \<Longrightarrow> only_connections c c'"
  unfolding only_connections_def by (auto simp: remove_connection_def split: if_splits)

lemma other_parts_kept:
  "config_ok c \<Longrightarrow> only_connections c c' \<Longrightarrow> connections_ok c' \<Longrightarrow> config_ok c'"
  "config_ok c \<Longrightarrow> c2 = c\<lparr> gc_add_ons := as \<rparr> \<Longrightarrow> add_ons_ok c2 \<Longrightarrow> config_ok c2"
  "config_ok c \<Longrightarrow> c3 = c\<lparr> gc_servers := ss \<rparr> \<Longrightarrow> servers_ok c3 \<Longrightarrow> config_ok c3"
  "config_ok c \<Longrightarrow> c4 = c\<lparr> gc_secrets := ses \<rparr> \<Longrightarrow> secrets_ok c4 \<Longrightarrow> config_ok c4"
  "config_ok c \<Longrightarrow> c5 = c\<lparr> gc_paid_keys := ks \<rparr> \<Longrightarrow> paid_ok c5 \<Longrightarrow> config_ok c5"
  "config_ok c \<Longrightarrow> c6 = c\<lparr> gc_sets := sets, gc_roles := rs, gc_departments := ds \<rparr> \<Longrightarrow> sets_ok c6 \<Longrightarrow> config_ok c6"
  by (clarsimp simp: config_ok_def only_connections_def ok_defs used_sets_def known_sets_def)+

lemma rules_kept:
  assumes "config_ok c"
  shows "config_ok (c\<lparr> gc_commands := x1 \<rparr>)" "config_ok (c\<lparr> gc_blocked_files := x2 \<rparr>)"
    "config_ok (c\<lparr> gc_websites := x3 \<rparr>)" "config_ok (c\<lparr> gc_switches := x4 \<rparr>)"
    "config_ok (c\<lparr> gc_sensitive := x5 \<rparr>)" "config_ok (c\<lparr> gc_approval_minutes := x6 \<rparr>)"
  using assms by (simp_all add: config_ok_def ok_defs used_sets_def known_sets_def)

lemma config_okD:
  "config_ok c \<Longrightarrow> sets_ok c" "config_ok c \<Longrightarrow> connections_ok c" "config_ok c \<Longrightarrow> add_ons_ok c"
  "config_ok c \<Longrightarrow> servers_ok c" "config_ok c \<Longrightarrow> secrets_ok c" "config_ok c \<Longrightarrow> paid_ok c"
  by (simp_all add: config_ok_def)

text \<open>What each operation leaves alone.\<close>

definition only_sets :: "guard_config \<Rightarrow> guard_config \<Rightarrow> bool" where
  "only_sets c c' \<longleftrightarrow> (\<exists>sets rs ds. c' = c\<lparr> gc_sets := sets, gc_roles := rs, gc_departments := ds \<rparr>)"

lemma only_setsI:
  "only_sets c (c\<lparr> gc_sets := sets \<rparr>)" "only_sets c (c\<lparr> gc_roles := rs \<rparr>)" "only_sets c (c\<lparr> gc_departments := ds \<rparr>)"
  unfolding only_sets_def
  by (rule exI [of _ sets], rule exI [of _ "gc_roles c"], rule exI [of _ "gc_departments c"], simp)
     (rule exI [of _ "gc_sets c"], rule exI [of _ rs], rule exI [of _ "gc_departments c"], simp,
      rule exI [of _ "gc_sets c"], rule exI [of _ "gc_roles c"], rule exI [of _ ds], simp)

lemma set_changes_only:
  "save_set c inp = Inr (c', s) \<Longrightarrow> only_sets c c'" "remove_set c i ps = Inr (c', s) \<Longrightarrow> only_sets c c'"
  "assign_role c r k = Inr c' \<Longrightarrow> only_sets c c'" "assign_department c d k = Inr c' \<Longrightarrow> only_sets c c'"
  by (auto simp: save_set_def remove_set_def assign_role_def assign_department_def Let_def
      split: if_splits option.splits intro: only_setsI)

definition only_add_ons :: "guard_config \<Rightarrow> guard_config \<Rightarrow> bool" where
  "only_add_ons c c' \<longleftrightarrow> (\<exists>as. c' = c\<lparr> gc_add_ons := as \<rparr>)"

definition only_servers :: "guard_config \<Rightarrow> guard_config \<Rightarrow> bool" where
  "only_servers c c' \<longleftrightarrow> (\<exists>ss. c' = c\<lparr> gc_servers := ss \<rparr>)"

definition only_secrets :: "guard_config \<Rightarrow> guard_config \<Rightarrow> bool" where
  "only_secrets c c' \<longleftrightarrow> (\<exists>ss. c' = c\<lparr> gc_secrets := ss \<rparr>)"

definition only_paid :: "guard_config \<Rightarrow> guard_config \<Rightarrow> bool" where
  "only_paid c c' \<longleftrightarrow> (\<exists>ks. c' = c\<lparr> gc_paid_keys := ks \<rparr>)"

lemma add_on_changes_only:
  "add_add_on c inp now = Inr (c', a) \<Longrightarrow> only_add_ons c c'"
  "change_add_on c i ch rs gs = Inr (c', a) \<Longrightarrow> only_add_ons c c'"
  "add_on_tools_listed c i ls t = Inr (c', a) \<Longrightarrow> only_add_ons c c'"
  "set_add_on_tools c i ms = Inr (c', a) \<Longrightarrow> only_add_ons c c'"
  "remove_add_on c i = Inr (c', a) \<Longrightarrow> only_add_ons c c'"
  by (auto simp: only_add_ons_def add_add_on_def change_add_on_def add_on_tools_listed_def
      set_add_on_tools_def remove_add_on_def Let_def split: if_splits)

lemma list_changes_only:
  "save_server c i' sinp roles fresh now = Inr (c', x1) \<Longrightarrow> only_servers c c'"
  "remove_server c i = Inr (c', x2) \<Longrightarrow> only_servers c c'"
  "save_secret win c einp fresh now = Inr (c', x3) \<Longrightarrow> only_secrets c c'"
  "remove_secret c i = Inr (c', x4) \<Longrightarrow> only_secrets c c'"
  "save_paid_key c rt name i now = Inr (c', x5) \<Longrightarrow> only_paid c c'"
  "remove_paid_key c rt = Inr (c', x6) \<Longrightarrow> only_paid c c'"
  by (auto simp: only_servers_def only_secrets_def only_paid_def save_server_def remove_server_def
      save_secret_def remove_secret_def save_paid_key_def remove_paid_key_def Let_def
      split: if_splits option.splits)

lemma paid_changes_only:
  "only_paid c (fst (confirm_paid_key c rt i))" "only_paid c (fst (restore_paid_key c rt i p))"
  by (auto simp: only_paid_def confirm_paid_key_def restore_paid_key_def Let_def split: option.splits
      intro: exI [of _ "gc_paid_keys c"])

lemma part_kept:
  assumes "config_ok c"
  shows "only_sets c c' \<Longrightarrow> sets_ok c' \<Longrightarrow> config_ok c'"
    "only_connections c c' \<Longrightarrow> connections_ok c' \<Longrightarrow> config_ok c'"
    "only_add_ons c c' \<Longrightarrow> add_ons_ok c' \<Longrightarrow> config_ok c'"
    "only_servers c c' \<Longrightarrow> servers_ok c' \<Longrightarrow> config_ok c'"
    "only_secrets c c' \<Longrightarrow> secrets_ok c' \<Longrightarrow> config_ok c'"
    "only_paid c c' \<Longrightarrow> paid_ok c' \<Longrightarrow> config_ok c'"
  using assms
  by (auto simp: only_sets_def only_add_ons_def only_servers_def only_secrets_def only_paid_def
      elim: other_parts_kept(1) intro: other_parts_kept(2-6) [OF assms refl])

lemma set_ops_keep:
  assumes ok: "config_ok c"
  shows "save_set c inp = Inr (c', s) \<Longrightarrow> config_ok c'" "remove_set c i ps = Inr (c', s) \<Longrightarrow> config_ok c'"
    "assign_role c r k = Inr c' \<Longrightarrow> config_ok c'" "assign_department c d k = Inr c' \<Longrightarrow> config_ok c'"
  by (rule part_kept(1) [OF ok],
      erule set_changes_only,
      erule save_set_ok [OF config_okD(1) [OF ok]] remove_set_ok [OF config_okD(1) [OF ok]]
        assign_role_ok [OF config_okD(1) [OF ok]] assign_department_ok [OF config_okD(1) [OF ok]])+

lemmas connections_kept = config_okD(2) [THEN set_connection_parts_ok]
  config_okD(2) [THEN set_connection_access_ok] config_okD(2) [THEN set_connection_send_list_ok]
  config_okD(2) [THEN set_connection_own_app_ok] config_okD(2) [THEN set_connection_client_app_ok]
  config_okD(2) [THEN set_connection_site_ok] config_okD(2) [THEN connection_connected_ok]
  config_okD(2) [THEN connection_disconnected_ok] config_okD(2) [THEN connection_needs_sign_in_ok]
  config_okD(2) [THEN add_connection_ok] config_okD(2) [THEN remove_connection_ok]

lemma connection_ops_keep:
  assumes ok: "config_ok c"
  shows "set_connection_parts c i ps = Inr (c', y) \<Longrightarrow> config_ok c'"
    "set_connection_access c i as rs gs = Inr (c', y) \<Longrightarrow> config_ok c'"
    "set_connection_send_list c i ls = Inr (c', y) \<Longrightarrow> config_ok c'"
    "set_connection_own_app c i app = Inr (c', y) \<Longrightarrow> config_ok c'"
    "set_connection_client_app c i k b = Inr (c', y) \<Longrightarrow> config_ok c'"
    "set_connection_site U c i t = Inr (c', y) \<Longrightarrow> config_ok c'"
    "connection_connected c i kind acc g now = Inr (c', y) \<Longrightarrow> config_ok c'"
    "connection_disconnected c i = Inr (c', y) \<Longrightarrow> config_ok c'"
    "connection_needs_sign_in c i = Inr (c', z) \<Longrightarrow> config_ok c'"
    "add_connection c sv = Inr (c', y) \<Longrightarrow> config_ok c'"
    "remove_connection c i = Inr (c', y) \<Longrightarrow> config_ok c'"
  by (rule part_kept(2) [OF ok],
      erule connection_changes_only connection_needs_sign_in_only add_connection_only remove_connection_only,
      erule connections_kept [OF ok])+

lemmas add_ons_kept = config_okD(3) [THEN add_add_on_ok] config_okD(3) [THEN change_add_on_ok]
  config_okD(3) [THEN add_on_tools_listed_ok] config_okD(3) [THEN set_add_on_tools_ok]
  config_okD(3) [THEN remove_add_on_ok]

lemma add_on_ops_keep:
  assumes ok: "config_ok c"
  shows "add_add_on c inp now = Inr (c', a) \<Longrightarrow> config_ok c'"
    "change_add_on c i ch rs gs = Inr (c', a) \<Longrightarrow> config_ok c'"
    "add_on_tools_listed c i ls t = Inr (c', a) \<Longrightarrow> config_ok c'"
    "set_add_on_tools c i ms = Inr (c', a) \<Longrightarrow> config_ok c'"
    "remove_add_on c i = Inr (c', a) \<Longrightarrow> config_ok c'"
  by (rule part_kept(3) [OF ok], erule add_on_changes_only, erule add_ons_kept [OF ok])+

lemma server_ops_keep:
  assumes ok: "config_ok c"
  shows "fresh \<notin> sv_id ` set (gc_servers c) \<Longrightarrow>
      save_server c i' sinp roles fresh now = Inr (c', s, earlier) \<Longrightarrow> config_ok c'"
    "remove_server c i = Inr (c', x) \<Longrightarrow> config_ok c'"
  using config_okD(4) [OF ok] save_server_ok remove_server_ok
  by (blast intro: part_kept(4) [OF ok] list_changes_only)+

lemma secret_ops_keep:
  assumes ok: "config_ok c"
  shows "fresh \<notin> si_id ` set (gc_secrets c) \<Longrightarrow>
      save_secret win c einp fresh now = Inr (c', s) \<Longrightarrow> config_ok c'"
    "remove_secret c i = Inr (c', x) \<Longrightarrow> config_ok c'"
  using config_okD(5) [OF ok] save_secret_ok remove_secret_ok
  by (blast intro: part_kept(5) [OF ok] list_changes_only)+

lemma paid_ops_keep:
  assumes ok: "config_ok c"
  shows "save_paid_key c rt name i now = Inr (c', k, previous) \<Longrightarrow> config_ok c'"
    "remove_paid_key c rt = Inr (c', x) \<Longrightarrow> config_ok c'"
    "config_ok (fst (confirm_paid_key c rt i))"
    "(\<And>p. previous = Some p \<Longrightarrow> pk_runtime_id p = rt) \<Longrightarrow> config_ok (fst (restore_paid_key c rt i previous))"
proof -
  note keep = part_kept(6) [OF ok] and paid = config_okD(6) [OF ok]
  show "save_paid_key c rt name i now = Inr (c', k, previous) \<Longrightarrow> config_ok c'"
    by (rule keep, erule list_changes_only, erule save_paid_key_ok [OF paid])
  show "remove_paid_key c rt = Inr (c', x) \<Longrightarrow> config_ok c'"
    by (rule keep, erule list_changes_only, erule remove_paid_key_ok [OF paid])
  show "config_ok (fst (confirm_paid_key c rt i))"
    by (rule keep [OF paid_changes_only(1) confirm_paid_key_ok [OF paid]])
  show "config_ok (fst (restore_paid_key c rt i previous))"
    if "\<And>p. previous = Some p \<Longrightarrow> pk_runtime_id p = rt"
    by (rule keep [OF paid_changes_only(2) restore_paid_key_ok [OF paid that]])
qed

lemma rule_changes_ok:
  assumes "config_ok c"
  shows "set_commands c x = Inr c' \<Longrightarrow> config_ok c'" "set_blocked_files c y = Inr c' \<Longrightarrow> config_ok c'"
    "set_websites U c z = Inr c' \<Longrightarrow> config_ok c'" "config_ok (set_switches c s)"
    "config_ok (set_sensitive c k r)" "set_options c n = Inr c' \<Longrightarrow> config_ok c'"
  using assms
  by (auto simp: set_commands_def set_blocked_files_def set_websites_def set_switches_def
      set_sensitive_def set_options_def split: if_splits sensitive_rule.splits intro: rules_kept)

lemma make_change_ok:
  assumes ok: "config_ok c" and meant: "change_meant c ch" and r: "make_change win U c ch = Inr c'"
  shows "config_ok c'"
  using r meant
  by (cases ch)
     (auto simp: paid_ops_keep(3) [OF ok] rule_changes_ok(4,5) [OF ok]
       dest: rule_changes_ok(1-3,6) [OF ok] set_ops_keep [OF ok] connection_ops_keep [OF ok]
         add_on_ops_keep [OF ok] server_ops_keep [OF ok] secret_ops_keep [OF ok] paid_ops_keep(1,2) [OF ok]
       intro!: paid_ops_keep(4) [OF ok])

text \<open>
  C24: Guard's settings stay well-formed through every sequence of changes the owner makes, refused
  ones included. Permission sets, connections, add-ons, servers, secrets and paid AI tools keep
  distinct identifiers and their limits; a role or a department never refers to a permission set
  that is gone; a connection's parts are its service's own, at Full access only where there is
  such a level, its list names nobody twice, and GitHub's stays empty; a connection that is not
  connected keeps no account and no granted permission; an add-on runs no shell, wrapper or
  downloader and is on only after the owner looked at its tools; a stored server is well-formed;
  and a secret has a variable exactly when it has programs.
\<close>

theorem settings_stay_well_formed:
  assumes "settings_reach win U c c'" "config_ok c"
  shows "config_ok c'"
  using assms
proof (induction rule: settings_reach.induct)
  case (reach_change c1 ch)
  then show ?case by (auto simp: update_settings_def split: sum.splits intro: make_change_ok)
qed

definition empty_config :: guard_config where
  "empty_config =
     \<lparr> gc_sets = [], gc_roles = [], gc_departments = [],
       gc_commands = \<lparr> cr_approved = [], cr_ask = [], cr_blocked = [], cr_with_secrets = [] \<rparr>,
       gc_blocked_files = [], gc_sensitive = [], gc_approval_minutes = 10, gc_secrets = [],
       gc_websites = \<lparr> wr_allowed = [], wr_blocked = [], wr_others = OthersAsk \<rparr>, gc_servers = [],
       gc_switches = switches_default, gc_safety = Light, gc_connections = [], gc_add_ons = [],
       gc_paid_keys = [] \<rparr>"

definition demo_changes :: "change list" where
  "demo_changes =
     [SaveSet \<lparr> sti_id = None, sti_name = ''My set'', sti_description = [], sti_levels = [(ShellExec, LAsk)] \<rparr>,
      AssignRole ''dev'' (Some ''my-set''), RemoveSet ''my-set'' [], SetParts ''slack'' []]"

definition demo_settings :: guard_config where
  "demo_settings = foldl (update_settings False demo_urls) empty_config demo_changes"

theorem settings_stay_well_formed_witness:
  "config_ok demo_settings \<and> map set_id (gc_sets demo_settings) = [''my-set''] \<and>
   map cn_id (gc_connections demo_settings) = [''slack'']"
proof -
  have "config_ok empty_config"
    by (simp add: config_ok_def ok_defs empty_config_def used_sets_def)
  moreover have "settings_reach False demo_urls empty_config demo_settings"
    unfolding demo_settings_def demo_changes_def foldl_Cons foldl_Nil
    by (intro reach_change reach_start) simp_all
  ultimately have "config_ok demo_settings" using settings_stay_well_formed by blast
  moreover have "map set_id (gc_sets demo_settings) = [''my-set'']"
    "map cn_id (gc_connections demo_settings) = [''slack'']"
    by code_simp+
  ultimately show ?thesis by blast
qed

end
