(* ===== verification/Pricing.thy ===== *)
theory Pricing
  imports Complex_Main Prelude
begin

text \<open>
  What a paid AI task costs (\<open>crates/runtime/src/pricing.rs\<close>): prices per million tokens in
  millionths of a dollar, the most a request could cost, the bill of a finished one, and amounts of
  money read from text. Everything is whole numbers: \<open>u64\<close> amounts are natural numbers with the
  saturation of the source written out, and the products are taken in \<open>u128\<close>, which holds the
  product of any two \<open>u64\<close> numbers.
\<close>

section \<open>Prices and bills\<close>

definition million :: nat where "million = 1000000"
definition max_price_micros :: nat where "max_price_micros = 100000 * million"

record price =
  pr_input :: nat
  pr_cached_input :: "nat option"
  pr_output :: nat
  pr_cache_write :: "nat option"

record token_usage =
  tu_input_tokens :: nat
  tu_cached_input_tokens :: nat
  tu_output_tokens :: nat

definition cost :: "nat \<Rightarrow> nat \<Rightarrow> nat" where
  "cost tokens per_million =
     (let micros = div_ceil (tokens * per_million) million
      in if micros \<le> u64_max then micros else u64_max)"

definition fresh_input :: "price \<Rightarrow> nat" where
  "fresh_input p =
     (case pr_cache_write p of
        Some write \<Rightarrow> if write > pr_input p then write else pr_input p
      | None \<Rightarrow> pr_input p)"

definition is_sane :: "price \<Rightarrow> bool" where
  "is_sane p \<longleftrightarrow>
     pr_input p \<le> max_price_micros \<and> pr_output p \<le> max_price_micros \<and>
     (case pr_cache_write p of None \<Rightarrow> True | Some w \<Rightarrow> w \<le> max_price_micros) \<and>
     (case pr_cached_input p of None \<Rightarrow> True | Some c \<Rightarrow> c \<le> pr_input p)"

definition most_cost :: "price \<Rightarrow> nat \<Rightarrow> nat \<Rightarrow> nat" where
  "most_cost p input_tokens max_output_tokens =
     u64_sat_add (cost input_tokens (fresh_input p)) (cost max_output_tokens (pr_output p))"

definition cached_price :: "price \<Rightarrow> nat" where
  "cached_price p = (case pr_cached_input p of None \<Rightarrow> pr_input p | Some c \<Rightarrow> c)"

definition bill_tokens :: "token_usage \<Rightarrow> nat \<times> nat" where
  "bill_tokens u =
     (if tu_cached_input_tokens u > tu_input_tokens u
      then (tu_input_tokens u, tu_cached_input_tokens u)
      else (tu_input_tokens u - tu_cached_input_tokens u, tu_cached_input_tokens u))"

definition bill_cost :: "price \<Rightarrow> token_usage \<Rightarrow> nat" where
  "bill_cost p u =
     (case bill_tokens u of
        (fresh, cached) \<Rightarrow>
          u64_sat_add
            (u64_sat_add (cost fresh (fresh_input p)) (cost cached (cached_price p)))
            (cost (tu_output_tokens u) (pr_output p)))"

text \<open>The shortest step a paid AI tool can run (\<open>crates/runtime/src/agent/paid.rs\<close>).\<close>

definition per_message_tokens :: nat where "per_message_tokens = 8"
definition fixed_tokens :: nat where "fixed_tokens = 256"
definition default_output_tokens :: nat where "default_output_tokens = 16000"

definition smallest_step_cost :: "price \<Rightarrow> nat" where
  "smallest_step_cost p = most_cost p (1 + 2 * per_message_tokens + fixed_tokens) default_output_tokens"

section \<open>Amounts of money in text\<close>

definition u128_max :: nat where "u128_max = 2 ^ 128 - 1"

text \<open>\<open>str::parse::<i32>\<close>: an optional sign and at least one digit, within 32 bits.\<close>

definition all_digits :: "string \<Rightarrow> bool" where
  "all_digits s \<longleftrightarrow> list_all is_ascii_digit s"

definition parse_i32 :: "string \<Rightarrow> int option" where
  "parse_i32 s =
     (let (neg, ds) = (case s of
                         [] \<Rightarrow> (False, [])
                       | c # r \<Rightarrow> if c = CHR ''-'' then (True, r)
                                 else if c = CHR ''+'' then (False, r) else (False, s))
      in if ds = [] \<or> \<not> all_digits ds then None
         else let n = (if neg then - int (undec ds) else int (undec ds))
              in if - (2 ^ 31) \<le> n \<and> n < 2 ^ 31 then Some n else None)"

definition is_exponent_mark :: "char \<Rightarrow> bool" where
  "is_exponent_mark c \<longleftrightarrow> c = CHR ''e'' \<or> c = CHR ''E''"

text \<open>The mantissa's digits before and after the point, and the exponent.\<close>

definition decimal_parts :: "string \<Rightarrow> (string \<times> string \<times> int) option" where
  "decimal_parts given =
     (let t = trim given in
      if t = [] \<or> byte_len t > 64 \<or> starts_with ''-'' t then None
      else
        let t1 = (case strip_prefix ''+'' t of None \<Rightarrow> t | Some r \<Rightarrow> r);
            mantissa = takeWhile (\<lambda>c. \<not> is_exponent_mark c) t1;
            exponent = (case dropWhile (\<lambda>c. \<not> is_exponent_mark c) t1 of
                          [] \<Rightarrow> Some 0
                        | _ # r \<Rightarrow> parse_i32 r)
        in case exponent of
             None \<Rightarrow> None
           | Some e \<Rightarrow>
               let (whole, fraction) = (case split_once CHR ''.'' mantissa of
                                          None \<Rightarrow> (mantissa, []) | Some found \<Rightarrow> found)
               in if whole = [] \<and> fraction = [] \<or> \<not> all_digits whole \<or> \<not> all_digits fraction
                  then None else Some (whole, fraction, e))"

definition shifted_up :: "string \<Rightarrow> nat \<Rightarrow> nat option" where
  "shifted_up digits p =
     (if p > 30 then None
      else let v = undec digits in
           if v > u128_max \<or> v * 10 ^ p > u128_max \<or> v * 10 ^ p > u64_max then None
           else Some (v * 10 ^ p))"

definition cut_off :: "string \<Rightarrow> nat \<Rightarrow> nat option" where
  "cut_off digits off =
     (if off \<ge> length digits then Some 1
      else
        let keep = length digits - off; kept = undec (take keep digits)
        in if kept > u64_max then None
           else if list_ex (\<lambda>c. c \<noteq> CHR ''0'') (drop keep digits)
           then (if kept + 1 > u64_max then None else Some (kept + 1))
           else Some kept)"

definition decimal :: "string \<Rightarrow> nat \<Rightarrow> nat option" where
  "decimal text scale =
     (case decimal_parts text of
        None \<Rightarrow> None
      | Some (whole, fraction, e) \<Rightarrow>
          let digits = trim_start_matches (\<lambda>c. c = CHR ''0'') (whole @ fraction);
              point = e - int (length fraction) + int scale
          in if digits = [] then Some 0
             else if point \<ge> 0 then shifted_up digits (nat point)
             else cut_off digits (nat (- point)))"

definition dollars_to_micros :: "string \<Rightarrow> nat option" where
  "dollars_to_micros t = decimal t 6"

definition per_token_to_per_million :: "string \<Rightarrow> nat option" where
  "per_token_to_per_million t = decimal t 12"

section \<open>Rounding up\<close>

lemma million_pos [simp]: "0 < million"
  by (simp add: million_def)

lemma cost_le_u64: "cost t p \<le> u64_max"
  by (simp add: cost_def Let_def)

lemma cost_mono: "t \<le> t' \<Longrightarrow> p \<le> p' \<Longrightarrow> cost t p \<le> cost t' p'"
  using div_ceil_mono [OF mult_le_mono, of t t' p p' million] by (auto simp: cost_def Let_def)

lemma cost_covers: "t * p \<le> million * cost t p \<or> cost t p = u64_max"
  using div_ceil_bounds(1) [of million "t * p"] by (simp add: cost_def Let_def)

lemma cost_split:
  "cost a p + cost b p \<le> cost (a + b) p + 1 \<or> cost (a + b) p = u64_max"
proof -
  let ?c = "\<lambda>t. div_ceil (t * p) million"
  have "million * ?c a < a * p + million" "million * ?c b < b * p + million"
    "a * p + b * p \<le> million * ?c (a + b)"
    using div_ceil_bounds [of million "a * p"] div_ceil_bounds [of million "b * p"]
      div_ceil_bounds [of million "(a + b) * p"] by (simp_all add: algebra_simps)
  then have "million * (?c a + ?c b) < million * (?c (a + b) + 2)" by (simp add: algebra_simps)
  then have "?c a + ?c b < ?c (a + b) + 2" using nat_mult_less_cancel_disj by blast
  moreover have "cost a p \<le> ?c a" "cost b p \<le> ?c b" by (simp_all add: cost_def Let_def)
  ultimately have "cost a p + cost b p \<le> ?c (a + b) + 1" by linarith
  then show ?thesis by (auto simp: cost_def Let_def)
qed

lemma fresh_input_ge: "pr_input p \<le> fresh_input p"
  by (auto simp: fresh_input_def split: option.splits)

lemma cached_price_le: "is_sane p \<Longrightarrow> cached_price p \<le> fresh_input p"
  using fresh_input_ge [of p] by (auto simp: cached_price_def is_sane_def split: option.splits)

lemma sat_sum_le:
  fixes U :: nat
  shows "x \<le> a + 1 \<or> a = U \<Longrightarrow> y \<le> b \<Longrightarrow> min U (min U x + y) \<le> min U (a + b) + 1"
  by linarith

lemma sat_sum_covers:
  fixes U :: nat
  assumes "f \<le> M * a \<or> a = U" "c \<le> M * b \<or> b = U" "w \<le> M * d \<or> d = U"
  shows "min U (min U (a + b) + d) = U \<or> f + c + w \<le> M * min U (min U (a + b) + d)"
proof (cases "a + b + d < U")
  case True
  with assms show ?thesis by (auto simp: min_def distrib_left)
next
  case False
  then show ?thesis by (auto simp: min_def)
qed

text \<open>
  C33: What is set aside for a paid request covers its bill, but for one millionth of a dollar. With
  a price that makes sense, and a request that read at most the input and wrote at most the output
  it was sent with, the bill worked out from its token counts is at most one micro more than the most
  it could cost, because fresh and cached input are rounded up apart; and it is never less than what
  the tokens cost at their prices, unless it is at the top of 64 bits.
\<close>

theorem bill_within_most:
  assumes sane: "is_sane p"
    and within: "tu_cached_input_tokens u \<le> tu_input_tokens u" "tu_input_tokens u \<le> n"
      "tu_output_tokens u \<le> m"
  shows "bill_cost p u \<le> most_cost p n m + 1 \<and>
    (bill_cost p u = u64_max \<or>
     (tu_input_tokens u - tu_cached_input_tokens u) * fresh_input p +
       tu_cached_input_tokens u * cached_price p + tu_output_tokens u * pr_output p
     \<le> million * bill_cost p u)"
proof -
  let ?f = "tu_input_tokens u - tu_cached_input_tokens u" and ?c = "tu_cached_input_tokens u"
  let ?F = "cost ?f (fresh_input p)" and ?C = "cost ?c (cached_price p)"
    and ?O = "cost (tu_output_tokens u) (pr_output p)"
  have bill: "bill_cost p u = u64_sat_add (u64_sat_add ?F ?C) ?O"
    using within(1) by (simp add: bill_cost_def bill_tokens_def)
  have "?C \<le> cost ?c (fresh_input p)" using cached_price_le [OF sane] by (rule cost_mono [OF le_refl])
  with cost_split [of ?f "fresh_input p" ?c] within(1)
  have "?F + ?C \<le> cost (tu_input_tokens u) (fresh_input p) + 1 \<or> cost (tu_input_tokens u) (fresh_input p) = u64_max"
    by auto
  moreover have "cost (tu_input_tokens u) (fresh_input p) \<le> cost n (fresh_input p)"
    "?O \<le> cost m (pr_output p)" using within by (simp_all add: cost_mono)
  ultimately have "bill_cost p u \<le> most_cost p n m + 1"
    unfolding bill most_cost_def u64_sat_add_def
    using cost_le_u64 [of n "fresh_input p"] by (intro sat_sum_le) auto
  moreover have "bill_cost p u = u64_max \<or> ?f * fresh_input p + ?c * cached_price p +
      tu_output_tokens u * pr_output p \<le> million * bill_cost p u"
    unfolding bill u64_sat_add_def by (intro sat_sum_covers cost_covers)
  ultimately show ?thesis by blast
qed

definition penny_price :: price where
  "penny_price = \<lparr> pr_input = 1, pr_cached_input = None, pr_output = 0, pr_cache_write = None \<rparr>"

text \<open>A bill that is one micro more than the most the request could cost.\<close>

theorem bill_within_most_witness:
  "bill_cost penny_price \<lparr> tu_input_tokens = 2, tu_cached_input_tokens = 1, tu_output_tokens = 0 \<rparr>
     \<le> most_cost penny_price 2 0 + 1 \<and>
   bill_cost penny_price \<lparr> tu_input_tokens = 2, tu_cached_input_tokens = 1, tu_output_tokens = 0 \<rparr> = 2 \<and>
   most_cost penny_price 2 0 = 1"
proof -
  have "is_sane penny_price" by (simp add: is_sane_def penny_price_def max_price_micros_def million_def)
  from bill_within_most [OF this, of "\<lparr> tu_input_tokens = 2, tu_cached_input_tokens = 1, tu_output_tokens = 0 \<rparr>" 2 0]
  show ?thesis
    by (simp add: bill_cost_def bill_tokens_def most_cost_def cost_def penny_price_def fresh_input_def
        cached_price_def div_ceil_def million_def u64_sat_add_def u64_max_def)
qed

section \<open>Reading an amount\<close>

lemma undec_less: "all_digits s \<Longrightarrow> undec s < 10 ^ length s"
proof (induction s rule: rev_induct)
  case (snoc c s)
  then have "undec s < 10 ^ length s" "code c - 48 < 10"
    by (auto simp: all_digits_def is_ascii_digit_def)
  then show ?case by (simp add: undec_snoc)
qed (simp add: undec_def)

lemma undec_zero_prefix: "undec (dropWhile (\<lambda>c. c = CHR ''0'') s) = undec s"
proof (induction s)
  case (Cons c s)
  have "undec (CHR ''0'' # s) = undec s"
    using undec_append [of "''0''" s] by (simp add: undec_def code_def)
  with Cons show ?case by auto
qed simp

lemma undec_pos:
  assumes "all_digits s" "s \<noteq> []" "hd s \<noteq> CHR ''0''"
  shows "0 < undec s"
proof -
  obtain c r where s: "s = c # r" using assms(2) by (cases s) auto
  have "c = char_of (code c)" "char_of (48::nat) = CHR ''0''" by (simp add: code_def, code_simp)
  then have "code c \<noteq> 48" using assms(3) s by auto
  then have "0 < code c - 48" using assms(1) s by (auto simp: all_digits_def is_ascii_digit_def)
  then show ?thesis using undec_append [of "[c]" r] s by (simp add: undec_def)
qed

lemma zeros_iff: "all_digits s \<Longrightarrow> undec s = 0 \<longleftrightarrow> \<not> list_ex (\<lambda>c. c \<noteq> CHR ''0'') s"
proof -
  assume s: "all_digits s"
  let ?d = "dropWhile (\<lambda>c. c = CHR ''0'') s"
  have d: "all_digits ?d" using s set_dropWhileD by (force simp: all_digits_def list_all_iff)
  show ?thesis
  proof (cases "?d = []")
    case True
    then have "\<not> list_ex (\<lambda>c. c \<noteq> CHR ''0'') s" by (auto simp: list_ex_iff dropWhile_eq_Nil_conv)
    moreover have "undec s = undec []" using True undec_zero_prefix [of s] by metis
    ultimately show ?thesis by (simp add: undec_def)
  next
    case False
    with undec_pos [OF d] hd_dropWhile [OF False] undec_zero_prefix [of s] have "undec s \<noteq> 0" by simp
    moreover have "list_ex (\<lambda>c. c \<noteq> CHR ''0'') s"
      using False by (auto simp: list_ex_iff dropWhile_eq_Nil_conv)
    ultimately show ?thesis by simp
  qed
qed

text \<open>Cutting digits off rounds up.\<close>

lemma cut_off_ceiling:
  assumes digits: "all_digits s" "0 < undec s" and r: "cut_off s k = Some n"
  shows "undec s \<le> n * 10 ^ k \<and> n * 10 ^ k < undec s + 10 ^ k"
proof (cases "k \<ge> length s")
  case True
  then have "(10::nat) ^ length s \<le> 10 ^ k" by (simp add: power_increasing)
  moreover have "n = 1" using True r by (simp add: cut_off_def)
  ultimately show ?thesis using digits(2) undec_less [OF digits(1)] by (simp del: power_increasing_iff)
next
  case False
  let ?a = "take (length s - k) s" and ?b = "drop (length s - k) s"
  have parts: "undec s = undec ?a * 10 ^ k + undec ?b" "length ?b = k"
    using undec_append [of ?a ?b] False by simp_all
  have b: "all_digits ?b" using digits(1) by (auto simp: all_digits_def list_all_iff dest: in_set_dropD)
  have small: "undec ?b < 10 ^ k" using undec_less [OF b] parts(2) by simp
  show ?thesis
  proof (cases "undec ?b = 0")
    case True
    with r False zeros_iff [OF b] have "n = undec ?a" by (simp add: cut_off_def Let_def split: if_splits)
    with parts(1) True show ?thesis by simp
  next
    case nonzero: False
    with r False zeros_iff [OF b] have "n = undec ?a + 1" by (simp add: cut_off_def Let_def split: if_splits)
    with parts(1) small nonzero show ?thesis by (simp add: distrib_right)
  qed
qed

lemma ceiling_of_quotient:
  fixes d n k :: nat
  assumes "d \<le> n * 10 ^ k" "n * 10 ^ k < d + 10 ^ k"
  shows "\<lceil>rat_of_nat d * 10 powi (- int k)\<rceil> = int n"
proof -
  have "rat_of_nat d \<le> rat_of_nat n * 10 ^ k" "rat_of_nat n * 10 ^ k < rat_of_nat d + 10 ^ k"
    using of_nat_mono [OF assms(1), where 'a = rat] of_nat_less_iff [where 'a = rat, THEN iffD2, OF assms(2)]
    by simp_all
  then have "rat_of_nat d / 10 ^ k \<le> rat_of_nat n" "rat_of_nat n - 1 < rat_of_nat d / 10 ^ k"
    by (simp_all add: field_simps)
  moreover have "rat_of_nat d * 10 powi (- int k) = rat_of_nat d / 10 ^ k"
    by (simp add: power_int_minus divide_inverse)
  ultimately show ?thesis by (intro ceiling_unique) simp_all
qed

lemma decimal_parts_digits:
  assumes "decimal_parts t = Some (whole, fraction, e)"
  shows "all_digits (whole @ fraction)"
  using assms by (auto simp: decimal_parts_def Let_def all_digits_def split: if_splits option.splits prod.splits)

text \<open>
  An amount of money in text is read exactly and rounded up. When the reader accepts a text, it
  has a whole part, a fraction and an exponent, and the number it gives is the least whole number
  of parts (millionths of a dollar, or their millionths) that is not less than the amount written.
\<close>

theorem decimal_rounds_up:
  assumes r: "decimal t scale = Some n"
  shows "\<exists>whole fraction e. decimal_parts t = Some (whole, fraction, e) \<and>
    int n = \<lceil>rat_of_nat (undec (whole @ fraction)) * 10 powi (e - int (length fraction) + int scale)\<rceil>"
proof -
  from r obtain whole fraction e where parts: "decimal_parts t = Some (whole, fraction, e)"
    by (auto simp: decimal_def split: option.splits)
  let ?w = "whole @ fraction" and ?p = "e - int (length fraction) + int scale"
  let ?d = "trim_start_matches (\<lambda>c. c = CHR ''0'') ?w"
  have same: "undec ?d = undec ?w" by (simp add: trim_start_matches_def undec_zero_prefix)
  have digits: "all_digits ?d"
    using decimal_parts_digits [OF parts]
    by (auto simp: all_digits_def list_all_iff trim_start_matches_def dest: set_dropWhileD)
  have "int n = \<lceil>rat_of_nat (undec ?d) * 10 powi ?p\<rceil>"
  proof (cases "?d = []")
    case True
    with r parts show ?thesis by (simp add: decimal_def undec_def)
  next
    case False
    then have pos: "0 < undec ?d"
      using undec_pos [OF digits] hd_dropWhile [of "\<lambda>c. c = CHR ''0''" ?w]
      by (simp add: trim_start_matches_def)
    show ?thesis
    proof (cases "0 \<le> ?p")
      case True
      with r parts False have "n = undec ?d * 10 ^ nat ?p"
        by (auto simp: decimal_def shifted_up_def Let_def split: if_splits)
      moreover have "rat_of_nat (undec ?d) * 10 powi ?p = rat_of_nat (undec ?d * 10 ^ nat ?p)"
        using True by (simp add: power_int_def)
      ultimately show ?thesis by (simp only: ceiling_of_nat)
    next
      case neg: False
      with r parts False have "cut_off ?d (nat (- ?p)) = Some n"
        by (simp add: decimal_def Let_def)
      from ceiling_of_quotient [OF conjunct1 conjunct2, OF cut_off_ceiling cut_off_ceiling, OF digits pos this digits pos this]
      show ?thesis using neg by (simp add: algebra_simps)
    qed
  qed
  with parts same show ?thesis by auto
qed

theorem decimal_rounds_up_witness:
  "dollars_to_micros '' 1.2345678e-3 '' = Some 1235 \<and>
   (\<exists>whole fraction e. decimal_parts '' 1.2345678e-3 '' = Some (whole, fraction, e) \<and>
    int 1235 = \<lceil>rat_of_nat (undec (whole @ fraction)) * 10 powi (e - int (length fraction) + int 6)\<rceil>)"
proof -
  have "dollars_to_micros '' 1.2345678e-3 '' = Some 1235" by code_simp
  with decimal_rounds_up [of "'' 1.2345678e-3 ''" 6 1235] show ?thesis by (simp add: dollars_to_micros_def)
qed

end
