(* ===== verification/Pacific_Time.thy ===== *)
theory Pacific_Time
  imports Prelude
begin

text \<open>
  The calendar month in Pacific time (\<open>crates/ledger/src/spending.rs\<close>, the part on months): days
  and dates of the Gregorian calendar, daylight saving time by the rules of the United States, and
  the month, the hour and the week a moment falls in. Days are \<open>i64\<close>, moments are milliseconds in
  \<open>u64\<close>; \<open>div\<close> and \<open>mod\<close> on integers are \<open>div_euclid\<close> and \<open>rem_euclid\<close> for the positive
  divisors used here. Days of any moment a \<open>u64\<close> holds are far inside 64 bits.
\<close>

section \<open>Days and dates\<close>

definition hour_ms :: nat where "hour_ms = 3600000"
definition day_ms :: nat where "day_ms = 24 * hour_ms"

text \<open>\<open>u32::try_from(x).unwrap_or(1)\<close>.\<close>

definition u32_or_one :: "int \<Rightarrow> int" where
  "u32_or_one x = (if 0 \<le> x \<and> x \<le> int u32_max then x else 1)"

definition year_of_era :: "int \<Rightarrow> int" where
  "year_of_era doe = (doe - doe div 1460 + doe div 36524 - doe div 146096) div 365"

definition civil_from_days :: "int \<Rightarrow> int \<times> int \<times> int" where
  "civil_from_days days =
     (let z = days + 719468;
          era = z div 146097;
          doe = z mod 146097;
          yoe = year_of_era doe;
          doy = doe - (365 * yoe + yoe div 4 - yoe div 100);
          mp = (5 * doy + 2) div 153;
          day = u32_or_one (doy - (153 * mp + 2) div 5 + 1);
          month = u32_or_one (if mp < 10 then mp + 3 else mp - 9);
          year = yoe + era * 400 + (if month \<le> 2 then 1 else 0)
      in (year, month, day))"

definition days_from_civil :: "int \<Rightarrow> int \<Rightarrow> int \<Rightarrow> int" where
  "days_from_civil year month day =
     (let y = (if month \<le> 2 then year - 1 else year);
          era = y div 400;
          yoe = y mod 400;
          doy = (153 * (if month > 2 then month - 3 else month + 9) + 2) div 5 + day - 1;
          doe = yoe * 365 + yoe div 4 - yoe div 100 + doy
      in era * 146097 + doe - 719468)"

definition weekday :: "int \<Rightarrow> int" where
  "weekday days = (days + 4) mod 7"

definition nth_sunday :: "int \<Rightarrow> int \<Rightarrow> int \<Rightarrow> int" where
  "nth_sunday year month n =
     (let first = days_from_civil year month 1; to_sunday = (7 - weekday first) mod 7
      in first + to_sunday + 7 * (n - 1))"

section \<open>Pacific time\<close>

text \<open>
  The source computes the two moments in 64 bits, which would overflow only for a clock within the
  last year before \<open>2 ^ 64\<close> milliseconds; they are unbounded here.
\<close>

definition pacific_daylight :: "nat \<Rightarrow> bool" where
  "pacific_daylight ms =
     (let year = fst (civil_from_days (int (ms div day_ms)));
          start = nat (nth_sunday year 3 2) * day_ms + 10 * hour_ms;
          stop = nat (nth_sunday year 11 1) * day_ms + 9 * hour_ms
      in start \<le> ms \<and> ms < stop)"

definition pacific_offset :: "nat \<Rightarrow> nat" where
  "pacific_offset ms = (if pacific_daylight ms then 7 else 8) * hour_ms"

definition pacific_month :: "nat \<Rightarrow> int \<times> int" where
  "pacific_month ms =
     (let loc = ms - pacific_offset ms;
          (year, month, _) = civil_from_days (int (loc div day_ms))
      in (year, month))"

definition pacific_hour :: "nat \<Rightarrow> nat" where
  "pacific_hour ms = (ms - pacific_offset ms) mod day_ms div hour_ms"

definition pacific_week_start :: "nat \<Rightarrow> nat" where
  "pacific_week_start ms =
     (let days = int ((ms - pacific_offset ms) div day_ms);
          monday = days - (weekday days + 6) mod 7;
          loc = nat monday * day_ms
      in loc + (if pacific_daylight (loc + 8 * hour_ms) then 7 else 8) * hour_ms)"

text \<open>\<open>format!("{year:04}-{month:02}")\<close>; the years of a moment are never negative.\<close>

definition zero_filled :: "nat \<Rightarrow> nat \<Rightarrow> string" where
  "zero_filled w n = replicate (w - length (dec n)) (digit 0) @ dec n"

definition month_key :: "int \<Rightarrow> int \<Rightarrow> string" where
  "month_key year month = zero_filled 4 (nat year) @ ''-'' @ zero_filled 2 (nat month)"

definition month_start_ms :: "int \<Rightarrow> int \<Rightarrow> nat" where
  "month_start_ms year month =
     (let days = nat (days_from_civil year month 1);
          offset = (if 4 \<le> month \<and> month \<le> 11 then 7 else 8) * hour_ms
      in days * day_ms + offset)"

definition next_month :: "int \<Rightarrow> int \<Rightarrow> int \<times> int" where
  "next_month year month = (if month = 12 then (year + 1, 1) else (year, month + 1))"

section \<open>The calendar\<close>

text \<open>The Gregorian calendar as everybody knows it: what date follows a date.\<close>

definition is_leap :: "int \<Rightarrow> bool" where
  "is_leap y \<longleftrightarrow> 4 dvd y \<and> (\<not> 100 dvd y \<or> 400 dvd y)"

definition month_days :: "int \<Rightarrow> int \<Rightarrow> int" where
  "month_days y m =
     (if m = 2 then (if is_leap y then 29 else 28)
      else if m \<in> {4, 6, 9, 11} then 30 else 31)"

definition valid_date :: "int \<times> int \<times> int \<Rightarrow> bool" where
  "valid_date = (\<lambda>(y, m, d). 1 \<le> m \<and> m \<le> 12 \<and> 1 \<le> d \<and> d \<le> month_days y m)"

definition next_date :: "int \<times> int \<times> int \<Rightarrow> int \<times> int \<times> int" where
  "next_date = (\<lambda>(y, m, d).
     if d < month_days y m then (y, m, d + 1)
     else case next_month y m of (y', m') \<Rightarrow> (y', m', 1))"

text \<open>Days before a year that begins in March, from the beginning of the era.\<close>

definition march_start :: "int \<Rightarrow> int" where
  "march_start y = 365 * y + y div 4 - y div 100 + y div 400"

lemma le_div_iff: "0 < (b::int) \<Longrightarrow> q \<le> a div b \<longleftrightarrow> b * q \<le> a"
proof
  assume b: "0 < b" and "q \<le> a div b"
  then have "b * q \<le> b * (a div b)" by simp
  also have "\<dots> \<le> a" using b mult_div_mod_eq [of b a] pos_mod_sign [of b a] by linarith
  finally show "b * q \<le> a" .
next
  assume b: "0 < b" and "b * q \<le> a"
  then have "b * q div b \<le> a div b" by (intro zdiv_mono1)
  with b show "q \<le> a div b" by simp
qed

lemma div_less_iff: "0 < (b::int) \<Longrightarrow> a div b < q \<longleftrightarrow> a < b * q"
  using le_div_iff [of b q a] by (simp add: linorder_not_le [symmetric])

lemma div_step:
  assumes "0 < (k::int)"
  shows "y div k = (y - 1) div k + (if k dvd y then 1 else 0)"
proof (cases "k dvd y")
  case True
  then obtain q where q: "y = k * q" by auto
  have "(y - 1) div k = q - 1"
    by (rule int_div_pos_eq [where r = "k - 1"]) (use assms q in \<open>simp_all add: algebra_simps\<close>)
  with True q assms show ?thesis by simp
next
  case False
  then have "0 < y mod k" using assms pos_mod_sign [of k y] by (simp add: dvd_eq_mod_eq_0 order_less_le)
  then have "(y - 1) div k = y div k"
    using assms pos_mod_bound [of k y] mult_div_mod_eq [of k y]
    by (intro int_div_pos_eq [where r = "y mod k - 1"]) linarith+
  with False show ?thesis by simp
qed

lemma march_start_era:
  assumes "0 \<le> r" "r < 400"
  shows "march_start (e * 400 + r) = e * 146097 + (365 * r + r div 4 - r div 100)"
proof -
  have "(r + e * 100 * 4) div 4 = e * 100 + r div 4" "(r + e * 4 * 100) div 100 = e * 4 + r div 100"
    "(r + e * 400) div 400 = e + r div 400"
    by (rule div_mult_self1, simp)+
  moreover have "r + e * 100 * 4 = e * 400 + r" "r + e * 4 * 100 = e * 400 + r" "r + e * 400 = e * 400 + r"
    by simp_all
  moreover have "r div 400 = 0" using assms by simp
  ultimately have "march_start (e * 400 + r) = 365 * (e * 400 + r) + (e * 100 + r div 4) - (e * 4 + r div 100) + (e + 0)"
    by (simp only: march_start_def)
  also have "\<dots> = e * 146097 + (365 * r + r div 4 - r div 100)"
    by (simp add: distrib_left)
  finally show ?thesis .
qed

lemma leap_count:
  fixes a b c :: int
  assumes "R \<Longrightarrow> Q" "Q \<Longrightarrow> P"
  shows "365 * y + (a + (if P then 1 else 0)) - (b + (if Q then 1 else 0)) + (c + (if R then 1 else 0)) =
    365 * (y - 1) + a - b + c + (if P \<and> (\<not> Q \<or> R) then 366 else 365)"
  using assms by auto

lemma march_start_next: "march_start y = march_start (y - 1) + (if is_leap y then 366 else 365)"
proof -
  have "y div 4 = (y - 1) div 4 + (if 4 dvd y then 1 else 0)"
    "y div 100 = (y - 1) div 100 + (if 100 dvd y then 1 else 0)"
    "y div 400 = (y - 1) div 400 + (if 400 dvd y then 1 else 0)"
    by (rule div_step, simp)+
  moreover have "400 dvd y \<Longrightarrow> 100 dvd y" "100 dvd y \<Longrightarrow> 4 dvd y"
    using dvd_trans [of 100 400 y] dvd_trans [of 4 100 y] by simp_all
  from leap_count [OF this, where y = y and a = "(y - 1) div 4" and b = "(y - 1) div 100" and c = "(y - 1) div 400"]
  show ?thesis by (simp only: march_start_def is_leap_def calculation)
qed

definition march_month :: "int \<Rightarrow> int" where
  "march_month m = (if m > 2 then m - 3 else m + 9)"

definition month_offset :: "int \<Rightarrow> int" where
  "month_offset mp = (153 * mp + 2) div 5"

lemma days_from_civil_march:
  "days_from_civil y m d =
     march_start (if m \<le> 2 then y - 1 else y) + month_offset (march_month m) + d - 1 - 719468"
proof -
  define y' where "y' = (if m \<le> 2 then y - 1 else y)"
  have "march_start y' = y' div 400 * 146097 + (365 * (y' mod 400) + y' mod 400 div 4 - y' mod 400 div 100)"
    using march_start_era [of "y' mod 400" "y' div 400"] by simp
  then show ?thesis
    unfolding days_from_civil_def Let_def y'_def [symmetric] march_month_def month_offset_def by simp
qed

text \<open>The months of a year that begins in March.\<close>

lemma month_offsets:
  "month_offset 0 = 0" "month_offset 1 = 31" "month_offset 2 = 61" "month_offset 3 = 92"
  "month_offset 4 = 122" "month_offset 5 = 153" "month_offset 6 = 184" "month_offset 7 = 214"
  "month_offset 8 = 245" "month_offset 9 = 275" "month_offset 10 = 306" "month_offset 11 = 337"
  by (simp_all add: month_offset_def)

lemma month_offset_nonneg: "0 \<le> mp \<Longrightarrow> 0 \<le> month_offset mp"
  by (simp add: month_offset_def pos_imp_zdiv_nonneg_iff)

lemma month_cases:
  assumes "1 \<le> (m::int)" "m \<le> 12"
  obtains "m = 1" | "m = 2" | "m = 3" | "m = 4" | "m = 5" | "m = 6" | "m = 7" | "m = 8" | "m = 9"
    | "m = 10" | "m = 11" | "m = 12"
proof -
  have "m = 1 \<or> m = 2 \<or> m = 3 \<or> m = 4 \<or> m = 5 \<or> m = 6 \<or> m = 7 \<or> m = 8 \<or> m = 9 \<or> m = 10 \<or> m = 11 \<or> m = 12"
    using assms by arith
  then show thesis using that by blast
qed

section \<open>Days to dates and back\<close>

text \<open>The year of an era: the expression grows with the day, so its value at both ends of each of
  the 400 years decides it.\<close>

definition era_count :: "int \<Rightarrow> int" where
  "era_count doe = doe - doe div 1460 + doe div 36524 - doe div 146096"

definition era_start :: "int \<Rightarrow> int" where
  "era_start y = 365 * y + y div 4 - y div 100"

definition era_stop :: "int \<Rightarrow> int" where
  "era_stop y = (if y = 399 then 146097 else era_start (y + 1))"

lemma count_step:
  fixes a b c d :: int
  shows "a' \<le> a + 1 \<Longrightarrow> b \<le> b' \<Longrightarrow> c' = c \<Longrightarrow> d - a + b - c \<le> d + 1 - a' + b' - c'"
  by linarith

lemma era_count_step:
  assumes "0 \<le> d" "d < 146096"
  shows "era_count d \<le> era_count (d + 1)"
proof (cases "d = 146095")
  case True
  have "era_count 146095 \<le> era_count 146096" by code_simp
  with True show ?thesis by simp
next
  case False
  with assms have "(d + 1) div 146096 = d div 146096" by (simp add: div_pos_pos_trivial)
  moreover have "(d + 1) div 1460 \<le> d div 1460 + 1"
    using div_step [of 1460 "d + 1"] by (simp only: add_diff_cancel_right') (simp split: if_splits)
  moreover have "d div 36524 \<le> (d + 1) div 36524" by (rule zdiv_mono1) simp_all
  ultimately show ?thesis unfolding era_count_def by (rule count_step [rotated 2])
qed

lemma era_count_mono:
  assumes "0 \<le> a" "a \<le> b" "b \<le> 146096"
  shows "era_count a \<le> era_count b"
  using assms(2,3)
proof (induction b rule: int_ge_induct)
  case (step b)
  with assms(1) era_count_step [of b] show ?case by simp
qed simp

lemma era_ends:
  assumes "0 \<le> y" "y \<le> 399"
  shows "365 * y \<le> era_count (era_start y)" "era_count (era_stop y - 1) < 365 * (y + 1)"
proof -
  have "list_all (\<lambda>y. 365 * y \<le> era_count (era_start y) \<and> era_count (era_stop y - 1) < 365 * (y + 1)) [0..399]"
    by code_simp
  with assms show "365 * y \<le> era_count (era_start y)" "era_count (era_stop y - 1) < 365 * (y + 1)"
    by (auto simp: list_all_iff)
qed

lemma era_start_nonneg: "0 \<le> y \<Longrightarrow> 0 \<le> era_start y"
  using zdiv_mono2 [of y 4 100] by (simp add: era_start_def)

lemma era_stop_le:
  assumes "0 \<le> y" "y \<le> 399"
  shows "era_stop y \<le> 146097"
proof (cases "y = 399")
  case False
  then have "(y + 1) div 4 \<le> 399 div 4" using assms by (intro zdiv_mono1) simp_all
  moreover have "0 \<le> (y + 1) div 100" using assms by (simp add: pos_imp_zdiv_nonneg_iff)
  ultimately show ?thesis using False assms by (simp add: era_stop_def era_start_def)
qed (simp add: era_stop_def)

lemma year_of_era_unique:
  assumes "0 \<le> y" "y \<le> 399" "era_start y \<le> d" "d < era_stop y"
  shows "year_of_era d = y"
proof -
  have "365 * y \<le> era_count d" "era_count d < 365 * (y + 1)"
    using era_ends [OF assms(1,2)] era_count_mono [of "era_start y" d] era_count_mono [of d "era_stop y - 1"]
      era_start_nonneg [OF assms(1)] era_stop_le [OF assms(1,2)] assms(3,4) by linarith+
  then have "y \<le> era_count d div 365" "era_count d div 365 < y + 1"
    using le_div_iff [of 365 y "era_count d"] div_less_iff [of 365 "era_count d" "y + 1"] by simp_all
  then show ?thesis by (simp add: year_of_era_def era_count_def [symmetric])
qed

lemma era_covered:
  assumes "0 \<le> d" "d < 146097"
  shows "\<exists>y. 0 \<le> y \<and> y \<le> 399 \<and> era_start y \<le> d \<and> d < era_stop y"
proof (rule ccontr)
  assume none: "\<not> ?thesis"
  have "era_start y \<le> d" if "0 \<le> y" "y \<le> 399" for y
    using that
  proof (induction y rule: int_ge_induct)
    case base
    then show ?case using assms by (simp add: era_start_def)
  next
    case (step y)
    then have "\<not> d < era_stop y" using none by auto
    with step show ?case by (simp add: era_stop_def)
  qed
  from this [of 399] none assms show False by (auto simp: era_stop_def)
qed

text \<open>A day of the year that begins in March, as its month and its day.\<close>

lemma march_day_bounds:
  fixes mp doy :: int
  assumes "0 \<le> doy" "doy \<le> 365" "153 * mp \<le> 5 * doy + 2" "5 * doy + 2 < 153 * (mp + 1)"
  shows "0 \<le> mp" "mp \<le> 11" "153 * mp + 2 < 5 * (doy + 1)" "5 * (doy + 1) \<le> 153 * (mp + 1) + 2"
  using assms by auto

lemma march_day:
  assumes "0 \<le> doy" "doy \<le> 365" and mp: "mp = (5 * doy + 2) div 153"
  shows "0 \<le> mp" "mp \<le> 11" "month_offset mp \<le> doy" "doy < month_offset (mp + 1)"
proof -
  have "153 * mp \<le> 5 * doy + 2" "5 * doy + 2 < 153 * (mp + 1)"
    using le_div_iff [of 153 mp "5 * doy + 2"] div_less_iff [of 153 "5 * doy + 2" "mp + 1"]
    unfolding mp by simp_all
  note b = march_day_bounds [OF assms(1,2) this]
  show "0 \<le> mp" "mp \<le> 11" by (rule b)+
  have "month_offset mp < doy + 1"
    unfolding month_offset_def using b(3) by (subst div_less_iff) simp_all
  then show "month_offset mp \<le> doy" by simp
  have "doy + 1 \<le> month_offset (mp + 1)"
    unfolding month_offset_def using b(4) by (subst le_div_iff) simp_all
  then show "doy < month_offset (mp + 1)" by simp
qed

lemma march_month_unique:
  assumes "month_offset mp \<le> doy" "doy < month_offset (mp + 1)"
  shows "(5 * doy + 2) div 153 = mp"
proof -
  have "153 * mp + 2 < 5 * (doy + 1)" "5 * (doy + 1) \<le> 153 * (mp + 1) + 2"
    using assms div_less_iff [of 5 "153 * mp + 2" "doy + 1"] le_div_iff [of 5 "doy + 1" "153 * (mp + 1) + 2"]
    by (simp_all add: month_offset_def)
  then have "mp \<le> (5 * doy + 2) div 153" "(5 * doy + 2) div 153 < mp + 1"
    using le_div_iff [of 153 mp "5 * doy + 2"] div_less_iff [of 153 "5 * doy + 2" "mp + 1"] by simp_all
  then show ?thesis by simp
qed

text \<open>Days of a valid date, and dates of a day: each undoes the other.\<close>

lemma civil_from_days_march:
  "civil_from_days days =
     (let doe = (days + 719468) mod 146097; yoe = year_of_era doe; doy = doe - era_start yoe;
          mp = (5 * doy + 2) div 153;
          month = u32_or_one (if mp < 10 then mp + 3 else mp - 9)
      in (yoe + (days + 719468) div 146097 * 400 + (if month \<le> 2 then 1 else 0), month,
          u32_or_one (doy - month_offset mp + 1)))"
  by (simp only: civil_from_days_def era_start_def month_offset_def Let_def)

lemma civil_from_march:
  assumes y: "0 \<le> y" "y \<le> 399" and doy: "0 \<le> doy" "era_start y + doy < era_stop y" "doy \<le> 365"
    and mp: "0 \<le> mp" "mp \<le> 11" "month_offset mp \<le> doy" "doy < month_offset (mp + 1)"
  shows "civil_from_days (e * 146097 + era_start y + doy - 719468) =
    (y + e * 400 + (if mp < 10 then 0 else 1), if mp < 10 then mp + 3 else mp - 9, doy - month_offset mp + 1)"
proof -
  let ?doe = "era_start y + doy" and ?m = "if mp < 10 then mp + 3 else mp - 9"
  have doe: "0 \<le> ?doe" "?doe < 146097"
    using era_start_nonneg [OF y(1)] era_stop_le [OF y] doy by linarith+
  have z: "e * 146097 + era_start y + doy - 719468 + 719468 = ?doe + e * 146097" by simp
  have era: "(?doe + e * 146097) div 146097 = e" "(?doe + e * 146097) mod 146097 = ?doe"
    using doe by (simp_all only: div_mult_self1 mod_mult_self1 mod_pos_pos_trivial div_pos_pos_trivial)
  have "year_of_era ?doe = y" using year_of_era_unique [OF y, of ?doe] doy(1,2) by simp
  moreover have "(5 * doy + 2) div 153 = mp" using march_month_unique [OF mp(3,4)] .
  moreover have "u32_or_one ?m = ?m" "?m \<le> 2 \<longleftrightarrow> \<not> mp < 10"
    "u32_or_one (doy - month_offset mp + 1) = doy - month_offset mp + 1"
    using mp doy month_offset_nonneg [OF mp(1)] by (simp_all add: u32_or_one_def u32_max_def)
  moreover have "?doe - era_start y = doy" by simp
  ultimately show ?thesis
    by (simp only: civil_from_days_march Let_def z era) (simp add: add.commute)
qed

lemma era_length:
  assumes "0 \<le> r" "r \<le> 399"
  shows "era_stop r = era_start r + (if is_leap (e * 400 + r + 1) then 366 else 365)"
proof -
  have this_year: "march_start (e * 400 + r) = e * 146097 + era_start r"
    using march_start_era [of r e] assms by (simp add: era_start_def)
  have "march_start (e * 400 + r + 1) = e * 146097 + era_stop r"
  proof (cases "r = 399")
    case True
    have "march_start ((e + 1) * 400 + 0) = (e + 1) * 146097 + 0" by (subst march_start_era) simp_all
    moreover have "e * 400 + r + 1 = (e + 1) * 400 + 0" using True by simp
    ultimately show ?thesis using True by (simp only: era_stop_def) simp
  next
    case False
    then have "march_start (e * 400 + (r + 1)) = e * 146097 + era_start (r + 1)"
      using march_start_era [of "r + 1" e] assms by (simp add: era_start_def)
    with False show ?thesis by (simp add: era_stop_def add.assoc)
  qed
  with march_start_next [of "e * 400 + r + 1"] this_year show ?thesis by simp
qed

lemma month_length:
  assumes "1 \<le> m" "m \<le> 12" "m \<noteq> 2"
  shows "month_offset (march_month m + 1) = month_offset (march_month m) + month_days y m"
  using assms(1,2) by (rule month_cases) (use assms(3) in \<open>simp_all add: march_month_def month_days_def month_offsets\<close>)

lemma march_month_range: "1 \<le> m \<Longrightarrow> m \<le> 12 \<Longrightarrow> 0 \<le> march_month m \<and> march_month m \<le> 11"
  by (auto simp: march_month_def)

lemma february_is_last: "march_month m = 11 \<Longrightarrow> 1 \<le> m \<Longrightarrow> m \<le> 12 \<Longrightarrow> m = 2"
  by (auto simp: march_month_def split: if_splits)

lemma civil_of_days:
  assumes "valid_date (y, m, d)"
  shows "civil_from_days (days_from_civil y m d) = (y, m, d)"
proof -
  define Y where "Y = (if m \<le> 2 then y - 1 else y)"
  define r where "r = Y mod 400"
  define mp where "mp = march_month m"
  define doy where "doy = month_offset mp + d - 1"
  from assms have md: "1 \<le> m" "m \<le> 12" "1 \<le> d" "d \<le> month_days y m" by (simp_all add: valid_date_def)
  have mp: "0 \<le> mp" "mp \<le> 11" using march_month_range [OF md(1,2)] by (simp_all add: mp_def)
  have r: "0 \<le> r" "r \<le> 399" by (simp_all add: r_def)
  have Y: "Y div 400 * 400 + r = Y" by (simp add: r_def)
  have len: "era_stop r = era_start r + (if is_leap (Y + 1) then 366 else 365)"
    using era_length [OF r, of "Y div 400"] Y by simp
  have within: "doy < month_offset (mp + 1) \<and> doy \<le> 365 \<and> era_start r + doy < era_stop r"
  proof (cases "m = 2")
    case True
    then have "mp = 11" "Y + 1 = y" by (simp_all add: mp_def march_month_def Y_def)
    moreover have "month_offset 12 = 367" by (simp add: month_offset_def)
    ultimately show ?thesis
      using md(4) len True by (auto simp: doy_def month_offsets month_days_def split: if_splits)
  next
    case False
    with md mp february_is_last [of m] have "mp \<le> 10" by (force simp: mp_def)
    then have "month_offset (mp + 1) \<le> month_offset 11"
      unfolding month_offset_def by (intro zdiv_mono1) simp_all
    with month_length [OF md(1,2) False, of y] md(4) len show ?thesis
      by (auto simp: doy_def mp_def month_offsets)
  qed
  have "days_from_civil y m d = Y div 400 * 146097 + era_start r + doy - 719468"
    by (simp add: days_from_civil_def Let_def Y_def [symmetric] r_def [symmetric] era_start_def doy_def
        mp_def march_month_def month_offset_def)
  moreover have "0 \<le> doy" "month_offset mp \<le> doy" using md(3) month_offset_nonneg [OF mp(1)] by (simp_all add: doy_def)
  ultimately have "civil_from_days (days_from_civil y m d) =
    (r + Y div 400 * 400 + (if mp < 10 then 0 else 1), if mp < 10 then mp + 3 else mp - 9, doy - month_offset mp + 1)"
    using civil_from_march [OF r, of doy mp "Y div 400"] within mp by simp
  moreover have "m = (if mp < 10 then mp + 3 else mp - 9)"
    using md(1,2) by (auto simp: mp_def march_month_def)
  moreover have "Y + (if mp < 10 then 0 else 1) = y"
    using md(1,2) by (auto simp: mp_def march_month_def Y_def)
  moreover have "doy - month_offset mp + 1 = d" by (simp add: doy_def)
  moreover have "r + Y div 400 * 400 = Y" using Y by (simp only: add.commute)
  ultimately show ?thesis by (simp only:)
qed

lemma days_of_civil:
  "valid_date (civil_from_days z) \<and> (\<lambda>(y, m, d). days_from_civil y m d) (civil_from_days z) = z"
proof -
  define e doe where "e = (z + 719468) div 146097" and "doe = (z + 719468) mod 146097"
  have "0 \<le> doe" "doe < 146097" by (simp_all add: doe_def)
  then obtain r where r: "0 \<le> r" "r \<le> 399" "era_start r \<le> doe" "doe < era_stop r"
    using era_covered by blast
  define doy where "doy = doe - era_start r"
  define mp where "mp = (5 * doy + 2) div 153"
  have len: "era_stop r = era_start r + (if is_leap (e * 400 + r + 1) then 366 else 365)"
    using era_length [OF r(1,2)] .
  then have doy: "0 \<le> doy" "doy \<le> 365" "era_start r + doy < era_stop r"
    using r by (auto simp: doy_def split: if_splits)
  note mp = march_day [OF doy(1,2) mp_def]
  have z: "z = e * 146097 + era_start r + doy - 719468"
    using div_mult_mod_eq [of "z + 719468" 146097] by (simp add: e_def doe_def doy_def)
  have civil: "civil_from_days z = (r + e * 400 + (if mp < 10 then 0 else 1), if mp < 10 then mp + 3 else mp - 9,
      doy - month_offset mp + 1)"
    unfolding z by (rule civil_from_march [OF r(1,2) doy(1,3,2) mp])
  have "days_from_civil (r + e * 400 + (if mp < 10 then 0 else 1)) (if mp < 10 then mp + 3 else mp - 9)
      (doy - month_offset mp + 1) = march_start (e * 400 + r) + doy - 719468"
    using mp(1,2) by (auto simp: days_from_civil_march march_month_def add.commute)
  also have "\<dots> = z" using march_start_era [of r e] r by (simp add: z era_start_def)
  finally have there_and_back: "(\<lambda>(y, m, d). days_from_civil y m d) (civil_from_days z) = z" by (simp add: civil)
  let ?m = "if mp < 10 then mp + 3 else mp - 9" and ?y = "r + e * 400 + (if mp < 10 then 0 else 1)"
  have m: "1 \<le> ?m" "?m \<le> 12" "march_month ?m = mp" using mp(1,2) by (auto simp: march_month_def)
  have "doy - month_offset mp + 1 \<le> month_days ?y ?m"
  proof (cases "?m = 2")
    case True
    then have "mp = 11" using m by (simp add: march_month_def)
    with doy(3) len show ?thesis
      by (auto simp: month_days_def month_offsets add.commute split: if_splits)
  next
    case False
    with month_length [OF m(1,2) False, of ?y] mp(4) m(3) show ?thesis by simp
  qed
  with m mp(3) there_and_back show ?thesis unfolding civil by (simp add: valid_date_def)
qed

lemma month_start_step:
  assumes "1 \<le> m" "m \<le> 12" "next_month y m = (y', m')"
  shows "days_from_civil y' m' 1 = days_from_civil y m 1 + month_days y m \<and> 1 \<le> m' \<and> m' \<le> 12"
  using assms(1,2)
  by (rule month_cases)
     (use assms(3) march_start_next [of y] in
       \<open>auto simp: next_month_def days_from_civil_march march_month_def month_offsets month_days_def\<close>)


lemma days_in_month: "days_from_civil y m d = days_from_civil y m 1 + d - 1"
  by (simp add: days_from_civil_march)

text \<open>
  The dates the ledger computes are the dates of the calendar: day 0 is the first of January 1970,
  and the date of every next day, before or after, is the one the calendar says comes next.
\<close>

theorem calendar_day_by_day:
  "civil_from_days 0 = (1970, 1, 1) \<and> civil_from_days (z + 1) = next_date (civil_from_days z)"
proof
  show "civil_from_days 0 = (1970, 1, 1)" by code_simp
next
  obtain y m d where ymd: "civil_from_days z = (y, m, d)" by (cases "civil_from_days z")
  obtain y' m' where nm: "next_month y m = (y', m')" by (cases "next_month y m")
  from days_of_civil [of z] ymd have valid: "valid_date (y, m, d)" and z: "days_from_civil y m d = z" by simp_all
  show "civil_from_days (z + 1) = next_date (civil_from_days z)"
  proof (cases "d < month_days y m")
    case True
    with valid have "valid_date (y, m, d + 1)" by (simp add: valid_date_def)
    then have "civil_from_days (days_from_civil y m (d + 1)) = (y, m, d + 1)" by (rule civil_of_days)
    moreover have "days_from_civil y m (d + 1) = z + 1"
      using z days_in_month [of y m d] days_in_month [of y m "d + 1"] by linarith
    ultimately show ?thesis using True ymd by (simp add: next_date_def)
  next
    case False
    with valid have d: "d = month_days y m" by (simp add: valid_date_def)
    from valid have "1 \<le> m" "m \<le> 12" by (simp_all add: valid_date_def)
    from month_start_step [OF this nm] have step: "days_from_civil y' m' 1 = days_from_civil y m 1 + month_days y m"
      "1 \<le> m'" "m' \<le> 12" by simp_all
    then have "valid_date (y', m', 1)" by (simp add: valid_date_def month_days_def)
    then have "civil_from_days (days_from_civil y' m' 1) = (y', m', 1)" by (rule civil_of_days)
    moreover have "days_from_civil y' m' 1 = z + 1"
      using z d step(1) days_in_month [of y m d] by linarith
    ultimately show ?thesis using False ymd nm by (simp add: next_date_def)
  qed
qed

section \<open>Months in Pacific time\<close>

lemma civil_month:
  assumes "1 \<le> m" "m \<le> 12" "next_month y m = (y', m')" "civil_from_days z = (a, b, c)"
  shows "(a, b) = (y, m) \<longleftrightarrow> days_from_civil y m 1 \<le> z \<and> z < days_from_civil y' m' 1"
proof -
  note step = month_start_step [OF assms(1-3)]
  from days_of_civil [of z] assms(4) have valid: "valid_date (a, b, c)" and z: "days_from_civil a b c = z" by simp_all
  show ?thesis
  proof
    assume "(a, b) = (y, m)"
    with valid z step days_in_month [of y m c]
    show "days_from_civil y m 1 \<le> z \<and> z < days_from_civil y' m' 1" by (auto simp: valid_date_def)
  next
    assume within: "days_from_civil y m 1 \<le> z \<and> z < days_from_civil y' m' 1"
    define d where "d = z - days_from_civil y m 1 + 1"
    with within step assms(1,2) have "valid_date (y, m, d)" by (auto simp: valid_date_def)
    then have "civil_from_days (days_from_civil y m d) = (y, m, d)" by (rule civil_of_days)
    moreover have "days_from_civil y m d = z" using days_in_month [of y m d] by (simp add: d_def)
    ultimately show "(a, b) = (y, m)" using assms(4) by simp
  qed
qed

lemma march_start_1970: "1969 \<le> y \<Longrightarrow> 719162 \<le> march_start y"
proof (induction y rule: int_ge_induct)
  case base
  then show ?case by (simp add: march_start_def)
next
  case (step y)
  then show ?case using march_start_next [of "y + 1"] by (simp split: if_splits)
qed

lemma days_positive:
  assumes "1970 \<le> y" "1 \<le> m" "m \<le> 12"
  shows "0 \<le> days_from_civil y m 1" "(y, m) \<noteq> (1970, 1) \<Longrightarrow> 0 < days_from_civil y m 1"
proof -
  have "719162 \<le> march_start (y - 1)" using march_start_1970 [of "y - 1"] assms(1) by simp
  moreover have "y \<noteq> 1970 \<Longrightarrow> 719162 + 365 \<le> march_start (y - 1)"
    using march_start_1970 [of "y - 2"] march_start_next [of "y - 1"] assms(1) by (simp split: if_splits)
  moreover have "719162 + 365 \<le> march_start y"
    using calculation(1) march_start_next [of y] by (simp split: if_splits)
  ultimately have "0 \<le> days_from_civil y m 1 \<and> ((y, m) \<noteq> (1970, 1) \<longrightarrow> 0 < days_from_civil y m 1)"
    by (rule_tac month_cases [OF assms(2,3)]) (auto simp: days_from_civil_march march_month_def month_offsets)
  then show "0 \<le> days_from_civil y m 1" "(y, m) \<noteq> (1970, 1) \<Longrightarrow> 0 < days_from_civil y m 1" by blast+
qed

lemma nth_sunday_range:
  "days_from_civil y m 1 + 7 * (n - 1) \<le> nth_sunday y m n \<and> nth_sunday y m n \<le> days_from_civil y m 1 + 7 * (n - 1) + 6"
  using pos_mod_bound [of 7 "7 - weekday (days_from_civil y m 1)"] pos_mod_sign [of 7 "7 - weekday (days_from_civil y m 1)"]
  unfolding nth_sunday_def Let_def by linarith

lemma month_starts:
  assumes "1 \<le> m" "m \<le> 12"
  shows "m \<le> 3 \<Longrightarrow> days_from_civil y m 1 \<le> days_from_civil y 3 1"
    "4 \<le> m \<Longrightarrow> days_from_civil y 3 1 + 31 \<le> days_from_civil y m 1"
    "m \<le> 11 \<Longrightarrow> days_from_civil y m 1 \<le> days_from_civil y 11 1"
    "12 \<le> m \<Longrightarrow> days_from_civil y 11 1 + 30 \<le> days_from_civil y m 1"
  using march_start_next [of y]
  by (rule_tac month_cases [OF assms]; auto simp: days_from_civil_march march_month_def month_offsets split: if_splits)+

text \<open>In the night that begins a month, daylight saving time is on from April to November.\<close>

lemma daylight_bounds:
  fixes H :: nat
  assumes "0 < H" "0 \<le> a" "0 \<le> b" "0 \<le> d"
    and "int ms = d * (24 * int H) + r" "7 * int H \<le> r" "r < 8 * int H"
  shows "(nat a * (24 * H) + 10 * H \<le> ms \<longleftrightarrow> a < d) \<and> (ms < nat b * (24 * H) + 9 * H \<longleftrightarrow> d \<le> b)"
proof -
  have lt: "x < d \<longleftrightarrow> x * (24 * int H) + 24 * int H \<le> d * (24 * int H)" for x
    using mult_le_cancel_right [of "x + 1" "24 * int H" d] assms(1) by (auto simp: algebra_simps)
  have le: "d \<le> x \<longleftrightarrow> d * (24 * int H) \<le> x * (24 * int H)" for x
    using assms(1) by simp
  have "nat a * (24 * H) + 10 * H \<le> ms \<longleftrightarrow> a * (24 * int H) + 10 * int H \<le> int ms"
    using assms(2) by (simp add: of_nat_le_iff [symmetric, where 'a = int] del: of_nat_le_iff)
  moreover have "ms < nat b * (24 * H) + 9 * H \<longleftrightarrow> int ms < b * (24 * int H) + 9 * int H"
    using assms(3) by (simp add: of_nat_less_iff [symmetric, where 'a = int] del: of_nat_less_iff)
  moreover have "a * (24 * int H) + 10 * int H \<le> int ms \<longleftrightarrow> a < d"
    using lt [of a] le [of a] assms(1,5-7) by linarith
  moreover have "int ms < b * (24 * int H) + 9 * int H \<longleftrightarrow> d \<le> b"
    using lt [of b] le [of b] assms(1,5-7) by linarith
  ultimately show ?thesis by simp
qed

lemma hour_pos: "0 < hour_ms" "0 < day_ms"
  by (simp_all add: day_ms_def hour_ms_def)

lemma first_of_month:
  assumes "1 \<le> m" "m \<le> 12"
  shows "civil_from_days (days_from_civil y m 1) = (y, m, 1)"
  using assms by (intro civil_of_days) (simp add: valid_date_def month_days_def)

lemma daylight_at_month_start:
  assumes y: "1970 \<le> y" and m: "1 \<le> m" "m \<le> 12"
    and ms: "ms = nat (days_from_civil y m 1) * day_ms + r" "7 * hour_ms \<le> r" "r < 8 * hour_ms"
  shows "pacific_daylight ms \<longleftrightarrow> 4 \<le> m \<and> m \<le> 11"
proof -
  let ?d = "days_from_civil y m 1"
  have nonneg: "0 \<le> ?d" "0 \<le> days_from_civil y 3 1" "0 \<le> days_from_civil y 11 1"
    using days_positive(1) [OF y] m by simp_all
  have "r < day_ms" using ms(3) by (simp add: day_ms_def)
  then have "ms div day_ms = nat ?d" by (simp add: ms(1))
  then have year: "civil_from_days (int (ms div day_ms)) = (y, m, 1)"
    using first_of_month [OF m] nonneg(1) by simp
  have sundays: "days_from_civil y 3 1 + 7 \<le> nth_sunday y 3 2" "nth_sunday y 3 2 \<le> days_from_civil y 3 1 + 13"
    "days_from_civil y 11 1 \<le> nth_sunday y 11 1" "nth_sunday y 11 1 \<le> days_from_civil y 11 1 + 6"
    using nth_sunday_range [of y 3 2] nth_sunday_range [of y 11 1] by simp_all
  have "int ms = ?d * (24 * int hour_ms) + int r" "7 * int hour_ms \<le> int r" "int r < 8 * int hour_ms"
    using nonneg(1) ms by (simp_all add: day_ms_def)
  from daylight_bounds [OF hour_pos(1) _ _ nonneg(1) this, of "nth_sunday y 3 2" "nth_sunday y 11 1"]
  have "pacific_daylight ms \<longleftrightarrow> nth_sunday y 3 2 < ?d \<and> ?d \<le> nth_sunday y 11 1"
    using nonneg sundays by (simp add: pacific_daylight_def Let_def year day_ms_def [symmetric])
  also have "\<dots> \<longleftrightarrow> 4 \<le> m \<and> m \<le> 11"
    using month_starts [OF m, of y] sundays by linarith
  finally show ?thesis .
qed

lemma month_start_reached:
  assumes y: "1970 \<le> y" and m: "1 \<le> m" "m \<le> 12" and "(y, m) \<noteq> (1970, 1)"
  shows "month_start_ms y m \<le> ms \<longleftrightarrow> days_from_civil y m 1 \<le> int ((ms - pacific_offset ms) div day_ms)"
proof -
  let ?d = "days_from_civil y m 1" and ?n = "nat (days_from_civil y m 1)"
  have "0 < ?d" using days_positive(2) [OF assms] .
  then have n: "0 < ?n * day_ms" "?d = int ?n" using hour_pos by simp_all
  have "?d \<le> int ((ms - pacific_offset ms) div day_ms) \<longleftrightarrow> ?n * day_ms \<le> ms - pacific_offset ms"
    using hour_pos(2) by (subst n(2)) (simp only: of_nat_le_iff less_eq_div_iff_mult_less_eq)
  also have "\<dots> \<longleftrightarrow> ?n * day_ms + pacific_offset ms \<le> ms" using n(1) by linarith
  also have "\<dots> \<longleftrightarrow> month_start_ms y m \<le> ms"
  proof (cases "?n * day_ms + 7 * hour_ms \<le> ms \<and> ms < ?n * day_ms + 8 * hour_ms")
    case True
    with daylight_at_month_start [OF y m, of ms "ms - ?n * day_ms"]
    have "pacific_daylight ms \<longleftrightarrow> 4 \<le> m \<and> m \<le> 11" by linarith
    then show ?thesis by (simp add: month_start_ms_def pacific_offset_def)
  next
    case False
    then show ?thesis
      using hour_pos(1) by (auto simp: month_start_ms_def pacific_offset_def split: if_splits)
  qed
  finally show ?thesis by simp
qed

text \<open>
  C30: The months of the ledger share out time: a moment is in a month exactly when it is not before
  that month's first millisecond and is before the next month's, with the change to and from
  daylight saving time counted. So a month's spending is counted once, and in one month only.
\<close>

theorem month_is_its_interval:
  assumes "1970 \<le> y" "1 \<le> m" "m \<le> 12" "(y, m) \<noteq> (1970, 1)"
  shows "pacific_month ms = (y, m) \<longleftrightarrow>
    month_start_ms y m \<le> ms \<and> ms < (\<lambda>(y', m'). month_start_ms y' m') (next_month y m)"
proof -
  obtain y' m' where nm: "next_month y m = (y', m')" by (cases "next_month y m")
  obtain a b c where abc: "civil_from_days (int ((ms - pacific_offset ms) div day_ms)) = (a, b, c)"
    by (cases "civil_from_days (int ((ms - pacific_offset ms) div day_ms))")
  have later: "1970 \<le> y'" "1 \<le> m'" "m' \<le> 12" "(y', m') \<noteq> (1970, 1)"
    using nm assms by (auto simp: next_month_def split: if_splits)
  have "pacific_month ms = (y, m) \<longleftrightarrow> (a, b) = (y, m)" by (simp add: pacific_month_def Let_def abc)
  also have "\<dots> \<longleftrightarrow> month_start_ms y m \<le> ms \<and> \<not> month_start_ms y' m' \<le> ms"
    unfolding civil_month [OF assms(2,3) nm abc] month_start_reached [OF assms] month_start_reached [OF later]
    by (simp only: not_le)
  finally show ?thesis by (simp add: nm not_le)
qed

theorem month_is_its_interval_witness:
  "pacific_month 1772323200000 = (2026, 2) \<and> pacific_month 1772352000000 = (2026, 3)"
proof -
  have "month_start_ms 2026 2 = 1769932800000" "month_start_ms 2026 3 = 1772352000000"
    "month_start_ms 2026 4 = 1775026800000"
    by code_simp+
  then show ?thesis
    using month_is_its_interval [of 2026 2 1772323200000] month_is_its_interval [of 2026 3 1772352000000]
    by (simp add: next_month_def)
qed

end
