(* ===== verification/Spending.thy ===== *)
theory Spending
  imports Pacific_Time Store "HOL-Library.Product_Lexorder" "HOL-Library.List_Lexorder" "HOL-Library.Sublist"
begin

text \<open>
  Spending on paid AI keys (\<open>crates/ledger/src/spending.rs\<close>): the owner's monthly caps, the record
  of every paid task, money set aside before a request is sent, the bill when the task ends, the
  recovery after a restart, and the records carried into a restored Ledger.

  A \<open>ledger\<close> holds the tables these operations read and write: \<open>spending\<close> (its \<open>CHECK\<close>
  constraints are \<open>row_checks\<close>), the \<open>spending\<close> setting, the departments and positions that are
  still in the organization, the tasks, and the events. Every operation runs in one transaction: a
  result \<open>Inl e\<close> is an error, and then nothing is changed. Ids made by \<open>Uuid::new_v4\<close> are
  arguments. Columns of \<open>INTEGER\<close> type are \<open>i64\<close> and amounts are \<open>u64\<close>: sums, conversions and
  products saturate or fail where the code's do.
\<close>

section \<open>Limits\<close>

definition micros_per_dollar :: nat where "micros_per_dollar = 1000000"
definition min_cap_micros :: nat where "min_cap_micros = 10000"
definition max_cap_micros :: nat where "max_cap_micros = 1000000 * micros_per_dollar"
definition max_set_aside_micros :: nat where "max_set_aside_micros = max_cap_micros"
definition max_caps :: nat where "max_caps = 500"
definition warn_percent :: nat where "warn_percent = 80"
definition max_recent :: nat where "max_recent = 50"
definition max_detail :: nat where "max_detail = 500"

definition u64_sat_mul :: "nat \<Rightarrow> nat \<Rightarrow> nat" where
  "u64_sat_mul a b = min u64_max (a * b)"

text \<open>\<open>i64::try_from(v).unwrap_or(i64::MAX)\<close>.\<close>

definition to_i64 :: "nat \<Rightarrow> nat" where
  "to_i64 v = min (nat i64_max) v"

section \<open>Errors\<close>

text \<open>What makes an input invalid; the words of the source name the same cases.\<close>

datatype invalid_input =
    BadId string
  | NoModel
  | SetAsideTooMuch
  | CapOutOfRange
  | TooManyCaps
  | NotABackupName
  | CapsUnreadable
  | EventSource

datatype ledger_error =
    Sqlite
  | NotFound string
  | InvalidTransition string string string string
  | InvalidInput invalid_input

definition and_then :: "'e + 'a \<Rightarrow> ('a \<Rightarrow> 'e + 'b) \<Rightarrow> 'e + 'b" where
  "and_then r f = (case r of Inl e \<Rightarrow> Inl e | Inr x \<Rightarrow> f x)"

definition ok_or :: "'e \<Rightarrow> 'a option \<Rightarrow> 'e + 'a" where
  "ok_or e x = (case x of None \<Rightarrow> Inl e | Some v \<Rightarrow> Inr v)"

lemma and_then_simps [simp]: "and_then (Inl e) f = Inl e" "and_then (Inr x) f = f x"
  by (simp_all add: and_then_def)

lemma and_then_Inr: "and_then r f = Inr y \<longleftrightarrow> (\<exists>x. r = Inr x \<and> f x = Inr y)"
  by (cases r) simp_all

lemma ok_or_Inr [simp]: "ok_or e x = Inr y \<longleftrightarrow> x = Some y"
  by (cases x) (simp_all add: ok_or_def)

section \<open>Caps and records\<close>

datatype cap_covers = Business | Department string | Position string

record spending_cap =
  cap_id :: string
  cap_covers :: cap_covers
  monthly_micros :: nat
  cap_set_at :: nat
  cap_set_by :: string

record cap_marks =
  mk_month :: string
  mk_warned :: bool
  mk_stopped :: bool
  mk_stopped_why :: "string option"

record spending_config =
  sc_caps :: "spending_cap list"
  sc_marks :: "(string, cap_marks) store"

definition default_marks :: cap_marks where
  "default_marks = \<lparr>mk_month = '''', mk_warned = False, mk_stopped = False, mk_stopped_why = None\<rparr>"

definition default_config :: spending_config where
  "default_config = \<lparr>sc_caps = [], sc_marks = []\<rparr>"

datatype cap_state = CapOk | CapWarning | CapStopped

datatype spending_state = SetAside | Spent | NotPriced | Released

fun state_str :: "spending_state \<Rightarrow> string" where
  "state_str SetAside = ''setAside''"
| "state_str Spent = ''spent''"
| "state_str NotPriced = ''notPriced''"
| "state_str Released = ''released''"

datatype priced_by = ByService | ByPriceList

record spending_row =
  row_id :: string
  row_task :: "string option"
  row_execution :: "string option"
  row_position :: "string option"
  row_position_title :: "string option"
  row_department :: "string option"
  row_department_name :: "string option"
  row_runtime :: string
  row_model :: string
  row_key_id :: "string option"
  row_key_name :: "string option"
  row_month :: string
  row_state :: spending_state
  row_set_aside :: nat
  row_spent :: "nat option"
  row_priced_by :: "priced_by option"
  row_detail :: "string option"
  row_created_at :: nat
  row_settled_at :: "nat option"

record paid_task =
  pt_task :: "string option"
  pt_execution :: "string option"
  pt_position :: "(string \<times> string) option"
  pt_department :: "(string \<times> string) option"
  pt_runtime :: string
  pt_model :: string
  pt_key :: "(string \<times> string) option"
  pt_most :: nat

record set_aside =
  sa_record_id :: string
  sa_month :: string
  sa_most :: nat

record spending_refusal =
  rf_cap_id :: "string option"
  rf_reason :: string

datatype bill = BillSpent nat priced_by | BillNotPriced string | BillReleased

text \<open>The events of this part of the Ledger, with their payloads.\<close>

datatype stop_why = WhyFull nat | WhyRefused string

datatype spending_event =
    CapSet string cap_covers string nat "nat option"
  | CapRemoved string cap_covers string
  | TaskRefused "string option" string nat string string "string option"
  | CapStoppedEvent string cap_covers string string stop_why nat
  | MoneySetAside string string nat string string "string option" "string option" "string option"
  | SpendingRecorded string string spending_state "nat option" "priced_by option" "string option"
  | CapWarned string cap_covers string string nat nat nat
  | CapPassed string cap_covers string string nat nat
  | CarriedOver string nat nat

record ledger_event =
  le_source :: string
  le_task :: "string option"
  le_body :: spending_event

datatype caps_setting = NoSetting | Damaged | Caps spending_config

record ledger =
  lg_spending :: "spending_row list"
  lg_setting :: caps_setting
  lg_departments :: "(string, string) store"
  lg_positions :: "(string, string) store"
  lg_tasks :: "string list"
  lg_events :: "ledger_event list"

section \<open>The setting\<close>

definition config_read :: "ledger \<Rightarrow> ledger_error + spending_config" where
  "config_read l =
     (case lg_setting l of
        NoSetting \<Rightarrow> Inr default_config
      | Damaged \<Rightarrow> Inl (InvalidInput CapsUnreadable)
      | Caps c \<Rightarrow> Inr c)"

definition config_write :: "spending_config \<Rightarrow> ledger \<Rightarrow> ledger" where
  "config_write c l = l\<lparr>lg_setting := Caps c\<rparr>"

definition business :: "spending_config \<Rightarrow> spending_cap option" where
  "business c = find (\<lambda>cap. cap_covers cap = Business) (sc_caps c)"

definition marks_for :: "string \<Rightarrow> string \<Rightarrow> spending_config \<Rightarrow> cap_marks" where
  "marks_for cid month c =
     (let marks = (case get (sc_marks c) cid of None \<Rightarrow> default_marks | Some mk \<Rightarrow> mk)
      in if mk_month marks \<noteq> month then default_marks\<lparr>mk_month := month\<rparr> else marks)"

text \<open>What a caller does through the reference \<open>marks_for\<close> returns.\<close>

definition set_marks :: "string \<Rightarrow> cap_marks \<Rightarrow> spending_config \<Rightarrow> spending_config" where
  "set_marks cid mk c = c\<lparr>sc_marks := put cid mk (sc_marks c)\<rparr>"

section \<open>Money in words\<close>

function group_digits :: "string \<Rightarrow> string \<Rightarrow> string" where
  "group_digits digits grouped =
     (if length digits > 3
      then group_digits (take (length digits - 3) digits) ('','' @ drop (length digits - 3) digits @ grouped)
      else digits @ grouped)"
  by pat_completeness auto
termination by (relation "measure (\<lambda>(digits, _). length digits)") auto

declare group_digits.simps [simp del]

definition dollars :: "nat \<Rightarrow> string" where
  "dollars micros =
     (if 0 < micros \<and> micros < 10000
      then ''$0.'' @ zero_filled 4 (max 1 (min 9999 (div_ceil micros 100)))
      else let cents = u64_sat_add micros 5000 div 10000
           in ''$'' @ group_digits (dec (cents div 100)) '''' @ ''.'' @ zero_filled 2 (cents mod 100))"

definition dollars_up :: "nat \<Rightarrow> string" where
  "dollars_up micros =
     (if micros < 10000 then dollars micros else dollars (u64_sat_mul (div_ceil micros 10000) 10000))"

definition dollars_down :: "nat \<Rightarrow> string" where
  "dollars_down micros =
     (if 10000 \<le> micros then dollars (micros div 10000 * 10000)
      else if 100 \<le> micros then ''$0.'' @ zero_filled 4 (micros div 100)
      else dollars 0)"

section \<open>Helpers\<close>

definition clean_id :: "string \<Rightarrow> string option \<Rightarrow> ledger_error + string option" where
  "clean_id what v =
     (case map_option trim v of
        None \<Rightarrow> Inr None
      | Some v \<Rightarrow>
          if v = '''' \<or> length v > 64 \<or> list_ex is_control v then Inl (InvalidInput (BadId what))
          else Inr (Some v))"

definition clean_label :: "string option \<Rightarrow> nat \<Rightarrow> string option" where
  "clean_label v n =
     (case map_option (\<lambda>v. trim (take n (filter (\<lambda>c. \<not> is_control c) v))) v of
        None \<Rightarrow> None
      | Some v \<Rightarrow> if v = '''' then None else Some v)"

definition unwrap_or :: "'a \<Rightarrow> 'a option \<Rightarrow> 'a" where
  "unwrap_or d x = (case x of None \<Rightarrow> d | Some v \<Rightarrow> v)"

text \<open>Recording an event: its source is checked, and its task must be one the Ledger has.\<close>

definition event_of :: "string \<Rightarrow> string option \<Rightarrow> spending_event \<Rightarrow> ledger \<Rightarrow> ledger_error + ledger" where
  "event_of actor task body l =
     (if trim actor = '''' \<or> byte_len actor > 200 then Inl (InvalidInput EventSource)
      else if (case task of None \<Rightarrow> False | Some t \<Rightarrow> t \<notin> set (lg_tasks l)) then Inl Sqlite
      else Inr (l\<lparr>lg_events := lg_events l @ [\<lparr>le_source = actor, le_task = task, le_body = body\<rparr>]\<rparr>))"

text \<open>What a record counts for, and whether a cap's sum takes it in.\<close>

definition counts :: "spending_row \<Rightarrow> nat" where
  "counts r =
     (case row_state r of
        Spent \<Rightarrow> unwrap_or 0 (row_spent r)
      | Released \<Rightarrow> 0
      | _ \<Rightarrow> row_set_aside r)"

definition pends :: "spending_row \<Rightarrow> nat" where
  "pends r = (if row_state r = SetAside then row_set_aside r else 0)"

definition in_sum :: "string \<Rightarrow> cap_covers \<Rightarrow> spending_row \<Rightarrow> bool" where
  "in_sum month covers r \<longleftrightarrow>
     row_month r = month \<and>
     (case covers of
        Business \<Rightarrow> True
      | Department i \<Rightarrow> row_department r = Some i
      | Position i \<Rightarrow> row_position r = Some i)"

definition sum_of :: "(spending_row \<Rightarrow> nat) \<Rightarrow> string \<Rightarrow> cap_covers \<Rightarrow> spending_row list \<Rightarrow> nat" where
  "sum_of f month covers rows = sum_list (map f (filter (in_sum month covers) rows))"

text \<open>\<open>SUM\<close> over integers fails when the sum leaves 64 bits.\<close>

definition used :: "ledger \<Rightarrow> string \<Rightarrow> cap_covers \<Rightarrow> ledger_error + (nat \<times> nat)" where
  "used l month covers =
     (let counted = sum_of counts month covers (lg_spending l);
          pending = sum_of pends month covers (lg_spending l)
      in if nat i64_max < counted \<or> nat i64_max < pending then Inl Sqlite else Inr (counted, pending))"

definition covers_task :: "string option \<Rightarrow> string option \<Rightarrow> cap_covers \<Rightarrow> bool" where
  "covers_task department position covers =
     (case covers of
        Business \<Rightarrow> True
      | Department i \<Rightarrow> Some i = department
      | Position i \<Rightarrow> Some i = position)"

definition covering :: "spending_config \<Rightarrow> string option \<Rightarrow> string option \<Rightarrow> spending_cap list" where
  "covering c department position =
     filter (\<lambda>cap. covers_task department position (cap_covers cap)) (sc_caps c)"

definition label_of :: "ledger \<Rightarrow> cap_covers \<Rightarrow> string \<times> bool" where
  "label_of l covers =
     (case covers of
        Business \<Rightarrow> (''The business'', False)
      | Department i \<Rightarrow>
          (case get (lg_departments l) i of
             Some name \<Rightarrow> (name, False)
           | None \<Rightarrow> (''A department no longer in the organization'', True))
      | Position i \<Rightarrow>
          (case get (lg_positions l) i of
             Some title \<Rightarrow> (title, False)
           | None \<Rightarrow> (''A position no longer in the organization'', True)))"

definition cap_words :: "string \<Rightarrow> cap_covers \<Rightarrow> string" where
  "cap_words label covers =
     (case covers of
        Business \<Rightarrow> ''the business's spending cap''
      | _ \<Rightarrow> ''the spending cap for '' @ label)"

definition month_now :: "nat \<Rightarrow> string" where
  "month_now now = (case pacific_month now of (year, month) \<Rightarrow> month_key year month)"

definition spent_words :: "nat \<Rightarrow> nat \<Rightarrow> string" where
  "spent_words settled cap = dollars settled @ '' of '' @ dollars cap @ '' is spent this month.''"

section \<open>After a record is settled\<close>

record settling =
  st_month :: string
  st_this_month :: string
  st_department :: "string option"
  st_position :: "string option"
  st_task :: "string option"
  st_over :: bool

text \<open>The warning at 80 percent and the stop at 100, each once a month.\<close>

definition warns :: "nat \<Rightarrow> nat \<Rightarrow> bool" where
  "warns settled cap \<longleftrightarrow> u64_sat_mul cap warn_percent \<le> u64_sat_mul settled 100"

definition warn_cap ::
    "spending_cap \<Rightarrow> string \<Rightarrow> string \<Rightarrow> nat \<Rightarrow> ledger \<times> cap_marks \<times> bool \<Rightarrow>
      ledger_error + (ledger \<times> cap_marks \<times> bool)" where
  "warn_cap cap label month settled = (\<lambda>(l, marks, changed).
     if warns settled (monthly_micros cap) \<and> \<not> mk_warned marks
     then and_then
            (event_of ''plenipo'' None
               (CapWarned (cap_id cap) (cap_covers cap) label month
                  (u64_sat_mul settled 100 div max 1 (monthly_micros cap)) settled (monthly_micros cap)) l)
            (\<lambda>l. Inr (l, marks\<lparr>mk_warned := True\<rparr>, True))
     else Inr (l, marks, changed))"

definition stop_cap ::
    "spending_cap \<Rightarrow> string \<Rightarrow> string \<Rightarrow> nat \<Rightarrow> ledger \<times> cap_marks \<times> bool \<Rightarrow>
      ledger_error + (ledger \<times> cap_marks \<times> bool)" where
  "stop_cap cap label month settled = (\<lambda>(l, marks, changed).
     if monthly_micros cap \<le> settled \<and> \<not> mk_stopped marks
     then and_then
            (event_of ''plenipo'' None
               (CapStoppedEvent (cap_id cap) (cap_covers cap) label month (WhyFull settled) (monthly_micros cap)) l)
            (\<lambda>l. Inr (l, marks\<lparr>mk_stopped := True, mk_stopped_why := Some (spent_words settled (monthly_micros cap))\<rparr>,
                      True))
     else Inr (l, marks, changed))"

type_synonym after_state = "ledger \<times> spending_config \<times> string list \<times> bool"

definition pass_cap ::
    "settling \<Rightarrow> spending_cap \<Rightarrow> string \<Rightarrow> nat \<Rightarrow> ledger \<Rightarrow> ledger_error + (ledger \<times> string list)" where
  "pass_cap r cap label counted l =
     (if st_over r \<and> monthly_micros cap < counted
      then and_then
             (event_of ''plenipo'' (st_task r)
                (CapPassed (cap_id cap) (cap_covers cap) label (st_month r) counted (monthly_micros cap)) l)
             (\<lambda>l. Inr (l, [label]))
      else Inr (l, []))"

definition after_cap :: "settling \<Rightarrow> spending_cap \<Rightarrow> after_state \<Rightarrow> ledger_error + after_state" where
  "after_cap r cap = (\<lambda>(l, c, passed, changed).
     and_then (used l (st_month r) (cap_covers cap)) (\<lambda>(counted, pending).
     let label = fst (label_of l (cap_covers cap)) in
     and_then (pass_cap r cap label counted l) (\<lambda>(l, more).
     if st_month r \<noteq> st_this_month r then Inr (l, c, passed @ more, changed)
     else
       let settled = counted - pending; marks = marks_for (cap_id cap) (st_month r) c in
       and_then (warn_cap cap label (st_month r) settled (l, marks, changed)) (\<lambda>w.
       and_then (stop_cap cap label (st_month r) settled w) (\<lambda>(l, marks, changed).
       Inr (l, set_marks (cap_id cap) marks c, passed @ more, changed))))))"

fun after_caps :: "settling \<Rightarrow> spending_cap list \<Rightarrow> after_state \<Rightarrow> ledger_error + after_state" where
  "after_caps r [] s = Inr s"
| "after_caps r (cap # caps) s = and_then (after_cap r cap s) (after_caps r caps)"

text \<open>The setting is written when a mark changed. The configuration in memory is handed back: the
  recovery goes on with it.\<close>

definition after_spending ::
    "settling \<Rightarrow> spending_config \<Rightarrow> ledger \<Rightarrow> ledger_error + (ledger \<times> spending_config \<times> string list)" where
  "after_spending r c l =
     and_then (after_caps r (covering c (st_department r) (st_position r)) (l, c, [], False))
       (\<lambda>(l, c, passed, changed). Inr (if changed then config_write c l else l, c, passed))"

section \<open>The Ledger's spending\<close>

definition spending_room :: "string option \<Rightarrow> string option \<Rightarrow> nat \<Rightarrow> ledger \<Rightarrow> ledger_error + nat option" where
  "spending_room department position now l =
     and_then (config_read l) (\<lambda>c.
     and_then
       (foldl (\<lambda>room cap. and_then room (\<lambda>room.
           and_then (used l (month_now now) (cap_covers cap)) (\<lambda>(counted, _).
           Inr (min room (monthly_micros cap - counted)))))
         (Inr u64_max) (covering c department position))
       (\<lambda>room. Inr (Some room)))"

definition spending_caps :: "ledger \<Rightarrow> ledger_error + spending_cap list" where
  "spending_caps l = and_then (config_read l) (\<lambda>c. Inr (sc_caps c))"

definition has_business_cap :: "ledger \<Rightarrow> ledger_error + bool" where
  "has_business_cap l = and_then (config_read l) (\<lambda>c. Inr (business c \<noteq> None))"

definition clean_covers :: "cap_covers \<Rightarrow> ledger_error + cap_covers" where
  "clean_covers covers =
     (case covers of
        Business \<Rightarrow> Inr Business
      | Department i \<Rightarrow>
          and_then (clean_id ''the department'' (Some i)) (\<lambda>i. Inr (Department (unwrap_or '''' i)))
      | Position i \<Rightarrow>
          and_then (clean_id ''the position'' (Some i)) (\<lambda>i. Inr (Position (unwrap_or '''' i))))"

definition gone_words :: "cap_covers \<Rightarrow> string" where
  "gone_words covers =
     (case covers of
        Business \<Rightarrow> ''''
      | Department i \<Rightarrow> ''department '' @ i
      | Position i \<Rightarrow> ''position '' @ i)"

text \<open>A cap that was raised: what the owner was told is taken back where it no longer holds.\<close>

definition raised_marks :: "nat \<Rightarrow> nat \<Rightarrow> cap_marks \<Rightarrow> cap_marks" where
  "raised_marks counted monthly marks =
     (let marks = (if counted < monthly then marks\<lparr>mk_stopped := False, mk_stopped_why := None\<rparr> else marks)
      in if u64_sat_mul counted 100 < u64_sat_mul monthly warn_percent then marks\<lparr>mk_warned := False\<rparr> else marks)"

fun find_index :: "('a \<Rightarrow> bool) \<Rightarrow> 'a list \<Rightarrow> nat option" where
  "find_index p [] = None"
| "find_index p (x # xs) = (if p x then Some 0 else map_option Suc (find_index p xs))"

definition change_cap ::
    "nat \<Rightarrow> string \<Rightarrow> nat \<Rightarrow> nat \<Rightarrow> string \<Rightarrow> spending_config \<Rightarrow> ledger \<Rightarrow> ledger_error + (ledger \<times> spending_cap)" where
  "change_cap i label monthly now actor c l =
     (let before = monthly_micros (sc_caps c ! i);
          cap = (sc_caps c ! i)\<lparr>monthly_micros := monthly, cap_set_at := now, cap_set_by := actor\<rparr>;
          c = c\<lparr>sc_caps := (sc_caps c)[i := cap]\<rparr>
      in and_then
           (if before < monthly
            then and_then (used l (month_now now) (cap_covers cap)) (\<lambda>(counted, _).
                   Inr (set_marks (cap_id cap)
                          (raised_marks counted monthly (marks_for (cap_id cap) (month_now now) c)) c))
            else Inr c)
           (\<lambda>c. and_then
              (event_of actor None (CapSet (cap_id cap) (cap_covers cap) label monthly (Some before)) l)
              (\<lambda>l. Inr (config_write c l, cap))))"

definition add_cap ::
    "string \<Rightarrow> cap_covers \<Rightarrow> string \<Rightarrow> nat \<Rightarrow> nat \<Rightarrow> string \<Rightarrow> spending_config \<Rightarrow> ledger \<Rightarrow>
      ledger_error + (ledger \<times> spending_cap)" where
  "add_cap uuid covers label monthly now actor c l =
     (if max_caps \<le> length (sc_caps c) then Inl (InvalidInput TooManyCaps)
      else
        let cap = \<lparr>cap_id = uuid, cap_covers = covers, monthly_micros = monthly, cap_set_at = now,
                   cap_set_by = actor\<rparr>
        in and_then (event_of actor None (CapSet (cap_id cap) (cap_covers cap) label monthly None) l)
             (\<lambda>l. Inr (config_write (c\<lparr>sc_caps := sc_caps c @ [cap]\<rparr>) l, cap)))"

definition set_spending_cap ::
    "string \<Rightarrow> cap_covers \<Rightarrow> nat \<Rightarrow> string \<Rightarrow> nat \<Rightarrow> ledger \<Rightarrow> ledger_error + (ledger \<times> spending_cap)" where
  "set_spending_cap uuid covers monthly actor now l =
     (if \<not> (min_cap_micros \<le> monthly \<and> monthly \<le> max_cap_micros) then Inl (InvalidInput CapOutOfRange)
      else
        and_then (clean_covers covers) (\<lambda>covers.
        let actor = unwrap_or ''owner'' (clean_label (Some actor) 64) in
        case label_of l covers of (label, gone) \<Rightarrow>
        if gone then Inl (NotFound (gone_words covers))
        else
          and_then (config_read l) (\<lambda>c.
          case find_index (\<lambda>cap. cap_covers cap = covers) (sc_caps c) of
            Some i \<Rightarrow> change_cap i label monthly now actor c l
          | None \<Rightarrow> add_cap uuid covers label monthly now actor c l)))"

definition remove_spending_cap :: "string \<Rightarrow> string \<Rightarrow> ledger \<Rightarrow> ledger_error + ledger" where
  "remove_spending_cap cid actor l =
     and_then (clean_id ''the cap'' (Some cid)) (\<lambda>cid.
     let cid = unwrap_or '''' cid; actor = unwrap_or ''owner'' (clean_label (Some actor) 64) in
     and_then (config_read l) (\<lambda>c.
     and_then (ok_or (NotFound (''spending cap '' @ cid)) (find_index (\<lambda>cap. cap_id cap = cid) (sc_caps c))) (\<lambda>i.
     let cap = sc_caps c ! i;
         c = c\<lparr>sc_caps := take i (sc_caps c) @ drop (Suc i) (sc_caps c), sc_marks := del (cap_id cap) (sc_marks c)\<rparr> in
     and_then
       (event_of actor None (CapRemoved (cap_id cap) (cap_covers cap) (fst (label_of l (cap_covers cap)))) l)
       (\<lambda>l. Inr (config_write c l)))))"

section \<open>Setting money aside\<close>

text \<open>The cap with the least room decides.\<close>

fun tightest ::
    "ledger \<Rightarrow> string \<Rightarrow> spending_cap list \<Rightarrow> (spending_cap \<times> nat) option \<Rightarrow>
      ledger_error + (spending_cap \<times> nat) option" where
  "tightest l month [] best = Inr best"
| "tightest l month (cap # caps) best =
     and_then (used l month (cap_covers cap)) (\<lambda>(counted, _).
     let left = monthly_micros cap - counted
     in tightest l month caps
          (case best of
             None \<Rightarrow> Some (cap, left)
           | Some (_, least) \<Rightarrow> if left < least then Some (cap, left) else best))"

definition refusal_words :: "ledger \<Rightarrow> nat \<Rightarrow> spending_cap \<Rightarrow> nat \<Rightarrow> string" where
  "refusal_words l most cap left =
     ''Not started: this task could cost up to '' @ dollars_up most @ '', and '' @ dollars_down left @
     '' is left this month under '' @ cap_words (fst (label_of l (cap_covers cap))) (cap_covers cap) @
     '' ('' @ dollars (monthly_micros cap) @ '' a month).''"

text \<open>A refusal is recorded, and the owner is told once a month per cap.\<close>

definition refuse ::
    "spending_row \<Rightarrow> nat \<Rightarrow> spending_cap \<Rightarrow> string \<Rightarrow> spending_config \<Rightarrow> ledger \<Rightarrow>
      ledger_error + (ledger \<times> (spending_refusal + set_aside))" where
  "refuse row most cap reason c l =
     and_then
       (event_of ''plenipo'' (row_task row)
          (TaskRefused (Some (cap_id cap)) reason most (row_runtime row) (row_model row) (row_key_name row)) l)
       (\<lambda>l.
     let marks = marks_for (cap_id cap) (row_month row) c in
     and_then
       (if mk_stopped marks then Inr (l, marks)
        else and_then
          (event_of ''plenipo'' None
             (CapStoppedEvent (cap_id cap) (cap_covers cap) (fst (label_of l (cap_covers cap))) (row_month row)
                (WhyRefused reason) (monthly_micros cap)) l)
          (\<lambda>l. Inr (l, marks\<lparr>mk_stopped := True, mk_stopped_why := Some reason\<rparr>)))
       (\<lambda>(l, marks).
     Inr (config_write (set_marks (cap_id cap) marks c) l,
          Inl \<lparr>rf_cap_id = Some (cap_id cap), rf_reason = reason\<rparr>)))"

definition id_fits :: "string \<Rightarrow> bool" where
  "id_fits s \<longleftrightarrow> 1 \<le> length s \<and> length s \<le> 64"

definition all_opt :: "('a \<Rightarrow> bool) \<Rightarrow> 'a option \<Rightarrow> bool" where
  "all_opt p x = (case x of None \<Rightarrow> True | Some v \<Rightarrow> p v)"

text \<open>\<open>month GLOB '[0-9][0-9][0-9][0-9]-[0-1][0-9]'\<close>.\<close>

definition month_fits :: "string \<Rightarrow> bool" where
  "month_fits s \<longleftrightarrow>
     (case s of
        [a, b, c, d, e, f, g] \<Rightarrow>
          list_all is_ascii_digit [a, b, c, d, f, g] \<and> e = CHR ''-'' \<and> f \<in> {CHR ''0'', CHR ''1''}
      | _ \<Rightarrow> False)"

text \<open>The constraints of the table.\<close>

definition row_checks :: "spending_row \<Rightarrow> bool" where
  "row_checks r \<longleftrightarrow>
     id_fits (row_id r) \<and> all_opt id_fits (row_task r) \<and> all_opt id_fits (row_execution r) \<and>
     all_opt id_fits (row_position r) \<and> all_opt id_fits (row_department r) \<and> id_fits (row_runtime r) \<and>
     1 \<le> length (row_model r) \<and> length (row_model r) \<le> 200 \<and> all_opt id_fits (row_key_id r) \<and>
     all_opt (\<lambda>s. 1 \<le> length s \<and> length s \<le> 100) (row_key_name r) \<and> month_fits (row_month r) \<and>
     all_opt (\<lambda>s. length s \<le> 500) (row_detail r) \<and>
     (row_state r = SetAside \<longleftrightarrow> row_settled_at r = None) \<and>
     (row_state r = Spent \<longleftrightarrow> row_spent r \<noteq> None) \<and>
     (row_state r = Spent \<longleftrightarrow> row_priced_by r \<noteq> None)"

definition insert_row :: "spending_row \<Rightarrow> ledger \<Rightarrow> ledger_error + ledger" where
  "insert_row r l =
     (if row_checks r \<and> row_id r \<notin> set (map row_id (lg_spending l))
      then Inr (l\<lparr>lg_spending := lg_spending l @ [r]\<rparr>) else Inl Sqlite)"

text \<open>The record of a task, its parts cleaned in the order the code cleans them.\<close>

definition paid_row :: "string \<Rightarrow> paid_task \<Rightarrow> nat \<Rightarrow> ledger_error + spending_row" where
  "paid_row uuid t now =
     and_then (clean_id ''the task'' (pt_task t)) (\<lambda>task.
     and_then (clean_id ''the execution'' (pt_execution t)) (\<lambda>execution.
     and_then (clean_id ''the position'' (map_option fst (pt_position t))) (\<lambda>position.
     and_then (clean_id ''the department'' (map_option fst (pt_department t))) (\<lambda>department.
     and_then (clean_id ''the AI tool'' (Some (pt_runtime t))) (\<lambda>runtime.
     and_then (ok_or (InvalidInput NoModel) (clean_label (Some (pt_model t)) 200)) (\<lambda>model.
     and_then (clean_id ''the key'' (map_option fst (pt_key t))) (\<lambda>key.
     Inr \<lparr>row_id = uuid, row_task = task, row_execution = execution, row_position = position,
          row_position_title = clean_label (map_option snd (pt_position t)) 200, row_department = department,
          row_department_name = clean_label (map_option snd (pt_department t)) 200,
          row_runtime = unwrap_or '''' runtime, row_model = model, row_key_id = key,
          row_key_name = clean_label (map_option snd (pt_key t)) 100, row_month = month_now now,
          row_state = SetAside, row_set_aside = to_i64 (pt_most t), row_spent = None, row_priced_by = None,
          row_detail = None, row_created_at = to_i64 now, row_settled_at = None\<rparr>)))))))"

definition record_set_aside ::
    "spending_row \<Rightarrow> nat \<Rightarrow> ledger \<Rightarrow> ledger_error + (ledger \<times> (spending_refusal + set_aside))" where
  "record_set_aside row most l =
     and_then (insert_row row l) (\<lambda>l.
     and_then
       (event_of ''plenipo'' (row_task row)
          (MoneySetAside (row_id row) (row_month row) most (row_runtime row) (row_model row)
             (row_key_name row) (row_position row) (row_department row)) l)
       (\<lambda>l. Inr (l, Inr \<lparr>sa_record_id = row_id row, sa_month = row_month row, sa_most = most\<rparr>)))"

definition set_aside_spending ::
    "string \<Rightarrow> paid_task \<Rightarrow> nat \<Rightarrow> ledger \<Rightarrow> ledger_error + (ledger \<times> (spending_refusal + set_aside))" where
  "set_aside_spending uuid t now l =
     (if max_set_aside_micros < pt_most t then Inl (InvalidInput SetAsideTooMuch)
      else
        and_then (paid_row uuid t now) (\<lambda>row.
        and_then (config_read l) (\<lambda>c.
        and_then (tightest l (row_month row) (covering c (row_department row) (row_position row)) None) (\<lambda>tight.
        case tight of
          Some (cap, left) \<Rightarrow>
            if left < pt_most t then refuse row (pt_most t) cap (refusal_words l (pt_most t) cap left) c l
            else record_set_aside row (pt_most t) l
        | None \<Rightarrow> record_set_aside row (pt_most t) l))))"

section \<open>The bill\<close>

definition update_row :: "string \<Rightarrow> (spending_row \<Rightarrow> spending_row) \<Rightarrow> ledger \<Rightarrow> ledger" where
  "update_row i f l = l\<lparr>lg_spending := map (\<lambda>r. if row_id r = i then f r else r) (lg_spending l)\<rparr>"

definition find_row :: "string \<Rightarrow> ledger \<Rightarrow> spending_row option" where
  "find_row i l = find (\<lambda>r. row_id r = i) (lg_spending l)"

definition settle_row ::
    "spending_state \<Rightarrow> nat option \<Rightarrow> priced_by option \<Rightarrow> string option \<Rightarrow> nat \<Rightarrow> spending_row \<Rightarrow> spending_row" where
  "settle_row state spent by_whom detail now r =
     r\<lparr>row_state := state, row_spent := spent, row_priced_by := by_whom, row_detail := detail,
       row_settled_at := Some (to_i64 now)\<rparr>"

text \<open>What a bill says, as columns, and whether it is more than was set aside.\<close>

fun read_bill ::
    "bill \<Rightarrow> nat \<Rightarrow> spending_state \<times> nat option \<times> priced_by option \<times> string option \<times> bool" where
  "read_bill (BillSpent micros by_whom) aside =
     (if max_set_aside_micros < micros
      then (Spent, Some (to_i64 max_set_aside_micros), Some by_whom,
            Some (''The bill read was more than '' @ dollars max_set_aside_micros @
                  '', so it is recorded as that much.''), aside < max_set_aside_micros)
      else (Spent, Some (to_i64 micros), Some by_whom, None, aside < micros))"
| "read_bill (BillNotPriced detail) aside = (NotPriced, None, None, clean_label (Some detail) max_detail, False)"
| "read_bill BillReleased aside = (Released, None, None, None, False)"

definition settle_spending :: "string \<Rightarrow> bill \<Rightarrow> nat \<Rightarrow> ledger \<Rightarrow> ledger_error + (ledger \<times> string list)" where
  "settle_spending rid b now l =
     and_then (clean_id ''the spending record'' (Some rid)) (\<lambda>rid.
     let rid = unwrap_or '''' rid in
     and_then (ok_or (NotFound (''spending record '' @ rid)) (find_row rid l)) (\<lambda>r.
     if row_state r \<noteq> SetAside
     then Inl (InvalidTransition ''spending record'' rid (state_str (row_state r)) ''settled'')
     else case read_bill b (row_set_aside r) of (state, spent, by_whom, detail, over) \<Rightarrow>
       and_then
         (event_of ''plenipo'' (row_task r) (SpendingRecorded rid (row_month r) state spent by_whom detail)
            (update_row rid (settle_row state spent by_whom detail now) l))
         (\<lambda>l.
       case config_read l of
         Inl _ \<Rightarrow> Inr (l, [])
       | Inr c \<Rightarrow>
           and_then
             (after_spending
                \<lparr>st_month = row_month r, st_this_month = month_now now, st_department = row_department r,
                 st_position = row_position r, st_task = row_task r, st_over = over\<rparr> c l)
             (\<lambda>(l, _, passed). Inr (l, passed)))))"

section \<open>After a restart\<close>

definition recovered_detail :: string where
  "recovered_detail =
     ''Plenipo stopped before this task's bill was read, so it counts at the most it could have cost.''"

definition recover_row :: "nat \<Rightarrow> spending_row \<Rightarrow> spending_row" where
  "recover_row now r =
     r\<lparr>row_state := NotPriced, row_detail := Some recovered_detail, row_settled_at := Some (to_i64 now)\<rparr>"

fun recover_all ::
    "nat \<Rightarrow> spending_row list \<Rightarrow> spending_config option \<Rightarrow> ledger \<Rightarrow>
      ledger_error + (ledger \<times> spending_config option)" where
  "recover_all now [] c l = Inr (l, c)"
| "recover_all now (r # rs) c l =
     and_then
       (event_of ''plenipo'' (row_task r)
          (SpendingRecorded (row_id r) (row_month r) NotPriced None None (Some recovered_detail))
          (update_row (row_id r) (recover_row now) l))
       (\<lambda>l.
     case c of
       None \<Rightarrow> recover_all now rs None l
     | Some c \<Rightarrow>
         and_then
           (after_spending
              \<lparr>st_month = row_month r, st_this_month = month_now now, st_department = row_department r,
               st_position = row_position r, st_task = row_task r, st_over = False\<rparr> c l)
           (\<lambda>(l, c, _). recover_all now rs (Some c) l))"

text \<open>The records left over, oldest first.\<close>

definition left_over :: "nat \<Rightarrow> ledger \<Rightarrow> spending_row list" where
  "left_over started l =
     sort_key row_created_at
       (filter (\<lambda>r. row_state r = SetAside \<and> row_created_at r < to_i64 started) (lg_spending l))"

definition recover_spending :: "nat \<Rightarrow> nat \<Rightarrow> ledger \<Rightarrow> ledger_error + (ledger \<times> nat)" where
  "recover_spending started now l =
     (let rows = left_over started l;
          c = (case config_read l of Inl _ \<Rightarrow> None | Inr c \<Rightarrow> Some c)
      in and_then (recover_all now rows c l) (\<lambda>(l, _). Inr (l, length rows)))"

section \<open>After a restore\<close>

text \<open>A row the restored Ledger has as set aside takes the kept one's settlement.\<close>

definition take_settlement :: "spending_row list \<Rightarrow> spending_row \<Rightarrow> spending_row" where
  "take_settlement kept r =
     (case find (\<lambda>k. row_id k = row_id r) kept of
        Some k \<Rightarrow>
          if row_state r = SetAside \<and> row_state k \<noteq> SetAside
          then r\<lparr>row_state := row_state k, row_spent := row_spent k, row_priced_by := row_priced_by k,
                 row_detail := row_detail k, row_settled_at := row_settled_at k\<rparr>
          else r
      | None \<Rightarrow> r)"

definition takes_settlement :: "spending_row list \<Rightarrow> spending_row \<Rightarrow> bool" where
  "takes_settlement kept r \<longleftrightarrow>
     row_state r = SetAside \<and> list_ex (\<lambda>k. row_id k = row_id r \<and> row_state k \<noteq> SetAside) kept"

definition carry_rows :: "spending_row list \<Rightarrow> spending_row list \<Rightarrow> spending_row list \<times> nat \<times> nat" where
  "carry_rows kept rows =
     (let added = filter (\<lambda>k. row_id k \<notin> set (map row_id rows)) kept;
          all = rows @ added
      in (map (take_settlement kept) all, length added, length (filter (takes_settlement kept) all)))"

text \<open>The kept backup: no table, or its rows.\<close>

definition carry_attached :: "string \<Rightarrow> spending_row list option \<Rightarrow> ledger \<Rightarrow> ledger_error + (ledger \<times> nat)" where
  "carry_attached name kept l =
     (case kept of
        None \<Rightarrow> Inr (l, 0)
      | Some kept \<Rightarrow>
          (case carry_rows kept (lg_spending l) of (rows, added, settled) \<Rightarrow>
             let l = l\<lparr>lg_spending := rows\<rparr>
             in if 0 < added + settled
                then and_then (event_of ''plenipo'' None (CarriedOver name added settled) l) (\<lambda>l. Inr (l, added))
                else Inr (l, added)))"

text \<open>The backups folder is a table of its files; a Ledger in memory has none.\<close>

definition carry_spending_from_backup ::
    "(string, spending_row list option) store option \<Rightarrow> string \<Rightarrow> ledger \<Rightarrow> ledger_error + (ledger \<times> nat)" where
  "carry_spending_from_backup backups name l =
     (if name = '''' \<or> list_ex (\<lambda>c. c = CHR ''/'' \<or> c = CHR 0x5C) name \<or> sublist ''..'' name
      then Inl (InvalidInput NotABackupName)
      else case backups of
        None \<Rightarrow> Inr (l, 0)
      | Some files \<Rightarrow>
          (case get files name of None \<Rightarrow> Inr (l, 0) | Some kept \<Rightarrow> carry_attached name kept l))"

section \<open>What the owner sees\<close>

record cap_status =
  cs_cap :: spending_cap
  cs_label :: string
  cs_gone :: bool
  cs_spent :: nat
  cs_set_aside :: nat
  cs_left :: nat
  cs_state :: cap_state
  cs_stopped_why :: "string option"

record spending_page =
  sp_month :: string
  sp_month_starts_at :: nat
  sp_resets_at :: nat
  sp_has_business_cap :: bool
  sp_caps :: "cap_status list"
  sp_spent :: nat
  sp_set_aside :: nat
  sp_not_priced :: nat
  sp_recent :: "spending_row list"

definition cap_order :: "cap_covers \<Rightarrow> nat" where
  "cap_order covers = (case covers of Business \<Rightarrow> 0 | Department _ \<Rightarrow> 1 | Position _ \<Rightarrow> 2)"

definition status_of :: "ledger \<Rightarrow> spending_config \<Rightarrow> string \<Rightarrow> spending_cap \<Rightarrow> ledger_error + cap_status" where
  "status_of l c month cap =
     and_then (used l month (cap_covers cap)) (\<lambda>(counted, pending).
     let settled = counted - pending;
         marks = (case get (sc_marks c) (cap_id cap) of
                    Some mk \<Rightarrow> if mk_month mk = month then mk else default_marks
                  | None \<Rightarrow> default_marks);
         state = (if mk_stopped marks \<or> monthly_micros cap \<le> settled then CapStopped
                  else if warns settled (monthly_micros cap) then CapWarning else CapOk)
     in Inr \<lparr>cs_cap = cap, cs_label = fst (label_of l (cap_covers cap)), cs_gone = snd (label_of l (cap_covers cap)),
             cs_spent = settled, cs_set_aside = pending, cs_left = monthly_micros cap - counted, cs_state = state,
             cs_stopped_why =
               (if state = CapStopped
                then Some (unwrap_or (spent_words settled (monthly_micros cap)) (mk_stopped_why marks)) else None)\<rparr>)"

fun statuses :: "ledger \<Rightarrow> spending_config \<Rightarrow> string \<Rightarrow> spending_cap list \<Rightarrow> ledger_error + cap_status list" where
  "statuses l c month [] = Inr []"
| "statuses l c month (cap # caps) =
     and_then (status_of l c month cap) (\<lambda>s. and_then (statuses l c month caps) (\<lambda>ss. Inr (s # ss)))"

definition newest_first :: "spending_row list \<Rightarrow> spending_row list" where
  "newest_first rows = rev (sort_key (\<lambda>r. (row_created_at r, map code (row_id r))) rows)"

definition spending_page_at :: "nat \<Rightarrow> ledger \<Rightarrow> ledger_error + spending_page" where
  "spending_page_at now l =
     (case pacific_month now of (year, month) \<Rightarrow>
      case next_month year month of (next_year, next) \<Rightarrow>
      let key = month_key year month in
      and_then (config_read l) (\<lambda>c.
      and_then (statuses l c key (sort_key (\<lambda>cap. cap_order (cap_covers cap)) (sc_caps c))) (\<lambda>caps.
      and_then (used l key Business) (\<lambda>(counted, pending).
      Inr \<lparr>sp_month = key, sp_month_starts_at = month_start_ms year month,
           sp_resets_at = month_start_ms next_year next, sp_has_business_cap = business c \<noteq> None,
           sp_caps = caps, sp_spent = counted - pending, sp_set_aside = pending,
           sp_not_priced =
             min u32_max (length (filter (\<lambda>r. row_month r = key \<and> row_state r = NotPriced) (lg_spending l))),
           sp_recent = take max_recent (newest_first (filter (\<lambda>r. row_month r = key) (lg_spending l)))\<rparr>))))"

definition spending_for_task :: "string \<Rightarrow> ledger \<Rightarrow> spending_row list" where
  "spending_for_task t l =
     sort_key (\<lambda>r. (row_created_at r, map code (row_id r)))
       (filter (\<lambda>r. row_task r = Some t) (lg_spending l))"

end
