(* ===== verification/Spending_Props.thy ===== *)
theory Spending_Props
  imports Spending
begin

text \<open>
  What the spending records and caps guarantee. The operations are the steps of \<open>spend_step\<close>; the
  locale \<open>record_keeper\<close> is the contract a table of records keeps through its steps (what was there
  stays, in its place, and changes at most once), and the runs of the Ledger provide it.
\<close>

section \<open>What operations leave alone\<close>

definition only_events :: "ledger \<Rightarrow> ledger \<Rightarrow> bool" where
  "only_events l l' \<longleftrightarrow>
     lg_spending l' = lg_spending l \<and> lg_setting l' = lg_setting l \<and> lg_tasks l' = lg_tasks l \<and>
     lg_departments l' = lg_departments l \<and> lg_positions l' = lg_positions l"

definition caps_of :: "ledger \<Rightarrow> spending_cap list" where
  "caps_of l = (case lg_setting l of Caps c \<Rightarrow> sc_caps c | _ \<Rightarrow> [])"

text \<open>Nothing but events and the marks on caps has changed.\<close>

definition same_money :: "ledger \<Rightarrow> ledger \<Rightarrow> bool" where
  "same_money l l' \<longleftrightarrow>
     lg_spending l' = lg_spending l \<and> caps_of l' = caps_of l \<and> lg_tasks l' = lg_tasks l"

lemma only_events_refl [simp]: "only_events l l"
  by (simp add: only_events_def)

lemma only_events_fields:
  assumes "only_events l l'"
  shows "lg_spending l' = lg_spending l" "lg_setting l' = lg_setting l" "lg_tasks l' = lg_tasks l"
    "lg_departments l' = lg_departments l" "lg_positions l' = lg_positions l"
  using assms by (simp_all add: only_events_def)

lemma only_events_trans: "only_events l l' \<Longrightarrow> only_events l' l'' \<Longrightarrow> only_events l l''"
  by (simp add: only_events_def)

lemma only_events_money: "only_events l l' \<Longrightarrow> same_money l l'"
  by (simp add: same_money_def caps_of_def only_events_fields)

lemma same_money_refl [simp]: "same_money l l"
  by (simp add: same_money_def)

lemma same_money_trans: "same_money l l' \<Longrightarrow> same_money l' l'' \<Longrightarrow> same_money l l''"
  by (simp add: same_money_def)

lemma event_of_Inr: "event_of a t b l = Inr l' \<Longrightarrow> only_events l l'"
  by (auto simp: event_of_def only_events_def split: if_splits)

lemma config_read_caps: "config_read l = Inr c \<Longrightarrow> sc_caps c = caps_of l"
  by (auto simp: config_read_def caps_of_def default_config_def split: caps_setting.splits)

lemma config_write_money: "sc_caps c = caps_of l \<Longrightarrow> same_money l (config_write c l)"
  by (simp add: same_money_def caps_of_def config_write_def)

lemma set_marks_caps [simp]: "sc_caps (set_marks i mk c) = sc_caps c"
  by (simp add: set_marks_def)

lemma warn_cap_Inr: "warn_cap cap label m s (l, mk, ch) = Inr (l', mk', ch') \<Longrightarrow> only_events l l'"
  by (auto simp: warn_cap_def and_then_Inr dest: event_of_Inr split: if_splits)

lemma stop_cap_Inr: "stop_cap cap label m s (l, mk, ch) = Inr (l', mk', ch') \<Longrightarrow> only_events l l'"
  by (auto simp: stop_cap_def and_then_Inr dest: event_of_Inr split: if_splits)

lemma pass_cap_Inr: "pass_cap r cap label n l = Inr (l', names) \<Longrightarrow> only_events l l'"
  by (auto simp: pass_cap_def and_then_Inr dest: event_of_Inr split: if_splits)

lemma after_cap_Inr:
  "after_cap r cap (l, c, p, ch) = Inr (l', c', p', ch') \<Longrightarrow> only_events l l' \<and> sc_caps c' = sc_caps c"
  by (auto simp: after_cap_def and_then_Inr Let_def split: if_splits
      dest!: warn_cap_Inr stop_cap_Inr pass_cap_Inr intro: only_events_trans)

lemma after_caps_Inr:
  "after_caps r caps (l, c, p, ch) = Inr (l', c', p', ch') \<Longrightarrow> only_events l l' \<and> sc_caps c' = sc_caps c"
  by (induction caps arbitrary: l c p ch)
     (auto simp: and_then_Inr dest!: after_cap_Inr intro: only_events_trans)

lemma after_spending_Inr:
  assumes "after_spending r c l = Inr (l', c', p)" "sc_caps c = caps_of l"
  shows "same_money l l' \<and> sc_caps c' = sc_caps c"
proof -
  from assms(1) obtain l1 ch where run: "after_caps r (covering c (st_department r) (st_position r)) (l, c, [], False) =
      Inr (l1, c', p, ch)" and l': "l' = (if ch then config_write c' l1 else l1)"
    by (auto simp: after_spending_def and_then_Inr)
  from after_caps_Inr [OF run] have l1: "same_money l l1" and c': "sc_caps c' = sc_caps c"
    using only_events_money by blast+
  then have "same_money l1 (config_write c' l1)"
    using assms(2) by (intro config_write_money) (simp add: same_money_def)
  with l1 c' l' show ?thesis by (auto intro: same_money_trans)
qed

section \<open>Sums\<close>

lemma sum_of_append [simp]: "sum_of f m cv (rows @ rows') = sum_of f m cv rows + sum_of f m cv rows'"
  by (simp add: sum_of_def)

lemma sum_of_one: "sum_of f m cv [r] = (if in_sum m cv r then f r else 0)"
  by (simp add: sum_of_def)

lemma sum_of_map_le:
  "(\<And>r. r \<in> set rows \<Longrightarrow> in_sum m cv (g r) = in_sum m cv r \<and> f (g r) \<le> f r) \<Longrightarrow>
     sum_of f m cv (map g rows) \<le> sum_of f m cv rows"
  by (induction rows) (auto simp: sum_of_def intro: add_mono)

lemma sum_of_map_eq:
  "(\<And>r. r \<in> set rows \<Longrightarrow> in_sum m cv (g r) = in_sum m cv r \<and> f (g r) = f r) \<Longrightarrow>
     sum_of f m cv (map g rows) = sum_of f m cv rows"
  by (induction rows) (auto simp: sum_of_def)

lemma in_sum_task: "in_sum m cv r \<longleftrightarrow> row_month r = m \<and> covers_task (row_department r) (row_position r) cv"
  by (auto simp: in_sum_def covers_task_def split: cap_covers.splits)

lemma in_sum_settle [simp]:
  "in_sum m cv (settle_row st sp by_whom d now r) = in_sum m cv r"
  "in_sum m cv (recover_row now r) = in_sum m cv r"
  by (simp_all add: in_sum_task settle_row_def recover_row_def)

lemma pends_le: "pends r \<le> counts r"
  by (auto simp: pends_def counts_def)

lemma sum_of_Business: "sum_of f m cv rows \<le> sum_of f m Business rows"
  by (induction rows) (auto simp: sum_of_def in_sum_def)

lemma sum_of_pends: "sum_of pends m cv rows \<le> sum_of counts m cv rows"
  by (induction rows) (auto simp: sum_of_def intro: add_mono pends_le)

lemma used_Inr: "used l m cv = Inr (a, b) \<Longrightarrow> a = sum_of counts m cv (lg_spending l) \<and> b = sum_of pends m cv (lg_spending l)"
  by (auto simp: used_def Let_def split: if_splits)

section \<open>Every operation\<close>

datatype spend_op =
    OpSetCap string cap_covers nat string nat
  | OpRemoveCap string string
  | OpSetAside string paid_task nat
  | OpSettle string bill nat
  | OpRecover nat nat

text \<open>A failed transaction changes nothing.\<close>

definition committed :: "ledger \<Rightarrow> 'e + (ledger \<times> 'a) \<Rightarrow> ledger" where
  "committed l r = (case r of Inl _ \<Rightarrow> l | Inr (l', _) \<Rightarrow> l')"

fun spend_step :: "ledger \<Rightarrow> spend_op \<Rightarrow> ledger" where
  "spend_step l (OpSetCap uuid cv n actor now) = committed l (set_spending_cap uuid cv n actor now l)"
| "spend_step l (OpRemoveCap i actor) =
     (case remove_spending_cap i actor l of Inl _ \<Rightarrow> l | Inr l' \<Rightarrow> l')"
| "spend_step l (OpSetAside uuid t now) = committed l (set_aside_spending uuid t now l)"
| "spend_step l (OpSettle rid b now) = committed l (settle_spending rid b now l)"
| "spend_step l (OpRecover started now) = committed l (recover_spending started now l)"

text \<open>What each operation does to the records.\<close>

lemma config_write_fields [simp]:
  "lg_spending (config_write c l) = lg_spending l" "lg_tasks (config_write c l) = lg_tasks l"
  "caps_of (config_write c l) = sc_caps c"
  by (simp_all add: config_write_def caps_of_def)

lemma change_cap_Inr:
  "change_cap i label n now a c l = Inr (l', cap) \<Longrightarrow>
     lg_spending l' = lg_spending l \<and> caps_of l' = (sc_caps c)[i := cap] \<and>
     cap = (sc_caps c ! i)\<lparr>monthly_micros := n, cap_set_at := now, cap_set_by := a\<rparr>"
  by (auto simp: change_cap_def and_then_Inr Let_def only_events_fields dest!: event_of_Inr split: if_splits)

lemma add_cap_Inr:
  "add_cap u cv label n now a c l = Inr (l', cap) \<Longrightarrow>
     lg_spending l' = lg_spending l \<and> caps_of l' = sc_caps c @ [cap] \<and> length (sc_caps c) < max_caps \<and>
     cap = \<lparr>cap_id = u, cap_covers = cv, monthly_micros = n, cap_set_at = now, cap_set_by = a\<rparr>"
  by (auto simp: add_cap_def and_then_Inr Let_def only_events_fields dest!: event_of_Inr split: if_splits)

lemma set_spending_cap_Inr:
  assumes "set_spending_cap u cv n a now l = Inr (l', cap)"
  shows "min_cap_micros \<le> n \<and> n \<le> max_cap_micros \<and>
    (\<exists>cv' c label a'. clean_covers cv = Inr cv' \<and> config_read l = Inr c \<and>
       (case find_index (\<lambda>cap. cap_covers cap = cv') (sc_caps c) of
          Some i \<Rightarrow> change_cap i label n now a' c l
        | None \<Rightarrow> add_cap u cv' label n now a' c l) = Inr (l', cap))"
proof -
  from assms obtain cv' where cv': "clean_covers cv = Inr cv'" and range: "min_cap_micros \<le> n" "n \<le> max_cap_micros"
    by (auto simp: set_spending_cap_def and_then_Inr split: if_splits)
  obtain label gone where "label_of l cv' = (label, gone)" by (cases "label_of l cv'")
  with assms cv' range show ?thesis
    by (auto simp: set_spending_cap_def and_then_Inr Let_def split: if_splits)
qed

lemma set_spending_cap_rows: "set_spending_cap u cv n a now l = Inr (l', cap) \<Longrightarrow> lg_spending l' = lg_spending l"
  by (drule set_spending_cap_Inr) (auto dest: change_cap_Inr add_cap_Inr split: option.splits)

lemma remove_spending_cap_rows: "remove_spending_cap i a l = Inr l' \<Longrightarrow> lg_spending l' = lg_spending l"
  by (auto simp: remove_spending_cap_def and_then_Inr Let_def only_events_fields dest!: event_of_Inr)

lemma refuse_Inr:
  assumes "refuse row most cap reason c l = Inr (l', x)" "sc_caps c = caps_of l"
  shows "same_money l l' \<and> isl x"
  using assms
  by (auto simp: refuse_def and_then_Inr Let_def split: if_splits dest!: event_of_Inr)
     (auto simp: same_money_def caps_of_def config_write_def only_events_fields)

lemma record_set_aside_Inr:
  assumes "record_set_aside row most l = Inr (l', x)"
  shows "lg_spending l' = lg_spending l @ [row] \<and> caps_of l' = caps_of l \<and> row_checks row \<and>
    row_id row \<notin> set (map row_id (lg_spending l)) \<and>
    x = Inr \<lparr>sa_record_id = row_id row, sa_month = row_month row, sa_most = most\<rparr>"
  using assms
  by (auto simp: record_set_aside_def insert_row_def and_then_Inr split: if_splits dest!: event_of_Inr
      simp: only_events_fields caps_of_def)

lemma tightest_least:
  assumes "tightest l m caps best = Inr t"
  shows "(\<forall>cap \<in> set caps. \<exists>c0 n. t = Some (c0, n) \<and>
      n \<le> monthly_micros cap - sum_of counts m (cap_covers cap) (lg_spending l)) \<and>
    (\<forall>c0 n. best = Some (c0, n) \<longrightarrow> (\<exists>c1 n1. t = Some (c1, n1) \<and> n1 \<le> n))"
  using assms
proof (induction caps arbitrary: best)
  case (Cons cap caps)
  from Cons.prems obtain a b where u: "used l m (cap_covers cap) = Inr (a, b)"
    by (auto simp: and_then_Inr)
  define left where "left = monthly_micros cap - a"
  define best' where "best' = (case best of None \<Rightarrow> Some (cap, left)
    | Some (_, least) \<Rightarrow> if left < least then Some (cap, left) else best)"
  from Cons.prems u have "tightest l m caps best' = Inr t"
    unfolding best'_def left_def by (simp add: Let_def)
  from Cons.IH [OF this] used_Inr [OF u] show ?case
    by (fastforce simp: best'_def left_def split: option.splits if_splits)
qed simp

lemma set_aside_spending_Inr:
  assumes "set_aside_spending u t now l = Inr (l', x)"
  shows "(same_money l l' \<and> isl x) \<or>
    (\<exists>row. paid_row u t now = Inr row \<and> lg_spending l' = lg_spending l @ [row] \<and> caps_of l' = caps_of l \<and>
       row_checks row \<and> row_id row \<notin> set (map row_id (lg_spending l)) \<and>
       x = Inr \<lparr>sa_record_id = row_id row, sa_month = row_month row, sa_most = pt_most t\<rparr> \<and>
       pt_most t \<le> max_set_aside_micros \<and>
       (\<forall>cap \<in> set (caps_of l). covers_task (row_department row) (row_position row) (cap_covers cap) \<longrightarrow>
          pt_most t \<le> monthly_micros cap - sum_of counts (row_month row) (cap_covers cap) (lg_spending l)))"
proof -
  from assms obtain row c tight where row: "paid_row u t now = Inr row" and c: "config_read l = Inr c"
    and tight: "tightest l (row_month row) (covering c (row_department row) (row_position row)) None = Inr tight"
    and most: "pt_most t \<le> max_set_aside_micros"
    by (auto simp: set_aside_spending_def and_then_Inr split: if_splits)
  note caps = config_read_caps [OF c]
  show ?thesis
  proof (cases "\<exists>cap left. tight = Some (cap, left) \<and> left < pt_most t")
    case True
    then obtain cap left where "tight = Some (cap, left)" "left < pt_most t" by blast
    with assms row c tight most have "refuse row (pt_most t) cap (refusal_words l (pt_most t) cap left) c l = Inr (l', x)"
      by (auto simp: set_aside_spending_def and_then_Inr)
    then show ?thesis using refuse_Inr caps by blast
  next
    case False
    with assms row c tight most have "record_set_aside row (pt_most t) l = Inr (l', x)"
      by (auto simp: set_aside_spending_def and_then_Inr split: option.splits prod.splits if_splits)
    note rec = record_set_aside_Inr [OF this]
    have "pt_most t \<le> monthly_micros cap - sum_of counts (row_month row) (cap_covers cap) (lg_spending l)"
      if "cap \<in> set (caps_of l)" "covers_task (row_department row) (row_position row) (cap_covers cap)" for cap
    proof -
      from that caps have "cap \<in> set (covering c (row_department row) (row_position row))" by (simp add: covering_def)
      with tightest_least [OF tight] obtain c0 n where "tight = Some (c0, n)"
        "n \<le> monthly_micros cap - sum_of counts (row_month row) (cap_covers cap) (lg_spending l)" by blast
      with False show ?thesis by (metis linorder_not_le order_trans)
    qed
    with row rec most show ?thesis by blast
  qed
qed

lemma paid_row_Inr:
  assumes "paid_row u t now = Inr row"
  shows "row_id row = u" "row_month row = month_now now" "row_state row = SetAside"
    "row_set_aside row = to_i64 (pt_most t)"
  using assms by (auto simp: paid_row_def and_then_Inr)

lemma to_i64_le: "to_i64 n \<le> n"
  by (simp add: to_i64_def)

lemma to_i64_small: "n \<le> max_set_aside_micros \<Longrightarrow> to_i64 n = n"
  by (simp add: to_i64_def max_set_aside_micros_def max_cap_micros_def micros_per_dollar_def i64_max_def)

lemma find_row_Some:
  assumes "find_row i l = Some r"
  shows "r \<in> set (lg_spending l)" "row_id r = i"
  using assms by (auto simp: find_row_def find_Some_iff)

lemma update_row_fields [simp]:
  "lg_spending (update_row i f l) = map (\<lambda>r. if row_id r = i then f r else r) (lg_spending l)"
  "lg_setting (update_row i f l) = lg_setting l" "lg_tasks (update_row i f l) = lg_tasks l"
  "caps_of (update_row i f l) = caps_of l"
  by (simp_all add: update_row_def caps_of_def)

lemma settle_spending_Inr:
  assumes "settle_spending rid b now l = Inr (l', passed)"
  shows "\<exists>i r state spent by_whom detail over. clean_id ''the spending record'' (Some rid) = Inr (Some i) \<and>
    find_row i l = Some r \<and> row_state r = SetAside \<and>
    read_bill b (row_set_aside r) = (state, spent, by_whom, detail, over) \<and> caps_of l' = caps_of l \<and>
    lg_spending l' = map (\<lambda>r. if row_id r = i then settle_row state spent by_whom detail now r else r) (lg_spending l)"
proof -
  from assms obtain i where i: "clean_id ''the spending record'' (Some rid) = Inr (Some i)"
    by (auto simp: settle_spending_def and_then_Inr clean_id_def split: if_splits)
  from assms i obtain r where r: "find_row i l = Some r" "row_state r = SetAside"
    by (auto simp: settle_spending_def and_then_Inr unwrap_or_def split: if_splits)
  obtain state spent by_whom detail over
    where bill: "read_bill b (row_set_aside r) = (state, spent, by_whom, detail, over)"
    by (cases "read_bill b (row_set_aside r)")
  let ?l = "update_row i (settle_row state spent by_whom detail now) l"
  from assms i r bill obtain l1 where ev: "only_events ?l l1"
    and rest: "(case config_read l1 of Inl _ \<Rightarrow> Inr (l1, []) | Inr c \<Rightarrow> and_then
        (after_spending \<lparr>st_month = row_month r, st_this_month = month_now now, st_department = row_department r,
           st_position = row_position r, st_task = row_task r, st_over = over\<rparr> c l1)
        (\<lambda>(l, _, passed). Inr (l, passed))) = Inr (l', passed)"
    by (auto simp: settle_spending_def and_then_Inr unwrap_or_def dest!: event_of_Inr)
  have "same_money l1 l'"
    using rest by (auto simp: and_then_Inr split: sum.splits dest: after_spending_Inr config_read_caps)
  with only_events_money [OF ev] have "lg_spending l' = lg_spending ?l \<and> caps_of l' = caps_of ?l"
    by (simp only: same_money_def)
  with i r bill show ?thesis by auto
qed

lemma recover_row_simps [simp]:
  "row_id (recover_row now r) = row_id r" "row_state (recover_row now r) = NotPriced"
  "recover_row now (recover_row now r) = recover_row now r"
  by (simp_all add: recover_row_def)

lemma recover_all_Inr:
  assumes "recover_all now rs c l = Inr (l', c')" "\<And>c0. c = Some c0 \<Longrightarrow> sc_caps c0 = caps_of l"
  shows "caps_of l' = caps_of l \<and>
    lg_spending l' = map (\<lambda>r. if row_id r \<in> set (map row_id rs) then recover_row now r else r) (lg_spending l)"
  using assms
proof (induction rs arbitrary: c l)
  case Nil
  then show ?case by simp
next
  case (Cons r rs)
  let ?l = "update_row (row_id r) (recover_row now) l"
  from Cons.prems(1) obtain l1 where ev: "only_events ?l l1"
    and rest: "(case c of None \<Rightarrow> recover_all now rs None l1 | Some c \<Rightarrow> and_then
        (after_spending \<lparr>st_month = row_month r, st_this_month = month_now now, st_department = row_department r,
           st_position = row_position r, st_task = row_task r, st_over = False\<rparr> c l1)
        (\<lambda>(l, c, _). recover_all now rs (Some c) l)) = Inr (l', c')"
    by (auto simp: and_then_Inr dest!: event_of_Inr)
  from only_events_money [OF ev] have l1: "lg_spending l1 = lg_spending ?l" "caps_of l1 = caps_of l"
    by (simp_all add: same_money_def)
  obtain l2 c2 where l2: "same_money l1 l2" "\<And>c0. c2 = Some c0 \<Longrightarrow> sc_caps c0 = caps_of l2"
    and again: "recover_all now rs c2 l2 = Inr (l', c')"
  proof (cases c)
    case None
    with rest show thesis by (intro that [of l1 None]) simp_all
  next
    case (Some c0)
    with rest obtain l2 c2 p where after: "after_spending \<lparr>st_month = row_month r, st_this_month = month_now now,
        st_department = row_department r, st_position = row_position r, st_task = row_task r, st_over = False\<rparr> c0 l1 =
          Inr (l2, c2, p)" and "recover_all now rs (Some c2) l2 = Inr (l', c')"
      by (auto simp: and_then_Inr)
    moreover have "sc_caps c0 = caps_of l1" using Cons.prems(2) Some l1(2) by simp
    moreover note after_spending_Inr [OF after this]
    ultimately show thesis by (intro that [of l2 "Some c2"]) (auto simp: same_money_def)
  qed
  from Cons.IH [OF again l2(2)] l1 l2(1) show ?case
    by (auto simp: same_money_def)
qed

lemma recover_spending_Inr:
  assumes "recover_spending started now l = Inr (l', n)"
  shows "caps_of l' = caps_of l \<and> n = length (left_over started l) \<and>
    lg_spending l' =
      map (\<lambda>r. if row_id r \<in> set (map row_id (left_over started l)) then recover_row now r else r) (lg_spending l)"
proof -
  let ?c = "case config_read l of Inl _ \<Rightarrow> None | Inr c \<Rightarrow> Some c"
  from assms obtain c' where run: "recover_all now (left_over started l) ?c l = Inr (l', c')"
    and n: "n = length (left_over started l)"
    by (auto simp: recover_spending_def Let_def and_then_Inr)
  have "sc_caps c0 = caps_of l" if "?c = Some c0" for c0
    using that by (auto split: sum.splits dest: config_read_caps)
  from recover_all_Inr [OF run this] n show ?thesis by simp
qed

section \<open>Records are kept\<close>

text \<open>Records that grew: each old one is in its place, changed as it may change, and new ones
  follow.\<close>

definition grown :: "('r \<Rightarrow> 'r \<Rightarrow> bool) \<Rightarrow> ('r \<Rightarrow> 'k) \<Rightarrow> 'r list \<Rightarrow> 'r list \<Rightarrow> bool" where
  "grown may key rs rs' \<longleftrightarrow>
     length rs \<le> length rs' \<and> list_all2 may rs (take (length rs) rs') \<and> distinct (map key rs')"

lemma grown_append:
  "grown may key rs rs' \<longleftrightarrow> (\<exists>old new. rs' = old @ new \<and> list_all2 may rs old \<and> distinct (map key rs'))"
  unfolding grown_def
  by (metis append_eq_conv_conj append_take_drop_id length_take list_all2_lengthD min.absorb2 le_add1 length_append)

locale record_keeper =
  fixes step :: "'s \<Rightarrow> 'e \<Rightarrow> 's"
    and rows :: "'s \<Rightarrow> 'r list"
    and key :: "'r \<Rightarrow> 'k"
    and may :: "'r \<Rightarrow> 'r \<Rightarrow> bool"
  assumes may_refl: "may r r"
    and may_trans: "may r r' \<Longrightarrow> may r' r'' \<Longrightarrow> may r r''"
    and may_key: "may r r' \<Longrightarrow> key r' = key r"
    and step_grows: "distinct (map key (rows s)) \<Longrightarrow> grown may key (rows s) (rows (step s e))"
begin

lemma grown_refl: "distinct (map key rs) \<Longrightarrow> grown may key rs rs"
  by (simp add: grown_def may_refl list.rel_refl)

lemma grown_trans:
  assumes "grown may key a b" "grown may key b c"
  shows "grown may key a c"
proof -
  from assms obtain old new old' new' where b: "b = old @ new" "list_all2 may a old"
    and c: "c = old' @ new'" "list_all2 may b old'" "distinct (map key c)"
    unfolding grown_append by blast
  from c(2) b(1) obtain o1 o2 where o: "old' = o1 @ o2" "list_all2 may old o1"
    by (auto simp: list_all2_append1)
  have "list_all2 may a o1" by (rule list_all2_trans [OF _ b(2) o(2)]) (rule may_trans)
  with o(1) c(1,3) show ?thesis unfolding grown_append by (intro exI [of _ o1] exI [of _ "o2 @ new'"]) simp
qed

lemma run_grows: "distinct (map key (rows s)) \<Longrightarrow> grown may key (rows s) (rows (foldl step s es))"
proof (induction es arbitrary: s)
  case Nil
  then show ?case by (simp add: grown_refl)
next
  case (Cons e es)
  from step_grows [OF Cons.prems, of e] have now: "grown may key (rows s) (rows (step s e))" .
  then have "distinct (map key (rows (step s e)))" by (simp add: grown_def)
  from grown_trans [OF now Cons.IH [OF this]] show ?case by simp
qed

lemma run_keeps:
  assumes "distinct (map key (rows s))" "r \<in> set (rows s)"
  obtains r' where "r' \<in> set (rows (foldl step s es))" "may r r'"
proof -
  from run_grows [OF assms(1), of es] obtain old new where "rows (foldl step s es) = old @ new"
    "list_all2 may (rows s) old" unfolding grown_append by blast
  with assms(2) that show thesis
    by (metis Un_iff in_set_conv_nth list_all2_conv_all_nth set_append)
qed

end

text \<open>A record that is set aside may be settled, and a settled one never changes.\<close>

definition row_may :: "spending_row \<Rightarrow> spending_row \<Rightarrow> bool" where
  "row_may r r' \<longleftrightarrow>
     r' = r \<or>
     row_state r = SetAside \<and>
     (\<exists>state spent by_whom detail moment. state \<noteq> SetAside \<and>
        r' = r\<lparr>row_state := state, row_spent := spent, row_priced_by := by_whom, row_detail := detail,
               row_settled_at := moment\<rparr>)"

lemma row_may_id: "row_may r r' \<Longrightarrow> row_id r' = row_id r"
  by (auto simp: row_may_def)

lemma row_may_refl [simp]: "row_may r r"
  by (simp add: row_may_def)

lemma row_may_settled: "row_may r r' \<Longrightarrow> r' = r \<or> row_state r' \<noteq> SetAside"
  by (auto simp: row_may_def)

lemma row_may_trans: "row_may r r' \<Longrightarrow> row_may r' r'' \<Longrightarrow> row_may r r''"
proof -
  assume a: "row_may r r'" and b: "row_may r' r''"
  from row_may_settled [OF a] show ?thesis
  proof
    assume "row_state r' \<noteq> SetAside"
    with b have "r'' = r'" by (simp add: row_may_def)
    with a show ?thesis by simp
  qed (use b in simp)
qed

lemma row_may_settle:
  "row_state r = SetAside \<Longrightarrow> state \<noteq> SetAside \<Longrightarrow> row_may r (settle_row state spent by_whom detail now r)"
  unfolding row_may_def settle_row_def by blast

lemma unique_id:
  "distinct (map row_id rows) \<Longrightarrow> r \<in> set rows \<Longrightarrow> r' \<in> set rows \<Longrightarrow> row_id r = row_id r' \<Longrightarrow> r = r'"
  by (metis distinct_map inj_onD)

lemma grown_map:
  assumes "distinct (map row_id rows)" "\<And>r. r \<in> set rows \<Longrightarrow> row_may r (f r)"
  shows "grown row_may row_id rows (map f rows)"
proof -
  have "map row_id (map f rows) = map row_id rows" using assms(2) by (auto dest: row_may_id)
  with assms(1) have "distinct (map row_id (map f rows))" by (simp only:)
  with assms(2) show ?thesis
    by (simp add: grown_def list_all2_conv_all_nth)
qed

lemma left_over_iff:
  "r \<in> set (left_over started l) \<longleftrightarrow>
     r \<in> set (lg_spending l) \<and> row_state r = SetAside \<and> row_created_at r < to_i64 started"
  by (auto simp: left_over_def)

lemma left_over_ids:
  assumes "distinct (map row_id (lg_spending l))" "r \<in> set (lg_spending l)"
  shows "row_id r \<in> set (map row_id (left_over started l)) \<longleftrightarrow> r \<in> set (left_over started l)"
  using unique_id [OF assms(1) _ assms(2)] by (auto simp: left_over_iff)

lemma committed_cases:
  assumes "P l" "\<And>l' x. r = Inr (l', x) \<Longrightarrow> P l'"
  shows "P (committed l r)"
  using assms by (auto simp: committed_def split: sum.splits)

lemma read_bill_state:
  assumes "read_bill b aside = (state, spent, by_whom, detail, over)"
  shows "state \<noteq> SetAside" "state = Spent \<longleftrightarrow> spent \<noteq> None" "state = Spent \<longleftrightarrow> by_whom \<noteq> None"
  using assms by (cases b; auto split: if_splits)+

lemma spend_step_grows:
  assumes "distinct (map row_id (lg_spending l))"
  shows "grown row_may row_id (lg_spending l) (lg_spending (spend_step l e))"
proof -
  let ?g = "\<lambda>l'. grown row_may row_id (lg_spending l) (lg_spending l')"
  have same: "?g l'" if "lg_spending l' = lg_spending l" for l'
    using grown_map [OF assms, of "\<lambda>r. r"] that by (simp add: row_may_def)
  show ?thesis
  proof (cases e)
    case (OpSetCap u cv n a now)
    have "?g (committed l (set_spending_cap u cv n a now l))"
      by (rule committed_cases) (auto intro: same dest: set_spending_cap_rows)
    with OpSetCap show ?thesis by simp
  next
    case (OpRemoveCap i a)
    then show ?thesis by (auto intro: same dest: remove_spending_cap_rows split: sum.splits)
  next
    case (OpSetAside u t now)
    have "?g (committed l (set_aside_spending u t now l))"
    proof (rule committed_cases)
      fix l' x assume "set_aside_spending u t now l = Inr (l', x)"
      from set_aside_spending_Inr [OF this] show "?g l'"
      proof (elim disjE exE conjE)
        fix row assume "lg_spending l' = lg_spending l @ [row]" "row_id row \<notin> set (map row_id (lg_spending l))"
        with assms show "?g l'"
          by (simp add: grown_def list_all2_refl)
      qed (auto intro: same simp: same_money_def)
    qed (rule same, simp)
    with OpSetAside show ?thesis by simp
  next
    case (OpSettle rid b now)
    have "?g (committed l (settle_spending rid b now l))"
    proof (rule committed_cases)
      fix l' x assume "settle_spending rid b now l = Inr (l', x)"
      from settle_spending_Inr [OF this] obtain i r state spent by_whom detail over
        where r: "find_row i l = Some r" "row_state r = SetAside"
          and bill: "read_bill b (row_set_aside r) = (state, spent, by_whom, detail, over)"
          and rows: "lg_spending l' =
            map (\<lambda>r. if row_id r = i then settle_row state spent by_whom detail now r else r) (lg_spending l)" by blast
      have "r' = r" if "r' \<in> set (lg_spending l)" "row_id r' = i" for r'
        using unique_id [OF assms that(1) find_row_Some(1) [OF r(1)]] that(2) find_row_Some(2) [OF r(1)] by simp
      then show "?g l'"
        unfolding rows using r(2) read_bill_state(1) [OF bill] by (intro grown_map [OF assms]) (auto intro: row_may_settle)
    qed (rule same, simp)
    with OpSettle show ?thesis by simp
  next
    case (OpRecover started now)
    have "?g (committed l (recover_spending started now l))"
    proof (rule committed_cases)
      fix l' n assume "recover_spending started now l = Inr (l', n)"
      note rows = recover_spending_Inr [OF this]
      have "row_may r (recover_row now r)" if "r \<in> set (left_over started l)" for r
        unfolding row_may_def using that
        by (intro disjI2 conjI exI [of _ NotPriced] exI [of _ "row_spent r"] exI [of _ "row_priced_by r"]
            exI [of _ "Some recovered_detail"] exI [of _ "Some (to_i64 now)"]) (auto simp: recover_row_def left_over_iff)
      then show "?g l'"
        using rows by (auto intro!: grown_map [OF assms] simp: left_over_ids [OF assms] simp del: set_map)
    qed (rule same, simp)
    with OpRecover show ?thesis by simp
  qed
qed

interpretation spent_records: record_keeper spend_step lg_spending row_id row_may
  by unfold_locales (auto simp: row_may_id spend_step_grows intro: row_may_trans)

text \<open>
  Spending records are never deleted and a settled one never changes, whatever is done with the
  Ledger: after any run of operations, a record that was settled is there as it was.
\<close>

theorem settled_records_never_change:
  assumes "distinct (map row_id (lg_spending l))" "r \<in> set (lg_spending l)" "row_state r \<noteq> SetAside"
  shows "r \<in> set (lg_spending (foldl spend_step l ops))"
proof -
  obtain r' where "r' \<in> set (lg_spending (foldl spend_step l ops))" "row_may r r'"
    by (rule spent_records.run_keeps [OF assms(1,2)])
  with assms(3) show ?thesis by (simp add: row_may_def)
qed

section \<open>A restore opens no room\<close>

lemma find_own:
  "distinct (map row_id rows) \<Longrightarrow> k \<in> set rows \<Longrightarrow> row_id k = i \<Longrightarrow> find (\<lambda>k'. row_id k' = i) rows = Some k"
  by (induction rows) (auto simp: image_iff)

lemma carry_rows_grown:
  assumes "grown row_may row_id rows kept"
  shows "fst (carry_rows kept rows) = kept"
proof -
  from assms obtain old new where kept: "kept = old @ new" and old: "list_all2 row_may rows old"
    and dist: "distinct (map row_id kept)" unfolding grown_append by blast
  have "map row_id old = map row_id rows"
    using old by (induction rule: list_all2_induct) (auto dest: row_may_id)
  then have ids: "row_id ` set old = row_id ` set rows" by (metis set_map)
  have "filter (\<lambda>k. row_id k \<notin> set (map row_id rows)) old = []" by (auto simp: filter_empty_conv ids [symmetric])
  moreover have "filter (\<lambda>k. row_id k \<notin> set (map row_id rows)) new = new"
    using dist kept ids by (auto simp: filter_id_conv)
  ultimately have added: "filter (\<lambda>k. row_id k \<notin> set (map row_id rows)) kept = new" by (simp add: kept)
  have "take_settlement kept k = k" if "k \<in> set new" for k
    using find_own [OF dist, of k] that by (simp add: kept take_settlement_def)
  then have "map (take_settlement kept) new = new" by (simp add: map_idI)
  moreover have "take_settlement kept r = r'" if "row_may r r'" "r' \<in> set old" for r r'
  proof -
    have f: "find (\<lambda>k. row_id k = row_id r) kept = Some r'"
      using find_own [OF dist, of r' "row_id r"] row_may_id [OF that(1)] that(2) by (simp add: kept)
    from that(1) show ?thesis
      unfolding row_may_def by (elim disjE exE conjE) (simp_all add: take_settlement_def f)
  qed
  then have "map (take_settlement kept) rows = old"
    using old by (auto simp: list_all2_conv_all_nth intro!: nth_equalityI)
  ultimately show ?thesis unfolding carry_rows_def Let_def added by (simp add: kept [symmetric])
qed

lemma plenipo_event: "event_of ''plenipo'' None body l \<noteq> Inl e"
proof -
  have "trim ''plenipo'' \<noteq> '''' \<and> byte_len ''plenipo'' \<le> 200" by code_simp
  then show ?thesis by (auto simp: event_of_def)
qed

text \<open>
  C5: Restoring a backup opens no room under a cap: whatever was done since the backup was made, once
  the kept Ledger's records are carried over the restored Ledger has exactly the records there
  were, so every cap has used what it had used.
\<close>

theorem restore_opens_no_room:
  assumes "distinct (map row_id (lg_spending l))"
    and name: "name \<noteq> ''''" "list_all (\<lambda>c. c \<noteq> CHR ''/'' \<and> c \<noteq> CHR 0x5C) name" "\<not> sublist ''..'' name"
    and kept: "get files name = Some (Some (lg_spending (foldl spend_step l ops)))"
  shows "\<exists>l' n. carry_spending_from_backup (Some files) name l = Inr (l', n) \<and>
    lg_spending l' = lg_spending (foldl spend_step l ops) \<and>
    (\<forall>month covers. used l' month covers = used (foldl spend_step l ops) month covers)"
proof -
  let ?kept = "lg_spending (foldl spend_step l ops)"
  obtain rows added settled where carry: "carry_rows ?kept (lg_spending l) = (rows, added, settled)"
    by (cases "carry_rows ?kept (lg_spending l)")
  with carry_rows_grown [OF spent_records.run_grows [OF assms(1)]] have rows: "rows = ?kept" by (metis fst_conv)
  have "\<not> (name = '''' \<or> list_ex (\<lambda>c. c = CHR ''/'' \<or> c = CHR 0x5C) name \<or> sublist ''..'' name)"
    using name by (auto simp: list_all_iff list_ex_iff)
  then have "carry_spending_from_backup (Some files) name l = carry_attached name (Some ?kept) l"
    using kept by (simp only: carry_spending_from_backup_def if_False option.case)
  moreover obtain l' where "carry_attached name (Some ?kept) l = Inr (l', added) \<and> lg_spending l' = ?kept"
  proof (cases "0 < added + settled")
    case True
    obtain l1 where ev: "event_of ''plenipo'' None (CarriedOver name added settled) (l\<lparr>lg_spending := rows\<rparr>) = Inr l1"
      using plenipo_event by (metis sum.exhaust)
    have "lg_spending l1 = ?kept" using only_events_fields(1) [OF event_of_Inr [OF ev]] rows by simp
    with True ev carry show thesis by (intro that [of l1]) (simp add: carry_attached_def Let_def)
  next
    case False
    with carry rows show thesis by (intro that [of "l\<lparr>lg_spending := rows\<rparr>"]) (simp add: carry_attached_def Let_def)
  qed
  ultimately show ?thesis by (auto simp: used_def)
qed

section \<open>The hard stop\<close>

lemma remove_spending_cap_caps:
  "remove_spending_cap i a l = Inr l' \<Longrightarrow> set (caps_of l') \<subseteq> set (caps_of l)"
  by (auto simp: remove_spending_cap_def and_then_Inr Let_def dest!: config_read_caps event_of_Inr
      dest: in_set_takeD in_set_dropD)

lemma find_index_Some: "find_index p xs = Some i \<Longrightarrow> i < length xs \<and> p (xs ! i)"
  by (induction xs arbitrary: i) (auto split: if_splits)

lemma set_spending_cap_caps:
  assumes "set_spending_cap u cv n a now l = Inr (l', cap)"
  shows "monthly_micros cap = n \<and> clean_covers cv = Inr (cap_covers cap) \<and>
    set (caps_of l') \<subseteq> insert cap (set (caps_of l))"
proof -
  from set_spending_cap_Inr [OF assms] obtain cv' c label a' where cv': "clean_covers cv = Inr cv'"
    and c: "sc_caps c = caps_of l"
    and found: "(case find_index (\<lambda>cap. cap_covers cap = cv') (sc_caps c) of
        Some i \<Rightarrow> change_cap i label n now a' c l | None \<Rightarrow> add_cap u cv' label n now a' c l) = Inr (l', cap)"
    using config_read_caps by blast
  show ?thesis
  proof (cases "find_index (\<lambda>cap. cap_covers cap = cv') (sc_caps c)")
    case None
    with found add_cap_Inr c cv' show ?thesis by fastforce
  next
    case (Some i)
    with found have "change_cap i label n now a' c l = Inr (l', cap)" by simp
    note this = change_cap_Inr [OF this]
    with find_index_Some [OF Some] c cv' set_update_subset_insert [of "sc_caps c" i cap] show ?thesis by auto
  qed
qed

text \<open>No cap is passed in any month.\<close>

definition under_caps :: "ledger \<Rightarrow> bool" where
  "under_caps l \<longleftrightarrow>
     list_all (\<lambda>cap. list_all (\<lambda>r. sum_of counts (row_month r) (cap_covers cap) (lg_spending l) \<le> monthly_micros cap)
       (lg_spending l)) (caps_of l)"

lemma sum_of_absent: "(\<And>r. r \<in> set rows \<Longrightarrow> row_month r \<noteq> m) \<Longrightarrow> sum_of f m cv rows = 0"
  by (auto simp: sum_of_def in_sum_def)

lemma every_month:
  "list_all (\<lambda>r. sum_of f (row_month r) cv rows \<le> n) rows \<longleftrightarrow> (\<forall>m. sum_of f m cv rows \<le> n)"
  using sum_of_absent [of rows _ f cv] by (auto simp: list_all_iff) (metis le0)

lemma under_caps_iff:
  "under_caps l \<longleftrightarrow>
     (\<forall>cap \<in> set (caps_of l). \<forall>m. sum_of counts m (cap_covers cap) (lg_spending l) \<le> monthly_micros cap)"
  by (simp add: under_caps_def every_month list_all_iff [of _ "caps_of l"])

text \<open>What is asked of the world: a bill is no more than was set aside for it, and the owner sets no
  cap below what is counted already.\<close>

fun honest :: "ledger \<Rightarrow> spend_op \<Rightarrow> bool" where
  "honest l (OpSettle rid (BillSpent n by_whom) now) \<longleftrightarrow>
     list_all (\<lambda>r. row_id r = trim rid \<longrightarrow> n \<le> row_set_aside r) (lg_spending l)"
| "honest l (OpSetCap uuid cv n actor now) \<longleftrightarrow>
     (case clean_covers cv of
        Inl _ \<Rightarrow> True
      | Inr cv \<Rightarrow> list_all (\<lambda>r. sum_of counts (row_month r) cv (lg_spending l) \<le> n) (lg_spending l))"
| "honest l _ \<longleftrightarrow> True"

inductive spends :: "ledger \<Rightarrow> ledger \<Rightarrow> bool" where
  spends_start: "spends l l"
| spends_step: "spends l l' \<Longrightarrow> honest l' op \<Longrightarrow> spends l (spend_step l' op)"

lemma sums_le_under_caps:
  assumes "under_caps l" "set (caps_of l') \<subseteq> set (caps_of l)"
    and "\<And>m cv. sum_of counts m cv (lg_spending l') \<le> sum_of counts m cv (lg_spending l)"
  shows "under_caps l'"
  using assms unfolding under_caps_iff by (meson order_trans subsetD)

lemma set_aside_under_caps:
  assumes "under_caps l" "set_aside_spending u t now l = Inr (l', x)"
  shows "under_caps l'"
  using set_aside_spending_Inr [OF assms(2)]
proof (elim disjE exE conjE)
  assume "same_money l l'"
  then show ?thesis using assms(1) by (simp add: under_caps_def same_money_def)
next
  fix row
  assume row: "paid_row u t now = Inr row" and rows: "lg_spending l' = lg_spending l @ [row]"
    and caps: "caps_of l' = caps_of l"
    and room: "\<forall>cap \<in> set (caps_of l). covers_task (row_department row) (row_position row) (cap_covers cap) \<longrightarrow>
      pt_most t \<le> monthly_micros cap - sum_of counts (row_month row) (cap_covers cap) (lg_spending l)"
  have "counts row \<le> pt_most t" using paid_row_Inr [OF row] to_i64_le by (simp add: counts_def)
  then show ?thesis
    using assms(1) room unfolding under_caps_iff caps rows
    by (fastforce simp: sum_of_one in_sum_task)
qed

lemma clean_id_trim: "clean_id what (Some rid) = Inr (Some i) \<Longrightarrow> i = trim rid"
  by (auto simp: clean_id_def split: if_splits)

lemma settle_sums:
  assumes "distinct (map row_id (lg_spending l))" "settle_spending rid b now l = Inr (l', p)"
    and "honest l (OpSettle rid b now)"
  shows "sum_of counts m cv (lg_spending l') \<le> sum_of counts m cv (lg_spending l)"
proof -
  from settle_spending_Inr [OF assms(2)] obtain i r state spent by_whom detail over
    where i: "i = trim rid" and r: "find_row i l = Some r" "row_state r = SetAside"
      and bill: "read_bill b (row_set_aside r) = (state, spent, by_whom, detail, over)"
      and rows: "lg_spending l' =
        map (\<lambda>r. if row_id r = i then settle_row state spent by_whom detail now r else r) (lg_spending l)"
    using clean_id_trim by blast
  note r' = find_row_Some [OF r(1)]
  have "counts (settle_row state spent by_whom detail now r) \<le> row_set_aside r"
  proof (cases b)
    case (BillSpent n by_service)
    with assms(3) r' i have "n \<le> row_set_aside r" by (auto simp: list_all_iff)
    with bill BillSpent show ?thesis
      using to_i64_le [of n] to_i64_le [of max_set_aside_micros]
      by (auto simp: counts_def settle_row_def unwrap_or_def split: if_splits)
  qed (use bill in \<open>auto simp: counts_def settle_row_def\<close>)
  also have "\<dots> = counts r" using r(2) by (simp add: counts_def)
  finally have "counts (settle_row state spent by_whom detail now r) \<le> counts r" .
  then show ?thesis unfolding rows
    using unique_id [OF assms(1) _ r'(1)] r'(2) by (intro sum_of_map_le) auto
qed

lemma recover_sums:
  assumes "distinct (map row_id (lg_spending l))" "recover_spending started now l = Inr (l', n)"
  shows "sum_of counts m cv (lg_spending l') = sum_of counts m cv (lg_spending l)"
proof -
  have "counts (recover_row now r) = counts r" if "r \<in> set (left_over started l)" for r
    using that by (simp add: left_over_iff counts_def recover_row_def)
  then show ?thesis
    using recover_spending_Inr [OF assms(2)]
    by (auto intro!: sum_of_map_eq simp: left_over_ids [OF assms(1)] simp del: set_map split: if_splits)
qed

lemma honest_step_under_caps:
  assumes "distinct (map row_id (lg_spending l))" "under_caps l" "honest l op"
  shows "under_caps (spend_step l op)"
proof (cases op)
  case (OpSetCap u cv n a now)
  have "under_caps (committed l (set_spending_cap u cv n a now l))"
  proof (rule committed_cases [where P = under_caps])
    fix l' cap assume set: "set_spending_cap u cv n a now l = Inr (l', cap)"
    note caps = set_spending_cap_caps [OF set] and rows = set_spending_cap_rows [OF set]
    from assms(3) OpSetCap caps have "\<forall>m. sum_of counts m (cap_covers cap) (lg_spending l) \<le> n"
      by (simp add: every_month)
    with caps rows assms(2) show "under_caps l'" by (auto simp: under_caps_iff)
  qed (rule assms(2))
  with OpSetCap show ?thesis by simp
next
  case (OpRemoveCap i a)
  then show ?thesis
    using assms(2) sums_le_under_caps [OF assms(2)] remove_spending_cap_caps remove_spending_cap_rows
    by (auto split: sum.splits)
next
  case (OpSetAside u t now)
  have "under_caps (committed l (set_aside_spending u t now l))"
    by (rule committed_cases [where P = under_caps]) (use assms(2) set_aside_under_caps in blast)+
  with OpSetAside show ?thesis by simp
next
  case (OpSettle rid b now)
  have "under_caps (committed l (settle_spending rid b now l))"
  proof (rule committed_cases [where P = under_caps])
    fix l' p assume settle: "settle_spending rid b now l = Inr (l', p)"
    show "under_caps l'"
      using settle_sums [OF assms(1) settle] settle_spending_Inr [OF settle] assms(3) OpSettle
      by (intro sums_le_under_caps [OF assms(2)]) auto
  qed (rule assms(2))
  with OpSettle show ?thesis by simp
next
  case (OpRecover started now)
  have "under_caps (committed l (recover_spending started now l))"
  proof (rule committed_cases [where P = under_caps])
    fix l' n assume recover: "recover_spending started now l = Inr (l', n)"
    show "under_caps l'"
      using recover_sums [OF assms(1) recover] recover_spending_Inr [OF recover]
      by (intro sums_le_under_caps [OF assms(2)]) auto
  qed (rule assms(2))
  with OpRecover show ?thesis by simp
qed

lemma spends_invariant:
  assumes "spends l l'" "distinct (map row_id (lg_spending l))" "under_caps l"
  shows "distinct (map row_id (lg_spending l')) \<and> under_caps l'"
  using assms
proof (induction rule: spends.induct)
  case (spends_step l l' op)
  then show ?case
    using honest_step_under_caps [of l' op] spent_records.step_grows [of l' op] by (auto simp: grown_def)
qed simp

text \<open>
  C4: The hard stop never goes over: starting under every cap, whatever paid tasks start, end, are
  refused, are left behind by a restart, and whatever caps are set and removed, in any order, no
  cap is ever passed in any month, as long as no bill is more than was set aside for it and no cap
  is set below what is counted already.
\<close>

theorem hard_stop_never_goes_over:
  assumes "spends l l'" "distinct (map row_id (lg_spending l))" "under_caps l"
    and "cap \<in> set (caps_of l')"
  shows "sum_of counts month (cap_covers cap) (lg_spending l') \<le> monthly_micros cap"
  using spends_invariant [OF assms(1-3)] assms(4) by (auto simp: under_caps_iff)

section \<open>Room\<close>

definition room_of :: "(spending_cap \<times> nat) option \<Rightarrow> nat" where
  "room_of t = (case t of None \<Rightarrow> u64_max | Some (_, n) \<Rightarrow> min u64_max n)"

lemma room_fold:
  "foldl (\<lambda>room cap. and_then room (\<lambda>room. and_then (used l m (cap_covers cap)) (\<lambda>(counted, _).
       Inr (min room (monthly_micros cap - counted))))) (Inr (room_of best)) caps =
     (case tightest l m caps best of Inl e \<Rightarrow> Inl e | Inr t \<Rightarrow> Inr (room_of t))"
proof (induction caps arbitrary: best)
  case (Cons cap caps)
  have stuck: "foldl (\<lambda>room cap. and_then room (\<lambda>room. and_then (used l m (cap_covers cap)) (\<lambda>(counted, _).
      Inr (min room (monthly_micros cap - counted))))) (Inl e) cs = Inl e" for e and cs :: "spending_cap list"
    by (induction cs) simp_all
  show ?case
  proof (cases "used l m (cap_covers cap)")
    case (Inl e)
    then show ?thesis by (simp add: stuck)
  next
    case (Inr ab)
    obtain a b where ab: "ab = (a, b)" by (cases ab)
    have "min (room_of best) (monthly_micros cap - a) =
        room_of (case best of None \<Rightarrow> Some (cap, monthly_micros cap - a)
          | Some (_, least) \<Rightarrow> if monthly_micros cap - a < least then Some (cap, monthly_micros cap - a) else best)"
      by (auto simp: room_of_def split: option.splits)
    with Inr ab Cons.IH show ?thesis by (simp add: Let_def)
  qed
qed simp

lemma event_known:
  assumes "\<And>t. task = Some t \<Longrightarrow> t \<in> set (lg_tasks l)"
  shows "\<exists>l'. event_of ''plenipo'' task body l = Inr l'"
proof -
  have "trim ''plenipo'' \<noteq> '''' \<and> byte_len ''plenipo'' \<le> 200" by code_simp
  with assms show ?thesis by (auto simp: event_of_def split: option.splits)
qed

text \<open>The room reported comes from the cap with the least left.\<close>

lemma room_tight:
  assumes "spending_room d p now l = Inr (Some room)" and "most \<le> max_set_aside_micros"
  obtains c tight where "config_read l = Inr c" "tightest l (month_now now) (covering c d p) None = Inr tight"
    "room < most \<longleftrightarrow> (\<exists>cap left. tight = Some (cap, left) \<and> left < most)"
proof -
  from assms(1) obtain c where c: "config_read l = Inr c" by (auto simp: spending_room_def and_then_Inr)
  from assms(1) c room_fold [of l "month_now now" None "covering c d p"] obtain tight
    where tight: "tightest l (month_now now) (covering c d p) None = Inr tight" and room: "room = room_of tight"
    by (auto simp: spending_room_def and_then_Inr room_of_def split: sum.splits)
  have "most < u64_max"
    using assms(2) by (simp add: max_set_aside_micros_def max_cap_micros_def micros_per_dollar_def u64_max_def)
  then have "room < most \<longleftrightarrow> (\<exists>cap left. tight = Some (cap, left) \<and> left < most)"
    unfolding room by (auto simp: room_of_def min_def split: option.splits)
  with c tight show ?thesis by (rule that)
qed

lemma set_aside_within_room:
  assumes row: "paid_row uuid t now = Inr row" "row_checks row"
    and fresh: "uuid \<notin> set (map row_id (lg_spending l))"
    and known: "\<And>task. row_task row = Some task \<Longrightarrow> task \<in> set (lg_tasks l)"
    and most: "pt_most t \<le> max_set_aside_micros"
    and room: "spending_room (row_department row) (row_position row) now l = Inr (Some room)" "pt_most t \<le> room"
  shows "\<exists>l' sa. set_aside_spending uuid t now l = Inr (l', Inr sa)"
proof -
  note paid = paid_row_Inr [OF row(1)]
  obtain c tight where c: "config_read l = Inr c"
      "tightest l (month_now now) (covering c (row_department row) (row_position row)) None = Inr tight"
    and decide: "room < pt_most t \<longleftrightarrow> (\<exists>cap left. tight = Some (cap, left) \<and> left < pt_most t)"
    by (rule room_tight [OF room(1) most])
  let ?l = "l\<lparr>lg_spending := lg_spending l @ [row]\<rparr>"
  obtain l1 where "event_of ''plenipo'' (row_task row) (MoneySetAside (row_id row) (row_month row) (pt_most t)
      (row_runtime row) (row_model row) (row_key_name row) (row_position row) (row_department row)) ?l = Inr l1"
    using event_known [of "row_task row" ?l] known by auto
  moreover have "insert_row row l = Inr ?l" using row(2) fresh paid(1) by (simp add: insert_row_def)
  moreover from room(2) decide have "\<And>cap left. tight = Some (cap, left) \<Longrightarrow> \<not> left < pt_most t"
    by (auto simp: not_less)
  ultimately show ?thesis
    using most row(1) c paid(2)
    by (auto simp: set_aside_spending_def record_set_aside_def split: option.splits)
qed

lemma set_aside_past_room:
  assumes row: "paid_row uuid t now = Inr row"
    and known: "\<And>task. row_task row = Some task \<Longrightarrow> task \<in> set (lg_tasks l)"
    and most: "pt_most t \<le> max_set_aside_micros"
    and room: "spending_room (row_department row) (row_position row) now l = Inr (Some room)" "room < pt_most t"
  shows "\<exists>l' refusal. set_aside_spending uuid t now l = Inr (l', Inl refusal)"
proof -
  note paid = paid_row_Inr [OF row]
  obtain c tight where c: "config_read l = Inr c"
      "tightest l (month_now now) (covering c (row_department row) (row_position row)) None = Inr tight"
    and decide: "room < pt_most t \<longleftrightarrow> (\<exists>cap left. tight = Some (cap, left) \<and> left < pt_most t)"
    by (rule room_tight [OF room(1) most])
  from decide room(2) obtain cap left where t: "tight = Some (cap, left)" "left < pt_most t" by blast
  obtain l1 where e1: "event_of ''plenipo'' (row_task row) (TaskRefused (Some (cap_id cap))
      (refusal_words l (pt_most t) cap left) (pt_most t) (row_runtime row) (row_model row) (row_key_name row)) l = Inr l1"
    using event_known [OF known] by blast
  obtain l2 where "event_of ''plenipo'' None (CapStoppedEvent (cap_id cap) (cap_covers cap)
      (fst (label_of l1 (cap_covers cap))) (row_month row) (WhyRefused (refusal_words l (pt_most t) cap left))
      (monthly_micros cap)) l1 = Inr l2"
    using event_known [of None l1] by blast
  with e1 t most row c paid(2) show ?thesis
    by (auto simp: set_aside_spending_def refuse_def Let_def)
qed

text \<open>
  C6: What the Router is told is what the Ledger does: when \<open>spending_room\<close> says how much is left for a
  position's paid task, setting money aside for such a task at that moment succeeds exactly when the
  most it could cost is no more than that, and is refused otherwise.
\<close>

theorem room_decides:
  assumes row: "paid_row uuid t now = Inr row" "row_checks row"
    and fresh: "uuid \<notin> set (map row_id (lg_spending l))"
    and known: "\<And>task. row_task row = Some task \<Longrightarrow> task \<in> set (lg_tasks l)"
    and most: "pt_most t \<le> max_set_aside_micros"
    and room: "spending_room (row_department row) (row_position row) now l = Inr (Some room)"
  shows "((\<exists>l' sa. set_aside_spending uuid t now l = Inr (l', Inr sa)) \<longleftrightarrow> pt_most t \<le> room) \<and>
    ((\<exists>l' refusal. set_aside_spending uuid t now l = Inr (l', Inl refusal)) \<longleftrightarrow> room < pt_most t)"
proof (cases "room < pt_most t")
  case True
  with set_aside_past_room [OF row(1) known most room] show ?thesis by auto
next
  case False
  then have "pt_most t \<le> room" by simp
  with set_aside_within_room [OF row fresh known most room] show ?thesis by auto
qed

section \<open>Recovery\<close>

text \<open>Sums that stay inside 64 bits.\<close>

definition sums_fit :: "ledger \<Rightarrow> bool" where
  "sums_fit l \<longleftrightarrow>
     list_all (\<lambda>r. sum_of counts (row_month r) Business (lg_spending l) \<le> nat i64_max) (lg_spending l)"

lemma used_fits:
  assumes "sums_fit l"
  shows "used l m cv = Inr (sum_of counts m cv (lg_spending l), sum_of pends m cv (lg_spending l))"
proof -
  have "sum_of counts m cv (lg_spending l) \<le> nat i64_max"
    using assms sum_of_Business [of counts m cv] order_trans unfolding sums_fit_def every_month by blast
  with sum_of_pends [of m cv "lg_spending l"] show ?thesis by (simp add: used_def Let_def)
qed

lemma sums_fit_rows: "lg_spending l' = lg_spending l \<Longrightarrow> sums_fit l' = sums_fit l"
  by (simp add: sums_fit_def)

lemma warn_cap_succeeds: "\<exists>s. warn_cap cap label m n (l, mk, ch) = Inr s"
  using event_known [of None l] by (auto simp: warn_cap_def) (metis and_then_simps(2))

lemma stop_cap_succeeds: "\<exists>s. stop_cap cap label m n (l, mk, ch) = Inr s"
  using event_known [of None l] by (auto simp: stop_cap_def) (metis and_then_simps(2))

lemma after_cap_succeeds:
  assumes "sums_fit l" "\<not> st_over r"
  shows "\<exists>s. after_cap r cap (l, c, p, ch) = Inr s"
proof -
  let ?n = "sum_of counts (st_month r) (cap_covers cap) (lg_spending l) - sum_of pends (st_month r) (cap_covers cap) (lg_spending l)"
  let ?label = "fst (label_of l (cap_covers cap))"
  obtain l1 mk1 ch1 where warn: "warn_cap cap ?label (st_month r) ?n (l, marks_for (cap_id cap) (st_month r) c, ch) = Inr (l1, mk1, ch1)"
    using warn_cap_succeeds by (metis prod_cases3)
  obtain l2 mk2 ch2 where "stop_cap cap ?label (st_month r) ?n (l1, mk1, ch1) = Inr (l2, mk2, ch2)"
    using stop_cap_succeeds by (metis prod_cases3)
  with warn assms(2) show ?thesis
    by (cases "st_month r = st_this_month r") (simp_all add: after_cap_def used_fits [OF assms(1)] pass_cap_def Let_def)
qed

lemma after_caps_succeeds:
  "sums_fit l \<Longrightarrow> \<not> st_over r \<Longrightarrow> \<exists>s. after_caps r caps (l, c, p, ch) = Inr s"
proof (induction caps arbitrary: l c p ch)
  case (Cons cap caps)
  obtain l1 c1 p1 ch1 where step: "after_cap r cap (l, c, p, ch) = Inr (l1, c1, p1, ch1)"
    using after_cap_succeeds [OF Cons.prems] by (metis prod_cases4)
  with after_cap_Inr [OF step] Cons.prems have "sums_fit l1"
    using sums_fit_rows only_events_fields(1) by metis
  from Cons.IH [OF this Cons.prems(2)] step show ?case by simp
qed simp

lemma after_spending_succeeds:
  assumes "sums_fit l" "\<not> st_over r"
  shows "\<exists>l' c' p. after_spending r c l = Inr (l', c', p)"
proof -
  obtain l1 c1 p1 ch1
    where "after_caps r (covering c (st_department r) (st_position r)) (l, c, [], False) = Inr (l1, c1, p1, ch1)"
    using after_caps_succeeds [OF assms] by (metis prod_cases4)
  then show ?thesis by (simp add: after_spending_def)
qed

lemma after_spending_keeps:
  assumes "after_spending r c l = Inr (l', c', p)"
  shows "lg_spending l' = lg_spending l \<and> lg_tasks l' = lg_tasks l"
  using assms
  by (auto simp: after_spending_def and_then_Inr dest!: after_caps_Inr split: if_splits simp: only_events_fields)

text \<open>A record under recovery counts for what it counted.\<close>

definition recoverable :: "spending_row list \<Rightarrow> ledger \<Rightarrow> bool" where
  "recoverable rs l \<longleftrightarrow>
     (\<forall>r \<in> set rs. all_opt (\<lambda>t. t \<in> set (lg_tasks l)) (row_task r) \<and>
        (\<forall>r' \<in> set (lg_spending l). row_id r' = row_id r \<longrightarrow> row_state r' = SetAside \<or> row_state r' = NotPriced))"

lemma recoverable_update:
  assumes "recoverable (r # rs) l"
  shows "recoverable rs (update_row (row_id r) (recover_row now) l)"
    and "sums_fit l \<Longrightarrow> sums_fit (update_row (row_id r) (recover_row now) l)"
proof -
  show "recoverable rs (update_row (row_id r) (recover_row now) l)"
    using assms by (auto simp: recoverable_def recover_row_def)
  have "counts (recover_row now r') = counts r'" if "r' \<in> set (lg_spending l)" "row_id r' = row_id r" for r'
    using assms that by (auto simp: recoverable_def counts_def recover_row_def)
  then have "sum_of counts m Business (lg_spending (update_row (row_id r) (recover_row now) l)) =
      sum_of counts m Business (lg_spending l)" for m
    unfolding update_row_fields by (intro sum_of_map_eq) auto
  then show "sums_fit l \<Longrightarrow> sums_fit (update_row (row_id r) (recover_row now) l)"
    unfolding sums_fit_def every_month by simp
qed

lemma recoverable_same: "lg_spending l' = lg_spending l \<Longrightarrow> lg_tasks l' = lg_tasks l \<Longrightarrow> recoverable rs l' = recoverable rs l"
  by (simp add: recoverable_def)

lemma recover_all_succeeds:
  "recoverable rs l \<Longrightarrow> sums_fit l \<Longrightarrow> \<exists>l' c'. recover_all now rs c l = Inr (l', c')"
proof (induction rs arbitrary: c l)
  case (Cons r rs)
  let ?l = "update_row (row_id r) (recover_row now) l"
  note up = recoverable_update(1) [OF Cons.prems(1)] recoverable_update(2) [OF Cons.prems]
  have "\<And>t. row_task r = Some t \<Longrightarrow> t \<in> set (lg_tasks ?l)"
    using Cons.prems(1) by (auto simp: recoverable_def all_opt_def)
  then obtain l1 where ev: "event_of ''plenipo'' (row_task r)
      (SpendingRecorded (row_id r) (row_month r) NotPriced None None (Some recovered_detail)) ?l = Inr l1"
    using event_known [of "row_task r" ?l] by blast
  note f1 = only_events_fields [OF event_of_Inr [OF ev]]
  have l1: "recoverable rs l1" "sums_fit l1"
    using up recoverable_same [OF f1(1,3)] sums_fit_rows [OF f1(1)] by blast+
  show ?case
  proof (cases c)
    case None
    with Cons.IH [OF l1] ev show ?thesis by simp
  next
    case (Some c0)
    let ?st = "\<lparr>st_month = row_month r, st_this_month = month_now now, st_department = row_department r,
      st_position = row_position r, st_task = row_task r, st_over = False\<rparr>"
    obtain l2 c2 p where after: "after_spending ?st c0 l1 = Inr (l2, c2, p)"
      using after_spending_succeeds [OF l1(2), of ?st c0] by auto
    note f2 = after_spending_keeps [OF after]
    have "recoverable rs l2" "sums_fit l2" using l1 recoverable_same sums_fit_rows f2 by blast+
    from Cons.IH [OF this] ev after Some show ?thesis by simp
  qed
qed simp

text \<open>
  C29: After a restart no money is freed: with the tasks of the records left over still in the Ledger,
  recovery goes through, every record left over before this run began is counted at the most it
  could have cost, and what each cap has used in each month stays the same.
\<close>

theorem recovery_frees_nothing:
  assumes "distinct (map row_id (lg_spending l))" "sums_fit l"
    and "list_all (\<lambda>r. all_opt (\<lambda>t. t \<in> set (lg_tasks l)) (row_task r)) (left_over started l)"
  shows "\<exists>l'. recover_spending started now l = Inr (l', length (left_over started l)) \<and>
    left_over started l' = [] \<and>
    (\<forall>month covers. sum_of counts month covers (lg_spending l') = sum_of counts month covers (lg_spending l))"
proof -
  have "row_state r' = SetAside" if "r \<in> set (left_over started l)" "r' \<in> set (lg_spending l)" "row_id r' = row_id r" for r r'
    using unique_id [OF assms(1) that(2), of r] that by (simp add: left_over_iff)
  then have "recoverable (left_over started l) l"
    using assms(3) by (simp add: recoverable_def list_all_iff)
  then obtain l' c' where "recover_all now (left_over started l)
      (case config_read l of Inl _ \<Rightarrow> None | Inr c \<Rightarrow> Some c) l = Inr (l', c')"
    using recover_all_succeeds [OF _ assms(2)] by blast
  then have run: "recover_spending started now l = Inr (l', length (left_over started l))"
    by (simp add: recover_spending_def Let_def)
  have "r \<notin> set (left_over started l')" for r
    using recover_spending_Inr [OF run] left_over_ids [OF assms(1)]
    by (auto simp: left_over_iff [of _ _ l'] recover_row_def simp del: set_map split: if_splits)
       (auto simp: left_over_iff)
  then have "left_over started l' = []" by (metis last_in_set)
  with run recover_sums [OF assms(1) run] show ?thesis by blast
qed

lemma recover_all_known:
  "recover_all now rs c l = Inr x \<Longrightarrow> r \<in> set rs \<Longrightarrow> row_task r = Some t \<Longrightarrow> t \<in> set (lg_tasks l)"
proof (induction rs arbitrary: c l)
  case (Cons r0 rs)
  let ?l = "update_row (row_id r0) (recover_row now) l"
  from Cons.prems(1) obtain l1 where ev: "event_of ''plenipo'' (row_task r0)
      (SpendingRecorded (row_id r0) (row_month r0) NotPriced None None (Some recovered_detail)) ?l = Inr l1"
    by (auto simp: and_then_Inr)
  have tasks: "lg_tasks l1 = lg_tasks l" using only_events_fields(3) [OF event_of_Inr [OF ev]] by simp
  show ?case
  proof (cases "r = r0")
    case True
    with ev Cons.prems(3) show ?thesis by (auto simp: event_of_def split: if_splits)
  next
    case False
    with Cons.prems(2) have r: "r \<in> set rs" by simp
    have "\<exists>c2 l2. recover_all now rs c2 l2 = Inr x \<and> lg_tasks l2 = lg_tasks l1"
      using Cons.prems(1) ev
      by (cases c) (auto simp: and_then_Inr dest: after_spending_keeps)
    with Cons.IH [OF _ r Cons.prems(3)] tasks show ?thesis by metis
  qed
qed simp

text \<open>
  C31: One record whose task the Ledger does not have stops the recovery of all: the whole transaction
  fails and nothing is recorded, at this start and at every later one. Such a record is what a
  restore carries over when its task is newer than the backup.
\<close>

theorem one_lost_task_stops_recovery:
  assumes "r \<in> set (lg_spending l)" "row_state r = SetAside" "row_created_at r < to_i64 started"
    and "row_task r = Some t" "t \<notin> set (lg_tasks l)"
  shows "(\<exists>e. recover_spending started now l = Inl e) \<and> spend_step l (OpRecover started now) = l"
proof -
  have "r \<in> set (left_over started l)" using assms(1-3) by (simp add: left_over_iff)
  then have "\<nexists>x. recover_spending started now l = Inr x"
    using recover_all_known assms(4,5)
    by (fastforce simp: recover_spending_def Let_def and_then_Inr)
  then obtain e where "recover_spending started now l = Inl e" by (metis sum.exhaust)
  then show ?thesis by (simp add: committed_def)
qed

section \<open>The tables stay well-formed\<close>

definition caps_ok :: "spending_cap list \<Rightarrow> bool" where
  "caps_ok caps \<longleftrightarrow>
     distinct (map cap_covers caps) \<and> length caps \<le> max_caps \<and>
     list_all (\<lambda>cap. min_cap_micros \<le> monthly_micros cap \<and> monthly_micros cap \<le> max_cap_micros) caps"

definition ledger_ok :: "ledger \<Rightarrow> bool" where
  "ledger_ok l \<longleftrightarrow>
     distinct (map row_id (lg_spending l)) \<and> list_all row_checks (lg_spending l) \<and> caps_ok (caps_of l)"

lemma trimmed_shorter: "length (trim s) \<le> length s"
proof -
  have "length (dropWhile is_whitespace (rev (dropWhile is_whitespace s))) \<le> length (rev (dropWhile is_whitespace s))"
    by (rule length_dropWhile_le)
  also have "\<dots> \<le> length s" using length_dropWhile_le [of is_whitespace s] by simp
  finally show ?thesis by (simp add: trim_def trim_start_matches_def trim_end_matches_def)
qed

lemma clean_label_length: "clean_label v n = Some s \<Longrightarrow> length s \<le> n"
  by (auto simp: clean_label_def split: if_splits option.splits)
     (metis length_take min.bounded_iff order_trans trimmed_shorter)

lemma long_bill_words:
  "length (''The bill read was more than '' @ dollars max_set_aside_micros @ '', so it is recorded as that much.'') \<le> 500"
  by code_simp

lemma settle_row_checks:
  assumes "row_checks r" "read_bill b aside = (state, spent, by_whom, detail, over)"
  shows "row_checks (settle_row state spent by_whom detail now r)"
proof -
  have "all_opt (\<lambda>s. length s \<le> 500) detail"
    using assms(2) long_bill_words
    by (cases b) (auto simp: all_opt_def max_detail_def split: if_splits option.splits dest: clean_label_length)
  then show ?thesis
    using assms(1) read_bill_state [OF assms(2)] unfolding row_checks_def settle_row_def by auto
qed

lemma recover_row_checks:
  assumes "row_checks r" "row_state r = SetAside"
  shows "row_checks (recover_row now r)"
proof -
  have "length recovered_detail \<le> 500" by code_simp
  with assms show ?thesis by (simp add: row_checks_def recover_row_def all_opt_def)
qed

lemma find_index_None: "find_index p xs = None \<longleftrightarrow> (\<forall>x \<in> set xs. \<not> p x)"
  by (induction xs) auto

lemma set_spending_cap_ok:
  assumes "set_spending_cap u cv n a now l = Inr (l', cap)" "caps_ok (caps_of l)"
  shows "caps_ok (caps_of l')"
proof -
  from set_spending_cap_Inr [OF assms(1)] obtain cv' c label a' where n: "min_cap_micros \<le> n" "n \<le> max_cap_micros"
    and c: "sc_caps c = caps_of l"
    and found: "(case find_index (\<lambda>cap. cap_covers cap = cv') (sc_caps c) of
        Some i \<Rightarrow> change_cap i label n now a' c l | None \<Rightarrow> add_cap u cv' label n now a' c l) = Inr (l', cap)"
    using config_read_caps by blast
  show ?thesis
  proof (cases "find_index (\<lambda>cap. cap_covers cap = cv') (sc_caps c)")
    case None
    with found have "add_cap u cv' label n now a' c l = Inr (l', cap)" by simp
    from add_cap_Inr [OF this] None assms(2) n c show ?thesis
      by (auto simp: caps_ok_def find_index_None)
  next
    case (Some i)
    with found have "change_cap i label n now a' c l = Inr (l', cap)" by simp
    note cap = change_cap_Inr [OF this]
    from find_index_Some [OF Some] have i: "i < length (sc_caps c)" by simp
    then have "map cap_covers (caps_of l') = map cap_covers (caps_of l)"
      using cap c by (auto simp: map_update intro!: list_update_same_conv [THEN iffD2])
    moreover have "list_all (\<lambda>cap. min_cap_micros \<le> monthly_micros cap \<and> monthly_micros cap \<le> max_cap_micros) (caps_of l')"
      using assms(2) cap n c set_update_subset_insert [of "sc_caps c" i cap]
      by (auto simp: caps_ok_def list_all_iff)
    ultimately show ?thesis using assms(2) cap c by (simp add: caps_ok_def)
  qed
qed

lemma remove_spending_cap_ok:
  assumes "remove_spending_cap i a l = Inr l'" "caps_ok (caps_of l)"
  shows "caps_ok (caps_of l')"
proof -
  from assms(1) obtain k where "caps_of l' = take k (caps_of l) @ drop (Suc k) (caps_of l)"
    by (auto simp: remove_spending_cap_def and_then_Inr Let_def dest!: config_read_caps)
  moreover have "distinct (map cap_covers (take k (caps_of l) @ drop (Suc k) (caps_of l)))"
    using assms(2) set_take_disj_set_drop_if_distinct [of "map cap_covers (caps_of l)" k "Suc k"]
    by (simp add: caps_ok_def take_map [symmetric] drop_map [symmetric] del: set_map)
  ultimately show ?thesis using assms(2)
    by (auto simp: caps_ok_def list_all_iff dest: in_set_takeD in_set_dropD)
qed

lemma ledger_ok_step:
  assumes "ledger_ok l"
  shows "ledger_ok (spend_step l e)"
proof -
  from assms have dist: "distinct (map row_id (lg_spending l))" and checks: "list_all row_checks (lg_spending l)"
    and caps: "caps_ok (caps_of l)" by (simp_all add: ledger_ok_def)
  have "distinct (map row_id (lg_spending (spend_step l e)))"
    using spent_records.step_grows [OF dist, of e] by (simp add: grown_def)
  moreover have "list_all row_checks (lg_spending (spend_step l e)) \<and> caps_ok (caps_of (spend_step l e))"
  proof (cases e)
    case (OpSetCap u cv n a now)
    then show ?thesis
      using checks caps set_spending_cap_rows set_spending_cap_ok
      by (auto simp: committed_def split: sum.splits)
  next
    case (OpRemoveCap i a)
    then show ?thesis
      using checks caps remove_spending_cap_rows remove_spending_cap_ok by (auto split: sum.splits)
  next
    case (OpSetAside u t now)
    then show ?thesis
      using checks caps
      by (auto simp: committed_def same_money_def split: sum.splits dest!: set_aside_spending_Inr)
  next
    case (OpSettle rid b now)
    have "list_all row_checks (lg_spending l') \<and> caps_ok (caps_of l')"
      if "settle_spending rid b now l = Inr (l', p)" for l' p
    proof -
      from settle_spending_Inr [OF that] obtain i r state spent by_whom detail over
        where "find_row i l = Some r" "read_bill b (row_set_aside r) = (state, spent, by_whom, detail, over)"
          "caps_of l' = caps_of l" "lg_spending l' = map (\<lambda>r. if row_id r = i then settle_row state spent by_whom detail now r else r) (lg_spending l)"
        by blast
      with checks caps settle_row_checks show ?thesis by (simp add: list_all_iff) blast
    qed
    with OpSettle checks caps show ?thesis by (auto simp: committed_def split: sum.splits)
  next
    case (OpRecover started now)
    have "row_checks (recover_row now r)" if "r \<in> set (lg_spending l)" "row_id r \<in> set (map row_id (left_over started l))" for r
      using that checks left_over_ids [OF dist that(1)] by (auto simp: left_over_iff list_all_iff intro: recover_row_checks)
    with OpRecover show ?thesis
      using checks caps
      by (auto simp: committed_def list_all_iff split: sum.splits dest!: recover_spending_Inr)
  qed
  ultimately show ?thesis by (simp add: ledger_ok_def)
qed

interpretation spending_tables: event_system spend_step ledger_ok "\<lambda>_. True"
  by unfold_locales (rule ledger_ok_step)

text \<open>
  C32: The tables stay well-formed through every run of operations, refused and failed ones included:
  record ids are unique, every record keeps the constraints of its table (settled exactly when it
  has a time of settlement, priced exactly when spent), and there is at most one cap for the
  business, for each department and for each position, at most 500 in all, each of one cent to a
  million dollars.
\<close>

theorem spending_tables_stay_well_formed:
  assumes "ledger_ok l"
  shows "ledger_ok (foldl spend_step l ops)"
  by (rule spending_tables.run_inv [OF assms]) (simp add: list_all_iff)

text \<open>
  A bill is never counted as less: when a task is settled, its record counts for the bill (at most
  the million dollars any cap may be), for the most it could have cost when its bill could not be
  read, and for nothing only when its request was never sent.
\<close>

theorem settled_bill_counts:
  assumes "distinct (map row_id (lg_spending l))" "settle_spending rid b now l = Inr (l', passed)"
  shows "\<exists>r r'. find_row (trim rid) l = Some r \<and> find_row (trim rid) l' = Some r' \<and> row_may r r' \<and>
    counts r' = (case b of BillSpent n _ \<Rightarrow> min n max_set_aside_micros
                         | BillNotPriced _ \<Rightarrow> row_set_aside r | BillReleased \<Rightarrow> 0)"
proof -
  from settle_spending_Inr [OF assms(2)] obtain i r state spent by_whom detail over
    where i: "i = trim rid" and r: "find_row i l = Some r" "row_state r = SetAside"
      and bill: "read_bill b (row_set_aside r) = (state, spent, by_whom, detail, over)"
      and rows: "lg_spending l' =
        map (\<lambda>r. if row_id r = i then settle_row state spent by_whom detail now r else r) (lg_spending l)"
    using clean_id_trim by blast
  let ?r = "settle_row state spent by_whom detail now r"
  have "find (\<lambda>r. row_id r = i) (map (\<lambda>r. if row_id r = i then f r else r) xs) = map_option f (find (\<lambda>r. row_id r = i) xs)"
    if "\<And>r. row_id (f r) = row_id r" for f and xs :: "spending_row list"
    using that by (induction xs) auto
  then have "find_row i l' = Some ?r" using r(1) rows by (simp add: find_row_def settle_row_def)
  moreover have "row_may r ?r"
    using r(2) read_bill_state(1) [OF bill] by (rule row_may_settle)
  moreover have "counts ?r = (case b of BillSpent n _ \<Rightarrow> min n max_set_aside_micros
      | BillNotPriced _ \<Rightarrow> row_set_aside r | BillReleased \<Rightarrow> 0)"
    using bill to_i64_small
    by (cases b) (auto simp: counts_def settle_row_def unwrap_or_def min_def split: if_splits)
  ultimately show ?thesis using r(1) i by blast
qed

section \<open>An example\<close>

text \<open>A business with a cap of five dollars and one task, in the middle of October 2026.\<close>

definition sample_now :: nat where
  "sample_now = 1792090800000"

definition sample_ledger :: ledger where
  "sample_ledger =
     \<lparr>lg_spending = [],
      lg_setting = Caps \<lparr>sc_caps = [\<lparr>cap_id = ''cap-1'', cap_covers = Business, monthly_micros = 5000000,
                                   cap_set_at = 0, cap_set_by = ''owner''\<rparr>], sc_marks = []\<rparr>,
      lg_departments = [], lg_positions = [], lg_tasks = [''task-1''], lg_events = []\<rparr>"

definition sample_task :: paid_task where
  "sample_task =
     \<lparr>pt_task = Some ''task-1'', pt_execution = None, pt_position = None, pt_department = None,
      pt_runtime = ''openrouter'', pt_model = ''kimi'', pt_key = Some (''key-1'', ''Office key''), pt_most = 3000000\<rparr>"

definition sample_started :: ledger where
  "sample_started = spend_step sample_ledger (OpSetAside ''rec-1'' sample_task sample_now)"

definition sample_settled :: ledger where
  "sample_settled = spend_step sample_started (OpSettle ''rec-1'' (BillSpent 2500000 ByService) sample_now)"

lemma sample_rows:
  "map row_id (lg_spending sample_ledger) = []" "map row_id (lg_spending sample_started) = [''rec-1'']"
  "map row_id (lg_spending sample_settled) = [''rec-1'']"
  by code_simp+

theorem settled_records_never_change_witness:
  "hd (lg_spending sample_settled) \<in>
     set (lg_spending (foldl spend_step sample_settled [OpSettle ''rec-1'' BillReleased sample_now, OpRecover 5 6]))"
proof (rule settled_records_never_change)
  show "distinct (map row_id (lg_spending sample_settled))" by (simp add: sample_rows)
  show "hd (lg_spending sample_settled) \<in> set (lg_spending sample_settled)"
    using sample_rows(3) by (cases "lg_spending sample_settled") simp_all
  show "row_state (hd (lg_spending sample_settled)) \<noteq> SetAside" by code_simp
qed

theorem restore_opens_no_room_witness:
  "\<exists>l' n. carry_spending_from_backup (Some [(''kept.db'', Some (lg_spending (foldl spend_step sample_ledger
       [OpSetAside ''rec-1'' sample_task sample_now])))]) ''kept.db'' sample_ledger = Inr (l', n) \<and>
     lg_spending l' = lg_spending sample_started"
proof -
  have "list_all (\<lambda>c. c \<noteq> CHR ''/'' \<and> c \<noteq> CHR 0x5C) ''kept.db''" "\<not> sublist ''..'' ''kept.db''" by code_simp+
  then show ?thesis
    using restore_opens_no_room [of sample_ledger "''kept.db''" "[(''kept.db'', Some (lg_spending (foldl spend_step
      sample_ledger [OpSetAside ''rec-1'' sample_task sample_now])))]" "[OpSetAside ''rec-1'' sample_task sample_now]"]
    by (auto simp: sample_rows sample_started_def)
qed

lemma sample_spends: "spends sample_ledger sample_settled"
  unfolding sample_settled_def sample_started_def
proof (rule spends_step [OF spends_step [OF spends_start]])
  show "honest sample_ledger (OpSetAside ''rec-1'' sample_task sample_now)" by simp
  show "honest (spend_step sample_ledger (OpSetAside ''rec-1'' sample_task sample_now))
    (OpSettle ''rec-1'' (BillSpent 2500000 ByService) sample_now)" by code_simp
qed

theorem hard_stop_never_goes_over_witness:
  "sum_of counts ''2026-10'' Business (lg_spending sample_settled) \<le> 5000000 \<and>
   sum_of counts ''2026-10'' Business (lg_spending sample_settled) = 2500000"
proof -
  let ?cap = "hd (caps_of sample_settled)"
  have cap: "?cap \<in> set (caps_of sample_settled)" "cap_covers ?cap = Business" "monthly_micros ?cap = 5000000"
    by code_simp+
  have "under_caps sample_ledger" by code_simp
  from hard_stop_never_goes_over [OF sample_spends _ this cap(1), of "''2026-10''"] cap(2,3)
  have "sum_of counts ''2026-10'' Business (lg_spending sample_settled) \<le> 5000000" by (simp add: sample_rows)
  moreover have "sum_of counts ''2026-10'' Business (lg_spending sample_settled) = 2500000" by code_simp
  ultimately show ?thesis by blast
qed

theorem room_decides_witness:
  "spending_room None None sample_now sample_settled = Inr (Some 2500000) \<and>
   (\<exists>l' refusal. set_aside_spending ''rec-2'' sample_task sample_now sample_settled = Inr (l', Inl refusal))"
proof -
  define row where "row = projr (paid_row ''rec-2'' sample_task sample_now)"
  have row: "paid_row ''rec-2'' sample_task sample_now = Inr row" "row_checks row"
    "row_department row = None" "row_position row = None" "row_task row = Some ''task-1''"
    unfolding row_def by code_simp+
  have room: "spending_room None None sample_now sample_settled = Inr (Some 2500000)" by code_simp
  have "lg_tasks sample_settled = [''task-1'']" "pt_most sample_task = 3000000" by code_simp+
  moreover have "(3000000 :: nat) \<le> max_set_aside_micros"
    by (simp add: max_set_aside_micros_def max_cap_micros_def micros_per_dollar_def)
  ultimately show ?thesis
    using room_decides [OF row(1,2), of sample_settled 2500000] row(3-5) room by (simp add: sample_rows)
qed

theorem recovery_frees_nothing_witness:
  "\<exists>l'. recover_spending (sample_now + 1) (sample_now + 2) sample_started = Inr (l', 1) \<and>
     sum_of counts ''2026-10'' Business (lg_spending l') = 3000000"
proof -
  have "sums_fit sample_started" "length (left_over (sample_now + 1) sample_started) = 1"
    "list_all (\<lambda>r. all_opt (\<lambda>t. t \<in> set (lg_tasks sample_started)) (row_task r)) (left_over (sample_now + 1) sample_started)"
    "sum_of counts ''2026-10'' Business (lg_spending sample_started) = 3000000"
    by code_simp+
  then show ?thesis
    using recovery_frees_nothing [of sample_started "sample_now + 1" "sample_now + 2"]
    by (auto simp: sample_rows)
qed

theorem one_lost_task_stops_recovery_witness:
  "(\<exists>e. recover_spending (sample_now + 1) (sample_now + 2) (sample_started\<lparr>lg_tasks := []\<rparr>) = Inl e)"
proof -
  let ?l = "sample_started\<lparr>lg_tasks := []\<rparr>" and ?r = "hd (lg_spending sample_started)"
  have "row_state ?r = SetAside" "row_created_at ?r < to_i64 (sample_now + 1)" "row_task ?r = Some ''task-1''"
    by code_simp+
  moreover have "?r \<in> set (lg_spending ?l)" using sample_rows(2) by (cases "lg_spending sample_started") simp_all
  ultimately show ?thesis
    using one_lost_task_stops_recovery [of ?r ?l "sample_now + 1" "''task-1''" "sample_now + 2"] by simp
qed

theorem spending_tables_stay_well_formed_witness:
  "ledger_ok (foldl spend_step sample_ledger [OpSetAside ''rec-1'' sample_task sample_now, OpRecover 7 8])"
  by (rule spending_tables_stay_well_formed) code_simp

theorem settled_bill_counts_witness:
  "map_option counts (find_row (trim ''rec-1'') sample_settled) = Some 2500000"
proof -
  obtain l' passed where settle: "settle_spending ''rec-1'' (BillSpent 2500000 ByService) sample_now sample_started = Inr (l', passed)"
    and l': "l' = sample_settled"
  proof -
    have "isl (settle_spending ''rec-1'' (BillSpent 2500000 ByService) sample_now sample_started) = False" by code_simp
    then show thesis
      using that by (cases "settle_spending ''rec-1'' (BillSpent 2500000 ByService) sample_now sample_started")
        (auto simp: sample_settled_def committed_def)
  qed
  from settled_bill_counts [OF _ settle] have "\<exists>r'. find_row (trim ''rec-1'') sample_settled = Some r' \<and>
      counts r' = min 2500000 max_set_aside_micros" by (auto simp: sample_rows l')
  then show ?thesis by (auto simp: max_set_aside_micros_def max_cap_micros_def micros_per_dollar_def)
qed

end
