(* ===== verification/Spending_Words.thy ===== *)
theory Spending_Words
  imports Spending
begin

text \<open>
  Money in words (\<open>dollars\<close>, \<open>dollars_up\<close> and \<open>dollars_down\<close> of \<open>crates/ledger/src/spending.rs\<close>):
  what the digits the owner reads say about the amount.
\<close>

definition digits_of :: "string \<Rightarrow> string" where
  "digits_of s = filter is_ascii_digit s"

lemma digits_of_append: "digits_of (s @ t) = digits_of s @ digits_of t"
  by (simp add: digits_of_def)

lemma digits_of_marks: "digits_of ''$0.'' = ''0''" "digits_of ''$'' = ''''" "digits_of ''.'' = ''''" "digits_of '','' = ''''"
  by code_simp+

lemma group_digits_keeps:
  "digits_of (group_digits digits grouped) = digits_of digits @ digits_of grouped"
proof (induction digits grouped rule: group_digits.induct)
  case (1 digits grouped)
  show ?case
  proof (cases "3 < length digits")
    case True
    let ?k = "length digits - 3"
    have "digits_of (group_digits digits grouped) =
        digits_of (group_digits (take ?k digits) ('','' @ drop ?k digits @ grouped))"
      by (subst group_digits.simps) (simp only: True if_True)
    also have "\<dots> = digits_of (take ?k digits) @ digits_of (drop ?k digits) @ digits_of grouped"
      unfolding "1" [OF True] digits_of_append digits_of_marks by simp
    also have "\<dots> = digits_of digits @ digits_of grouped"
      by (simp only: digits_of_append [symmetric] append_assoc [symmetric] append_take_drop_id)
    finally show ?thesis .
  next
    case False
    then show ?thesis by (subst group_digits.simps) (simp only: if_False digits_of_append)
  qed
qed

lemma all_digits_of: "list_all is_ascii_digit s \<Longrightarrow> digits_of s = s"
  by (simp add: digits_of_def filter_id_conv list_all_iff)

lemma zero_filled_digits: "digits_of (zero_filled w n) = zero_filled w n" "undec (zero_filled w n) = n"
  using dec_digits [of n] digit_ascii [of 0]
  by (auto simp: zero_filled_def undec_zeros list_all_iff intro!: all_digits_of)

lemma two_digits: "n < 100 \<Longrightarrow> length (zero_filled 2 n) = 2"
proof -
  assume "n < 100"
  then have "length (dec n) \<le> 2" by (subst dec.simps, auto, subst dec.simps, auto)
  then show ?thesis by (simp add: zero_filled_def)
qed

lemma hundredths: "undec (digits_of (''$0.'' @ zero_filled 4 k)) = k"
proof -
  have "undec ''0'' = 0" by code_simp
  then show ?thesis
    unfolding digits_of_append digits_of_marks zero_filled_digits undec_append by simp
qed

lemma cents_digits:
  assumes "\<not> (0 < n \<and> n < 10000)"
  shows "undec (digits_of (dollars n)) = u64_sat_add n 5000 div 10000"
proof -
  define cents where "cents = u64_sat_add n 5000 div 10000"
  have "dollars n = ''$'' @ group_digits (dec (cents div 100)) '''' @ ''.'' @ zero_filled 2 (cents mod 100)"
    unfolding dollars_def if_not_P [OF assms] Let_def cents_def ..
  then have "digits_of (dollars n) = dec (cents div 100) @ zero_filled 2 (cents mod 100)"
    by (simp only: digits_of_append digits_of_marks group_digits_keeps zero_filled_digits all_digits_of [OF dec_digits]
        append_Nil append_Nil2) (simp add: digits_of_def)
  then have "undec (digits_of (dollars n)) = cents div 100 * 10 ^ 2 + cents mod 100"
    by (simp add: undec_append zero_filled_digits two_digits)
  then show ?thesis by (simp add: cents_def [symmetric])
qed

lemma whole_cents:
  assumes "0 < k" "k \<le> 100000000"
  shows "undec (digits_of (dollars (k * 10000))) = k"
proof -
  have "u64_sat_add (k * 10000) 5000 = k * 10000 + 5000"
    using assms(2) by (simp add: u64_sat_add_def u64_max_def)
  moreover have "(k * 10000 + 5000) div 10000 = k" by simp
  moreover have "undec (digits_of (dollars (k * 10000))) = u64_sat_add (k * 10000) 5000 div 10000"
    by (rule cents_digits) (use assms(1) in simp)
  ultimately show ?thesis by (simp only:)
qed

lemma ceiling_covers: "0 < b \<Longrightarrow> n \<le> b * div_ceil n b"
  using div_ceil_le [of b n "div_ceil n b"] by simp

lemma under_a_cent:
  assumes "n < 10000"
  shows "n \<le> undec (digits_of (dollars_up n)) * 100 \<and> undec (digits_of (dollars_down n)) * 100 \<le> n"
proof
  have free: "undec (digits_of (dollars 0)) = 0" by code_simp
  have "div_ceil n 100 \<le> 100" using assms by (subst div_ceil_le) simp_all
  moreover have "0 < n \<Longrightarrow> 0 < div_ceil n 100" using ceiling_covers [of 100 n] by (cases "div_ceil n 100") simp_all
  ultimately have "0 < n \<Longrightarrow> undec (digits_of (dollars n)) = div_ceil n 100"
    using assms by (simp add: dollars_def hundredths [simplified])
  with assms ceiling_covers [of 100 n] free show "n \<le> undec (digits_of (dollars_up n)) * 100"
    by (cases "n = 0") (simp_all add: dollars_up_def mult.commute)
  show "undec (digits_of (dollars_down n)) * 100 \<le> n"
  proof (cases "100 \<le> n")
    case True
    with assms show ?thesis by (simp add: dollars_down_def hundredths [simplified])
  next
    case False
    with assms have "dollars_down n = dollars 0" by (simp add: dollars_down_def)
    then show ?thesis by (simp add: free)
  qed
qed

lemma from_a_cent:
  assumes "10000 \<le> n" "n \<le> 1000000000000"
  shows "n \<le> undec (digits_of (dollars_up n)) * 10000 \<and> undec (digits_of (dollars_down n)) * 10000 \<le> n"
proof
  define q where "q = div_ceil n 10000"
  have q: "n \<le> 10000 * q" "q \<le> 100000000"
    using ceiling_covers [of 10000 n] assms(2) div_ceil_le [of 10000 n 100000000] by (simp_all add: q_def)
  then have "0 < q" using assms(1) by (cases q) simp_all
  moreover have "u64_sat_mul q 10000 = q * 10000" using q(2) by (simp add: u64_sat_mul_def u64_max_def)
  ultimately have "undec (digits_of (dollars_up n)) = q"
    using assms(1) whole_cents [OF _ q(2)] by (simp add: dollars_up_def q_def [symmetric])
  with q(1) show "n \<le> undec (digits_of (dollars_up n)) * 10000" by (simp add: mult.commute)
  have "n div 10000 \<le> 1000000000000 div 10000" using assms(2) by (rule div_le_mono)
  moreover have "0 < n div 10000" using assms(1) by (simp add: div_greater_zero_iff)
  ultimately have "undec (digits_of (dollars_down n)) = n div 10000"
    using assms(1) whole_cents [of "n div 10000"] by (simp add: dollars_down_def)
  then show "undec (digits_of (dollars_down n)) * 10000 \<le> n" by simp
qed

text \<open>
  The words of money err on the safe side: what a task could cost is never shown as less than it
  is, and what is left is never shown as more, whether in cents or, under a cent, in hundredths of
  one; the groups of three change no digit.
\<close>

theorem money_words_err_on_the_safe_side:
  assumes "n \<le> max_set_aside_micros"
  shows "n \<le> undec (digits_of (dollars_up n)) * (if n < 10000 then 100 else 10000) \<and>
    undec (digits_of (dollars_down n)) * (if n < 10000 then 100 else 10000) \<le> n"
proof (cases "n < 10000")
  case True
  with under_a_cent show ?thesis by simp
next
  case False
  moreover have "n \<le> 1000000000000"
    using assms by (simp add: max_set_aside_micros_def max_cap_micros_def micros_per_dollar_def)
  ultimately show ?thesis using from_a_cent [of n] by simp
qed

theorem money_words_err_on_the_safe_side_witness:
  "dollars_up 1234567891 = ''$1,234.57'' \<and> dollars_down 1234567891 = ''$1,234.56'' \<and>
   1234567891 \<le> undec (digits_of (dollars_up 1234567891)) * 10000 \<and>
   undec (digits_of (dollars_down 1234567891)) * 10000 \<le> 1234567891"
proof -
  have "1234567891 \<le> max_set_aside_micros"
    by (simp add: max_set_aside_micros_def max_cap_micros_def micros_per_dollar_def)
  from money_words_err_on_the_safe_side [OF this]
  have "1234567891 \<le> undec (digits_of (dollars_up 1234567891)) * 10000"
    "undec (digits_of (dollars_down 1234567891)) * 10000 \<le> 1234567891" by simp_all
  moreover have "dollars_up 1234567891 = ''$1,234.57''" "dollars_down 1234567891 = ''$1,234.56''" by code_simp+
  ultimately show ?thesis by blast
qed

end
