(* ===== verification/Router_Pace.thy ===== *)
theory Router_Pace
  imports Pacific_Time Store
begin

text \<open>
  Spreading a plan's use over its window (\<open>crates/router/src/pace.rs\<close>) and usage limits told from
  the Ledger's turn results (\<open>crates/router/src/limits.rs\<close>). Percentages are \<open>u8\<close>, moments are
  milliseconds in \<open>u64\<close> far below its top. The hour of the day is the argument \<open>hour_of\<close>, as in the
  source; the Ledger hands in \<open>pacific_hour\<close>.
\<close>

section \<open>Pace\<close>

definition u8_sat_add :: "nat \<Rightarrow> nat \<Rightarrow> nat" where
  "u8_sat_add a b = min 255 (a + b)"

definition is_day_hour :: "nat \<Rightarrow> bool" where
  "is_day_hour h \<longleftrightarrow> 8 \<le> h \<and> h < 20"

definition pace_margin :: nat where "pace_margin = 10"
definition far_ahead :: nat where "far_ahead = 25"
definition night_weight_default :: nat where "night_weight_default = 50"
definition week_minutes :: nat where "week_minutes = 7 * 24 * 60"
definition max_window_ms :: nat where "max_window_ms = 31 * 24 * hour_ms"

datatype pace = Ahead | OnPace | Behind | UnknownPace

record plan_window =
  pw_minutes :: "nat option"
  pw_used :: "nat option"
  pw_resets_at :: "nat option"
  pw_models :: "string option"

record plan_report =
  pp_windows :: "plan_window list"
  pp_limited :: bool

record window_pace =
  wp_minutes :: "nat option"
  wp_models :: "string option"
  wp_used :: nat
  wp_fair :: "nat option"
  wp_pace :: pace
  wp_resets_at :: "nat option"
  wp_estimated :: bool

text \<open>The end of the hour a moment is in.\<close>

definition next_hour :: "nat \<Rightarrow> nat" where
  "next_hour t = t - t mod hour_ms + hour_ms"

lemma next_hour_later: "t < next_hour t"
proof -
  have "t mod hour_ms < hour_ms" by (rule mod_less_divisor) (rule hour_pos)
  then show ?thesis unfolding next_hour_def by linarith
qed

text \<open>The loop over the hours of a window: all of its weight, and the weight gone by.\<close>

function weigh_hours :: "(nat \<Rightarrow> nat) \<Rightarrow> nat \<Rightarrow> nat \<Rightarrow> nat \<Rightarrow> nat \<times> nat \<Rightarrow> nat \<times> nat" where
  "weigh_hours wt stop now t (whole, gone) =
     (if t < stop
      then let next = min (next_hour t) stop; w = wt t
           in weigh_hours wt stop now next
                (whole + w * (next - t), if t < now then gone + w * (min now next - t) else gone)
      else (whole, gone))"
  by pat_completeness auto
termination
  by (relation "measure (\<lambda>(wt, stop, now, t, s). stop - t)")
     (auto simp: next_hour_later intro: diff_less_mono2)

declare weigh_hours.simps [simp del]

definition hour_weight :: "(nat \<Rightarrow> nat) \<Rightarrow> nat \<Rightarrow> nat \<Rightarrow> nat" where
  "hour_weight hour_of night_weight t = (if is_day_hour (hour_of t) then 100 else min 100 night_weight)"

text \<open>\<open>u8::try_from(x).ok()\<close>.\<close>

definition u8_ok :: "nat \<Rightarrow> nat option" where
  "u8_ok x = (if x \<le> 255 then Some x else None)"

definition fair_share :: "nat \<Rightarrow> nat \<Rightarrow> nat \<Rightarrow> nat \<Rightarrow> (nat \<Rightarrow> nat) \<Rightarrow> nat option" where
  "fair_share start stop now night_weight hour_of =
     (if stop \<le> start \<or> max_window_ms < stop - start then None
      else
        let now = max start (min now stop) in
        case weigh_hours (hour_weight hour_of night_weight) stop now start (0, 0) of (whole, gone) \<Rightarrow>
        if whole = 0 then u8_ok ((now - start) * 100 div (stop - start))
        else u8_ok ((gone * 100 + whole div 2) div whole))"

definition window_pace_at :: "plan_window \<Rightarrow> nat \<Rightarrow> nat \<Rightarrow> (nat \<Rightarrow> nat) \<Rightarrow> bool \<Rightarrow> window_pace option" where
  "window_pace_at w now night_weight hour_of estimated =
     (case pw_used w of
        None \<Rightarrow> None
      | Some used \<Rightarrow>
          if (case pw_resets_at w of None \<Rightarrow> False | Some r \<Rightarrow> r \<le> now) then None
          else
            let fair =
                  (case (pw_minutes w, pw_resets_at w) of
                     (Some minutes, Some stop) \<Rightarrow>
                       if 0 < minutes
                       then fair_share (stop - min u64_max (minutes * 60000)) stop now night_weight hour_of else None
                   | _ \<Rightarrow> None);
                pace =
                  (case fair of
                     Some f \<Rightarrow>
                       if u8_sat_add f pace_margin \<le> used then Ahead
                       else if u8_sat_add used pace_margin \<le> f then Behind else OnPace
                   | None \<Rightarrow> UnknownPace)
            in Some \<lparr>wp_minutes = pw_minutes w, wp_models = pw_models w, wp_used = used, wp_fair = fair,
                     wp_pace = pace, wp_resets_at = pw_resets_at w, wp_estimated = estimated\<rparr>)"

definition plan_paces :: "plan_report \<Rightarrow> nat \<Rightarrow> nat \<Rightarrow> (nat \<Rightarrow> nat) \<Rightarrow> window_pace list" where
  "plan_paces plan now night_weight hour_of =
     (let out = List.map_filter (\<lambda>w. window_pace_at w now night_weight hour_of False) (pp_windows plan)
      in if pp_limited plan \<and> \<not> list_ex (\<lambda>w. 100 \<le> wp_used w) out
         then out @ [\<lparr>wp_minutes = None, wp_models = None, wp_used = 100, wp_fair = None, wp_pace = UnknownPace,
                      wp_resets_at = None, wp_estimated = False\<rparr>]
         else out)"

definition estimated_window :: "nat \<Rightarrow> nat \<Rightarrow> nat \<Rightarrow> plan_window" where
  "estimated_window tokens budget week_start =
     (let used = (if budget = 0 then 100 else min 100 (min u64_max (tokens * 100) div budget))
      in \<lparr>pw_minutes = Some week_minutes, pw_used = Some used,
          pw_resets_at = Some (week_start + week_minutes * 60000), pw_models = None\<rparr>)"

definition step_level :: "window_pace \<Rightarrow> nat \<Rightarrow> nat" where
  "step_level w line =
     (let behind = (wp_pace w = Behind);
          ahead_by = (case wp_fair w of None \<Rightarrow> 0 | Some f \<Rightarrow> wp_used w - f);
          halfway = u8_sat_add line ((100 - line) div 2)
      in if (halfway \<le> wp_used w \<and> \<not> behind) \<or> far_ahead \<le> ahead_by then 2
         else if (line \<le> wp_used w \<and> \<not> behind) \<or> pace_margin \<le> ahead_by then 1
         else 0)"

definition window_name :: "window_pace \<Rightarrow> string" where
  "window_name w =
     (let name =
           (case wp_minutes w of
              Some m \<Rightarrow>
                if m = 300 then ''5-hour window''
                else if 10000 \<le> m \<and> m \<le> 10100 then ''week''
                else if 40000 \<le> m then ''month''
                else if m mod 60 = 0 \<and> 0 < m then dec (m div 60) @ ''-hour window''
                else ''plan''
            | None \<Rightarrow> ''plan'')
      in case wp_models w of
           Some models \<Rightarrow> name @ '' ('' @ models @ '')''
         | None \<Rightarrow> name)"

definition pace_why :: "string \<Rightarrow> window_pace \<Rightarrow> nat \<Rightarrow> string" where
  "pace_why tool w line =
     (let about = (if wp_estimated w then ''about '' else '''');
          estimated = (if wp_estimated w then '' (estimated)'' else '''');
          first = tool @ CHR 0x27 # ''s '' @ window_name w @ '' is '' @ about @ dec (wp_used w) @ ''% used'' @ estimated
      in case (wp_pace w, wp_fair w) of
           (Ahead, Some fair) \<Rightarrow> first @ '', ahead of pace ('' @ dec fair @ ''% by now)''
         | _ \<Rightarrow> first @ '' (your line is '' @ dec line @ ''%)'')"

definition plan_room :: "window_pace list \<Rightarrow> nat option" where
  "plan_room ws = (case map wp_used ws of [] \<Rightarrow> None | u # us \<Rightarrow> Some (100 - foldl max u us))"

section \<open>Usage limits\<close>

definition hold_ms :: nat where "hold_ms = 60 * 60 * 1000"

record turn_outcome =
  to_runtime :: string
  to_model :: "string option"
  to_outcome :: string
  to_error :: "string option"
  to_summary :: "string option"
  to_at :: nat

text \<open>\<open>ul_detail\<close> is the line cut at 200 characters, and whether it was cut (the source adds three
  dots as one character then).\<close>

record usage_limit =
  ul_model :: "string option"
  ul_since :: nat
  ul_resets_at :: "nat option"
  ul_until :: nat
  ul_detail :: "string \<times> bool"

fun first_found :: "('a \<Rightarrow> 'b option) \<Rightarrow> 'a list \<Rightarrow> 'b option" where
  "first_found f [] = None"
| "first_found f (x # xs) = (case f x of Some y \<Rightarrow> Some y | None \<Rightarrow> first_found f xs)"

text \<open>\<open>str::parse::<u64>\<close> of digits alone.\<close>

definition parse_digits :: "string \<Rightarrow> nat option" where
  "parse_digits s = (if s = '''' \<or> u64_max < undec s then None else Some (undec s))"

definition reset_time :: "string \<Rightarrow> nat \<Rightarrow> nat option" where
  "reset_time t at =
     first_found
       (\<lambda>part.
          Option.bind (parse_digits (takeWhile is_ascii_digit part)) (\<lambda>n.
          let ms = (if n < 100000000000 then n * 1000 else n)
          in if at < ms \<and> ms \<le> at + 30 * 24 * 60 * 60 * 1000 then Some ms else None))
       (drop 1 (split_on CHR ''|'' t))"

definition without_reset :: "string \<Rightarrow> string" where
  "without_reset t =
     (case split_once CHR ''|'' t of
        Some (before, rest) \<Rightarrow> (case rest of c # _ \<Rightarrow> if is_ascii_digit c then before else t | [] \<Rightarrow> t)
      | None \<Rightarrow> t)"

definition text_lines :: "string \<Rightarrow> string list" where
  "text_lines t = split_on (CHR 0x0A) t"

definition first_line :: "string \<Rightarrow> string \<times> bool" where
  "first_line t =
     (let line = trim (case find (\<lambda>l. trim l \<noteq> '''') (text_lines t) of Some l \<Rightarrow> l | None \<Rightarrow> '''')
      in (take 200 line, 200 < length line))"

text \<open>The newest result of each AI tool.\<close>

fun latest_of :: "turn_outcome list \<Rightarrow> (string, turn_outcome) store" where
  "latest_of [] = []"
| "latest_of (o1 # os) = (to_runtime o1, o1) # del (to_runtime o1) (latest_of os)"

definition outcome_detail :: "turn_outcome \<Rightarrow> string" where
  "outcome_detail o1 =
     (case to_error o1 of Some e \<Rightarrow> e | None \<Rightarrow> (case to_summary o1 of Some s \<Rightarrow> s | None \<Rightarrow> ''''))"

definition outcome_reset :: "(string \<Rightarrow> nat \<Rightarrow> nat option) \<Rightarrow> turn_outcome \<Rightarrow> nat option" where
  "outcome_reset reported o1 =
     (case reset_time (outcome_detail o1) (to_at o1) of
        Some r \<Rightarrow> Some r
      | None \<Rightarrow> reported (to_runtime o1) (to_at o1))"

definition limit_until :: "(string \<Rightarrow> nat \<Rightarrow> nat option) \<Rightarrow> turn_outcome \<Rightarrow> nat" where
  "limit_until reported o1 = (case outcome_reset reported o1 of Some r \<Rightarrow> r | None \<Rightarrow> to_at o1 + hold_ms)"

definition usage_limit_of ::
    "(string \<Rightarrow> nat \<Rightarrow> nat option) \<Rightarrow> (string, nat) store \<Rightarrow> nat \<Rightarrow> turn_outcome \<Rightarrow> usage_limit option" where
  "usage_limit_of reported cleared now o1 =
     (if to_outcome o1 = ''usageLimited'' \<and>
         (case get cleared (to_runtime o1) of None \<Rightarrow> True | Some c \<Rightarrow> c < to_at o1)
      then
        if now < limit_until reported o1
        then Some \<lparr>ul_model = to_model o1, ul_since = to_at o1, ul_resets_at = outcome_reset reported o1,
                   ul_until = limit_until reported o1, ul_detail = first_line (without_reset (outcome_detail o1))\<rparr>
        else None
      else None)"

definition active_limits ::
    "turn_outcome list \<Rightarrow> (string, nat) store \<Rightarrow> nat \<Rightarrow> (string \<Rightarrow> nat \<Rightarrow> nat option) \<Rightarrow> (string, usage_limit) store" where
  "active_limits outcomes cleared now reported =
     List.map_filter (\<lambda>(r, o1). map_option (Pair r) (usage_limit_of reported cleared now o1)) (latest_of outcomes)"

definition duration_words :: "nat \<Rightarrow> string" where
  "duration_words ms =
     (let minutes = div_ceil ms 60000
      in if minutes \<le> 1 then ''a minute''
         else if minutes \<le> 59 then dec minutes @ '' minutes''
         else if minutes \<le> 89 then ''about an hour''
         else if minutes < 48 * 60 then ''about '' @ dec ((minutes + 30) div 60) @ '' hours''
         else ''about '' @ dec ((minutes + 12 * 60) div (24 * 60)) @ '' days'')"

section \<open>A fair share\<close>

lemma weigh_hours_le:
  "weigh_hours wt stop now t (whole, gone) = (whole', gone') \<Longrightarrow> gone \<le> whole \<Longrightarrow> gone' \<le> whole'"
proof (induction wt stop now t "(whole, gone)" arbitrary: whole gone rule: weigh_hours.induct)
  case (1 wt stop now t whole gone)
  show ?case
  proof (cases "t < stop")
    case True
    let ?next = "min (next_hour t) stop"
    have "wt t * (min now ?next - t) \<le> wt t * (?next - t)" by (intro mult_le_mono2 diff_le_mono min.cobounded2)
    with "1.prems"(2) have "(if t < now then gone + wt t * (min now ?next - t) else gone) \<le> whole + wt t * (?next - t)"
      by (simp add: add_mono trans_le_add1)
    from "1.hyps" [OF True refl refl _ this] "1.prems"(1) True show ?thesis
      by (subst (asm) weigh_hours.simps) (simp add: Let_def)
  next
    case False
    with "1.prems" show ?thesis by (subst (asm) weigh_hours.simps) simp
  qed
qed

lemma gone_step:
  fixes a b :: nat
  shows "gone \<le> gone' \<Longrightarrow> a \<le> b \<Longrightarrow> now \<le> now' \<Longrightarrow>
    (if t < (now::nat) then gone + a else gone) \<le> (if t < now' then gone' + b else gone')"
  by auto

lemma weigh_hours_mono:
  assumes "now \<le> now'"
  shows "weigh_hours wt stop now t (whole, gone) = (a, b) \<Longrightarrow> weigh_hours wt stop now' t (whole, gone') = (a', b') \<Longrightarrow>
    gone \<le> gone' \<Longrightarrow> a = a' \<and> b \<le> b'"
proof (induction "stop - t" arbitrary: t whole gone gone' rule: less_induct)
  case less
  show ?case
  proof (cases "t < stop")
    case True
    let ?next = "min (next_hour t) stop"
    have shorter: "stop - ?next < stop - t" using True next_hour_later [of t] by auto
    have "wt t * (min now ?next - t) \<le> wt t * (min now' ?next - t)"
      by (intro mult_le_mono2 diff_le_mono min.mono assms order_refl)
    then have step: "(if t < now then gone + wt t * (min now ?next - t) else gone) \<le>
        (if t < now' then gone' + wt t * (min now' ?next - t) else gone')"
      by (rule gone_step [OF less.prems(3) _ assms])
    from less.prems(1,2) True
    have "weigh_hours wt stop now ?next (whole + wt t * (?next - t), if t < now then gone + wt t * (min now ?next - t) else gone) = (a, b)"
      "weigh_hours wt stop now' ?next (whole + wt t * (?next - t), if t < now' then gone' + wt t * (min now' ?next - t) else gone') = (a', b')"
      by (subst (asm) (1 2) weigh_hours.simps, simp add: Let_def)+
    from less.hyps [OF shorter this step] show ?thesis .
  next
    case False
    with less.prems show ?thesis by (subst (asm) (1 2) weigh_hours.simps) simp
  qed
qed

lemma weigh_hours_before: "now \<le> t \<Longrightarrow> weigh_hours wt stop now t (whole, gone) = (a, b) \<Longrightarrow> b = gone"
proof (induction "stop - t" arbitrary: t whole rule: less_induct)
  case less
  show ?case
  proof (cases "t < stop")
    case True
    let ?next = "min (next_hour t) stop"
    have "stop - ?next < stop - t" "now \<le> ?next" using True less.prems(1) next_hour_later [of t] by auto
    from less.hyps [OF this] less.prems True show ?thesis
      by (subst (asm) weigh_hours.simps) (simp add: Let_def)
  qed (use less.prems in \<open>subst (asm) weigh_hours.simps, simp\<close>)
qed

lemma weigh_hours_after:
  "stop \<le> now \<Longrightarrow> weigh_hours wt stop now t (whole, whole) = (a, b) \<Longrightarrow> b = a"
proof (induction "stop - t" arbitrary: t whole rule: less_induct)
  case less
  show ?case
  proof (cases "t < stop")
    case True
    let ?next = "min (next_hour t) stop"
    have "stop - ?next < stop - t" using True next_hour_later [of t] by auto
    moreover have "min now ?next = ?next" "t < now" using less.prems(1) True by auto
    ultimately show ?thesis using less.hyps [of ?next] less.prems True
      by (subst (asm) weigh_hours.simps) (simp add: Let_def)
  qed (use less.prems in \<open>subst (asm) weigh_hours.simps, simp\<close>)
qed

text \<open>A share of a whole, rounded to the nearest percent.\<close>

lemma percent_of:
  fixes part whole :: nat
  assumes "0 < whole" "part \<le> whole"
  shows "(part * 100 + whole div 2) div whole \<le> 100" "(0 * 100 + whole div 2) div whole = 0"
    "(whole * 100 + whole div 2) div whole = 100"
proof -
  have half: "whole div 2 < whole" using assms(1) by simp
  show full: "(whole * 100 + whole div 2) div whole = 100" "(0 * 100 + whole div 2) div whole = 0"
    using half by (simp_all add: div_add1_eq)
  have "(part * 100 + whole div 2) div whole \<le> (whole * 100 + whole div 2) div whole"
    using assms(2) by (intro div_le_mono) simp
  with full show "(part * 100 + whole div 2) div whole \<le> 100" by simp
qed

definition clock_in :: "nat \<Rightarrow> nat \<Rightarrow> nat \<Rightarrow> nat" where
  "clock_in start stop now = max start (min now stop)"

lemma clock_in_bounds: "start < stop \<Longrightarrow> start \<le> clock_in start stop now \<and> clock_in start stop now \<le> stop"
  by (auto simp: clock_in_def)

text \<open>The share, worked out from the loop.\<close>

definition share_of :: "nat \<Rightarrow> nat \<Rightarrow> nat \<Rightarrow> nat \<times> nat \<Rightarrow> nat" where
  "share_of start stop now = (\<lambda>(whole, gone).
     if whole = 0 then (now - start) * 100 div (stop - start) else (gone * 100 + whole div 2) div whole)"

lemma fair_share_of:
  assumes "start < stop" "stop - start \<le> max_window_ms"
  shows "fair_share start stop now nw h =
    Some (share_of start stop (clock_in start stop now)
      (weigh_hours (hour_weight h nw) stop (clock_in start stop now) start (0, 0))) \<and>
    share_of start stop (clock_in start stop now)
      (weigh_hours (hour_weight h nw) stop (clock_in start stop now) start (0, 0)) \<le> 100"
proof -
  let ?now = "clock_in start stop now"
  obtain whole gone where w: "weigh_hours (hour_weight h nw) stop ?now start (0, 0) = (whole, gone)"
    by (cases "weigh_hours (hour_weight h nw) stop ?now start (0, 0)")
  have "(?now - start) * 100 \<le> 100 * (stop - start)" using clock_in_bounds [OF assms(1), of now] diff_le_mono by simp
  then have "(?now - start) * 100 div (stop - start) \<le> 100 * (stop - start) div (stop - start)" by (rule div_le_mono)
  then have "(?now - start) * 100 div (stop - start) \<le> 100" using assms(1) by simp
  with percent_of(1) [of whole gone] weigh_hours_le [OF w]
  have "share_of start stop ?now (whole, gone) \<le> 100" by (auto simp: share_of_def)
  moreover from this have "u8_ok (share_of start stop ?now (whole, gone)) = Some (share_of start stop ?now (whole, gone))"
    by (simp add: u8_ok_def)
  ultimately show ?thesis
    using assms w by (cases "whole = 0") (simp_all add: fair_share_def clock_in_def [symmetric] share_of_def)
qed

text \<open>
  C28: The loop over the hours of a window ends, and every window of at most a month has a fair share:
  from 0 percent at its beginning to 100 at its end, never more, and never falling as the clock goes
  on, whatever the hours and the weight of the night.
\<close>

theorem fair_share_grows_from_0_to_100:
  assumes "start < stop" "stop - start \<le> max_window_ms" "now \<le> now'"
  shows "\<exists>p p'. fair_share start stop now nw h = Some p \<and> fair_share start stop now' nw h = Some p' \<and>
    p \<le> p' \<and> p' \<le> 100 \<and> (now \<le> start \<longrightarrow> p = 0) \<and> (stop \<le> now' \<longrightarrow> p' = 100)"
proof -
  let ?n = "clock_in start stop now" and ?n' = "clock_in start stop now'"
  let ?w = "\<lambda>n. weigh_hours (hour_weight h nw) stop n start (0, 0)"
  obtain whole gone where w: "?w ?n = (whole, gone)" by (cases "?w ?n")
  obtain whole' gone' where w': "?w ?n' = (whole', gone')" by (cases "?w ?n'")
  have n: "?n \<le> ?n'" using assms(3) by (auto simp: clock_in_def)
  from weigh_hours_mono [OF n w w'] have same: "whole' = whole" "gone \<le> gone'" by simp_all
  have "share_of start stop ?n (whole, gone) \<le> share_of start stop ?n' (whole', gone')"
    using same n by (auto simp: share_of_def intro!: div_le_mono)
  moreover have "share_of start stop ?n (whole, gone) = 0" if "now \<le> start"
  proof -
    have "?n = start" using that assms(1) by (simp add: clock_in_def)
    with weigh_hours_before [OF _ w] percent_of(2) [of whole 0] show ?thesis by (simp add: share_of_def)
  qed
  moreover have "share_of start stop ?n' (whole', gone') = 100" if "stop \<le> now'"
  proof -
    have "?n' = stop" using that assms(1) by (simp add: clock_in_def)
    with weigh_hours_after [OF _ w'] percent_of(3) [of whole' 0] assms(1) show ?thesis by (simp add: share_of_def)
  qed
  ultimately show ?thesis
    using fair_share_of [OF assms(1,2), of now nw h] fair_share_of [OF assms(1,2), of now' nw h] w w' by auto
qed

theorem fair_share_grows_from_0_to_100_witness:
  "\<exists>p p'. fair_share 0 (10 * hour_ms) (3 * hour_ms) 50 (\<lambda>t. t div hour_ms) = Some p \<and>
     fair_share 0 (10 * hour_ms) (10 * hour_ms) 50 (\<lambda>t. t div hour_ms) = Some p' \<and> p \<le> p' \<and> p' = 100"
  using fair_share_grows_from_0_to_100 [of 0 "10 * hour_ms" "3 * hour_ms" "10 * hour_ms" 50 "\<lambda>t. t div hour_ms"]
  by (auto simp: max_window_ms_def hour_ms_def)

section \<open>Who is at a limit\<close>

lemma latest_of_get: "get (latest_of os) r = find (\<lambda>o1. to_runtime o1 = r) os"
  by (induction os) auto

lemma latest_of_wf: "wf_store (latest_of os)"
  by (induction os) auto

lemma latest_of_key: "(r, o1) \<in> set (latest_of os) \<Longrightarrow> to_runtime o1 = r"
  using latest_of_wf [of os] latest_of_get [of os r] by (auto simp: get_in_set [symmetric] find_Some_iff)

lemma map_filter_get:
  "wf_store m \<Longrightarrow> get (List.map_filter (\<lambda>(k, v). map_option (Pair k) (f v)) m) k = Option.bind (get m k) f"
proof (induction m)
  case (Cons kv m)
  obtain k' v where kv: "kv = (k', v)" by (cases kv)
  have "get m k' = None" "wf_store m" using Cons.prems kv by simp_all
  with Cons.IH kv show ?case
    by (cases "f v") (auto simp: List.map_filter_simps)
qed (simp add: List.map_filter_simps)

text \<open>
  An AI tool is at its limit exactly when its newest turn hit one, the owner has not asked to try it
  again since, and the reset time it reported, or an hour without one, is not over: a turn that
  completed later, the owner's word, or the time itself sets it free.
\<close>

theorem at_limit_iff:
  "get (active_limits outcomes cleared now reported) r \<noteq> None \<longleftrightarrow>
     (\<exists>o1. find (\<lambda>o1. to_runtime o1 = r) outcomes = Some o1 \<and> to_outcome o1 = ''usageLimited'' \<and>
        (case get cleared r of None \<Rightarrow> True | Some c \<Rightarrow> c < to_at o1) \<and> now < limit_until reported o1)"
proof -
  have found: "get (active_limits outcomes cleared now reported) r =
      Option.bind (find (\<lambda>o1. to_runtime o1 = r) outcomes) (usage_limit_of reported cleared now)"
    unfolding active_limits_def using map_filter_get [OF latest_of_wf, of "usage_limit_of reported cleared now" outcomes r]
    by (simp add: latest_of_get)
  show ?thesis
  proof (cases "find (\<lambda>o1. to_runtime o1 = r) outcomes")
    case None
    then show ?thesis unfolding found by simp
  next
    case (Some o1)
    then have "to_runtime o1 = r" by (auto simp: find_Some_iff)
    then show ?thesis unfolding found Some by (simp add: usage_limit_of_def) blast
  qed
qed

end
