(* ===== verification/Router.thy ===== *)
theory Router
  imports Router_Pace Pricing "HOL-Library.Product_Lexorder" "HOL-Library.Sublist"
begin

text \<open>
  The model policy engine (\<open>crates/router/src/engine.rs\<close>, \<open>makers.rs\<close>, and the types of \<open>dto.rs\<close> and
  of \<open>crates/runtime/src/agent/dto.rs\<close> it reads): from a role's policy, the owner's list of models and
  the state of the AI tools to a model, an effort, and a verdict on every model considered. Why a model
  was skipped is a value of \<open>skip_why\<close> in place of the words shown; the closing sentence for the
  owner (\<open>reason\<close>) is left out.
\<close>

section \<open>AI tools and models\<close>

datatype effort = Minimal | Low | Medium | High | XHigh | MaxEffort | Ultra

primrec effort_rank :: "effort \<Rightarrow> nat" where
  "effort_rank Minimal = 0"
| "effort_rank Low = 1"
| "effort_rank Medium = 2"
| "effort_rank High = 3"
| "effort_rank XHigh = 4"
| "effort_rank MaxEffort = 5"
| "effort_rank Ultra = 6"

lemma effort_rank_inject [simp]: "effort_rank a = effort_rank b \<longleftrightarrow> a = b"
  by (cases a; cases b) simp_all

instantiation effort :: linorder
begin

definition less_eq_effort :: "effort \<Rightarrow> effort \<Rightarrow> bool" where
  "less_eq_effort a b \<longleftrightarrow> effort_rank a \<le> effort_rank b"

definition less_effort :: "effort \<Rightarrow> effort \<Rightarrow> bool" where
  "less_effort a b \<longleftrightarrow> effort_rank a < effort_rank b"

instance
  by standard (auto simp: less_eq_effort_def less_effort_def)

end

fun effort_label :: "effort \<Rightarrow> string" where
  "effort_label Minimal = ''minimal''"
| "effort_label Low = ''low''"
| "effort_label Medium = ''medium''"
| "effort_label High = ''high''"
| "effort_label XHigh = ''extra high''"
| "effort_label MaxEffort = ''max''"
| "effort_label Ultra = ''ultra''"

record maker =
  mr_id :: string
  mr_label :: string

record known_model =
  km_name :: string
  km_label :: string
  km_efforts :: "effort list"
  km_maker :: "maker option"
  km_points_to :: "string option"
  km_price :: "price option"
  km_same :: "string option"

text \<open>The fields of \<open>RuntimeCapabilities\<close> the router reads.\<close>

record capabilities =
  cp_tool_posture :: string
  cp_efforts :: "effort list"
  cp_known :: "known_model list"
  cp_default_maker :: "maker option"
  cp_runs_other_makers :: bool

definition effort_levels_for :: "capabilities \<Rightarrow> string option \<Rightarrow> effort list" where
  "effort_levels_for c model =
     (case Option.bind model (\<lambda>m. find (\<lambda>k. km_name k = m) (cp_known c)) of
        Some k \<Rightarrow> km_efforts k
      | None \<Rightarrow> cp_efforts c)"

datatype install_state = InstallChecking | Installed | NotInstalled | Unsupported | Broken

datatype auth_state =
  AuthChecking | Subscription | Unverified | ApiKey | ThirdPartyCloud | PaidKey | SignedOut | AuthUnknown

record runtime_info =
  ri_id :: string
  ri_label :: string
  ri_provider :: string
  ri_provider_label :: string
  ri_install :: install_state
  ri_install_detail :: "string option"
  ri_auth :: auth_state
  ri_auth_detail :: "string option"
  ri_caps :: capabilities
  ri_ready :: bool
  ri_reported :: "known_model list option"

record tool_state =
  ts_info :: runtime_info
  ts_limit :: "usage_limit option"
  ts_paid :: bool

section \<open>Who made a model\<close>

definition company_of :: "runtime_info \<Rightarrow> maker" where
  "company_of info = \<lparr>mr_id = ri_provider info, mr_label = ri_provider_label info\<rparr>"

definition own_maker :: "runtime_info \<Rightarrow> maker option" where
  "own_maker info = (if cp_runs_other_makers (ri_caps info) then None else Some (company_of info))"

definition maker_of :: "runtime_info \<Rightarrow> string option \<Rightarrow> maker option" where
  "maker_of info model =
     (case model of
        None \<Rightarrow> (case cp_default_maker (ri_caps info) of Some m \<Rightarrow> Some m | None \<Rightarrow> own_maker info)
      | Some name \<Rightarrow>
          (case first_found km_maker (filter (\<lambda>k. km_name k = name) (cp_known (ri_caps info))) of
             Some m \<Rightarrow> Some m
           | None \<Rightarrow> own_maker info))"

section \<open>Policies and rules\<close>

datatype model_feature = Vision | ImageGeneration | ComputerUse

datatype cost_class = Economical | Standard | Premium

primrec cost_rank :: "cost_class \<Rightarrow> nat" where
  "cost_rank Economical = 0"
| "cost_rank Standard = 1"
| "cost_rank Premium = 2"

datatype cost_preference = AnyCost | EconomicalFirst | PremiumFirst

datatype cross_company = CrossOff | CrossPrefer | CrossRequire

datatype limit_behavior = WaitForReset | NextChoice

record model_info =
  mi_id :: string
  mi_runtime :: string
  mi_name :: "string option"
  mi_label :: string
  mi_features :: "model_feature list"
  mi_context_tokens :: "nat option"
  mi_cost :: cost_class
  mi_effort :: "effort option"
  mi_built_in :: bool

record role_policy =
  rp_models :: "string list"
  rp_needs :: "model_feature list"
  rp_min_context :: "nat option"
  rp_never :: "string list"
  rp_cost :: cost_preference
  rp_cross :: cross_company
  rp_efforts :: "(string, effort) store"
  rp_effort :: "effort option"

record model_rule =
  mu_models :: "string list"
  mu_efforts :: "(string, effort) store"
  mu_effort :: "effort option"
  mu_never :: "string list"

datatype rule_layer = FixedLayer | AgentLayer | RoleLayer | DepartmentLayer | OrganizationLayer | ModelLayer

record rule_source =
  rs_layer :: rule_layer
  rs_name :: string
  rs_id :: "string option"

record department_rule =
  dr_id :: string
  dr_name :: string
  dr_rule :: model_rule

record work_done_by =
  wd_runtime :: string
  wd_model :: "string option"
  wd_model_unread :: bool

record route_input =
  in_role :: string
  in_role_id :: string
  in_policy :: role_policy
  in_agent :: "(string \<times> model_rule) option"
  in_department :: "department_rule option"
  in_organization :: "model_rule option"
  in_models :: "model_info list"
  in_tools :: "tool_state list"
  in_project :: "(string \<times> string list) option"
  in_reviewed :: "work_done_by list"
  in_on_limit :: limit_behavior
  in_step_down_at :: "nat option"
  in_plans :: "(string, window_pace list) store"
  in_low_priority :: bool
  in_now :: nat
  in_spending_room :: "nat option"

definition find_tool :: "tool_state list \<Rightarrow> string \<Rightarrow> tool_state option" where
  "find_tool tools i = find (\<lambda>t. ri_id (ts_info t) = i) tools"

section \<open>Words\<close>

definition contains_text :: "string \<Rightarrow> string \<Rightarrow> bool" where
  "contains_text s part \<longleftrightarrow> sublist part s"

definition named_on :: "string \<Rightarrow> string \<Rightarrow> string" where
  "named_on label tool =
     (if contains_text (to_lowercase label) (to_lowercase tool) then label else label @ '' ('' @ tool @ '')'')"

definition model_label :: "model_info \<Rightarrow> tool_state list \<Rightarrow> string" where
  "model_label m tools =
     named_on (mi_label m)
       (case find_tool tools (mi_runtime m) of Some t \<Rightarrow> ri_label (ts_info t) | None \<Rightarrow> mi_runtime m)"

definition not_ready :: "runtime_info \<Rightarrow> string option" where
  "not_ready info =
     (if ri_ready info then None
      else let label = ri_label info in Some
        (case ri_install info of
           InstallChecking \<Rightarrow> label @ '' is still being checked''
         | NotInstalled \<Rightarrow> label @ '' is not installed''
         | Unsupported \<Rightarrow> label @ '' is installed in a way Plenipo cannot run''
         | Broken \<Rightarrow> label @ '' is installed in a way Plenipo cannot run''
         | Installed \<Rightarrow>
             if ri_install_detail info \<noteq> None then ''Plenipo is not giving '' @ label @ '' tasks for now''
             else case ri_auth info of
               AuthChecking \<Rightarrow> label @ '' is still being checked''
             | SignedOut \<Rightarrow>
                 (case map_option trim (ri_auth_detail info) of
                    Some why \<Rightarrow>
                      if why \<noteq> '''' then label @ '' cannot take work now ('' @ trim_end_matches (\<lambda>c. c = CHR ''.'') why @ '')''
                      else label @ '' is not signed in''
                  | None \<Rightarrow> label @ '' is not signed in'')
             | PaidKey \<Rightarrow> ''Plenipo could not confirm '' @ label @ CHR 0x27 # ''s paid key''
             | ApiKey \<Rightarrow> label @ '' is signed in with its own API key, outside Plenipo'' @ CHR 0x27 #
                 ''s spending caps, so Plenipo does not use it''
             | ThirdPartyCloud \<Rightarrow> label @ '' is set up for a third-party cloud, which Plenipo does not use''
             | _ \<Rightarrow> ''Plenipo could not confirm '' @ label @ CHR 0x27 # ''s subscription sign-in''))"

definition limit_words :: "usage_limit \<Rightarrow> nat \<Rightarrow> string" where
  "limit_words limit now =
     (let left = duration_words (ul_until limit - now)
      in if ul_resets_at limit \<noteq> None then ''reached its usage limit (resets in '' @ left @ '')''
         else ''reached its usage limit (Plenipo tries it again in '' @ left @ '')'')"

section \<open>Layers\<close>

record model_layer =
  ml_source :: rule_source
  ml_models :: "string list"
  ml_efforts :: "(string, effort) store"
  ml_effort :: "effort option"
  ml_never :: "string list"

definition rule_as_layer :: "rule_source \<Rightarrow> model_rule \<Rightarrow> model_layer" where
  "rule_as_layer src rule =
     \<lparr>ml_source = src, ml_models = mu_models rule, ml_efforts = mu_efforts rule, ml_effort = mu_effort rule,
      ml_never = mu_never rule\<rparr>"

definition layers :: "route_input \<Rightarrow> model_layer list" where
  "layers input =
     (case in_agent input of
        Some (position, rule) \<Rightarrow>
          [rule_as_layer \<lparr>rs_layer = AgentLayer, rs_name = ''this agent'', rs_id = Some position\<rparr> rule]
      | None \<Rightarrow> []) @
     [\<lparr>ml_source =
         \<lparr>rs_layer = RoleLayer, rs_name = in_role input,
          rs_id = (if in_role_id input = '''' then None else Some (in_role_id input))\<rparr>,
       ml_models = rp_models (in_policy input), ml_efforts = rp_efforts (in_policy input),
       ml_effort = rp_effort (in_policy input), ml_never = rp_never (in_policy input)\<rparr>] @
     (case in_department input of
        Some d \<Rightarrow>
          [rule_as_layer
             \<lparr>rs_layer = DepartmentLayer, rs_name = ''the '' @ dr_name d @ '' department'', rs_id = Some (dr_id d)\<rparr>
             (dr_rule d)]
      | None \<Rightarrow> []) @
     (case in_organization input of
        Some rule \<Rightarrow>
          [rule_as_layer \<lparr>rs_layer = OrganizationLayer, rs_name = ''the organization'', rs_id = None\<rparr> rule]
      | None \<Rightarrow> [])"

definition never_by :: "model_layer list \<Rightarrow> string \<Rightarrow> string option" where
  "never_by ls company =
     map_option (\<lambda>l. rs_name (ml_source l)) (find (\<lambda>l. list_ex (\<lambda>c. c = company) (ml_never l)) ls)"

definition never_other_than :: "model_layer list \<Rightarrow> string \<Rightarrow> string option" where
  "never_other_than ls company =
     map_option (\<lambda>l. rs_name (ml_source l)) (find (\<lambda>l. list_ex (\<lambda>c. c \<noteq> company) (ml_never l)) ls)"

section \<open>Effort\<close>

definition somes :: "'a option list \<Rightarrow> 'a list" where
  "somes xs = List.map_filter (\<lambda>x. x) xs"

text \<open>The levels the layers set for a model, closest first, each with who set it.\<close>

definition efforts_set :: "string \<Rightarrow> model_layer \<Rightarrow> (effort \<times> rule_source) list" where
  "efforts_set model_id l =
     map (\<lambda>e. (e, ml_source l))
       (somes [if model_id = '''' then None else get (ml_efforts l) model_id, ml_effort l])"

fun effort_loop ::
    "effort list \<Rightarrow> (effort \<times> rule_source) list \<Rightarrow> (effort \<times> rule_source) option \<Rightarrow>
      (effort \<times> rule_source) option \<times> (effort \<times> rule_source) option" where
  "effort_loop levels [] passed = (None, passed)"
| "effort_loop levels ((e, src) # rest) passed =
     (if e \<in> set levels then (Some (e, src), passed)
      else effort_loop levels rest (case passed of None \<Rightarrow> Some (e, src) | Some p \<Rightarrow> Some p))"

definition effort_for ::
    "model_layer list \<Rightarrow> string \<Rightarrow> effort option \<Rightarrow> effort list \<Rightarrow>
      effort option \<times> rule_source option \<times> (effort \<times> rule_source) option" where
  "effort_for ls model_id model_effort levels =
     (case effort_loop levels (concat (map (efforts_set model_id) ls)) None of
        (Some (e, src), passed) \<Rightarrow> (Some e, Some src, passed)
      | (None, passed) \<Rightarrow>
          (case model_effort of
             Some e \<Rightarrow>
               if e \<in> set levels
               then (Some e,
                     Some \<lparr>rs_layer = ModelLayer, rs_name = ''the model'',
                           rs_id = (if model_id = '''' then None else Some model_id)\<rparr>, passed)
               else (None, None, passed)
           | None \<Rightarrow> (None, None, passed)))"

definition lower_effort :: "effort option \<Rightarrow> effort list \<Rightarrow> effort option" where
  "lower_effort eff levels =
     (if levels = [] then None
      else case eff of
        Some e \<Rightarrow>
          (case filter (\<lambda>l. l < e) levels of
             [] \<Rightarrow> Some e
           | l # ls \<Rightarrow> Some (foldl max l ls))
      | None \<Rightarrow> if Medium \<in> set levels then Some Medium else None)"

section \<open>Paid routes\<close>

definition paid_price :: "runtime_info \<Rightarrow> string option \<Rightarrow> price option option" where
  "paid_price info model =
     (case model of
        None \<Rightarrow> Some None
      | Some name \<Rightarrow>
          Option.bind (ri_reported info) (\<lambda>models.
          Option.bind (find (\<lambda>k. km_name k = name) models) (\<lambda>k.
          Option.bind (km_price k) (\<lambda>p. if is_sane p then Some (Some p) else None))))"

definition text_only :: "runtime_info \<Rightarrow> bool" where
  "text_only info = starts_with ''Conversation only'' (cp_tool_posture (ri_caps info))"

text \<open>The entry of a name in a list, an alias through the exact model it points to.\<close>

definition known_entry :: "known_model list \<Rightarrow> string \<Rightarrow> known_model option" where
  "known_entry known name =
     map_option
       (\<lambda>entry.
          case Option.bind (km_points_to entry) (\<lambda>exact. find (\<lambda>k. km_name k = exact) known) of
            Some k \<Rightarrow> k
          | None \<Rightarrow> entry)
       (find (\<lambda>k. km_name k = name) known)"

definition key_twin ::
    "tool_state list \<Rightarrow> tool_state \<Rightarrow> string option \<Rightarrow> (tool_state \<times> string \<times> string) option" where
  "key_twin tools sub name =
     Option.bind name (\<lambda>name.
     Option.bind (known_entry (cp_known (ri_caps (ts_info sub))) name) (\<lambda>entry.
     Option.bind (km_same entry) (\<lambda>link.
     Option.bind
       (find (\<lambda>k. ts_paid k \<and> ri_id (ts_info k) \<noteq> ri_id (ts_info sub) \<and>
          ri_provider (ts_info k) = ri_provider (ts_info sub)) tools) (\<lambda>key.
     Option.bind
       (case Option.bind (ri_reported (ts_info key)) (find (\<lambda>k. km_same k = Some link)) of
          Some k \<Rightarrow> Some k
        | None \<Rightarrow> find (\<lambda>k. km_same k = Some link) (cp_known (ri_caps (ts_info key)))) (\<lambda>twin.
     Some (key, km_name twin, named_on (km_label twin) (ri_label (ts_info key))))))))"

text \<open>Why a model is skipped. For a review: the maker of the model or of the work may also be unknown.\<close>

datatype same_why = MakerUnknown | WorkUnknown | SameMaker

datatype skip_why =
    Removed
  | ToolGone string
  | NeverUses string string
  | NeverMaker string string
  | NeverUnknown string
  | ProjectForbids string string
  | SameCompany string same_why string
  | NotReady string
  | AtLimit string string
  | NotPricedYet
  | NothingLeft string
  | TooLittleLeft string
  | WaitsFor string
  | KeyBlocked skip_why string skip_why

definition room_too_small :: "nat option \<Rightarrow> price option \<Rightarrow> bool" where
  "room_too_small room price =
     (case (room, price) of (Some r, Some p) \<Rightarrow> r < smallest_step_cost p | _ \<Rightarrow> False)"

definition project_forbids :: "route_input \<Rightarrow> runtime_info \<Rightarrow> skip_why option" where
  "project_forbids input info =
     (case in_project input of
        Some (name, allowed) \<Rightarrow>
          if ri_id info \<in> set allowed then None else Some (ProjectForbids name (ri_label info))
      | None \<Rightarrow> None)"

definition key_blocked :: "route_input \<Rightarrow> model_layer list \<Rightarrow> tool_state \<Rightarrow> string \<Rightarrow> skip_why option" where
  "key_blocked input ls key name =
     (let info = ts_info key in
      case never_by ls (ri_provider info) of
        Some who \<Rightarrow> Some (NeverUses who (ri_provider_label info))
      | None \<Rightarrow>
      case project_forbids input info of
        Some why \<Rightarrow> Some why
      | None \<Rightarrow>
      case ts_limit key of
        Some limit \<Rightarrow> Some (AtLimit (ri_label info) (limit_words limit (in_now input)))
      | None \<Rightarrow>
      case paid_price info (Some name) of
        None \<Rightarrow> Some NotPricedYet
      | Some price \<Rightarrow>
          if in_spending_room input = Some 0 then Some (NothingLeft (ri_label info))
          else if room_too_small (in_spending_room input) price then Some (TooLittleLeft (ri_label info))
          else None)"

section \<open>Stepping down\<close>

definition smaller_in_turn :: "string list" where
  "smaller_in_turn = [''claude-fable-5-1'', ''claude-opus-5-5'', ''claude-sonnet-5-5'', ''claude-haiku-4-5'']"

fun after_in :: "string list \<Rightarrow> string \<Rightarrow> string option" where
  "after_in [] x = None"
| "after_in [a] x = None"
| "after_in (a # b # xs) x = (if a = x then Some b else after_in (b # xs) x)"

definition smaller_model :: "tool_state \<Rightarrow> string option \<Rightarrow> (string \<times> string) option" where
  "smaller_model t name =
     (let known = cp_known (ri_caps (ts_info t)) in
      Option.bind name (\<lambda>name.
      Option.bind (known_entry known name) (\<lambda>entry.
      Option.bind (km_same entry) (\<lambda>same.
      Option.bind (after_in smaller_in_turn same) (\<lambda>next.
      map_option (\<lambda>k. (km_name k, km_label k)) (find (\<lambda>k. km_same k = Some next) known))))))"

text \<open>\<open>max_by_key\<close>: the last of the largest.\<close>

definition max_by_key :: "('a \<Rightarrow> 'b::linorder) \<Rightarrow> 'a list \<Rightarrow> 'a option" where
  "max_by_key key xs =
     (case xs of [] \<Rightarrow> None | y # ys \<Rightarrow> Some (foldl (\<lambda>best z. if key best \<le> key z then z else best) y ys))"

definition step_down ::
    "route_input \<Rightarrow> model_layer option \<Rightarrow> tool_state \<Rightarrow> model_info \<Rightarrow> string \<Rightarrow> effort option \<Rightarrow>
      (string option \<times> effort option \<times> string \<times> string) option" where
  "step_down input listing t m label eff =
     Option.bind (in_step_down_at input) (\<lambda>line.
     if ts_paid t \<or> (case listing of Some l \<Rightarrow> rs_layer (ml_source l) = AgentLayer | None \<Rightarrow> False) then None
     else
       Option.bind (get (in_plans input) (ri_id (ts_info t))) (\<lambda>windows.
       Option.bind (max_by_key (\<lambda>(level, w). (level, wp_used w)) (map (\<lambda>w. (step_level w line, w)) windows))
         (\<lambda>(level, window).
       if level = 0 then None
       else
         let smaller = (if 2 \<le> level then smaller_model t (mi_name m) else None);
             model = (case smaller of Some (n, _) \<Rightarrow> Some n | None \<Rightarrow> mi_name m);
             lowered = lower_effort eff (effort_levels_for (ri_caps (ts_info t)) model);
             what =
               (case smaller of Some (_, l) \<Rightarrow> [l @ '' instead of '' @ mi_label m] | None \<Rightarrow> []) @
               (if lowered \<noteq> eff then (case lowered of Some e \<Rightarrow> [effort_label e @ '' effort''] | None \<Rightarrow> []) else []);
             new_label =
               (case smaller of Some (_, l) \<Rightarrow> l @ '' ('' @ ri_label (ts_info t) @ '')'' | None \<Rightarrow> label)
         in if what = [] then None
            else Some (model, lowered, new_label,
                       pace_why (ri_label (ts_info t)) window line @ '', so it steps down: '' @ join '', at '' what))))"

section \<open>Candidates\<close>

record candidate =
  ca_id :: string
  ca_rank :: "nat option"
  ca_model :: "model_info option"

definition listing_of :: "route_input \<Rightarrow> model_layer option" where
  "listing_of input = find (\<lambda>l. ml_models l \<noteq> []) (layers input)"

definition model_tool :: "route_input \<Rightarrow> model_info \<Rightarrow> tool_state option" where
  "model_tool input m = find_tool (in_tools input) (mi_runtime m)"

definition cost_sorted :: "cost_preference \<Rightarrow> model_info list \<Rightarrow> model_info list" where
  "cost_sorted pref ms =
     (case pref of
        AnyCost \<Rightarrow> ms
      | EconomicalFirst \<Rightarrow> sort_key (\<lambda>m. cost_rank (mi_cost m)) ms
      | PremiumFirst \<Rightarrow> sort_key (\<lambda>m. - int (cost_rank (mi_cost m))) ms)"

definition on_paid_tool :: "route_input \<Rightarrow> model_info \<Rightarrow> bool" where
  "on_paid_tool input m = (case model_tool input m of Some t \<Rightarrow> ts_paid t | None \<Rightarrow> False)"

definition all_candidates :: "route_input \<Rightarrow> candidate list" where
  "all_candidates input =
     (case listing_of input of
        Some l \<Rightarrow>
          map (\<lambda>(i, rank). \<lparr>ca_id = i, ca_rank = Some rank,
                 ca_model = find (\<lambda>m. mi_id m = i) (in_models input)\<rparr>)
            (zip (ml_models l) [1..<Suc (length (ml_models l))])
      | None \<Rightarrow>
          map (\<lambda>m. \<lparr>ca_id = mi_id m, ca_rank = None, ca_model = Some m\<rparr>)
            (filter (\<lambda>m. \<not> on_paid_tool input m) (cost_sorted (rp_cost (in_policy input)) (in_models input))))"

section \<open>Review by another company\<close>

definition model_maker :: "route_input \<Rightarrow> model_info \<Rightarrow> maker option" where
  "model_maker input m = Option.bind (model_tool input m) (\<lambda>t. maker_of (ts_info t) (mi_name m))"

definition work_maker :: "tool_state \<Rightarrow> work_done_by \<Rightarrow> maker option" where
  "work_maker t w =
     (if wd_model_unread w \<and> cp_runs_other_makers (ri_caps (ts_info t)) then None
      else maker_of (ts_info t) (wd_model w))"

definition add_reviewed :: "route_input \<Rightarrow> maker list \<times> bool \<Rightarrow> work_done_by \<Rightarrow> maker list \<times> bool" where
  "add_reviewed input acc w =
     (case find_tool (in_tools input) (wd_runtime w) of
        None \<Rightarrow> acc
      | Some t \<Rightarrow>
          (case work_maker t w of
             Some made \<Rightarrow>
               if list_ex (\<lambda>r. mr_id r = mr_id made) (fst acc) then acc else (fst acc @ [made], snd acc)
           | None \<Rightarrow> (fst acc, True)))"

definition reviewed_makers :: "route_input \<Rightarrow> maker list \<times> bool" where
  "reviewed_makers input = foldl (add_reviewed input) ([], False) (in_reviewed input)"

definition cross_for :: "route_input \<Rightarrow> cross_company" where
  "cross_for input =
     (if reviewed_makers input = ([], False) then CrossOff else rp_cross (in_policy input))"

fun list_words :: "string list \<Rightarrow> string" where
  "list_words [] = ''''"
| "list_words [one] = one"
| "list_words [a, b] = a @ '' and '' @ b"
| "list_words items = join '', '' (butlast items) @ '', and '' @ last items"

definition reviewed_names :: "route_input \<Rightarrow> string" where
  "reviewed_names input =
     list_words (map mr_label (fst (reviewed_makers input)) @
       (if snd (reviewed_makers input) then [''an AI company Plenipo doesn'' @ CHR 0x27 # ''t know''] else []))"

definition same_company :: "route_input \<Rightarrow> model_info \<Rightarrow> bool" where
  "same_company input m =
     (case model_maker input m of
        None \<Rightarrow> True
      | Some made \<Rightarrow>
          snd (reviewed_makers input) \<or> list_ex (\<lambda>r. mr_id r = mr_id made) (fst (reviewed_makers input)))"

fun behind_ids :: "route_input \<Rightarrow> bool \<Rightarrow> candidate list \<Rightarrow> string list" where
  "behind_ids input listed [] = []"
| "behind_ids input listed (c # cs) =
     (if (case ca_model c of Some m \<Rightarrow> on_paid_tool input m | None \<Rightarrow> False)
      then (if listed then ca_id c # behind_ids input listed cs else behind_ids input listed cs)
      else behind_ids input True cs)"

definition company_order :: "route_input \<Rightarrow> candidate \<Rightarrow> nat" where
  "company_order input c =
     (case ca_model c of
        None \<Rightarrow> 0
      | Some m \<Rightarrow> if model_maker input m = None then 2 else if same_company input m then 1 else 0)"

definition prefer_sorted :: "route_input \<Rightarrow> candidate list \<Rightarrow> candidate list" where
  "prefer_sorted input cs =
     (if cross_for input = CrossPrefer
      then let behind = behind_ids input False cs
           in sort_key (\<lambda>c. (ca_id c \<in> set behind, company_order input c)) cs
      else cs)"

text \<open>Low-priority work: the room of a candidate's plan, \<open>None\<close> for a paid route and for a plan with nothing
  reported.\<close>

definition candidate_room :: "route_input \<Rightarrow> candidate \<Rightarrow> nat option" where
  "candidate_room input c =
     Option.bind (ca_model c) (\<lambda>m.
     Option.bind (model_tool input m) (\<lambda>t.
     if ts_paid t then None
     else Option.bind (get (in_plans input) (ri_id (ts_info t))) plan_room))"

definition room_sorted :: "route_input \<Rightarrow> candidate list \<Rightarrow> candidate list" where
  "room_sorted input cs =
     (if in_low_priority input \<and> in_reviewed input = []
      then sort_key (\<lambda>c. - (case candidate_room input c of None \<Rightarrow> - 1 | Some r \<Rightarrow> int r)) cs
      else cs)"

definition candidates :: "route_input \<Rightarrow> candidate list" where
  "candidates input = room_sorted input (prefer_sorted input (all_candidates input))"

section \<open>The checks of one candidate\<close>

text \<open>The rules of the owner, and that the AI tool can take work.\<close>

definition never_skip :: "route_input \<Rightarrow> tool_state \<Rightarrow> model_info \<Rightarrow> skip_why option" where
  "never_skip input t m =
     (let info = ts_info t; ls = layers input; made_by = model_maker input m in
      case never_by ls (ri_provider info) of
        Some who \<Rightarrow> Some (NeverUses who (ri_provider_label info))
      | None \<Rightarrow>
      case made_by of
        Some made \<Rightarrow>
          if mr_id made \<noteq> ri_provider info
          then map_option (\<lambda>who. NeverMaker who (mr_label made)) (never_by ls (mr_id made))
          else None
      | None \<Rightarrow> map_option NeverUnknown (never_other_than ls (ri_provider info)))"

definition same_skip :: "route_input \<Rightarrow> model_info \<Rightarrow> skip_why option" where
  "same_skip input m =
     (if cross_for input = CrossRequire \<and> same_company input m
      then Some (SameCompany (in_role input)
             (if model_maker input m = None then MakerUnknown
              else if snd (reviewed_makers input) then WorkUnknown
              else SameMaker)
             (reviewed_names input))
      else None)"

definition rules_skip :: "route_input \<Rightarrow> tool_state \<Rightarrow> model_info \<Rightarrow> skip_why option" where
  "rules_skip input t m =
     (case never_skip input t m of Some why \<Rightarrow> Some why | None \<Rightarrow>
      case project_forbids input (ts_info t) of Some why \<Rightarrow> Some why | None \<Rightarrow>
      case same_skip input m of Some why \<Rightarrow> Some why | None \<Rightarrow>
      map_option NotReady (not_ready (ts_info t)))"

definition paid_skip :: "route_input \<Rightarrow> tool_state \<Rightarrow> model_info \<Rightarrow> skip_why option" where
  "paid_skip input t m =
     (if ts_paid t
      then case paid_price (ts_info t) (mi_name m) of
             None \<Rightarrow> Some NotPricedYet
           | Some price \<Rightarrow>
               if in_spending_room input = Some 0 then Some (NothingLeft (ri_label (ts_info t)))
               else if room_too_small (in_spending_room input) price then Some (TooLittleLeft (ri_label (ts_info t)))
               else None
      else None)"

type_synonym waits = "(string \<times> string) option"

text \<open>Why to skip a candidate, whether only for a usage limit, and the company work waits for from now on.\<close>

definition skip_of ::
    "route_input \<Rightarrow> waits \<Rightarrow> tool_state \<Rightarrow> model_info \<Rightarrow> skip_why option \<times> bool \<times> waits" where
  "skip_of input waiting t m =
     (let info = ts_info t in
      case rules_skip input t m of Some why \<Rightarrow> (Some why, False, waiting) | None \<Rightarrow>
      case ts_limit t of
        Some limit \<Rightarrow>
          (Some (AtLimit (ri_label info) (limit_words limit (in_now input))), True,
           if in_on_limit input = WaitForReset \<and> waiting = None then Some (ri_provider info, ri_label info)
           else waiting)
      | None \<Rightarrow>
      case paid_skip input t m of Some why \<Rightarrow> (Some why, False, waiting) | None \<Rightarrow>
      case waiting of
        Some (company, label) \<Rightarrow>
          (if company \<noteq> ri_provider info then Some (WaitsFor label) else None, False, waiting)
      | None \<Rightarrow> (None, False, waiting))"

section \<open>The decision\<close>

datatype route_verdict = Chosen | Skipped | NotNeeded

record candidate_note =
  cn_model :: string
  cn_label :: string
  cn_verdict :: route_verdict
  cn_note :: "skip_why option"

record route_choice =
  rc_model_id :: string
  rc_runtime :: string
  rc_runtime_label :: string
  rc_company :: string
  rc_model :: "string option"
  rc_effort :: "effort option"
  rc_label :: string
  rc_maker :: "maker option"
  rc_paid :: bool

record route_state =
  st_notes :: "candidate_note list"
  st_chosen :: "(route_choice \<times> nat option) option"
  st_effort_from :: "rule_source option"
  st_effort_passed :: "(effort \<times> rule_source) option"
  st_waiting :: waits
  st_on_key :: "(string \<times> string) option"
  st_stepped :: "string option"

definition start_state :: route_state where
  "start_state =
     \<lparr>st_notes = [], st_chosen = None, st_effort_from = None, st_effort_passed = None, st_waiting = None,
      st_on_key = None, st_stepped = None\<rparr>"

definition add_note :: "candidate_note \<Rightarrow> route_state \<Rightarrow> route_state" where
  "add_note n s = s\<lparr>st_notes := st_notes s @ [n]\<rparr>"

definition note_on :: "route_input \<Rightarrow> model_info \<Rightarrow> route_verdict \<Rightarrow> skip_why option \<Rightarrow> route_state \<Rightarrow> route_state" where
  "note_on input m verdict why =
     add_note \<lparr>cn_model = mi_id m, cn_label = model_label m (in_tools input), cn_verdict = verdict, cn_note = why\<rparr>"

text \<open>The chosen model on the key of the same company.\<close>

definition choose_twin ::
    "route_input \<Rightarrow> tool_state \<Rightarrow> model_info \<Rightarrow> nat option \<Rightarrow> tool_state \<times> string \<times> string \<Rightarrow> route_state \<Rightarrow> route_state" where
  "choose_twin input t m rank twin s =
     (case twin of (key, name, twin_label) \<Rightarrow>
      let info = ts_info key;
          (eff, from, passed) =
            effort_for (layers input) (mi_id m) (mi_effort m) (effort_levels_for (ri_caps info) (Some name));
          s = add_note \<lparr>cn_model = mi_id m, cn_label = twin_label, cn_verdict = Chosen, cn_note = None\<rparr> s
      in s\<lparr>st_chosen := Some
             (\<lparr>rc_model_id = mi_id m, rc_runtime = ri_id info, rc_runtime_label = ri_label info,
               rc_company = ri_provider info, rc_model = Some name, rc_effort = eff, rc_label = twin_label,
               rc_maker = model_maker input m, rc_paid = True\<rparr>, rank),
           st_effort_from := from, st_effort_passed := passed,
           st_on_key := map_option (\<lambda>l. (ri_label (ts_info t), limit_words l (in_now input))) (ts_limit t)\<rparr>)"

text \<open>The chosen model itself, perhaps stepped down.\<close>

definition choose_model ::
    "route_input \<Rightarrow> tool_state \<Rightarrow> model_info \<Rightarrow> nat option \<Rightarrow> route_state \<Rightarrow> route_state" where
  "choose_model input t m rank s =
     (let info = ts_info t;
          label = model_label m (in_tools input);
          (eff, from, passed) =
            effort_for (layers input) (mi_id m) (mi_effort m) (effort_levels_for (ri_caps info) (mi_name m));
          (model, eff, label, from, stepped) =
            (case step_down input (listing_of input) t m label eff of
               Some (down_model, down_effort, down_label, words) \<Rightarrow>
                 (down_model, down_effort, down_label, None, Some words)
             | None \<Rightarrow> (mi_name m, eff, label, from, st_stepped s));
          s = note_on input m Chosen None s
      in s\<lparr>st_chosen := Some
             (\<lparr>rc_model_id = mi_id m, rc_runtime = ri_id info, rc_runtime_label = ri_label info,
               rc_company = ri_provider info, rc_model = model, rc_effort = eff, rc_label = label,
               rc_maker = model_maker input m, rc_paid = ts_paid t\<rparr>, rank),
           st_effort_from := from, st_effort_passed := passed, st_stepped := stepped\<rparr>)"

definition ready_twin :: "route_input \<Rightarrow> bool \<Rightarrow> tool_state \<Rightarrow> model_info \<Rightarrow> (tool_state \<times> string \<times> string) option" where
  "ready_twin input limited_here t m =
     (if limited_here \<and> \<not> ts_paid t
      then Option.bind (key_twin (in_tools input) t (mi_name m))
             (\<lambda>twin. if not_ready (ts_info (fst twin)) = None then Some twin else None)
      else None)"

definition try_candidate :: "route_input \<Rightarrow> tool_state \<Rightarrow> model_info \<Rightarrow> nat option \<Rightarrow> route_state \<Rightarrow> route_state" where
  "try_candidate input t m rank s =
     (let (skip, limited_here, waiting) = skip_of input (st_waiting s) t m;
          s = s\<lparr>st_waiting := waiting\<rparr>
      in case skip of
           None \<Rightarrow> choose_model input t m rank s
         | Some why \<Rightarrow>
             (case ready_twin input limited_here t m of
                None \<Rightarrow> note_on input m Skipped (Some why) s
              | Some (key, name, twin_label) \<Rightarrow>
                  (case key_blocked input (layers input) key name of
                     Some blocked \<Rightarrow>
                       note_on input m Skipped (Some (KeyBlocked why (ri_label (ts_info key)) blocked)) s
                   | None \<Rightarrow>
                       choose_twin input t m rank (key, name, twin_label)
                         (note_on input m Skipped (Some why) s))))"

definition route_step :: "route_input \<Rightarrow> route_state \<Rightarrow> candidate \<Rightarrow> route_state" where
  "route_step input s c =
     (case ca_model c of
        None \<Rightarrow>
          add_note \<lparr>cn_model = ca_id c, cn_label = ''A removed model'', cn_verdict = Skipped, cn_note = Some Removed\<rparr> s
      | Some m \<Rightarrow>
          if st_chosen s \<noteq> None then note_on input m NotNeeded None s
          else case model_tool input m of
                 None \<Rightarrow> note_on input m Skipped (Some (ToolGone (mi_runtime m))) s
               | Some t \<Rightarrow> try_candidate input t m (ca_rank c) s)"

record route_decision =
  rd_choice :: "route_choice option"
  rd_rank :: "nat option"
  rd_candidates :: "candidate_note list"
  rd_fixed :: bool
  rd_model_from :: "rule_source option"
  rd_effort_from :: "rule_source option"
  rd_on_key_for :: "string option"
  rd_stepped_down :: "string option"

definition route :: "route_input \<Rightarrow> route_decision" where
  "route input =
     (let s = foldl (route_step input) start_state (candidates input) in
      case st_chosen s of
        Some (choice, rank) \<Rightarrow>
          \<lparr>rd_choice = Some choice, rd_rank = rank, rd_candidates = st_notes s, rd_fixed = False,
           rd_model_from = map_option ml_source (listing_of input), rd_effort_from = st_effort_from s,
           rd_on_key_for = map_option fst (st_on_key s), rd_stepped_down = st_stepped s\<rparr>
      | None \<Rightarrow>
          \<lparr>rd_choice = None, rd_rank = None, rd_candidates = st_notes s, rd_fixed = False, rd_model_from = None,
           rd_effort_from = None, rd_on_key_for = None, rd_stepped_down = None\<rparr>)"

end
