(* ===== verification/Router_Props.thy ===== *)
theory Router_Props
  imports Router
begin

text \<open>
  What the router promises: the model it chooses has passed every check of the owner, it is the first
  candidate that can take the work, paid routes and other companies are used only where the owner allows it,
  and the effort asked for is the closest one set that the model takes.
\<close>

section \<open>The loop over the candidates\<close>

text \<open>The model of a candidate with its AI tool.\<close>

definition candidate_tool :: "route_input \<Rightarrow> candidate \<Rightarrow> (tool_state \<times> model_info) option" where
  "candidate_tool input c =
     Option.bind (ca_model c) (\<lambda>m. map_option (\<lambda>t. (t, m)) (model_tool input m))"

text \<open>Stopped by a usage limit alone, and the company whose limit the work then waits for.\<close>

definition limited :: "route_input \<Rightarrow> candidate \<Rightarrow> bool" where
  "limited input c =
     (case candidate_tool input c of
        Some (t, m) \<Rightarrow> rules_skip input t m = None \<and> ts_limit t \<noteq> None
      | None \<Rightarrow> False)"

definition company :: "route_input \<Rightarrow> candidate \<Rightarrow> string option" where
  "company input c = map_option (\<lambda>(t, m). ri_provider (ts_info t)) (candidate_tool input c)"

definition waits_for :: "route_input \<Rightarrow> candidate list \<Rightarrow> string option" where
  "waits_for input cs =
     (if in_on_limit input = WaitForReset then Option.bind (find (limited input) cs) (company input) else None)"

text \<open>A candidate that can take the work when the work waits for the company \<open>w\<close>: by itself, or on the key of the
  same company while its own AI tool is at its limit.\<close>

definition key_takes :: "route_input \<Rightarrow> tool_state \<Rightarrow> model_info \<Rightarrow> bool" where
  "key_takes input t m =
     (case ready_twin input True t m of
        Some (key, name, _) \<Rightarrow> key_blocked input (layers input) key name = None
      | None \<Rightarrow> False)"

definition takes :: "route_input \<Rightarrow> string option \<Rightarrow> candidate \<Rightarrow> bool" where
  "takes input w c =
     (case candidate_tool input c of
        None \<Rightarrow> False
      | Some (t, m) \<Rightarrow>
          rules_skip input t m = None \<and>
          (if ts_limit t = None then paid_skip input t m = None \<and> (w = None \<or> w = Some (ri_provider (ts_info t)))
           else key_takes input t m))"

definition first_taken :: "route_input \<Rightarrow> candidate list \<Rightarrow> nat option" where
  "first_taken input cs =
     find (\<lambda>i. takes input (waits_for input (take i cs)) (cs ! i)) [0..<length cs]"

lemmas note_defs = note_on_def add_note_def

lemma notes_keep [simp]:
  "st_chosen (note_on input m v why s) = st_chosen s" "st_waiting (note_on input m v why s) = st_waiting s"
  "st_on_key (note_on input m v why s) = st_on_key s"
  "st_chosen (add_note n s) = st_chosen s" "st_waiting (add_note n s) = st_waiting s"
  "st_on_key (add_note n s) = st_on_key s"
  by (simp_all add: note_defs)

lemma step_keeps_choice:
  assumes "st_chosen s \<noteq> None"
  shows "st_chosen (route_step input s c) = st_chosen s" "st_on_key (route_step input s c) = st_on_key s"
  using assms by (auto simp: route_step_def split: option.splits)

lemma loop_keeps_choice:
  assumes "st_chosen s \<noteq> None"
  shows "st_chosen (foldl (route_step input) s cs) = st_chosen s \<and>
    st_on_key (foldl (route_step input) s cs) = st_on_key s"
  using assms by (induction cs arbitrary: s) (simp_all add: step_keeps_choice)

text \<open>The two ways to choose.\<close>

lemma choose_model_sets:
  "\<exists>choice. st_chosen (choose_model input t m rank s) = Some (choice, rank) \<and>
     rc_model_id choice = mi_id m \<and> rc_runtime choice = ri_id (ts_info t) \<and>
     rc_company choice = ri_provider (ts_info t) \<and> rc_maker choice = model_maker input m \<and>
     rc_paid choice = ts_paid t \<and> (ts_paid t \<longrightarrow> rc_model choice = mi_name m) \<and>
     st_on_key (choose_model input t m rank s) = st_on_key s"
  by (auto simp: choose_model_def Let_def step_down_def note_defs split: prod.splits option.splits)

lemma choose_twin_sets:
  "\<exists>choice. st_chosen (choose_twin input t m rank (key, name, label) s) = Some (choice, rank) \<and>
     rc_model_id choice = mi_id m \<and> rc_runtime choice = ri_id (ts_info key) \<and>
     rc_company choice = ri_provider (ts_info key) \<and> rc_maker choice = model_maker input m \<and>
     rc_paid choice \<and> rc_model choice = Some name \<and>
     st_on_key (choose_twin input t m rank (key, name, label) s) =
       map_option (\<lambda>l. (ri_label (ts_info t), limit_words l (in_now input))) (ts_limit t)"
  by (auto simp: choose_twin_def Let_def note_defs split: prod.splits)

lemma twin_sets_choice [simp]: "st_chosen (choose_twin input t m rank twin s) \<noteq> None"
  using choose_twin_sets [of input t m rank "fst twin" "fst (snd twin)" "snd (snd twin)" s] by auto

lemma model_sets_choice [simp]: "st_chosen (choose_model input t m rank s) \<noteq> None"
  using choose_model_sets [of input t m rank s] by auto

lemma ready_twin_limited: "ready_twin input False t m = None"
  by (simp add: ready_twin_def)

lemmas skip_split = skip_of_def Let_def

lemma try_takes:
  assumes "candidate_tool input c = Some (t, m)" and "st_chosen s = None"
    and "map_option fst (st_waiting s) = w"
  shows "st_chosen (try_candidate input t m rank s) = None \<longleftrightarrow> \<not> takes input w c"
  using assms
  by (auto simp: try_candidate_def skip_split takes_def key_takes_def ready_twin_limited
      split: option.splits prod.splits if_splits)

lemma try_waits:
  assumes "st_chosen (try_candidate input t m rank s) = None"
  shows "map_option fst (st_waiting (try_candidate input t m rank s)) =
    (if in_on_limit input = WaitForReset \<and> st_waiting s = None \<and> rules_skip input t m = None \<and> ts_limit t \<noteq> None
     then Some (ri_provider (ts_info t)) else map_option fst (st_waiting s))"
  using assms
  by (auto simp: try_candidate_def skip_split ready_twin_limited split: option.splits prod.splits if_splits)

lemma step_takes:
  assumes "st_chosen s = None" and "map_option fst (st_waiting s) = w"
  shows "st_chosen (route_step input s c) = None \<longleftrightarrow> \<not> takes input w c"
proof (cases "candidate_tool input c")
  case None
  with assms show ?thesis
    by (auto simp: candidate_tool_def route_step_def takes_def bind_eq_None_conv split: option.splits)
next
  case (Some tm)
  obtain t m where tm: "tm = (t, m)"
    by force
  with Some assms have "route_step input s c = try_candidate input t m (ca_rank c) s"
    by (auto simp: candidate_tool_def route_step_def bind_eq_Some_conv)
  with try_takes [OF Some [unfolded tm] assms] show ?thesis
    by simp
qed

lemma step_waits:
  assumes "st_chosen s = None" and "st_chosen (route_step input s c) = None"
  shows "map_option fst (st_waiting (route_step input s c)) =
    (if in_on_limit input = WaitForReset \<and> st_waiting s = None \<and> limited input c
     then company input c else map_option fst (st_waiting s))"
proof (cases "candidate_tool input c")
  case None
  with assms show ?thesis
    by (auto simp: candidate_tool_def route_step_def limited_def bind_eq_None_conv split: option.splits)
next
  case (Some tm)
  obtain t m where tm: "tm = (t, m)"
    by force
  with Some assms have "route_step input s c = try_candidate input t m (ca_rank c) s"
    by (auto simp: candidate_tool_def route_step_def bind_eq_Some_conv)
  with try_waits [of input t m "ca_rank c" s] assms Some tm show ?thesis
    by (auto simp: limited_def company_def)
qed

lemma step_off_key:
  assumes "st_chosen s = None" and "st_chosen (route_step input s c) = None"
  shows "st_on_key (route_step input s c) = st_on_key s"
  using assms
  by (auto simp: route_step_def try_candidate_def Let_def split: option.splits prod.splits if_splits)

text \<open>What a choice is made from: the candidate itself, or its twin on the key of the company.\<close>

definition choice_of ::
    "route_input \<Rightarrow> string option \<Rightarrow> tool_state \<Rightarrow> model_info \<Rightarrow> route_choice \<Rightarrow> bool \<Rightarrow> bool" where
  "choice_of input w t m choice on_key \<longleftrightarrow>
     rules_skip input t m = None \<and> rc_model_id choice = mi_id m \<and> rc_maker choice = model_maker input m \<and>
     (\<exists>key name.
        rc_runtime choice = ri_id (ts_info key) \<and> rc_company choice = ri_provider (ts_info key) \<and>
        rc_paid choice = ts_paid key \<and> (ts_paid key \<longrightarrow> rc_model choice = name) \<and>
        (if on_key
         then ts_limit t \<noteq> None \<and> (\<exists>n l. name = Some n \<and> ready_twin input True t m = Some (key, n, l) \<and>
                key_blocked input (layers input) key n = None)
         else key = t \<and> name = mi_name m \<and> ts_limit t = None \<and> paid_skip input t m = None \<and>
              (w = None \<or> w = Some (ri_provider (ts_info t)))))"

lemma twin_is_paid: "ready_twin input b t m = Some (key, n, l) \<Longrightarrow> ts_paid key"
  by (auto simp: ready_twin_def key_twin_def bind_eq_Some_conv find_Some_iff split: if_splits)

lemma try_chooses:
  assumes "st_chosen s = None" and "st_on_key s = None" and "map_option fst (st_waiting s) = w"
    and chosen: "st_chosen (try_candidate input t m rank s) = Some (choice, r)"
  shows "r = rank \<and> choice_of input w t m choice (st_on_key (try_candidate input t m rank s) \<noteq> None)"
proof (cases "rules_skip input t m = None \<and> ts_limit t = None")
  case True
  with assms obtain s' where taken: "try_candidate input t m rank s = choose_model input t m rank s'"
    and ok: "paid_skip input t m = None" "w = None \<or> w = Some (ri_provider (ts_info t))" "st_on_key s' = None"
    by (auto simp: try_candidate_def skip_split ready_twin_limited split: option.splits if_splits prod.splits)
  with choose_model_sets [of input t m rank s'] chosen True show ?thesis
    unfolding taken by (auto simp: choice_of_def)
next
  case False
  with assms obtain key n l s' where taken: "try_candidate input t m rank s = choose_twin input t m rank (key, n, l) s'"
    and ok: "rules_skip input t m = None" "ts_limit t \<noteq> None" "ready_twin input True t m = Some (key, n, l)"
      "key_blocked input (layers input) key n = None"
    by (auto simp: try_candidate_def skip_split ready_twin_limited split: option.splits if_splits prod.splits)
  from choose_twin_sets [of input t m rank key n l s'] chosen ok twin_is_paid [OF ok(3)] show ?thesis
    unfolding taken by (auto simp: choice_of_def)
qed

lemma step_chooses:
  assumes "st_chosen s = None" and "st_on_key s = None" and "map_option fst (st_waiting s) = w"
    and "st_chosen (route_step input s c) = Some (choice, r)"
  shows "\<exists>t m. candidate_tool input c = Some (t, m) \<and> r = ca_rank c \<and>
    choice_of input w t m choice (st_on_key (route_step input s c) \<noteq> None)"
proof -
  from assms obtain t m where c: "candidate_tool input c = Some (t, m)"
    and step: "route_step input s c = try_candidate input t m (ca_rank c) s"
    by (auto simp: candidate_tool_def route_step_def split: option.splits)
  with try_chooses [OF assms(1,2,3), of input t m "ca_rank c" choice r] assms(4) show ?thesis
    by simp
qed

lemma find_snoc: "find P (xs @ [x]) = (case find P xs of Some y \<Rightarrow> Some y | None \<Rightarrow> if P x then Some x else None)"
  by (induction xs) auto

lemma find_same: "(\<And>x. x \<in> set xs \<Longrightarrow> P x = Q x) \<Longrightarrow> find P xs = find Q xs"
  by (induction xs) auto

lemma limited_company: "limited input c \<Longrightarrow> company input c \<noteq> None"
  by (auto simp: limited_def company_def split: option.splits)

lemma waits_snoc:
  "waits_for input (cs @ [c]) =
    (if in_on_limit input = WaitForReset \<and> waits_for input cs = None \<and> limited input c
     then company input c else waits_for input cs)"
proof -
  have "company input d \<noteq> None" if "find (limited input) cs = Some d" for d
    using that limited_company by (auto simp: find_Some_iff)
  then show ?thesis
    by (auto simp: waits_for_def find_snoc split: option.splits)
qed

lemma first_taken_snoc:
  "first_taken input (cs @ [c]) =
    (case first_taken input cs of
       Some i \<Rightarrow> Some i
     | None \<Rightarrow> if takes input (waits_for input cs) c then Some (length cs) else None)"
proof -
  have "find (\<lambda>i. takes input (waits_for input (take i (cs @ [c]))) ((cs @ [c]) ! i)) [0..<length cs] =
    first_taken input cs"
    unfolding first_taken_def by (rule find_same) (simp add: nth_append)
  then show ?thesis
    by (simp add: first_taken_def find_snoc)
qed

lemma loop_takes:
  fixes input
  defines "loop \<equiv> foldl (route_step input) start_state"
  shows "(st_chosen (loop cs) = None \<longleftrightarrow> first_taken input cs = None) \<and>
    (st_chosen (loop cs) = None \<longrightarrow>
      map_option fst (st_waiting (loop cs)) = waits_for input cs \<and> st_on_key (loop cs) = None)"
proof (induction cs rule: rev_induct)
  case Nil
  then show ?case
    by (simp add: loop_def start_state_def first_taken_def waits_for_def)
next
  case (snoc c cs)
  have step: "loop (cs @ [c]) = route_step input (loop cs) c"
    by (simp add: loop_def)
  show ?case
  proof (cases "st_chosen (loop cs) = None")
    case True
    with snoc have w: "map_option fst (st_waiting (loop cs)) = waits_for input cs"
      and f: "first_taken input cs = None" and k: "st_on_key (loop cs) = None"
      by auto
    have "st_waiting (loop cs) = None \<longleftrightarrow> waits_for input cs = None"
      by (simp flip: w)
    with True w f k step step_takes [OF True w, of input c] step_waits [OF True, of input c]
      step_off_key [OF True, of input c] show ?thesis
      by (auto simp: first_taken_snoc waits_snoc)
  next
    case False
    with snoc have "first_taken input cs \<noteq> None"
      by blast
    with False step step_keeps_choice(1) [OF False, of input c] show ?thesis
      by (auto simp: first_taken_snoc split: option.splits)
  qed
qed

lemma loop_chooses:
  assumes "st_chosen (foldl (route_step input) start_state cs) = Some (choice, r)"
  shows "\<exists>i t m. first_taken input cs = Some i \<and> i < length cs \<and> candidate_tool input (cs ! i) = Some (t, m) \<and>
    r = ca_rank (cs ! i) \<and>
    choice_of input (waits_for input (take i cs)) t m choice
      (st_on_key (foldl (route_step input) start_state cs) \<noteq> None)"
  using assms
proof (induction cs rule: rev_induct)
  case Nil
  then show ?case
    by (simp add: start_state_def)
next
  case (snoc c cs)
  define s where "s = foldl (route_step input) start_state cs"
  have step: "foldl (route_step input) start_state (cs @ [c]) = route_step input s c"
    by (simp add: s_def)
  show ?case
  proof (cases "st_chosen s = None")
    case True
    with loop_takes [of input cs] have w: "map_option fst (st_waiting s) = waits_for input cs"
      and k: "st_on_key s = None" and f: "first_taken input cs = None"
      by (auto simp: s_def)
    from step_takes [OF True w, of input c] snoc.prems step have "takes input (waits_for input cs) c"
      by auto
    with f have "first_taken input (cs @ [c]) = Some (length cs)"
      by (simp add: first_taken_snoc)
    with step_chooses [OF True k w] snoc.prems step show ?thesis
      by auto
  next
    case False
    from step_keeps_choice [OF False, of input c] snoc.prems step snoc.IH
    obtain i t m where "first_taken input cs = Some i" "i < length cs" "candidate_tool input (cs ! i) = Some (t, m)"
      "r = ca_rank (cs ! i)" "choice_of input (waits_for input (take i cs)) t m choice (st_on_key s \<noteq> None)"
      by (auto simp: s_def)
    with step_keeps_choice(2) [OF False, of input c] step show ?thesis
      by (auto simp: first_taken_snoc nth_append)
  qed
qed

lemma route_chooses:
  assumes "rd_choice (route input) = Some choice"
  obtains i t m where "first_taken input (candidates input) = Some i" "i < length (candidates input)"
    "candidate_tool input (candidates input ! i) = Some (t, m)" "rd_rank (route input) = ca_rank (candidates input ! i)"
    "choice_of input (waits_for input (take i (candidates input))) t m choice (rd_on_key_for (route input) \<noteq> None)"
proof -
  let ?s = "foldl (route_step input) start_state (candidates input)"
  from assms obtain r where c: "st_chosen ?s = Some (choice, r)"
    by (auto simp: route_def Let_def split: option.splits)
  then have "rd_rank (route input) = r" "rd_on_key_for (route input) \<noteq> None \<longleftrightarrow> st_on_key ?s \<noteq> None"
    by (auto simp: route_def Let_def)
  with loop_chooses [OF c] that show ?thesis
    by auto
qed

section \<open>Facts of the candidates and of the checks\<close>

lemma candidate_set: "set (candidates input) = set (all_candidates input)"
  by (simp add: candidates_def room_sorted_def prefer_sorted_def Let_def)

lemma candidate_model:
  assumes "c \<in> set (candidates input)" and "ca_model c = Some m"
  shows "ca_id c = mi_id m \<and> m \<in> set (in_models input)"
proof (cases "listing_of input")
  case None
  with assms show ?thesis
    by (auto simp: candidate_set all_candidates_def cost_sorted_def split: cost_preference.splits)
next
  case (Some l)
  with assms show ?thesis
    by (auto simp: candidate_set all_candidates_def find_Some_iff)
qed

lemma candidate_toolD:
  assumes "candidate_tool input c = Some (t, m)"
  shows "ca_model c = Some m" "model_tool input m = Some t" "t \<in> set (in_tools input)"
  using assms by (auto simp: candidate_tool_def bind_eq_Some_conv model_tool_def find_tool_def find_Some_iff)

lemma never_by_None: "never_by ls co = None \<longleftrightarrow> (\<forall>l \<in> set ls. co \<notin> set (ml_never l))"
  by (auto simp: never_by_def find_None_iff list_ex_iff)

lemma never_other_None: "never_other_than ls co = None \<longleftrightarrow> (\<forall>l \<in> set ls. set (ml_never l) \<subseteq> {co})"
  by (auto simp: never_other_than_def find_None_iff list_ex_iff)

lemma project_allows:
  "project_forbids input info = None \<longleftrightarrow>
    (\<forall>name allowed. in_project input = Some (name, allowed) \<longrightarrow> ri_id info \<in> set allowed)"
  by (auto simp: project_forbids_def split: option.splits)

lemma not_ready_None: "not_ready info = None \<longleftrightarrow> ri_ready info"
  by (simp add: not_ready_def Let_def)

text \<open>The maker of a choice is none the owner never uses: a known one is on no list, and an unknown one could be on
  none.\<close>

definition maker_allowed :: "route_input \<Rightarrow> string \<Rightarrow> maker option \<Rightarrow> bool" where
  "maker_allowed input co made \<longleftrightarrow>
     (\<forall>l \<in> set (layers input). co \<notin> set (ml_never l) \<and>
        (case made of Some by \<Rightarrow> mr_id by \<notin> set (ml_never l) | None \<Rightarrow> set (ml_never l) \<subseteq> {co}))"

lemma rules_skip_None:
  "rules_skip input t m = None \<longleftrightarrow>
    maker_allowed input (ri_provider (ts_info t)) (model_maker input m) \<and>
    project_forbids input (ts_info t) = None \<and>
    (cross_for input = CrossRequire \<longrightarrow> \<not> same_company input m) \<and> ri_ready (ts_info t)"
proof -
  have "never_skip input t m = None \<longleftrightarrow>
    never_by (layers input) (ri_provider (ts_info t)) = None \<and>
    (case model_maker input m of
       Some by \<Rightarrow> never_by (layers input) (mr_id by) = None
     | None \<Rightarrow> never_other_than (layers input) (ri_provider (ts_info t)) = None)"
    by (auto simp: never_skip_def Let_def split: option.splits)
  then have "never_skip input t m = None \<longleftrightarrow> maker_allowed input (ri_provider (ts_info t)) (model_maker input m)"
    unfolding never_by_None never_other_None by (auto simp: maker_allowed_def split: option.splits)
  then show ?thesis
    by (auto simp: rules_skip_def same_skip_def not_ready_None split: option.splits)
qed

text \<open>
  The money for a paid route: something is left, and a model asked for by its name has a reported price that
  makes sense and room for at least the shortest task at that price. (The AI tool's own default model is
  priced right before the task.)
\<close>

definition paid_for :: "route_input \<Rightarrow> runtime_info \<Rightarrow> string option \<Rightarrow> bool" where
  "paid_for input info name \<longleftrightarrow>
     in_spending_room input \<noteq> Some 0 \<and>
     (\<forall>n. name = Some n \<longrightarrow>
        (\<exists>models k p. ri_reported info = Some models \<and> find (\<lambda>k. km_name k = n) models = Some k \<and>
           km_price k = Some p \<and> is_sane p \<and>
           (\<forall>room. in_spending_room input = Some room \<longrightarrow> smallest_step_cost p \<le> room)))"

lemma paid_for_priced:
  "paid_for input info name \<longleftrightarrow>
     in_spending_room input \<noteq> Some 0 \<and>
     (case paid_price info name of Some price \<Rightarrow> \<not> room_too_small (in_spending_room input) price | None \<Rightarrow> False)"
proof (cases name)
  case None
  then show ?thesis by (auto simp: paid_for_def paid_price_def room_too_small_def split: option.split)
next
  case (Some n)
  then show ?thesis
    by (auto simp: paid_for_def paid_price_def room_too_small_def bind_eq_Some_conv not_less
        split: option.splits if_splits)
qed

lemma paid_skip_None: "paid_skip input t m = None \<longleftrightarrow> (ts_paid t \<longrightarrow> paid_for input (ts_info t) (mi_name m))"
  by (auto simp: paid_skip_def paid_for_priced split: option.splits)

lemma key_blocked_None:
  "key_blocked input ls key n = None \<longleftrightarrow>
    never_by ls (ri_provider (ts_info key)) = None \<and> project_forbids input (ts_info key) = None \<and>
    ts_limit key = None \<and> paid_for input (ts_info key) (Some n)"
  by (auto simp: key_blocked_def paid_for_priced Let_def split: option.splits)

lemma ready_twinD:
  assumes "ready_twin input b t m = Some (key, n, l)"
  shows "key \<in> set (in_tools input)" "ri_provider (ts_info key) = ri_provider (ts_info t)"
    "ri_ready (ts_info key)" "ts_paid key" "\<not> ts_paid t"
  using assms
  by (auto simp: ready_twin_def key_twin_def bind_eq_Some_conv find_Some_iff not_ready_None split: if_splits)

text \<open>All that is known of a choice, with the AI tool it runs on.\<close>

lemma choice_checked:
  assumes "choice_of input w t m choice k" and "t \<in> set (in_tools input)"
  shows "maker_allowed input (rc_company choice) (rc_maker choice) \<and>
    (cross_for input = CrossRequire \<longrightarrow> \<not> same_company input m) \<and>
    (\<exists>tool \<in> set (in_tools input).
       ri_id (ts_info tool) = rc_runtime choice \<and> ri_provider (ts_info tool) = rc_company choice \<and>
       ri_ready (ts_info tool) \<and> ts_limit tool = None \<and> project_forbids input (ts_info tool) = None \<and>
       ts_paid tool = rc_paid choice \<and> (rc_paid choice \<longrightarrow> paid_for input (ts_info tool) (rc_model choice)))"
proof -
  from assms(1) have rules: "rules_skip input t m = None" "rc_maker choice = model_maker input m"
    by (simp_all add: choice_of_def)
  show ?thesis
  proof (cases k)
    case True
    with assms(1) obtain key n l where key: "rc_runtime choice = ri_id (ts_info key)"
      "rc_company choice = ri_provider (ts_info key)" "rc_paid choice = ts_paid key"
      "ts_paid key \<longrightarrow> rc_model choice = Some n" and twin: "ready_twin input True t m = Some (key, n, l)"
      and free: "key_blocked input (layers input) key n = None"
      by (auto simp: choice_of_def)
    from ready_twinD [OF twin] key free rules show ?thesis
      by (auto simp: rules_skip_None key_blocked_None intro!: bexI [of _ key])
  next
    case False
    with assms rules show ?thesis
      by (auto simp: choice_of_def rules_skip_None paid_skip_None intro!: bexI [of _ t])
  qed
qed

lemma reviewed_fold:
  assumes "foldl (add_reviewed input) acc ws = (made, unknown)"
  shows "(snd acc \<longrightarrow> unknown) \<and> set (fst acc) \<subseteq> set made \<and>
    (\<forall>w \<in> set ws. \<forall>t. find_tool (in_tools input) (wd_runtime w) = Some t \<longrightarrow>
       (case work_maker t w of None \<Rightarrow> unknown | Some by \<Rightarrow> \<exists>r \<in> set made. mr_id r = mr_id by))"
  using assms
proof (induction ws arbitrary: acc)
  case (Cons w ws)
  from Cons.prems have "foldl (add_reviewed input) (add_reviewed input acc w) ws = (made, unknown)"
    by simp
  from Cons.IH [OF this] show ?case
    by (auto simp: add_reviewed_def list_ex_iff split: option.splits if_splits)
qed auto

lemma reviewed_known:
  assumes "w \<in> set (in_reviewed input)" and "find_tool (in_tools input) (wd_runtime w) = Some t"
  shows "case work_maker t w of
      None \<Rightarrow> snd (reviewed_makers input)
    | Some by \<Rightarrow> \<exists>r \<in> set (fst (reviewed_makers input)). mr_id r = mr_id by"
  using reviewed_fold [of input "([], False)" "in_reviewed input" "fst (reviewed_makers input)"
      "snd (reviewed_makers input)"] assms
  by (auto simp: reviewed_makers_def)

section \<open>What the router promises\<close>

text \<open>
  C9: the loop over the candidates is a search. The router chooses the first candidate, in the order of the
  closest list (or the order the policy asks for), that passes the checks of the owner and either can take
  the work itself, with no other company's limit to wait for, or runs on the key of its own company while its
  subscription is at its limit; it chooses none when no candidate can, and the rank it reports is the place of
  that candidate in the list.
\<close>

theorem route_takes_the_first:
  "(map_option rc_model_id (rd_choice (route input)), rd_rank (route input)) =
    (case first_taken input (candidates input) of
       None \<Rightarrow> (None, None)
     | Some i \<Rightarrow> (Some (ca_id (candidates input ! i)), ca_rank (candidates input ! i)))"
proof (cases "rd_choice (route input)")
  case None
  then have "st_chosen (foldl (route_step input) start_state (candidates input)) = None"
    and "rd_rank (route input) = None"
    by (auto simp: route_def Let_def split: option.splits)
  with None loop_takes [of input "candidates input"] show ?thesis
    by simp
next
  case (Some choice)
  obtain i t m where
    i: "first_taken input (candidates input) = Some i" "i < length (candidates input)"
      "candidate_tool input (candidates input ! i) = Some (t, m)"
      "rd_rank (route input) = ca_rank (candidates input ! i)"
    and "choice_of input (waits_for input (take i (candidates input))) t m choice
      (rd_on_key_for (route input) \<noteq> None)"
    by (rule route_chooses [OF Some])
  then have "rc_model_id choice = mi_id m"
    by (simp add: choice_of_def)
  with i candidate_model [OF nth_mem [OF i(2)] candidate_toolD(1) [OF i(3)]] Some show ?thesis
    by simp
qed

text \<open>
  C8: every model the router chooses has passed every check. It is in the owner's list; its company and its
  maker are on no list of companies never to use, of the agent, the role, the department or the organization (and
  where its maker is unknown, no such list names another company than that of its AI tool); the AI tool it
  runs on is ready, at no usage limit and allowed in the project; and on a paid one something is left under the
  spending caps, and a model asked for by its name has a price that makes sense and room for at least its
  shortest task.
\<close>

theorem chosen_passes_every_check:
  assumes "rd_choice (route input) = Some choice"
  shows "\<exists>m \<in> set (in_models input). \<exists>tool \<in> set (in_tools input).
    mi_id m = rc_model_id choice \<and> ri_id (ts_info tool) = rc_runtime choice \<and>
    ri_provider (ts_info tool) = rc_company choice \<and> ri_ready (ts_info tool) \<and> ts_limit tool = None \<and>
    maker_allowed input (rc_company choice) (rc_maker choice) \<and>
    (\<forall>name allowed. in_project input = Some (name, allowed) \<longrightarrow> rc_runtime choice \<in> set allowed) \<and>
    ts_paid tool = rc_paid choice \<and> (rc_paid choice \<longrightarrow> paid_for input (ts_info tool) (rc_model choice))"
proof -
  from route_chooses [OF assms] obtain i t m where i: "i < length (candidates input)"
      "candidate_tool input (candidates input ! i) = Some (t, m)"
    and c: "choice_of input (waits_for input (take i (candidates input))) t m choice
      (rd_on_key_for (route input) \<noteq> None)"
    by metis
  from candidate_model [OF nth_mem [OF i(1)] candidate_toolD(1) [OF i(2)]] c
  have m: "m \<in> set (in_models input)" "mi_id m = rc_model_id choice"
    by (auto simp: choice_of_def)
  from choice_checked [OF c candidate_toolD(3) [OF i(2)]] m show ?thesis
    by (auto simp: project_allows intro!: bexI [of _ m])
qed

text \<open>
  C10: where a role needs another AI company than the work it reviews, the model chosen and every piece of the
  work under review (whose AI tool Plenipo knows) have known makers, and they differ.
\<close>

theorem review_by_another_company:
  assumes "rp_cross (in_policy input) = CrossRequire" and "rd_choice (route input) = Some choice"
    and "w \<in> set (in_reviewed input)" and "find_tool (in_tools input) (wd_runtime w) = Some t"
  shows "\<exists>by made. work_maker t w = Some by \<and> rc_maker choice = Some made \<and> mr_id by \<noteq> mr_id made"
proof -
  note known = reviewed_known [OF assms(3,4)]
  then have "cross_for input = CrossRequire"
    using assms(1) by (auto simp: cross_for_def split: option.splits)
  moreover from route_chooses [OF assms(2)] obtain i u m where
    i: "candidate_tool input (candidates input ! i) = Some (u, m)"
    and c: "choice_of input (waits_for input (take i (candidates input))) u m choice
      (rd_on_key_for (route input) \<noteq> None)"
    by metis
  ultimately have "\<not> same_company input m" "rc_maker choice = model_maker input m"
    using choice_checked [OF c candidate_toolD(3) [OF i]] by (auto simp: choice_of_def)
  with known show ?thesis
    by (fastforce simp: same_company_def list_ex_iff split: option.splits)
qed

text \<open>
  C11: nothing turns subscription use into paid use unasked. A paid choice is a model the closest list of
  the owner names, at the place the decision reports, unless the work moved to the key of the same
  company, which the decision then says.
\<close>

theorem paid_only_where_listed:
  assumes "rd_choice (route input) = Some choice" and "rc_paid choice" and "rd_on_key_for (route input) = None"
  shows "\<exists>l n. listing_of input = Some l \<and> rd_model_from (route input) = Some (ml_source l) \<and>
    rd_rank (route input) = Some (Suc n) \<and> n < length (ml_models l) \<and> ml_models l ! n = rc_model_id choice"
proof -
  from route_chooses [OF assms(1)] obtain i t m where i: "i < length (candidates input)"
      "candidate_tool input (candidates input ! i) = Some (t, m)"
      "rd_rank (route input) = ca_rank (candidates input ! i)"
    and "choice_of input (waits_for input (take i (candidates input))) t m choice
      (rd_on_key_for (route input) \<noteq> None)"
    by metis
  with assms(3) have c: "choice_of input (waits_for input (take i (candidates input))) t m choice False"
    by simp
  let ?c = "candidates input ! i"
  from c assms(2) have paid: "ts_paid t" and id: "rc_model_id choice = mi_id m"
    by (auto simp: choice_of_def)
  from i(1) have mem: "?c \<in> set (all_candidates input)"
    by (metis candidate_set nth_mem)
  from candidate_toolD(1) [OF i(2)] candidate_model [OF nth_mem [OF i(1)]] id have cid: "ca_id ?c = rc_model_id choice"
    by simp
  from assms(1) have from_list: "rd_model_from (route input) = map_option ml_source (listing_of input)"
    by (auto simp: route_def Let_def split: option.splits)
  show ?thesis
  proof (cases "listing_of input")
    case None
    with mem candidate_toolD [OF i(2)] paid show ?thesis
      by (auto simp: all_candidates_def on_paid_tool_def)
  next
    case (Some l)
    with mem have "\<exists>n < length (ml_models l). ca_rank ?c = Some (Suc n) \<and> ca_id ?c = ml_models l ! n"
      by (auto simp: all_candidates_def in_set_zip simp del: upt_Suc)
    with Some cid i(3) from_list show ?thesis
      by auto
  qed
qed

text \<open>
  C26: when the owner asks to wait for a usage limit to reset, the work stays with the company of the first
  candidate that was stopped by its limit alone: a model chosen after it, other than on a key, is of that company.
\<close>

theorem waiting_stays_with_company:
  assumes "in_on_limit input = WaitForReset" and "rd_choice (route input) = Some choice"
    and "rd_on_key_for (route input) = None" and "first_taken input (candidates input) = Some i"
    and "find (limited input) (take i (candidates input)) = Some d"
  shows "company input d = Some (rc_company choice)"
proof -
  from route_chooses [OF assms(2)] obtain j t m where "first_taken input (candidates input) = Some j"
    "choice_of input (waits_for input (take j (candidates input))) t m choice
      (rd_on_key_for (route input) \<noteq> None)"
    by metis
  with assms(3,4) have c: "choice_of input (waits_for input (take i (candidates input))) t m choice False"
    by simp
  from assms(1,5) have w: "waits_for input (take i (candidates input)) = company input d"
    by (simp add: waits_for_def)
  have "limited input d"
    using assms(5) by (auto simp: find_Some_iff)
  from limited_company [OF this] c w show ?thesis
    by (auto simp: choice_of_def)
qed

text \<open>
  C27: the effort asked for is the first level set, from the closest layer out (for this model before for every
  model) and then on the model itself, that the model takes, with the layer it comes from; the level passed
  over is the closest one set, when the model does not take it.
\<close>

theorem effort_is_the_closest_taken:
  "effort_for ls model_id model_effort levels =
    (let settings = concat (map (efforts_set model_id) ls);
         own = \<lparr>rs_layer = ModelLayer, rs_name = ''the model'',
                rs_id = (if model_id = '''' then None else Some model_id)\<rparr>;
         found = find (\<lambda>(e, _). e \<in> set levels)
           (settings @ (case model_effort of Some e \<Rightarrow> [(e, own)] | None \<Rightarrow> []))
     in (map_option fst found, map_option snd found,
         case settings of [] \<Rightarrow> None | (e, src) # _ \<Rightarrow> if e \<in> set levels then None else Some (e, src)))"
proof -
  have kept: "effort_loop levels xs (Some p) = (find (\<lambda>(e, _). e \<in> set levels) xs, Some p)" for xs p
    by (induction xs) auto
  have fresh: "effort_loop levels xs None = (find (\<lambda>(e, _). e \<in> set levels) xs,
      case xs of [] \<Rightarrow> None | (e, src) # _ \<Rightarrow> if e \<in> set levels then None else Some (e, src))" for xs
    by (cases xs) (auto simp: kept)
  have "find P (xs @ ys) = (case find P xs of Some x \<Rightarrow> Some x | None \<Rightarrow> find P ys)"
    for P :: "effort \<times> rule_source \<Rightarrow> bool" and xs ys
    by (induction xs) auto
  then show ?thesis
    by (auto simp: effort_for_def fresh Let_def split: option.splits)
qed

section \<open>Examples\<close>

text \<open>AI tools of two companies, each with a subscription and a key, and one model on each.\<close>

definition sample_known :: "string \<Rightarrow> known_model" where
  "sample_known name =
     \<lparr>km_name = name, km_label = name, km_efforts = [Low, Medium, High], km_maker = None, km_points_to = None,
      km_price = Some \<lparr>pr_input = 100, pr_cached_input = None, pr_output = 200, pr_cache_write = None\<rparr>,
      km_same = Some name\<rparr>"

definition sample_tool :: "string \<Rightarrow> string \<Rightarrow> string \<Rightarrow> bool \<Rightarrow> bool \<Rightarrow> tool_state" where
  "sample_tool i co name paid at_limit =
     \<lparr>ts_info =
        \<lparr>ri_id = i, ri_label = i, ri_provider = co, ri_provider_label = co, ri_install = Installed,
         ri_install_detail = None, ri_auth = (if paid then PaidKey else Subscription), ri_auth_detail = None,
         ri_caps = \<lparr>cp_tool_posture = '''', cp_efforts = [Low, Medium, High], cp_known = [sample_known name],
           cp_default_maker = None, cp_runs_other_makers = False\<rparr>,
         ri_ready = True, ri_reported = Some [sample_known name]\<rparr>,
      ts_limit =
        (if at_limit
         then Some \<lparr>ul_model = None, ul_since = 0, ul_resets_at = None, ul_until = 0, ul_detail = ('''', False)\<rparr>
         else None),
      ts_paid = paid\<rparr>"

definition sample_model :: "string \<Rightarrow> string \<Rightarrow> string \<Rightarrow> model_info" where
  "sample_model i tool name =
     \<lparr>mi_id = i, mi_runtime = tool, mi_name = Some name, mi_label = name, mi_features = [], mi_context_tokens = None,
      mi_cost = Standard, mi_effort = None, mi_built_in = False\<rparr>"

definition sample_input :: "string list \<Rightarrow> cross_company \<Rightarrow> string list \<Rightarrow> string list \<Rightarrow> route_input" where
  "sample_input listed cross reviewed at_limit =
     \<lparr>in_role = ''Dev'', in_role_id = ''dev'',
      in_policy = \<lparr>rp_models = listed, rp_needs = [], rp_min_context = None, rp_never = [''gamma''], rp_cost = AnyCost,
        rp_cross = cross, rp_efforts = [], rp_effort = None\<rparr>,
      in_agent = None, in_department = None, in_organization = None,
      in_models = [sample_model ''a'' ''A'' ''m'', sample_model ''b'' ''B'' ''n'', sample_model ''bk'' ''BK'' ''n'',
        sample_model ''a2'' ''A2'' ''m''],
      in_tools =
        [sample_tool ''A'' ''acme'' ''m'' False (''A'' \<in> set at_limit),
         sample_tool ''B'' ''bolt'' ''n'' False (''B'' \<in> set at_limit),
         sample_tool ''BK'' ''bolt'' ''n'' True False,
         sample_tool ''A2'' ''acme'' ''m'' False False],
      in_project = None,
      in_reviewed = map (\<lambda>r. \<lparr>wd_runtime = r, wd_model = None, wd_model_unread = False\<rparr>) reviewed,
      in_on_limit = WaitForReset, in_step_down_at = None, in_plans = [], in_low_priority = False, in_now = 0,
      in_spending_room = Some 1000000\<rparr>"

lemma sample_review: "map_option rc_runtime (rd_choice (route (sample_input [''a'', ''b''] CrossRequire [''A''] []))) = Some ''B''"
  by code_simp

lemma sample_paid:
  "map_option (\<lambda>c. (rc_runtime c, rc_paid c)) (rd_choice (route (sample_input [''bk''] CrossOff [] []))) = Some (''BK'', True)"
  "rd_on_key_for (route (sample_input [''bk''] CrossOff [] [])) = None"
  by code_simp+

lemma sample_waits:
  "map_option rc_company (rd_choice (route (sample_input [''a'', ''b'', ''a2''] CrossOff [] [''A'']))) = Some ''acme''"
  "rd_on_key_for (route (sample_input [''a'', ''b'', ''a2''] CrossOff [] [''A''])) = None"
  "first_taken (sample_input [''a'', ''b'', ''a2''] CrossOff [] [''A''])
     (candidates (sample_input [''a'', ''b'', ''a2''] CrossOff [] [''A''])) = Some 2"
  by code_simp+

text \<open>The choice on a paid AI tool that the owner listed passes the checks.\<close>

theorem chosen_passes_every_check_witness:
  "\<exists>choice. rd_choice (route (sample_input [''bk''] CrossOff [] [])) = Some choice \<and>
    (\<exists>tool \<in> set (in_tools (sample_input [''bk''] CrossOff [] [])).
       ri_id (ts_info tool) = ''BK'' \<and> ts_limit tool = None \<and>
       paid_for (sample_input [''bk''] CrossOff [] []) (ts_info tool) (rc_model choice))"
proof -
  from sample_paid(1) obtain choice where c: "rd_choice (route (sample_input [''bk''] CrossOff [] [])) = Some choice"
    "rc_runtime choice = ''BK''" "rc_paid choice"
    by auto
  from chosen_passes_every_check [OF c(1)] c show ?thesis
    by auto
qed

theorem review_by_another_company_witness:
  "\<exists>choice by made.
    rd_choice (route (sample_input [''a'', ''b''] CrossRequire [''A''] [])) = Some choice \<and>
    work_maker (sample_tool ''A'' ''acme'' ''m'' False False)
      \<lparr>wd_runtime = ''A'', wd_model = None, wd_model_unread = False\<rparr> = Some by \<and>
    rc_maker choice = Some made \<and> mr_id by \<noteq> mr_id made"
proof -
  let ?i = "sample_input [''a'', ''b''] CrossRequire [''A''] []"
  from sample_review obtain choice where c: "rd_choice (route ?i) = Some choice"
    by auto
  have "find_tool (in_tools ?i) ''A'' = Some (sample_tool ''A'' ''acme'' ''m'' False False)"
    by (simp add: find_tool_def sample_input_def sample_tool_def)
  then have "\<exists>by made.
      work_maker (sample_tool ''A'' ''acme'' ''m'' False False)
        \<lparr>wd_runtime = ''A'', wd_model = None, wd_model_unread = False\<rparr> = Some by \<and>
      rc_maker choice = Some made \<and> mr_id by \<noteq> mr_id made"
    by (intro review_by_another_company [OF _ c]) (simp_all add: sample_input_def)
  with c show ?thesis
    by blast
qed

theorem paid_only_where_listed_witness:
  "\<exists>choice l n. rd_choice (route (sample_input [''bk''] CrossOff [] [])) = Some choice \<and> rc_paid choice \<and>
    listing_of (sample_input [''bk''] CrossOff [] []) = Some l \<and> ml_models l ! n = rc_model_id choice"
proof -
  from sample_paid(1) obtain choice where c: "rd_choice (route (sample_input [''bk''] CrossOff [] [])) = Some choice"
    "rc_paid choice"
    by auto
  from paid_only_where_listed [OF c sample_paid(2)] c show ?thesis
    by blast
qed

theorem waiting_stays_with_company_witness:
  "\<exists>choice d. rd_choice (route (sample_input [''a'', ''b'', ''a2''] CrossOff [] [''A''])) = Some choice \<and>
    limited (sample_input [''a'', ''b'', ''a2''] CrossOff [] [''A'']) d \<and>
    company (sample_input [''a'', ''b'', ''a2''] CrossOff [] [''A'']) d = Some (rc_company choice)"
proof -
  let ?i = "sample_input [''a'', ''b'', ''a2''] CrossOff [] [''A'']"
  from sample_waits(1) obtain choice where c: "rd_choice (route ?i) = Some choice"
    by auto
  have "find (limited ?i) (take 2 (candidates ?i)) \<noteq> None"
    by code_simp
  then obtain d where d: "find (limited ?i) (take 2 (candidates ?i)) = Some d"
    by blast
  have "in_on_limit ?i = WaitForReset"
    by (simp add: sample_input_def)
  from waiting_stays_with_company [OF this c sample_waits(2,3) d] c d show ?thesis
    by (auto simp: find_Some_iff)
qed

section \<open>Waiting, and the key of another company\<close>

lemma first_taken_more:
  "first_taken input cs = Some i \<Longrightarrow> first_taken input (cs @ ds) = Some i"
  by (induction ds rule: rev_induct) (simp_all flip: append_assoc add: first_taken_snoc)

text \<open>
  C12: the way around the wait. The owner asks to wait for a usage limit to reset instead of moving to another AI
  company, work already waits for the company \<open>co\<close>, and the next candidate, whose AI tool is of another
  company, passes the owner's rules. While that AI tool is free the candidate cannot take the work. When it is
  at its limit too and its company's key can take the model, the work goes there: to another company after
  all, and paid. (The check that the work waits stands after the check of the limit, and a candidate stopped
  by its limit is moved to its key without it.)
\<close>

theorem waiting_work_moves_to_another_key:
  assumes "in_on_limit input = WaitForReset" and "candidates input = xs @ c # ys"
    and "first_taken input xs = None" and "waits_for input xs = Some co"
    and "candidate_tool input c = Some (t, m)" and "rules_skip input t m = None"
    and "ri_provider (ts_info t) \<noteq> co"
  shows "(ts_limit t = None \<longrightarrow> first_taken input (xs @ [c]) = None) \<and>
    (ts_limit t \<noteq> None \<and> key_takes input t m \<longrightarrow>
      (\<exists>choice. rd_choice (route input) = Some choice \<and> rc_model_id choice = mi_id m \<and>
         rc_company choice = ri_provider (ts_info t) \<and> rc_company choice \<noteq> co \<and> rc_paid choice \<and>
         rd_on_key_for (route input) \<noteq> None))"
proof (intro conjI impI)
  assume "ts_limit t = None"
  with assms(3-7) show "first_taken input (xs @ [c]) = None"
    by (simp add: first_taken_snoc takes_def)
next
  assume limit: "ts_limit t \<noteq> None \<and> key_takes input t m"
  with assms(3,5,6) have "first_taken input (xs @ [c]) = Some (length xs)"
    by (auto simp: first_taken_snoc takes_def)
  then have first: "first_taken input (candidates input) = Some (length xs)"
    using first_taken_more [of input "xs @ [c]" "length xs" ys] assms(2) by simp
  then have "rd_choice (route input) \<noteq> None"
    using loop_takes [of input "candidates input"] by (auto simp: route_def Let_def split: option.splits)
  then obtain choice where choice: "rd_choice (route input) = Some choice"
    by blast
  obtain i t' m' where i: "first_taken input (candidates input) = Some i"
      "candidate_tool input (candidates input ! i) = Some (t', m')"
    and c: "choice_of input (waits_for input (take i (candidates input))) t' m' choice
      (rd_on_key_for (route input) \<noteq> None)"
    using route_chooses [OF choice] by metis
  from i first assms(2,5) have "t' = t" "m' = m"
    by auto
  with c limit have "rd_on_key_for (route input) \<noteq> None"
    by (auto simp: choice_of_def split: if_splits)
  with c limit \<open>t' = t\<close> \<open>m' = m\<close> obtain key n l where "rc_model_id choice = mi_id m"
    "rc_company choice = ri_provider (ts_info key)" "rc_paid choice = ts_paid key"
    "ready_twin input True t m = Some (key, n, l)"
    by (auto simp: choice_of_def)
  with ready_twinD [OF this(4)] choice assms(7) \<open>rd_on_key_for (route input) \<noteq> None\<close>
  show "\<exists>choice. rd_choice (route input) = Some choice \<and> rc_model_id choice = mi_id m \<and>
         rc_company choice = ri_provider (ts_info t) \<and> rc_company choice \<noteq> co \<and> rc_paid choice \<and>
         rd_on_key_for (route input) \<noteq> None"
    by auto
qed

theorem waiting_work_moves_to_another_key_witness:
  "\<exists>choice. rd_choice (route (sample_input [''a'', ''b''] CrossOff [] [''A'', ''B''])) = Some choice \<and>
     waits_for (sample_input [''a'', ''b''] CrossOff [] [''A'', ''B''])
       (take 1 (candidates (sample_input [''a'', ''b''] CrossOff [] [''A'', ''B'']))) = Some ''acme'' \<and>
     rc_company choice = ''bolt'' \<and> rc_paid choice"
proof -
  let ?i = "sample_input [''a'', ''b''] CrossOff [] [''A'', ''B'']"
  let ?c = "candidates ?i ! 1" and ?t = "sample_tool ''B'' ''bolt'' ''n'' False True" and ?m = "sample_model ''b'' ''B'' ''n''"
  have "length (candidates ?i) = 2"
    by code_simp
  then have cs: "candidates ?i = take 1 (candidates ?i) @ ?c # []"
    by (cases "candidates ?i"; cases "tl (candidates ?i)") auto
  have w: "waits_for ?i (take 1 (candidates ?i)) = Some ''acme''"
    by code_simp
  have "first_taken ?i (take 1 (candidates ?i)) = None" "candidate_tool ?i ?c = Some (?t, ?m)"
    "rules_skip ?i ?t ?m = None" "in_on_limit ?i = WaitForReset"
    by code_simp+
  from waiting_work_moves_to_another_key [OF this(4) cs this(1) w this(2,3)]
  have "ts_limit ?t \<noteq> None \<and> key_takes ?i ?t ?m \<longrightarrow>
      (\<exists>choice. rd_choice (route ?i) = Some choice \<and> rc_company choice = ''bolt'' \<and> rc_paid choice)"
    by (auto simp: sample_tool_def)
  moreover have "ts_limit ?t \<noteq> None" "key_takes ?i ?t ?m"
    by code_simp+
  ultimately show ?thesis
    using w by blast
qed

end
