(* ===== verification/Spec2Isabelle.thy ===== *)
theory Spec2Isabelle
  imports Licensing Entitlements Relay Guard_Engine_Props Guard_Config_Inv Pricing Spending_Props Spending_Words Router_Props
begin

text \<open>
  A verification development for Plenipo, a desktop program that hires AI workers, hands them tasks
  and keeps them inside the owner's rules.

  \<^bold>\<open>The program.\<close> The Rust workspace under \<open>crates/\<close> is a set of libraries around one Ledger. The
  owner's license (\<open>licensing\<close>) decides Free or Pro, and with it how many workers may be on the job.
  Every action of a worker is put to Guard (\<open>guard\<close>), which decides on the owner's settings whether
  it is allowed, asked about or denied. A worker whose AI tool costs money sets aside the most a
  request could cost before it is sent (\<open>ledger/src/spending.rs\<close>, with the prices of
  \<open>runtime/src/pricing.rs\<close>), and its bill is recorded when it ends. Which model a worker gets is the
  choice of the router (\<open>router\<close>), from the owner's rules, the usage limits of the AI tools, the pace of
  their plans and the room under the spending caps. On Pro, phones reach the PC
  through a relay run by the maker (\<open>relay\<close>, with the contract both sides share in
  \<open>relay-contract\<close>), which asks for the same signed license answers the PC holds.

  \<^bold>\<open>The theories.\<close> Each models one group of source files; a definition keeps the source's name where
  Isabelle allows it, a struct is a record, an enum a datatype, and an operation on state takes the
  state and returns it with its result. Errors are values (\<open>Inl\<close>). Texts are lists of characters with
  codes below 256.

  \<^item> \<open>Prelude\<close>: fixed-width integers (saturating operations written out), texts, decimal numbers, and
    the locale \<open>event_system\<close>: an invariant kept by every step holds after every run.
  \<^item> \<open>Store\<close>: hash maps as association lists with distinct keys, their contract as the locale
    \<open>keyed_store\<close>, and sums over a table.
  \<^item> \<open>Licensing_Keys\<close>, \<open>Licensing_State\<close>, \<open>Licensing\<close> (\<open>licensing/src/codec.rs\<close>, \<open>trust.rs\<close>, \<open>key.rs\<close>,
    \<open>answer.rs\<close>, \<open>state.rs\<close>, \<open>license.rs\<close>): signed texts, the license key, weekly answers, the record
    kept on the PC, Free or Pro. Pro ends in exactly two cases, and once a subscription is over
    nothing replayed, forged or forgotten brings it back; keys that are minted parse, and keys that
    parse were signed.
  \<^item> \<open>Entitlements\<close> (\<open>entitlements.rs\<close>): the Free limits, admissions of workers starting together, the
    edition a task keeps. Never more than three workers, in any order of starts and ends.
  \<^item> \<open>Relay_Limits\<close>, \<open>Relay_Wire\<close>, \<open>Relay_Hub\<close>, \<open>Relay_Hub_Inv\<close>, \<open>Relay_Sessions\<close>, \<open>Relay\<close>
    (\<open>relay-contract/src\<close>, \<open>relay/src/limits.rs\<close>, \<open>hub.rs\<close>, \<open>line.rs\<close>, \<open>pc.rs\<close>, \<open>phone.rs\<close>): messages and
    passes, the state of the relay behind its lock with every operation on it, and the sessions of
    PCs and phones as runs of these operations. The invariant \<open>hub_inv\<close> holds in every reachable
    state; from it follow the limits, who hears whom, and who is let in; a session touches nothing but
    its own PC or phone, and a dropped phone stays out whatever other phones are dropped after it.
  \<^item> \<open>Guard_Types\<close>, \<open>Guard_Commands\<close>, \<open>Guard_Paths\<close>, \<open>Guard_Scripts\<close>, \<open>Guard_Sensitive\<close>,
    \<open>Guard_Websites\<close>, \<open>Guard_Connections\<close>, \<open>Guard_Server_Kinds\<close>, \<open>Guard_Servers\<close>, \<open>Guard_Engine\<close>
    (\<open>guard/src\<close>, the files of the same names, with \<open>registry.rs\<close>, \<open>dto.rs\<close> and \<open>add_ons.rs\<close>): what a
    request says and how it is judged. \<open>Guard_Scripts_Props\<close> and \<open>Guard_Engine_Props\<close> hold what the
    reader of scripts and the decision promise: the decision is the strictest answer of all layers
    (locale \<open>strictest_first\<close>), and an action that goes ahead unasked has passed every one of them.
  \<^item> \<open>Guard_Config\<close>, \<open>Guard_Config_Inv\<close> (\<open>guard/src/config.rs\<close>, \<open>paid.rs\<close>): the owner's settings, every
    change to them, and that they stay well-formed.
  \<^item> \<open>Pricing\<close> (\<open>runtime/src/pricing.rs\<close>): what a request could cost and what it cost, rounding
    included, and amounts of money read from text.
  \<^item> \<open>Pacific_Time\<close> (\<open>ledger/src/spending.rs\<close>, the part on months): dates, daylight saving time and the
    month a moment is in, proved against the calendar itself.
  \<^item> \<open>Spending\<close>, \<open>Spending_Props\<close>, \<open>Spending_Words\<close> (\<open>ledger/src/spending.rs\<close>): caps, records, money set
    aside, bills, recovery after a restart, records carried into a restored Ledger. The hard stop is
    an invariant of all runs; the locale \<open>record_keeper\<close> is the contract of a table whose records are
    never lost and change at most once, and a restore is correct because of it.
  \<^item> \<open>Router_Pace\<close> (\<open>router/src/pace.rs\<close>, \<open>limits.rs\<close>): the fair share of a plan's window, its pace, and
    which AI tools are at a usage limit. The walk over the hours of a window ends, and its share
    grows from 0 to 100.
  \<^item> \<open>Router\<close>, \<open>Router_Props\<close> (\<open>router/src/engine.rs\<close>, \<open>makers.rs\<close>, \<open>dto.rs\<close>): the layers of rules, the
    candidates in their order, the checks of each, the key of the same company, effort and
    stepping down. \<open>route\<close> is refined from a search for the first candidate that can take the work
    (\<open>first_taken\<close>); the choice has passed every check, pays only where the owner listed it or says so,
    and reviews by another company where that is asked for. There is one way around the owner's wish
    to wait for a limit, proved for every such work (\<open>waiting_work_moves_to_another_key\<close>).

  This theory holds what spans components: a paid model the router chooses with the room the Ledger
  reports can have its first step's money set aside.

  \<^bold>\<open>Bounds and loops.\<close> No definition uses fuel. Loops of the source are structural recursion or
  \<open>function\<close> with a termination proof; the one bound that is the source's own is the eight rounds in
  which \<open>classify\<close> looks behind wrappers (\<open>unwrap_rounds\<close>). Integers saturate, wrap or fail where the
  source's do; sums in the database fail above 64 bits.

  \<^bold>\<open>Parameters.\<close> Code that is not in the repository is an argument: signatures, hashes, base64 and JSON
  (\<open>crypto\<close>, \<open>relay_env\<close>), the parser of web addresses (\<open>url_crate\<close>), the disk and its links
  (\<open>disk\<close>). Fresh identifiers and the clock are arguments too.

  \<^bold>\<open>Not modelled.\<close> Guard's service around the engine (grants, approvals, the Vault and the event bus),
  the router's sentences for the owner, its settings and its service (\<open>router/src/config.rs\<close>,
  \<open>service.rs\<close>), the rest of the Ledger (tasks, workforce and memory tables, which
  are mostly statements of SQL), the supervision of AI tools' processes (\<open>runtime\<close>), the message bus of
  the workers (\<open>liaison\<close>), the organization engine (\<open>workforce\<close>), the tools the workers are given
  (\<open>capabilities\<close>: mostly calls of outside services), the phone's line on the PC (\<open>remote\<close>), the
  community service (\<open>community\<close>), and the desktop application and its pages. What the modelled files
  read from a socket or a screen (HTTP heads, timers, the wording of pages) is left out.
\<close>

section \<open>The router and the spending caps\<close>

lemma paid_choice_priced:
  assumes "rd_choice (route input) = Some choice" and "rc_paid choice"
  shows "\<exists>tool \<in> set (in_tools input). ri_id (ts_info tool) = rc_runtime choice \<and>
    paid_for input (ts_info tool) (rc_model choice)"
proof -
  from route_chooses [OF assms(1)] obtain i t m where i: "candidate_tool input (candidates input ! i) = Some (t, m)"
    and c: "choice_of input (waits_for input (take i (candidates input))) t m choice
      (rd_on_key_for (route input) \<noteq> None)"
    by metis
  from choice_checked [OF c candidate_toolD(3) [OF i]] assms(2) show ?thesis
    by auto
qed

text \<open>
  C7: a paid model the router chooses can start. When the room the router is told is what the Ledger reports
  for the worker's position and department, and the model is named, the AI tool it runs on has reported a price that makes
  sense, and setting money aside for a first step that costs no more than the shortest one at that price
  succeeds: the work does not reach a paid route only to be refused by the caps.
\<close>

theorem routed_paid_task_can_start:
  assumes "rd_choice (route input) = Some choice" and "rc_paid choice" and "rc_model choice = Some name"
    and "in_spending_room input = Some room"
    and "paid_row uuid t now = Inr row" and "row_checks row"
    and "uuid \<notin> set (map row_id (lg_spending l))"
    and "\<And>task. row_task row = Some task \<Longrightarrow> task \<in> set (lg_tasks l)"
    and "pt_most t \<le> max_set_aside_micros"
    and "spending_room (row_department row) (row_position row) now l = Inr (Some room)"
  shows "\<exists>tool \<in> set (in_tools input). \<exists>p.
    ri_id (ts_info tool) = rc_runtime choice \<and> paid_price (ts_info tool) (Some name) = Some (Some p) \<and> is_sane p \<and>
    (pt_most t \<le> smallest_step_cost p \<longrightarrow> (\<exists>l' sa. set_aside_spending uuid t now l = Inr (l', Inr sa)))"
proof -
  from paid_choice_priced [OF assms(1,2)] obtain tool where tool: "tool \<in> set (in_tools input)"
    "ri_id (ts_info tool) = rc_runtime choice" "paid_for input (ts_info tool) (Some name)"
    using assms(3) by auto
  from tool(3) obtain p where p: "paid_price (ts_info tool) (Some name) = Some (Some p)"
    by (auto simp: paid_for_priced paid_price_def bind_eq_Some_conv split: option.splits if_splits)
  then have "is_sane p"
    by (auto simp: paid_price_def bind_eq_Some_conv split: if_splits)
  moreover from p tool(3) assms(4) have "smallest_step_cost p \<le> room"
    by (auto simp: paid_for_priced room_too_small_def)
  then have "pt_most t \<le> smallest_step_cost p \<longrightarrow> (\<exists>l' sa. set_aside_spending uuid t now l = Inr (l', Inr sa))"
    using set_aside_within_room [OF assms(5-10)] by (meson order_trans)
  ultimately show ?thesis
    using tool(1,2) p by blast
qed

theorem routed_paid_task_can_start_witness:
  "\<exists>choice l' sa.
    rd_choice (route ((sample_input [''bk''] CrossOff [] [])\<lparr>in_spending_room := Some 2500000\<rparr>)) = Some choice \<and>
    rc_paid choice \<and>
    set_aside_spending ''rec-2'' (sample_task\<lparr>pt_most := 1\<rparr>) sample_now sample_settled = Inr (l', Inr sa)"
proof -
  let ?i = "(sample_input [''bk''] CrossOff [] [])\<lparr>in_spending_room := Some 2500000\<rparr>"
    and ?t = "sample_task\<lparr>pt_most := 1\<rparr>"
  have "map_option (\<lambda>c. (rc_paid c, rc_model c)) (rd_choice (route ?i)) = Some (True, Some ''n'')"
    by code_simp
  then obtain choice where c: "rd_choice (route ?i) = Some choice" "rc_paid choice" "rc_model choice = Some ''n''"
    by auto
  define row where "row = projr (paid_row ''rec-2'' ?t sample_now)"
  have row: "paid_row ''rec-2'' ?t sample_now = Inr row" "row_checks row"
    "row_department row = None" "row_position row = None" "row_task row = Some ''task-1''"
    unfolding row_def by code_simp+
  have ledger: "spending_room None None sample_now sample_settled = Inr (Some 2500000)"
    "lg_tasks sample_settled = [''task-1'']" "pt_most ?t \<le> max_set_aside_micros"
    by code_simp+
  have fresh: "''rec-2'' \<notin> set (map row_id (lg_spending sample_settled))"
    by code_simp
  have cost: "1 \<le> smallest_step_cost p" if "paid_price (ts_info tool) (Some ''n'') = Some (Some p)"
    "tool \<in> set (in_tools ?i)" for tool p
  proof -
    let ?p = "\<lparr>pr_input = 100, pr_cached_input = None, pr_output = 200, pr_cache_write = None\<rparr>"
    from that have "p = ?p"
      by (auto simp: sample_input_def sample_tool_def paid_price_def sample_known_def split: if_splits)
    moreover have "1 \<le> smallest_step_cost ?p"
      by code_simp
    ultimately show ?thesis
      by simp
  qed
  from routed_paid_task_can_start [OF c _ row(1,2) fresh _ ledger(3), of 2500000] row(3-5) ledger(1,2)
  obtain tool p where "tool \<in> set (in_tools ?i)" "paid_price (ts_info tool) (Some ''n'') = Some (Some p)"
    "1 \<le> smallest_step_cost p \<longrightarrow>
       (\<exists>l' sa. set_aside_spending ''rec-2'' ?t sample_now sample_settled = Inr (l', Inr sa))"
    by auto
  with cost c show ?thesis
    by blast
qed

end
